(* ===== verification/Prelude.thy ===== *)
theory Prelude
  imports Main "HOL-Library.Word" "HOL-Library.Sublist"
begin

text \<open>
  Shared material of the development: the collections of rewrite rules the component
  proofs draw on, Go's \<open>error\<close> values with \<open>errors.Is\<close>, \<open>errors.As\<close> and
  \<open>errors.Join\<close>, the association lists that stand for Go maps whose entries a program
  ranges over, and generic lemmas on lists that several components use.
\<close>

named_theorems go_str \<open>laws of the Go string functions\<close>
named_theorems go_defs \<open>definitions that a component's proofs unfold\<close>

section \<open>Results and errors\<close>

text \<open>
  A Go \<open>error\<close> is a message, a wrapped error (\<open>fmt.Errorf\<close> with \<open>%w\<close>), a join of
  errors, or one of the values the code compares identities of: the two context errors, the
  sentinel variables of the packages (named by their text), the broker's \<open>safeToolError\<close>,
  and the SDK's \<open>*openlinker.Error\<close> with its code, HTTP status and message.
\<close>

datatype go_error =
    ErrNew string
  | ErrWrap string go_error string
  | ErrJoin "go_error list"
  | ErrCanceled
  | ErrDeadlineExceeded
  | ErrSentinel string
  | ErrSafeTool string
  | ErrRuntime string int string

type_synonym 'a result = "go_error + 'a"

text \<open>\<open>errors.Is(err, target)\<close>: the tree of wrapped and joined errors holds the target.\<close>

fun errors_is :: "go_error \<Rightarrow> go_error \<Rightarrow> bool" where
  "errors_is (ErrWrap p e s) t = (ErrWrap p e s = t \<or> errors_is e t)"
| "errors_is (ErrJoin es) t = (ErrJoin es = t \<or> (\<exists>e \<in> set es. errors_is e t))"
| "errors_is e t = (e = t)"

text \<open>\<open>errors.As(err, &e)\<close> for \<open>*openlinker.Error\<close>: the first one in a depth-first walk.\<close>

fun errors_as_runtime :: "go_error \<Rightarrow> (string \<times> int \<times> string) option"
and errors_as_runtime_list :: "go_error list \<Rightarrow> (string \<times> int \<times> string) option" where
  "errors_as_runtime (ErrRuntime c st m) = Some (c, st, m)"
| "errors_as_runtime (ErrWrap p e s) = errors_as_runtime e"
| "errors_as_runtime (ErrJoin es) = errors_as_runtime_list es"
| "errors_as_runtime (ErrNew m) = None"
| "errors_as_runtime ErrCanceled = None"
| "errors_as_runtime ErrDeadlineExceeded = None"
| "errors_as_runtime (ErrSentinel m) = None"
| "errors_as_runtime (ErrSafeTool m) = None"
| "errors_as_runtime_list [] = None"
| "errors_as_runtime_list (e # es) =
     (case errors_as_runtime e of Some r \<Rightarrow> Some r | None \<Rightarrow> errors_as_runtime_list es)"

text \<open>\<open>err.Error()\<close>. The text of an SDK error is the SDK's; the code only forwards it.\<close>

fun err_text :: "go_error \<Rightarrow> string"
and err_texts :: "go_error list \<Rightarrow> string" where
  "err_text (ErrNew m) = m"
| "err_text (ErrWrap p e s) = p @ err_text e @ s"
| "err_text (ErrJoin es) = err_texts es"
| "err_text ErrCanceled = ''context canceled''"
| "err_text ErrDeadlineExceeded = ''context deadline exceeded''"
| "err_text (ErrSentinel m) = m"
| "err_text (ErrSafeTool m) = m"
| "err_text (ErrRuntime c st m) = m"
| "err_texts [] = []"
| "err_texts [e] = err_text e"
| "err_texts (e # es) = err_text e @ CHR 0x0A # err_texts es"

text \<open>\<open>errors.Join\<close> on two possibly-nil errors.\<close>

definition errors_join :: "go_error option \<Rightarrow> go_error option \<Rightarrow> go_error option" where
  "errors_join a b =
     (case (a, b) of
        (None, None) \<Rightarrow> None
      | (Some x, None) \<Rightarrow> Some (ErrJoin [x])
      | (None, Some y) \<Rightarrow> Some (ErrJoin [y])
      | (Some x, Some y) \<Rightarrow> Some (ErrJoin [x, y]))"

lemma errors_join_None_iff [simp]: "errors_join a b = None \<longleftrightarrow> a = None \<and> b = None"
  by (auto simp: errors_join_def split: option.splits)

lemma errors_is_join:
  "errors_join a b = Some e \<Longrightarrow> t \<noteq> e \<Longrightarrow>
   errors_is e t \<longleftrightarrow> (\<exists>x. (a = Some x \<or> b = Some x) \<and> errors_is x t)"
  by (auto simp: errors_join_def split: option.splits)

lemma errors_is_refl [simp]: "errors_is e e"
  by (cases e) auto

section \<open>Association lists for Go maps\<close>

text \<open>
  A Go map that the code ranges over is an association list with distinct keys. Assigning to
  an existing key keeps its place, a new key goes to the end, \<open>delete\<close> removes it. Go visits
  the keys in an unspecified order, so facts about such a loop are stated for every order.
\<close>

fun assoc_set :: "'k \<Rightarrow> 'v \<Rightarrow> ('k \<times> 'v) list \<Rightarrow> ('k \<times> 'v) list" where
  "assoc_set k v [] = [(k, v)]"
| "assoc_set k v ((k', v') # xs) =
     (if k' = k then (k, v) # xs else (k', v') # assoc_set k v xs)"

definition assoc_del :: "'k \<Rightarrow> ('k \<times> 'v) list \<Rightarrow> ('k \<times> 'v) list" where
  "assoc_del k xs = filter (\<lambda>(k', _). k' \<noteq> k) xs"

lemma map_of_assoc_set [simp]: "map_of (assoc_set k v xs) = (map_of xs)(k \<mapsto> v)"
  by (induction k v xs rule: assoc_set.induct) auto

lemma map_of_assoc_del [simp]: "map_of (assoc_del k xs) = (map_of xs)(k := None)"
  by (induction xs) (auto simp: assoc_del_def)

lemma keys_assoc_set:
  "fst ` set (assoc_set k v xs) = insert k (fst ` set xs)"
  by (induction k v xs rule: assoc_set.induct) auto

lemma distinct_assoc_set [simp]:
  "distinct (map fst xs) \<Longrightarrow> distinct (map fst (assoc_set k v xs))"
  by (induction k v xs rule: assoc_set.induct) (auto simp: keys_assoc_set)

lemma distinct_assoc_del [simp]:
  "distinct (map fst xs) \<Longrightarrow> distinct (map fst (assoc_del k xs))"
  by (induction xs) (auto simp: assoc_del_def)

lemma set_assoc_set:
  "distinct (map fst xs) \<Longrightarrow>
   set (assoc_set k v xs) = insert (k, v) {p \<in> set xs. fst p \<noteq> k}"
proof (induction k v xs rule: assoc_set.induct)
  case (1 k v)
  then show ?case by simp
next
  case (2 k v k' v' xs)
  show ?case
  proof (cases "k' = k")
    case True
    with "2.prems" have "\<And>p. p \<in> set xs \<Longrightarrow> fst p \<noteq> k" by force
    with True show ?thesis by auto
  next
    case False
    with 2 show ?thesis by auto
  qed
qed

lemma set_assoc_del: "set (assoc_del k xs) = {p \<in> set xs. fst p \<noteq> k}"
  by (auto simp: assoc_del_def)

lemma length_assoc_set:
  "length (assoc_set k v xs) = (if k \<in> fst ` set xs then length xs else Suc (length xs))"
  by (induction k v xs rule: assoc_set.induct) auto

lemma length_assoc_set_le: "length (assoc_set k v xs) \<le> Suc (length xs)"
  by (simp add: length_assoc_set)

lemma length_assoc_del_le: "length (assoc_del k xs) \<le> length xs"
  by (simp add: assoc_del_def)

lemma assoc_set_fresh: "k \<notin> fst ` set xs \<Longrightarrow> assoc_set k v xs = xs @ [(k, v)]"
  by (induction k v xs rule: assoc_set.induct) auto

lemma map_of_None_iff_keys: "map_of xs k = None \<longleftrightarrow> k \<notin> fst ` set xs"
  by (simp add: map_of_eq_None_iff)

lemma nat_int_add_diff: "nat (int a + int b - int c) = a + b - c"
  by arith

section \<open>Suffixes of a byte stream\<close>

text \<open>\<open>lastn n xs\<close> is the last \<open>n\<close> elements of \<open>xs\<close>, all of them when there are fewer.\<close>

definition lastn :: "nat \<Rightarrow> 'a list \<Rightarrow> 'a list" where
  "lastn n xs = drop (length xs - n) xs"

lemma length_lastn [simp]: "length (lastn n xs) = min n (length xs)"
  by (simp add: lastn_def)

lemma lastn_short [simp]: "length xs \<le> n \<Longrightarrow> lastn n xs = xs"
  by (simp add: lastn_def)

lemma lastn_append_long: "n \<le> length ys \<Longrightarrow> lastn n (xs @ ys) = lastn n ys"
  by (simp add: lastn_def)

lemma lastn_append: "lastn n (xs @ ys) = lastn (n - length ys) xs @ lastn n ys"
  by (cases "n \<le> length ys") (auto simp: lastn_def)

lemma lastn_append_lastn: "lastn n (lastn n xs @ ys) = lastn n (xs @ ys)"
proof (cases "n \<le> length ys")
  case True
  then show ?thesis by (simp add: lastn_append_long)
next
  case False
  have "lastn (n - length ys) (lastn n xs) = lastn (n - length ys) xs"
    unfolding lastn_def drop_drop by (rule arg_cong [where f = "\<lambda>k. drop k xs"]) (use False in auto)
  then show ?thesis by (simp add: lastn_append)
qed

lemma set_lastn: "set (lastn n xs) \<subseteq> set xs"
  by (auto simp: lastn_def dest: in_set_dropD)

lemma lastn_suffix: "\<exists>us. xs = us @ lastn n xs"
  by (rule exI [of _ "take (length xs - n) xs"]) (simp add: lastn_def)

end
