(* ===== verification/Go_Strings.thy ===== *)
theory Go_Strings
  imports Prelude
begin

text \<open>
  The parts of Go's \<open>strings\<close>, \<open>strconv\<close> and \<open>unicode/utf8\<close> packages the program
  uses. A Go string is a byte sequence, here a \<open>char list\<close>. Functions that decode runes
  are written on the UTF-8 bytes: \<open>TrimSpace\<close> removes the encodings of Unicode's white
  space, \<open>ToLower\<close> and \<open>EqualFold\<close> know the two non-ASCII letters whose lower case is an
  ASCII letter and the two that fold to one (every other non-ASCII letter is left alone, which
  no comparison with an ASCII constant can tell).
\<close>

abbreviation byte :: "char \<Rightarrow> nat" where
  "byte c \<equiv> of_char c"

section \<open>Prefixes, suffixes and substrings\<close>

fun has_prefix :: "string \<Rightarrow> string \<Rightarrow> bool" where
  "has_prefix s [] = True"
| "has_prefix [] (p # ps) = False"
| "has_prefix (c # s) (p # ps) = (c = p \<and> has_prefix s ps)"

lemma has_prefix_iff: "has_prefix s p \<longleftrightarrow> (\<exists>t. s = p @ t)"
  by (induction s p rule: has_prefix.induct) auto

lemma has_prefix_prefix: "has_prefix s p \<longleftrightarrow> prefix p s"
  by (auto simp: has_prefix_iff prefix_def)

lemma has_prefix_append [simp]: "has_prefix (p @ t) p"
  by (simp add: has_prefix_iff)

lemma has_prefix_drop: "has_prefix s p \<Longrightarrow> s = p @ drop (length p) s"
  by (auto simp: has_prefix_iff)

lemma has_prefix_append_left: "has_prefix s p \<Longrightarrow> has_prefix (s @ t) p"
  by (auto simp: has_prefix_iff)

definition has_suffix :: "string \<Rightarrow> string \<Rightarrow> bool" where
  "has_suffix s p = has_prefix (rev s) (rev p)"

lemma has_suffix_iff: "has_suffix s p \<longleftrightarrow> (\<exists>t. s = t @ p)"
proof -
  have "has_suffix s p \<longleftrightarrow> (\<exists>t. rev s = rev p @ t)"
    by (simp add: has_suffix_def has_prefix_iff)
  also have "\<dots> \<longleftrightarrow> (\<exists>t. s = t @ p)"
    by (metis rev_append rev_rev_ident)
  finally show ?thesis .
qed

fun str_contains :: "string \<Rightarrow> string \<Rightarrow> bool" where
  "str_contains [] t = (t = [])"
| "str_contains (c # s) t = (has_prefix (c # s) t \<or> str_contains s t)"

lemma str_contains_iff: "str_contains s t \<longleftrightarrow> (\<exists>u v. s = u @ t @ v)"
proof (induction s)
  case Nil
  then show ?case by simp
next
  case (Cons c s)
  have "str_contains (c # s) t \<longleftrightarrow> has_prefix (c # s) t \<or> (\<exists>u v. s = u @ t @ v)"
    using Cons by simp
  also have "\<dots> \<longleftrightarrow> (\<exists>u v. c # s = u @ t @ v)"
    by (auto simp: has_prefix_iff) (metis append_Cons append_Nil neq_Nil_conv list.inject)+
  finally show ?case .
qed

text \<open>\<open>strings.ContainsAny\<close> with an ASCII set, \<open>strings.ContainsRune\<close> with an ASCII rune.\<close>

definition contains_any :: "string \<Rightarrow> string \<Rightarrow> bool" where
  "contains_any s cs = list_ex (\<lambda>c. c \<in> set cs) s"

lemma contains_any_iff: "contains_any s cs \<longleftrightarrow> (\<exists>c \<in> set s. c \<in> set cs)"
  by (simp add: contains_any_def list_ex_iff)

definition trim_prefix :: "string \<Rightarrow> string \<Rightarrow> string" where
  "trim_prefix s p = (if has_prefix s p then drop (length p) s else s)"

definition trim_suffix :: "string \<Rightarrow> string \<Rightarrow> string" where
  "trim_suffix s p = (if has_suffix s p then take (length s - length p) s else s)"

definition cut_prefix :: "string \<Rightarrow> string \<Rightarrow> string option" where
  "cut_prefix s p = (if has_prefix s p then Some (drop (length p) s) else None)"

lemma cut_prefix_Some_iff: "cut_prefix s p = Some t \<longleftrightarrow> s = p @ t"
  by (auto simp: cut_prefix_def has_prefix_iff)

lemma trim_suffix_append [simp]: "trim_suffix (s @ p) p = s"
  by (auto simp: trim_suffix_def has_suffix_iff)

section \<open>Cut, split and join\<close>

text \<open>\<open>strings.Cut(s, sep)\<close> for a one-byte separator: before, after, found.\<close>

fun str_cut :: "char \<Rightarrow> string \<Rightarrow> string \<times> string \<times> bool" where
  "str_cut c [] = ([], [], False)"
| "str_cut c (x # s) =
     (if x = c then ([], s, True)
      else (case str_cut c s of (a, b, f) \<Rightarrow> (x # a, b, f)))"

lemma str_cut_found: "str_cut c s = (a, b, True) \<longleftrightarrow> s = a @ c # b \<and> c \<notin> set a"
proof (induction s arbitrary: a)
  case Nil
  then show ?case by simp
next
  case (Cons x s)
  obtain a' b' f where r: "str_cut c s = (a', b', f)" by (cases "str_cut c s")
  show ?case
  proof (cases a)
    case Nil
    with r show ?thesis by auto
  next
    case (Cons y ys)
    with r Cons.IH [of ys] show ?thesis by auto
  qed
qed

lemma str_cut_not_found: "str_cut c s = (a, b, False) \<longleftrightarrow> a = s \<and> b = [] \<and> c \<notin> set s"
proof (induction s arbitrary: a)
  case Nil
  then show ?case by auto
next
  case (Cons x s)
  obtain a' b' f where r: "str_cut c s = (a', b', f)" by (cases "str_cut c s")
  show ?case
  proof (cases a)
    case Nil
    with r show ?thesis by auto
  next
    case (Cons y ys)
    with r Cons.IH [of ys] show ?thesis by auto
  qed
qed

lemma str_cut_append [simp]: "c \<notin> set a \<Longrightarrow> str_cut c (a @ c # b) = (a, b, True)"
  by (simp add: str_cut_found)

lemma str_cut_cases:
  obtains (found) a b where "str_cut c s = (a, b, True)" "s = a @ c # b" "c \<notin> set a"
  | (missing) "str_cut c s = (s, [], False)" "c \<notin> set s"
proof -
  obtain a b f where r: "str_cut c s = (a, b, f)" by (cases "str_cut c s")
  show thesis
  proof (cases f)
    case True
    with r str_cut_found [of c s a b] show ?thesis by (auto intro: found)
  next
    case False
    with r str_cut_not_found [of c s a b] show ?thesis by (auto intro: missing)
  qed
qed

fun str_split :: "char \<Rightarrow> string \<Rightarrow> string list" where
  "str_split c [] = [ [] ]"
| "str_split c (x # s) =
     (if x = c then [] # str_split c s
      else (case str_split c s of [] \<Rightarrow> [ [x] ] | y # ys \<Rightarrow> (x # y) # ys))"

fun str_join :: "string \<Rightarrow> string list \<Rightarrow> string" where
  "str_join sep [] = []"
| "str_join sep [x] = x"
| "str_join sep (x # y # ys) = x @ sep @ str_join sep (y # ys)"

lemma str_split_not_Nil [simp]: "str_split c s \<noteq> []"
  by (cases s) (auto split: list.splits)

lemma str_split_no_sep: "x \<in> set (str_split c s) \<Longrightarrow> c \<notin> set x"
  by (induction c s arbitrary: x rule: str_split.induct) (auto split: list.splits if_splits)

lemma str_join_Cons: "ys \<noteq> [] \<Longrightarrow> str_join sep (x # ys) = x @ sep @ str_join sep ys"
  by (cases ys) auto

lemma str_join_split [simp]: "str_join [c] (str_split c s) = s"
proof (induction c s rule: str_split.induct)
  case (1 c)
  then show ?case by simp
next
  case (2 c x s)
  obtain y ys where y: "str_split c s = y # ys" by (cases "str_split c s") auto
  with 2 show ?case
    by (cases "x = c"; cases ys) (auto simp: str_join_Cons)
qed

lemma str_split_append_sep:
  "c \<notin> set a \<Longrightarrow> str_split c (a @ c # s) = a # str_split c s"
  by (induction a) auto

lemma str_split_none: "c \<notin> set s \<Longrightarrow> str_split c s = [s]"
  by (induction s) auto

lemma str_split_join:
  "xs \<noteq> [] \<Longrightarrow> (\<And>x. x \<in> set xs \<Longrightarrow> c \<notin> set x) \<Longrightarrow> str_split c (str_join [c] xs) = xs"
  by (induction "[c]" xs rule: str_join.induct) (auto simp: str_split_none str_split_append_sep)

text \<open>
  The tokens of a \<open>bufio.Scanner\<close> over a byte stream: lines without their terminator and one
  trailing carriage return; a line that does not fit into the buffer stops the scanner.
\<close>

definition drop_cr :: "string \<Rightarrow> string" where
  "drop_cr l = (if l \<noteq> [] \<and> List.last l = CHR 0x0D then butlast l else l)"

definition stream_lines :: "string \<Rightarrow> string list" where
  "stream_lines s = (let ls = str_split (CHR 0x0A) s in if List.last ls = [] then butlast ls else ls)"

definition scan_lines :: "nat \<Rightarrow> string \<Rightarrow> string list" where
  "scan_lines max_bytes s = map drop_cr (takeWhile (\<lambda>l. length l < max_bytes) (stream_lines s))"

lemma scan_lines_bound: "l \<in> set (scan_lines m s) \<Longrightarrow> length l < m"
  by (auto simp: scan_lines_def drop_cr_def dest!: set_takeWhileD)

section \<open>White space, case\<close>

definition ascii_space :: "char \<Rightarrow> bool" where
  "ascii_space c = (byte c \<in> {9, 10, 11, 12, 13, 32})"

text \<open>The UTF-8 encodings of the non-ASCII runes of \<open>unicode.IsSpace\<close>.\<close>

definition wide_spaces :: "string list" where
  "wide_spaces =
     [ [CHR 0xC2, CHR 0x85], [CHR 0xC2, CHR 0xA0], [CHR 0xE1, CHR 0x9A, CHR 0x80],
       [CHR 0xE2, CHR 0x80, CHR 0x80], [CHR 0xE2, CHR 0x80, CHR 0x81],
       [CHR 0xE2, CHR 0x80, CHR 0x82], [CHR 0xE2, CHR 0x80, CHR 0x83],
       [CHR 0xE2, CHR 0x80, CHR 0x84], [CHR 0xE2, CHR 0x80, CHR 0x85],
       [CHR 0xE2, CHR 0x80, CHR 0x86], [CHR 0xE2, CHR 0x80, CHR 0x87],
       [CHR 0xE2, CHR 0x80, CHR 0x88], [CHR 0xE2, CHR 0x80, CHR 0x89],
       [CHR 0xE2, CHR 0x80, CHR 0x8A], [CHR 0xE2, CHR 0x80, CHR 0xA8],
       [CHR 0xE2, CHR 0x80, CHR 0xA9], [CHR 0xE2, CHR 0x80, CHR 0xAF],
       [CHR 0xE2, CHR 0x81, CHR 0x9F], [CHR 0xE3, CHR 0x80, CHR 0x80] ]"

definition space_len :: "string list \<Rightarrow> string \<Rightarrow> nat" where
  "space_len seqs s =
     (case s of [] \<Rightarrow> 0
      | c # _ \<Rightarrow> if ascii_space c then 1
                 else (case find (has_prefix s) seqs of None \<Rightarrow> 0 | Some q \<Rightarrow> length q))"

lemma space_len_le: "space_len seqs s \<le> length s"
proof -
  have "length q \<le> length s" if "find (has_prefix s) seqs = Some q" for q
    using that by (auto simp: find_Some_iff has_prefix_iff)
  then show ?thesis
    by (auto simp: space_len_def split: list.splits option.splits)
qed

lemma space_len_drop: "0 < space_len seqs s \<Longrightarrow> length s - space_len seqs s < length s"
  by (cases s) (auto simp: space_len_def)

function trim_with :: "string list \<Rightarrow> string \<Rightarrow> string" where
  "trim_with seqs s =
     (if space_len seqs s = 0 then s else trim_with seqs (drop (space_len seqs s) s))"
  by pat_completeness auto
termination
  by (relation "measure (\<lambda>(_, s). length s)")
     (auto intro: space_len_drop)

declare trim_with.simps [simp del]

definition trim_left :: "string \<Rightarrow> string" where
  "trim_left = trim_with wide_spaces"

definition trim_right :: "string \<Rightarrow> string" where
  "trim_right s = rev (trim_with (map rev wide_spaces) (rev s))"

definition trim_space :: "string \<Rightarrow> string" where
  "trim_space s = trim_right (trim_left s)"

lemma trim_with_suffix: "\<exists>t. s = t @ trim_with seqs s"
proof (induction seqs s rule: trim_with.induct)
  case (1 seqs s)
  show ?case
  proof (cases "space_len seqs s = 0")
    case True
    then show ?thesis by (simp add: trim_with.simps)
  next
    case False
    with 1 obtain t where "drop (space_len seqs s) s = t @ trim_with seqs (drop (space_len seqs s) s)"
      by blast
    with False show ?thesis
      by (metis append_assoc append_take_drop_id trim_with.simps)
  qed
qed

lemma trim_with_Nil [simp]: "trim_with seqs [] = []"
  by (simp add: trim_with.simps space_len_def)

lemma trim_space_Nil [simp]: "trim_space [] = []"
  by (simp add: trim_space_def trim_left_def trim_right_def)

lemma trim_space_infix: "\<exists>a b. s = a @ trim_space s @ b"
proof -
  obtain a where a: "s = a @ trim_left s"
    using trim_with_suffix [of s wide_spaces] by (auto simp: trim_left_def)
  obtain t where "rev (trim_left s) = t @ trim_with (map rev wide_spaces) (rev (trim_left s))"
    using trim_with_suffix by blast
  then have "trim_left s = trim_right (trim_left s) @ rev t"
    by (metis rev_append rev_rev_ident trim_right_def)
  with a show ?thesis by (metis trim_space_def)
qed

lemma set_trim_space: "set (trim_space s) \<subseteq> set s"
  using trim_space_infix [of s] by (metis Un_iff set_append subsetI)

lemma length_trim_space: "length (trim_space s) \<le> length s"
  using trim_space_infix [of s] by (metis le_add1 le_add2 le_trans length_append)

lemma trim_with_stops: "space_len seqs (trim_with seqs s) = 0"
proof (induction seqs s rule: trim_with.induct)
  case (1 seqs s)
  then show ?case by (cases "space_len seqs s = 0") (simp_all add: trim_with.simps [of seqs s])
qed

lemma trim_with_fix: "space_len seqs s = 0 \<Longrightarrow> trim_with seqs s = s"
  by (simp add: trim_with.simps)

lemma space_len_prefix: "space_len seqs (a @ b) = 0 \<Longrightarrow> [] \<notin> set seqs \<Longrightarrow> space_len seqs a = 0"
proof (cases a)
  case (Cons c t)
  assume z: "space_len seqs (a @ b) = 0" and ne: "[] \<notin> set seqs"
  have asc: "\<not> ascii_space c" using z Cons by (auto simp: space_len_def split: if_splits)
  have "find (has_prefix (a @ b)) seqs = None"
  proof (rule ccontr)
    assume "find (has_prefix (a @ b)) seqs \<noteq> None"
    then obtain q where q: "find (has_prefix (a @ b)) seqs = Some q" by blast
    then have "q \<noteq> []" using ne by (metis find_Some_iff nth_mem)
    then show False using z q asc Cons by (simp add: space_len_def)
  qed
  then have "find (has_prefix a) seqs = None"
    by (force simp: find_None_iff has_prefix_iff)
  then show ?thesis using asc Cons by (simp add: space_len_def)
qed (simp add: space_len_def)

lemma trim_space_idem [simp]: "trim_space (trim_space s) = trim_space s"
proof -
  have ne: "[] \<notin> set wide_spaces" by (simp add: wide_spaces_def)
  let ?u = "trim_left s"
  let ?v = "trim_right ?u"
  obtain t where "rev ?u = t @ trim_with (map rev wide_spaces) (rev ?u)" using trim_with_suffix by blast
  then have u: "?u = ?v @ rev t" by (metis rev_append rev_rev_ident trim_right_def)
  have "space_len wide_spaces (?v @ rev t) = 0"
    using trim_with_stops [of wide_spaces s] u by (simp add: trim_left_def)
  then have l: "trim_left ?v = ?v" using space_len_prefix ne by (simp add: trim_left_def trim_with_fix)
  have r: "trim_right ?v = ?v"
    using trim_with_stops [of "map rev wide_spaces" "rev ?u"] by (simp add: trim_right_def trim_with_fix)
  show ?thesis by (simp only: trim_space_def l r)
qed

lemma wide_spaces_bytes:
  "q \<in> set wide_spaces \<Longrightarrow> q \<noteq> [] \<and> list_all (\<lambda>c. 128 \<le> byte c) q"
proof -
  have "list_all (\<lambda>q. q \<noteq> [] \<and> list_all (\<lambda>c. 128 \<le> byte c) q) wide_spaces"
    by (simp add: wide_spaces_def)
  then show "q \<in> set wide_spaces \<Longrightarrow> q \<noteq> [] \<and> list_all (\<lambda>c. 128 \<le> byte c) q"
    by (auto simp: list_all_iff)
qed

lemma space_len_plain:
  assumes "s \<noteq> []" "byte (hd s) < 128" "\<not> ascii_space (hd s)"
    and "\<And>q. q \<in> set qs \<Longrightarrow> q \<noteq> [] \<and> 128 \<le> byte (hd q)"
  shows "space_len qs s = 0"
proof -
  have "\<not> has_prefix s q" if "q \<in> set qs" for q
  proof
    assume "has_prefix s q"
    then obtain t where "s = q @ t" by (auto simp: has_prefix_iff)
    with assms(4) [OF that] have "hd s = hd q" by simp
    with assms(2) assms(4) [OF that] show False by simp
  qed
  then have "find (has_prefix s) qs = None" by (simp add: find_None_iff)
  with assms(1,3) show ?thesis by (cases s) (auto simp: space_len_def)
qed

lemma trim_space_plain:
  assumes "s \<noteq> []" "byte (hd s) < 128" "byte (last s) < 128"
    and "\<not> ascii_space (hd s)" "\<not> ascii_space (last s)"
  shows "trim_space s = s"
proof -
  have l: "space_len wide_spaces s = 0"
    using assms by (intro space_len_plain) (auto dest: wide_spaces_bytes simp: list_all_iff)
  have "rev q \<noteq> [] \<and> 128 \<le> byte (hd (rev q))" if "q \<in> set wide_spaces" for q
    using wide_spaces_bytes [OF that] by (auto simp: hd_rev list_all_iff)
  with assms have r: "space_len (map rev wide_spaces) (rev s) = 0"
    by (intro space_len_plain) (auto simp: hd_rev)
  show ?thesis
    by (simp add: trim_space_def trim_left_def trim_right_def trim_with.simps l r)
qed

definition lower_char :: "char \<Rightarrow> char" where
  "lower_char c = (if 65 \<le> byte c \<and> byte c \<le> 90 then char_of (byte c + 32) else c)"

definition upper_char :: "char \<Rightarrow> char" where
  "upper_char c = (if 97 \<le> byte c \<and> byte c \<le> 122 then char_of (byte c - 32) else c)"

text \<open>U+0130 (bytes C4 B0) and U+212A (bytes E2 84 AA) have the lower cases \<open>i\<close> and \<open>k\<close>.\<close>

fun to_lower :: "string \<Rightarrow> string" where
  "to_lower [] = []"
| "to_lower (c # s) =
     (if has_prefix (c # s) [CHR 0xC4, CHR 0xB0] then CHR ''i'' # to_lower (drop 1 s)
      else if has_prefix (c # s) [CHR 0xE2, CHR 0x84, CHR 0xAA] then CHR ''k'' # to_lower (drop 2 s)
      else lower_char c # to_lower s)"

text \<open>\<open>strings.ToUpper\<close>, used on the two ASCII provider names only.\<close>

definition to_upper :: "string \<Rightarrow> string" where
  "to_upper s = map upper_char s"

text \<open>\<open>strings.EqualFold\<close> against an ASCII constant: U+017F (C5 BF) folds to \<open>s\<close>, U+212A to \<open>k\<close>.\<close>

fun fold_ascii :: "string \<Rightarrow> string" where
  "fold_ascii [] = []"
| "fold_ascii (c # s) =
     (if has_prefix (c # s) [CHR 0xC5, CHR 0xBF] then CHR ''s'' # fold_ascii (drop 1 s)
      else if has_prefix (c # s) [CHR 0xE2, CHR 0x84, CHR 0xAA] then CHR ''k'' # fold_ascii (drop 2 s)
      else lower_char c # fold_ascii s)"

definition equal_fold :: "string \<Rightarrow> string \<Rightarrow> bool" where
  "equal_fold s t = (fold_ascii s = fold_ascii t)"

section \<open>Character classes and the fixed regular expressions\<close>

definition is_digit :: "char \<Rightarrow> bool" where
  "is_digit c = (48 \<le> byte c \<and> byte c \<le> 57)"

definition is_lower :: "char \<Rightarrow> bool" where
  "is_lower c = (97 \<le> byte c \<and> byte c \<le> 122)"

definition is_alpha :: "char \<Rightarrow> bool" where
  "is_alpha c = (is_lower c \<or> (65 \<le> byte c \<and> byte c \<le> 90))"

definition is_lower_hex :: "char \<Rightarrow> bool" where
  "is_lower_hex c = (is_digit c \<or> (97 \<le> byte c \<and> byte c \<le> 102))"

text \<open>\<open>^[0-9a-f]{n}$\<close>; Go's \<open>$\<close> without the \<open>m\<close> flag is the end of the text.\<close>

definition hex_run :: "nat \<Rightarrow> string \<Rightarrow> bool" where
  "hex_run n s = (length s = n \<and> list_all is_lower_hex s)"

definition uuid_match :: "string \<Rightarrow> bool" where
  "uuid_match s =
     (case str_split CHR ''-'' s of
        [a, b, c, d, e] \<Rightarrow> hex_run 8 a \<and> hex_run 4 b \<and> hex_run 4 c \<and> hex_run 4 d \<and> hex_run 12 e
      | _ \<Rightarrow> False)"

lemma hex_run_length: "hex_run n s \<Longrightarrow> length s = n"
  by (simp add: hex_run_def)

lemma uuid_match_Nil [simp]: "\<not> uuid_match []"
  by (simp add: uuid_match_def)

lemma uuid_match_length: "uuid_match s \<Longrightarrow> length s = 36"
proof -
  assume m: "uuid_match s"
  then obtain a b c d e where sp: "str_split CHR ''-'' s = [a, b, c, d, e]"
    by (auto simp: uuid_match_def split: list.splits)
  have "s = str_join ''-'' [a, b, c, d, e]"
    using str_join_split [of "CHR ''-''" s] sp by simp
  with m sp show ?thesis
    by (auto simp: uuid_match_def hex_run_def)
qed

section \<open>Numbers\<close>

definition digit_char :: "nat \<Rightarrow> char" where
  "digit_char d = char_of (48 + d)"

fun itoa_nat :: "nat \<Rightarrow> string" where
  "itoa_nat n = (if n < 10 then [digit_char n] else itoa_nat (n div 10) @ [digit_char (n mod 10)])"

declare itoa_nat.simps [simp del]

definition itoa :: "int \<Rightarrow> string" where
  "itoa i = (if i < 0 then CHR ''-'' # itoa_nat (nat (- i)) else itoa_nat (nat i))"

fun digits_value :: "nat \<Rightarrow> string \<Rightarrow> nat option" where
  "digits_value acc [] = Some acc"
| "digits_value acc (c # s) =
     (if is_digit c then digits_value (10 * acc + (byte c - 48)) s else None)"

text \<open>\<open>strconv.Atoi\<close> on a 64-bit \<open>int\<close>: an optional sign, digits, in range.\<close>

definition atoi :: "string \<Rightarrow> int option" where
  "atoi s =
     (let (neg, ds) = (case s of [] \<Rightarrow> (False, s)
                       | c # t \<Rightarrow> if c = CHR ''-'' then (True, t)
                                  else if c = CHR ''+'' then (False, t) else (False, s))
      in if ds = [] then None
         else (case digits_value 0 ds of
                 None \<Rightarrow> None
               | Some n \<Rightarrow>
                   let v = (if neg then - int n else int n)
                   in if - (2 ^ 63) \<le> v \<and> v < 2 ^ 63 then Some v else None))"

lemma atoi_range: "atoi s = Some v \<Longrightarrow> - (2 ^ 63) \<le> v \<and> v < 2 ^ 63"
  by (auto simp: atoi_def Let_def split: list.splits if_splits option.splits)

lemma is_digit_digit_char [simp]: "d < 10 \<Longrightarrow> is_digit (digit_char d)"
  by (simp add: is_digit_def digit_char_def)

lemma byte_digit_char [simp]: "d < 10 \<Longrightarrow> byte (digit_char d) = 48 + d"
  by (simp add: digit_char_def)

lemma digits_value_append:
  "digits_value acc (s @ t) =
     (case digits_value acc s of None \<Rightarrow> None | Some a \<Rightarrow> digits_value a t)"
  by (induction acc s rule: digits_value.induct) auto

lemma digits_value_itoa: "digits_value 0 (itoa_nat n) = Some n"
proof (induction n rule: itoa_nat.induct)
  case (1 n)
  show ?case
  proof (cases "n < 10")
    case True
    then show ?thesis by (simp add: itoa_nat.simps)
  next
    case False
    with 1 show ?thesis
      by (subst itoa_nat.simps) (simp add: digits_value_append)
  qed
qed

lemma itoa_nat_not_Nil [simp]: "itoa_nat n \<noteq> []"
  by (subst itoa_nat.simps) simp

lemma itoa_nat_digits: "c \<in> set (itoa_nat n) \<Longrightarrow> is_digit c"
proof (induction n rule: itoa_nat.induct)
  case (1 n)
  then show ?case
    by (subst (asm) (2) itoa_nat.simps) (auto split: if_splits)
qed

lemma atoi_itoa_nat:
  assumes "int n < 2 ^ 63"
  shows "atoi (itoa_nat n) = Some (int n)"
proof -
  obtain c t where ct: "itoa_nat n = c # t" by (cases "itoa_nat n") auto
  then have "is_digit c" using itoa_nat_digits [of c n] by simp
  then have "c \<noteq> CHR ''-''" "c \<noteq> CHR ''+''" by (auto simp: is_digit_def)
  with ct assms digits_value_itoa [of n] show ?thesis by (simp add: atoi_def)
qed

lemma itoa_nat_inject [simp]: "itoa_nat m = itoa_nat n \<longleftrightarrow> m = n"
  by (metis digits_value_itoa option.inject)

section \<open>UTF-8\<close>

definition in_range :: "nat \<Rightarrow> nat \<Rightarrow> char \<Rightarrow> bool" where
  "in_range lo hi c = (lo \<le> byte c \<and> byte c \<le> hi)"

text \<open>
  What the first byte of an encoding says: the number of continuation bytes and the range of
  the first of them; no encoding starts with any other byte.
\<close>

definition rune_lead :: "char \<Rightarrow> (nat \<times> nat \<times> nat) option" where
  "rune_lead a =
     (if byte a < 0x80 then Some (0, 0, 0)
      else if in_range 0xC2 0xDF a then Some (1, 0x80, 0xBF)
      else if byte a = 0xE0 then Some (2, 0xA0, 0xBF)
      else if byte a = 0xED then Some (2, 0x80, 0x9F)
      else if in_range 0xE1 0xEF a then Some (2, 0x80, 0xBF)
      else if byte a = 0xF0 then Some (3, 0x90, 0xBF)
      else if in_range 0xF1 0xF3 a then Some (3, 0x80, 0xBF)
      else if byte a = 0xF4 then Some (3, 0x80, 0x8F)
      else None)"

text \<open>
  The width of the valid encoding at the head of a byte string, 0 when the first byte starts
  none (\<open>utf8.DecodeRune\<close> then yields U+FFFD with width 1).
\<close>

fun rune_width :: "string \<Rightarrow> nat" where
  "rune_width [] = 0"
| "rune_width (a # s) =
     (case rune_lead a of
        None \<Rightarrow> 0
      | Some (n, lo, hi) \<Rightarrow>
          if n \<le> length s \<and> (n = 0 \<or> in_range lo hi (hd s))
             \<and> list_all (in_range 0x80 0xBF) (take n s)
          then Suc n else 0)"

definition replacement :: string where
  "replacement = [CHR 0xEF, CHR 0xBF, CHR 0xBD]"

text \<open>\<open>[]rune(s)\<close>, each rune as its encoding; an invalid byte becomes U+FFFD.\<close>

function runes :: "string \<Rightarrow> string list" where
  "runes [] = []"
| "runes (c # s) =
     (let n = rune_width (c # s)
      in if n = 0 then replacement # runes s else take n (c # s) # runes (drop n (c # s)))"
  by pat_completeness auto
termination
  by (relation "measure length") auto

fun utf8_valid :: "nat \<Rightarrow> string \<Rightarrow> bool" where
  "utf8_valid 0 s = (s = [])"
| "utf8_valid (Suc k) s =
     (s = [] \<or> (rune_width s \<noteq> 0 \<and> utf8_valid k (drop (rune_width s) s)))"

text \<open>\<open>utf8.ValidString\<close>; a string of \<open>n\<close> bytes has at most \<open>n\<close> runes.\<close>

definition valid_string :: "string \<Rightarrow> bool" where
  "valid_string s = utf8_valid (length s) s"

text \<open>Truncation to a number of runes: \<open>string([]rune(s)[:max])\<close> when there are more.\<close>

definition truncate_runes :: "nat \<Rightarrow> string \<Rightarrow> string" where
  "truncate_runes m s = (if m < length (runes s) then concat (take m (runes s)) else s)"

lemma rune_width_le: "rune_width s \<le> length s"
  by (cases s) (auto split: option.splits)

lemma rune_width_Suc:
  assumes "rune_width s \<noteq> 0"
  obtains a u n where "s = a # u" "rune_width s = Suc n" "n \<le> length u"
    "\<And>t. rune_width (a # take n u @ t) = Suc n"
proof -
  from assms obtain a u where s: "s = a # u" by (cases s) auto
  with assms obtain n lo hi where l: "rune_lead a = Some (n, lo, hi)"
    by (auto split: option.splits)
  with assms s have n: "n \<le> length u" "n = 0 \<or> in_range lo hi (hd u)"
    "list_all (in_range 0x80 0xBF) (take n u)" "rune_width s = Suc n"
    by (auto split: if_splits)
  have "hd (take n u @ t) = hd u" if "n \<noteq> 0" for t
    using that n(1) by (cases u; cases n) auto
  then have "n = 0 \<or> in_range lo hi (hd (take n u @ t))" for t
    using n(2) by (cases "n = 0") auto
  with n l have "rune_width (a # take n u @ t) = Suc n" for t by simp
  with s n show thesis using that by blast
qed

lemma runes_take_append:
  assumes "rune_width s \<noteq> 0"
  shows "runes (take (rune_width s) s @ t) = take (rune_width s) s # runes t"
proof -
  obtain a u n where s: "s = a # u" "rune_width s = Suc n" "n \<le> length u"
    and w: "\<And>t. rune_width (a # take n u @ t) = Suc n"
    using rune_width_Suc [OF assms] by metis
  have h: "take (rune_width s) s = a # take n u" by (simp only: s(2)) (simp add: s(1))
  have "runes (a # take n u @ t) = (a # take n u) # runes t"
    using w [of t] s(3) by (simp add: Let_def del: rune_width.simps)
  then show ?thesis by (simp only: h append_Cons)
qed

lemma runes_replacement_append: "runes (replacement @ t) = replacement # runes t"
  by (simp add: replacement_def in_range_def rune_lead_def numeral_2_eq_2)

text \<open>The runes of a truncated text are the truncated runes, so at most \<open>m\<close> remain.\<close>

lemma runes_concat_take: "runes (concat (take m (runes s))) = take m (runes s)"
proof (induction s arbitrary: m rule: runes.induct)
  case 1
  then show ?case by simp
next
  case (2 c s)
  show ?case
  proof (cases m)
    case 0
    then show ?thesis by simp
  next
    case (Suc k)
    show ?thesis
    proof (cases "rune_width (c # s) = 0")
      case True
      with Suc 2(1) [OF refl True, of k] show ?thesis
        by (simp add: runes_replacement_append del: rune_width.simps)
    next
      case False
      let ?h = "take (rune_width (c # s)) (c # s)" and ?t = "drop (rune_width (c # s)) (c # s)"
      have r: "runes (c # s) = ?h # runes ?t"
        using False by (simp add: Let_def del: rune_width.simps)
      have "concat (take (Suc k) (runes (c # s))) = ?h @ concat (take k (runes ?t))"
        by (simp only: r take_Suc_Cons concat.simps)
      then show ?thesis
        using 2(2) [OF refl False, of k] runes_take_append [OF False] r Suc
        by (simp only: take_Suc_Cons)
    qed
  qed
qed

lemma truncate_runes_bound: "length (runes (truncate_runes m s)) \<le> m"
  by (simp add: truncate_runes_def runes_concat_take)

end
