(* ===== verification/Provider_Output.thy ===== *)
theory Provider_Output
  imports Go_Strings
begin

text \<open>
  Bounded process output: \<open>pkg/adapters/provideroutput/output.go\<close> (\<open>Tail\<close>,
  \<open>LimitedBuffer\<close>, \<open>LimitError\<close>, \<open>BoundedText\<close>) and the command adapter's copy in
  \<open>internal/agentnode/adapter_output.go\<close> with \<open>boundedRuntimeText\<close> of
  \<open>adapter_result.go\<close>. The contract of the two buffers is a locale; the lemmas say which
  bytes of the whole stream a buffer holds after any sequence of writes.
\<close>

section \<open>Definitions\<close>

definition MaxBytes :: nat where
  "MaxBytes = 4 * 2 ^ 20"

definition MaxDiagnosticBytes :: nat where
  "MaxDiagnosticBytes = 64 * 2 ^ 10"

text \<open>\<open>Tail.Write\<close>: the new \<open>data\<close> slice; the returned count is always \<open>len(value)\<close>.\<close>

definition tail_write :: "string \<Rightarrow> string \<Rightarrow> string \<times> nat" where
  "tail_write data value =
     (let n = length value
      in if n \<ge> MaxDiagnosticBytes then (drop (n - MaxDiagnosticBytes) value, n)
         else
           (let excess = int (length data) + int n - int MaxDiagnosticBytes;
                kept = (if excess > 0 then drop (nat excess) data else data)
            in (kept @ value, n)))"

record limited_buffer =
  buf :: string
  cancelled :: bool
  exceeded :: bool

definition new_limited_buffer :: limited_buffer where
  "new_limited_buffer = \<lparr>buf = [], cancelled = False, exceeded = False\<rparr>"

definition ErrTooLarge :: go_error where
  "ErrTooLarge = ErrSentinel ''provider output exceeded limit''"

text \<open>
  \<open>LimitedBuffer.Write\<close> and \<open>limitedOutputBuffer.Write\<close> share one body; they differ in the
  sentinel error. The \<open>cancel\<close> callback, which both constructors attach, is recorded.
\<close>

definition limited_write ::
  "go_error \<Rightarrow> limited_buffer \<Rightarrow> string \<Rightarrow> limited_buffer \<times> (go_error + nat)" where
  "limited_write sentinel b value =
     (let remaining = int MaxBytes - int (length (buf b));
          b1 = (if remaining > 0
                then (if int (length value) \<le> remaining
                      then b\<lparr>buf := buf b @ value\<rparr>
                      else b\<lparr>buf := buf b @ take (nat remaining) value\<rparr>)
                else b)
      in if int (length value) > remaining
         then (b1\<lparr>exceeded := True, cancelled := True\<rparr>, Inl sentinel)
         else (b1, Inr (length value)))"

definition buffer_write :: "limited_buffer \<Rightarrow> string \<Rightarrow> limited_buffer \<times> (go_error + nat)" where
  "buffer_write = limited_write ErrTooLarge"

definition errAdapterOutputTooLarge :: go_error where
  "errAdapterOutputTooLarge = ErrSentinel ''adapter output exceeded limit''"

definition adapter_buffer_write ::
  "limited_buffer \<Rightarrow> string \<Rightarrow> limited_buffer \<times> (go_error + nat)" where
  "adapter_buffer_write = limited_write errAdapterOutputTooLarge"

text \<open>\<open>LimitError\<close>; a nil buffer is \<open>None\<close>.\<close>

definition limit_error :: "string \<Rightarrow> limited_buffer option list \<Rightarrow> go_error option" where
  "limit_error label buffers =
     (if list_ex (\<lambda>b. case b of None \<Rightarrow> False | Some x \<Rightarrow> exceeded x) buffers
      then Some (ErrNew (label @ '' output exceeded '' @ itoa_nat MaxBytes @ '' bytes''))
      else None)"

text \<open>\<open>adapterOutputLimitError\<close>: names the streams that overflowed.\<close>

definition adapter_output_limit_error ::
  "string \<Rightarrow> limited_buffer option \<Rightarrow> limited_buffer option \<Rightarrow> go_error option" where
  "adapter_output_limit_error label stdout stderr =
     (let over = (\<lambda>b. case b of None \<Rightarrow> False | Some x \<Rightarrow> exceeded x);
          streams = (if over stdout then [''stdout''] else []) @ (if over stderr then [''stderr''] else [])
      in if streams = [] then None
         else Some (ErrNew (label @ '' output exceeded '' @ itoa_nat MaxBytes @ '' bytes ('' @
                            str_join '', '' streams @ '')'')))"

definition bounded_text :: "string \<Rightarrow> nat \<Rightarrow> string \<Rightarrow> string" where
  "bounded_text value maximum fallback =
     (let v = trim_space value; v = (if v = [] then fallback else v)
      in truncate_runes maximum v)"

definition bounded_runtime_text :: "string \<Rightarrow> nat \<Rightarrow> string \<Rightarrow> string" where
  "bounded_runtime_text value maximum fallback =
     (let v = trim_space value;
          v = (if v = [] \<or> \<not> valid_string v then fallback else v)
      in truncate_runes maximum v)"

section \<open>The byte-sink contract\<close>

text \<open>
  A sink is a state with a write operation and the retained bytes; the law says what one
  write leaves in it in terms of what it held and what was written. The client's view is a
  whole run of writes.
\<close>

locale byte_sink =
  fixes put :: "'s \<Rightarrow> string \<Rightarrow> 's"
    and held :: "'s \<Rightarrow> string"
    and keep :: "string \<Rightarrow> string"
    and ok :: "'s \<Rightarrow> bool"
  assumes held_put: "ok s \<Longrightarrow> held (put s v) = keep (held s @ v)"
    and ok_put: "ok s \<Longrightarrow> ok (put s v)"
    and held_keep: "ok s \<Longrightarrow> keep (held s) = held s"
    and keep_keep: "keep (keep xs @ ys) = keep (xs @ ys)"
begin

text \<open>After any run of writes the sink holds what \<open>keep\<close> leaves of the whole stream.\<close>

lemma held_puts: "ok s \<Longrightarrow> held (foldl put s vs) = keep (held s @ concat vs)"
proof (induction vs arbitrary: s)
  case Nil
  then show ?case by (simp add: held_keep)
next
  case (Cons v vs)
  then have "held (foldl put (put s v) vs) = keep (keep (held s @ v) @ concat vs)"
    by (simp add: ok_put held_put)
  also have "\<dots> = keep (held s @ v @ concat vs)"
    by (simp add: keep_keep)
  finally show ?case by simp
qed

lemma ok_puts: "ok s \<Longrightarrow> ok (foldl put s vs)"
  by (induction vs arbitrary: s) (auto simp: ok_put)

text \<open>How the stream is cut into writes makes no difference.\<close>

lemma chunking: "ok s \<Longrightarrow> concat vs = concat ws \<Longrightarrow> held (foldl put s vs) = held (foldl put s ws)"
  by (simp add: held_puts)

end

section \<open>Tail keeps the latest bytes\<close>

definition tail_put :: "string \<Rightarrow> string \<Rightarrow> string" where
  "tail_put data value = fst (tail_write data value)"

lemma tail_put_eq:
  "length data \<le> MaxDiagnosticBytes \<Longrightarrow> tail_put data value = lastn MaxDiagnosticBytes (data @ value)"
  unfolding tail_put_def tail_write_def Let_def lastn_def
  by (auto simp: nat_int_add_diff)

interpretation tail: byte_sink tail_put id "lastn MaxDiagnosticBytes"
  "\<lambda>d. length d \<le> MaxDiagnosticBytes"
  by unfold_locales (auto simp: tail_put_eq lastn_append_lastn)

section \<open>LimitedBuffer keeps the first bytes\<close>

definition buffer_put :: "limited_buffer \<Rightarrow> string \<Rightarrow> limited_buffer" where
  "buffer_put b v = fst (buffer_write b v)"

definition adapter_buffer_put :: "limited_buffer \<Rightarrow> string \<Rightarrow> limited_buffer" where
  "adapter_buffer_put b v = fst (adapter_buffer_write b v)"

lemma limited_write_buf:
  "length (buf b) \<le> MaxBytes \<Longrightarrow> buf (fst (limited_write e b v)) = take MaxBytes (buf b @ v)"
  unfolding limited_write_def Let_def by (auto simp: nat_diff_distrib')

lemma limited_write_exceeded:
  "exceeded (fst (limited_write e b v)) \<longleftrightarrow> exceeded b \<or> MaxBytes < length (buf b) + length v"
  unfolding limited_write_def Let_def by auto

lemma limited_write_error:
  "snd (limited_write e b v) = (if MaxBytes < length (buf b) + length v then Inl e else Inr (length v))"
  unfolding limited_write_def Let_def by auto

lemma take_append_take: "take n (take n xs @ ys) = take n (xs @ ys)"
  by (cases "n \<le> length xs") (auto simp: min_def)

interpretation lim: byte_sink buffer_put buf "take MaxBytes" "\<lambda>b. length (buf b) \<le> MaxBytes"
  by unfold_locales
     (auto simp: buffer_put_def buffer_write_def limited_write_buf take_append_take simp del: take_append)

interpretation alim: byte_sink adapter_buffer_put buf "take MaxBytes" "\<lambda>b. length (buf b) \<le> MaxBytes"
  by unfold_locales
     (auto simp: adapter_buffer_put_def adapter_buffer_write_def limited_write_buf take_append_take simp del: take_append)

lemma buffer_run_exceeded:
  "length (buf b) \<le> MaxBytes \<Longrightarrow>
   exceeded (foldl buffer_put b vs) \<longleftrightarrow> exceeded b \<or> MaxBytes < length (buf b @ concat vs)"
proof (induction vs arbitrary: b)
  case Nil
  then show ?case by simp
next
  case (Cons v vs)
  have p: "length (buf (buffer_put b v)) \<le> MaxBytes" using Cons.prems by (rule lim.ok_put)
  have l: "length (buf (buffer_put b v)) = min MaxBytes (length (buf b) + length v)"
    using lim.held_put [OF Cons.prems, of v] by simp
  have "exceeded (buffer_put b v) \<longleftrightarrow> exceeded b \<or> MaxBytes < length (buf b) + length v"
    by (simp add: buffer_put_def buffer_write_def limited_write_exceeded)
  with Cons.IH [OF p] l show ?case by auto
qed

section \<open>Properties\<close>

lemma tail_holds_latest: "foldl tail_put [] vs = lastn MaxDiagnosticBytes (concat vs)"
  using tail.held_puts [of "[]" vs] by simp

lemma limited_buffer_holds_prefix:
  "buf (foldl buffer_put new_limited_buffer vs) = take MaxBytes (concat vs)"
  "exceeded (foldl buffer_put new_limited_buffer vs) \<longleftrightarrow> MaxBytes < length (concat vs)"
proof -
  have ok: "length (buf new_limited_buffer) \<le> MaxBytes" by (simp add: new_limited_buffer_def)
  show "buf (foldl buffer_put new_limited_buffer vs) = take MaxBytes (concat vs)"
    using lim.held_puts [OF ok, of vs] by (simp add: new_limited_buffer_def)
  show "exceeded (foldl buffer_put new_limited_buffer vs) \<longleftrightarrow> MaxBytes < length (concat vs)"
    using buffer_run_exceeded [OF ok, of vs] by (simp add: new_limited_buffer_def)
qed


end
