(* ===== verification/Go_Json.thy ===== *)
theory Go_Json
  imports Go_Strings
begin

text \<open>
  Go's \<open>encoding/json\<close> as the program uses it: JSON values, the compact encoder of
  \<open>json.Marshal\<close> (keys of a Go map sorted, HTML characters escaped, invalid UTF-8 replaced),
  the parser behind \<open>json.Unmarshal\<close>, and the decoding of an object into a struct (exact
  field name first, then case-insensitive, \<open>null\<close> leaves a field alone, an unknown name is an
  error only for a strict decoder). A number is kept as its literal, which the encoder writes
  back; Go goes through \<open>float64\<close> for values of type \<open>any\<close>.
\<close>

datatype json =
    JNull
  | JBool bool
  | JNum string
  | JStr string
  | JArr "json list"
  | JObj "(string \<times> json) list"

section \<open>Byte order of strings and sorted keys\<close>

fun str_le :: "string \<Rightarrow> string \<Rightarrow> bool" where
  "str_le [] t = True"
| "str_le (c # s) [] = False"
| "str_le (c # s) (d # t) = (byte c < byte d \<or> (c = d \<and> str_le s t))"

lemma str_le_refl [simp]: "str_le s s"
  by (induction s) auto

lemma str_le_antisym: "str_le s t \<Longrightarrow> str_le t s \<Longrightarrow> s = t"
  by (induction s t rule: str_le.induct) (auto elim: str_le.elims)

lemma str_le_trans: "str_le s t \<Longrightarrow> str_le t u \<Longrightarrow> str_le s u"
proof (induction s t arbitrary: u rule: str_le.induct)
  case (3 c s d t)
  then show ?case by (cases u) auto
qed auto

lemma str_le_total: "str_le s t \<or> str_le t s"
proof (induction s t rule: str_le.induct)
  case (3 c s d t)
  then show ?case by (cases "byte c" "byte d" rule: linorder_cases) auto
qed auto

text \<open>Setting a key of a sorted object: the order \<open>json.Marshal\<close> writes a Go map in.\<close>

fun obj_put :: "string \<Rightarrow> 'v \<Rightarrow> (string \<times> 'v) list \<Rightarrow> (string \<times> 'v) list" where
  "obj_put k v [] = [(k, v)]"
| "obj_put k v ((k', v') # kvs) =
     (if k = k' then (k, v) # kvs
      else if str_le k k' then (k, v) # (k', v') # kvs
      else (k', v') # obj_put k v kvs)"

definition obj_of :: "(string \<times> 'v) list \<Rightarrow> (string \<times> 'v) list" where
  "obj_of kvs = foldl (\<lambda>acc (k, v). obj_put k v acc) [] kvs"

lemma map_of_obj_put [simp]: "map_of (obj_put k v kvs) = (map_of kvs)(k \<mapsto> v)"
  by (induction k v kvs rule: obj_put.induct) auto

lemma map_of_obj_of: "map_of (obj_of kvs) = map_of (rev kvs)"
proof -
  have "map_of (foldl (\<lambda>acc (k, v). obj_put k v acc) a kvs) = map_of a ++ map_of (rev kvs)"
    for a :: "(string \<times> 'a) list"
    by (induction kvs arbitrary: a) (auto simp: map_add_def fun_eq_iff split: option.splits)
  then show ?thesis by (simp add: obj_of_def)
qed

text \<open>The value of a decoded \<open>any\<close>: objects are maps (the last duplicate wins, keys sorted).\<close>

fun json_any :: "json \<Rightarrow> json" where
  "json_any (JArr vs) = JArr (map json_any vs)"
| "json_any (JObj kvs) = JObj (obj_of (map (\<lambda>(k, v). (k, json_any v)) kvs))"
| "json_any v = v"

definition obj_get :: "(string \<times> json) list \<Rightarrow> string \<Rightarrow> json" where
  "obj_get kvs k = (case map_of kvs k of None \<Rightarrow> JNull | Some v \<Rightarrow> v)"

section \<open>Encoding\<close>

definition hex_lower :: "nat \<Rightarrow> char" where
  "hex_lower d = char_of (if d < 10 then 48 + d else 87 + d)"

definition esc_byte :: "char \<Rightarrow> string" where
  "esc_byte c =
     (if c = CHR 0x22 \<or> c = CHR 0x5C then [CHR 0x5C, c]
      else if byte c = 8 then [CHR 0x5C, CHR ''b'']
      else if byte c = 12 then [CHR 0x5C, CHR ''f'']
      else if byte c = 10 then [CHR 0x5C, CHR ''n'']
      else if byte c = 13 then [CHR 0x5C, CHR ''r'']
      else if byte c = 9 then [CHR 0x5C, CHR ''t'']
      else if byte c < 32 \<or> c \<in> set ''<>&''
      then [CHR 0x5C, CHR ''u'', CHR ''0'', CHR ''0'', hex_lower (byte c div 16), hex_lower (byte c mod 16)]
      else [c])"

definition esc_rune :: "string \<Rightarrow> string" where
  "esc_rune r =
     (if r = [CHR 0xE2, CHR 0x80, CHR 0xA8] then CHR 0x5C # ''u2028''
      else if r = [CHR 0xE2, CHR 0x80, CHR 0xA9] then CHR 0x5C # ''u2029''
      else if length r = 1 then esc_byte (hd r) else r)"

function json_chars :: "string \<Rightarrow> string" where
  "json_chars [] = []"
| "json_chars (c # s) =
     (let n = rune_width (c # s)
      in if n = 0 then (CHR 0x5C # ''ufffd'') @ json_chars s
         else esc_rune (take n (c # s)) @ json_chars (drop n (c # s)))"
  by pat_completeness auto
termination
  by (relation "measure length") auto

definition json_quote :: "string \<Rightarrow> string" where
  "json_quote s = CHR 0x22 # json_chars s @ [CHR 0x22]"

fun json_print :: "json \<Rightarrow> string" where
  "json_print JNull = ''null''"
| "json_print (JBool b) = (if b then ''true'' else ''false'')"
| "json_print (JNum n) = n"
| "json_print (JStr s) = json_quote s"
| "json_print (JArr vs) = CHR 0x5B # str_join '','' (map json_print vs) @ [CHR 0x5D]"
| "json_print (JObj kvs) =
     CHR 0x7B # str_join '','' (map (\<lambda>(k, v). json_quote k @ '':'' @ json_print v) kvs) @ [CHR 0x7D]"

text \<open>\<open>json.Marshal\<close> of a struct's fields (given in order) or of an \<open>any\<close> value.\<close>

definition json_marshal :: "json \<Rightarrow> string" where
  "json_marshal v = json_print v"

text \<open>\<open>json.MarshalIndent(v, "", "  ")\<close>: each element on a line of its own, empty ones closed at once.\<close>

definition json_newline :: "nat \<Rightarrow> string" where
  "json_newline d = CHR 0x0A # replicate (2 * d) (CHR '' '')"

fun json_pretty :: "nat \<Rightarrow> json \<Rightarrow> string" where
  "json_pretty d (JArr vs) =
     (if vs = [] then [CHR 0x5B, CHR 0x5D]
      else CHR 0x5B # json_newline (Suc d)
           @ str_join (CHR '','' # json_newline (Suc d)) (map (json_pretty (Suc d)) vs)
           @ json_newline d @ [CHR 0x5D])"
| "json_pretty d (JObj kvs) =
     (if kvs = [] then [CHR 0x7B, CHR 0x7D]
      else CHR 0x7B # json_newline (Suc d)
           @ str_join (CHR '','' # json_newline (Suc d))
               (map (\<lambda>(k, v). json_quote k @ '': '' @ json_pretty (Suc d) v) kvs)
           @ json_newline d @ [CHR 0x7D])"
| "json_pretty d v = json_print v"

definition json_marshal_indent :: "json \<Rightarrow> string" where
  "json_marshal_indent v = json_pretty 0 v"

section \<open>Parsing\<close>

definition json_ws :: "char \<Rightarrow> bool" where
  "json_ws c = (byte c \<in> {9, 10, 13, 32})"

fun skip_ws :: "string \<Rightarrow> string" where
  "skip_ws [] = []"
| "skip_ws (c # s) = (if json_ws c then skip_ws s else c # s)"

definition hex_val :: "char \<Rightarrow> nat option" where
  "hex_val c =
     (if is_digit c then Some (byte c - 48)
      else if 97 \<le> byte c \<and> byte c \<le> 102 then Some (byte c - 87)
      else if 65 \<le> byte c \<and> byte c \<le> 70 then Some (byte c - 55) else None)"

fun hex4 :: "string \<Rightarrow> nat option" where
  "hex4 (a # b # c # d # s) =
     (case (hex_val a, hex_val b, hex_val c, hex_val d) of
        (Some w, Some x, Some y, Some z) \<Rightarrow> Some (4096 * w + 256 * x + 16 * y + z)
      | _ \<Rightarrow> None)"
| "hex4 s = None"

definition utf8_encode :: "nat \<Rightarrow> string" where
  "utf8_encode r =
     (if r < 0x80 then [char_of r]
      else if r < 0x800 then [char_of (0xC0 + r div 64), char_of (0x80 + r mod 64)]
      else if 0xD800 \<le> r \<and> r \<le> 0xDFFF \<or> 0x10FFFF < r then replacement
      else if r < 0x10000 then
        [char_of (0xE0 + r div 4096), char_of (0x80 + r div 64 mod 64), char_of (0x80 + r mod 64)]
      else [char_of (0xF0 + r div 262144), char_of (0x80 + r div 4096 mod 64),
            char_of (0x80 + r div 64 mod 64), char_of (0x80 + r mod 64)])"

definition is_surrogate :: "nat \<Rightarrow> bool" where
  "is_surrogate r = (0xD800 \<le> r \<and> r \<le> 0xDFFF)"

text \<open>The second half of a surrogate pair, when the next escape supplies one.\<close>

definition pair_rune :: "nat \<Rightarrow> string \<Rightarrow> nat option" where
  "pair_rune r s =
     (case s of
        a # b # t \<Rightarrow>
          if a = CHR 0x5C \<and> b = CHR ''u'' then
            (case hex4 t of
               Some r2 \<Rightarrow> if r < 0xDC00 \<and> 0xDC00 \<le> r2 \<and> r2 \<le> 0xDFFF
                          then Some (0x10000 + (r - 0xD800) * 1024 + (r2 - 0xDC00)) else None
             | None \<Rightarrow> None)
          else None
      | _ \<Rightarrow> None)"

definition simple_escape :: "char \<Rightarrow> char option" where
  "simple_escape e =
     (if e \<in> {CHR 0x22, CHR 0x5C, CHR ''/''} then Some e
      else if e = CHR ''b'' then Some (CHR 0x08) else if e = CHR ''f'' then Some (CHR 0x0C)
      else if e = CHR ''n'' then Some (CHR 0x0A) else if e = CHR ''r'' then Some (CHR 0x0D)
      else if e = CHR ''t'' then Some (CHR 0x09) else None)"

text \<open>The rest of a string literal: its decoded content and what follows the closing quote.\<close>

function parse_chars :: "string \<Rightarrow> (string \<times> string) option" where
  "parse_chars [] = None"
| "parse_chars (c # s) =
     (if c = CHR 0x22 then Some ([], s)
      else if byte c < 32 then None
      else if c = CHR 0x5C then
        (case s of
           [] \<Rightarrow> None
         | e # t \<Rightarrow>
             if e = CHR ''u'' then
               (case hex4 t of
                  None \<Rightarrow> None
                | Some r \<Rightarrow>
                    (case (if is_surrogate r then pair_rune r (drop 4 t) else None) of
                       Some r2 \<Rightarrow> map_option (\<lambda>(v, u). (utf8_encode r2 @ v, u)) (parse_chars (drop 10 t))
                     | None \<Rightarrow> map_option (\<lambda>(v, u). (utf8_encode r @ v, u)) (parse_chars (drop 4 t))))
             else
               (case simple_escape e of
                  None \<Rightarrow> None
                | Some d \<Rightarrow> map_option (\<lambda>(v, u). (d # v, u)) (parse_chars t)))
      else
        (let n = rune_width (c # s)
         in if n = 0 then map_option (\<lambda>(v, u). (replacement @ v, u)) (parse_chars s)
            else map_option (\<lambda>(v, u). (take n (c # s) @ v, u)) (parse_chars (drop n (c # s)))))"
  by pat_completeness auto
termination
  by (relation "measure length") auto

fun span_digits :: "string \<Rightarrow> string \<times> string" where
  "span_digits [] = ([], [])"
| "span_digits (c # s) =
     (if is_digit c then (case span_digits s of (d, r) \<Rightarrow> (c # d, r)) else ([], c # s))"

text \<open>The number grammar: sign, integer part without leading zeros, fraction, exponent.\<close>

definition parse_int_part :: "string \<Rightarrow> (string \<times> string) option" where
  "parse_int_part s =
     (case s of
        [] \<Rightarrow> None
      | c # t \<Rightarrow> if c = CHR ''0'' then Some ([c], t)
                 else if is_digit c then Some (span_digits s) else None)"

definition parse_frac :: "string \<Rightarrow> (string \<times> string) option" where
  "parse_frac s =
     (case s of
        c # t \<Rightarrow> if c = CHR ''.'' then
                    (case span_digits t of (d, r) \<Rightarrow> if d = [] then None else Some (c # d, r))
                  else Some ([], s)
      | [] \<Rightarrow> Some ([], s))"

definition parse_exp :: "string \<Rightarrow> (string \<times> string) option" where
  "parse_exp s =
     (case s of
        c # t \<Rightarrow>
          if c = CHR ''e'' \<or> c = CHR ''E'' then
            (let (sg, u) = (case t of x # t' \<Rightarrow> if x = CHR ''+'' \<or> x = CHR ''-'' then ([x], t') else ([], t)
                            | [] \<Rightarrow> ([], t))
             in case span_digits u of (d, r) \<Rightarrow> if d = [] then None else Some (c # sg @ d, r))
          else Some ([], s)
      | [] \<Rightarrow> Some ([], s))"

definition parse_number :: "string \<Rightarrow> (string \<times> string) option" where
  "parse_number s =
     (let (sg, t) = (case s of c # r \<Rightarrow> if c = CHR ''-'' then ([c], r) else ([], s) | [] \<Rightarrow> ([], s))
      in Option.bind (parse_int_part t) (\<lambda>(i, r1).
         Option.bind (parse_frac r1) (\<lambda>(f, r2).
         Option.bind (parse_exp r2) (\<lambda>(e, r3). Some (sg @ i @ f @ e, r3)))))"

definition expect :: "string \<Rightarrow> json \<Rightarrow> string \<Rightarrow> (json \<times> string) option" where
  "expect lit v s = map_option (Pair v) (cut_prefix s lit)"

text \<open>
  Values, array elements and object members, with a bound on the number of nested calls; every
  call is followed by at least one consumed byte or by a smaller production, so twice the length
  of the text is never reached.
\<close>

fun parse_value :: "nat \<Rightarrow> string \<Rightarrow> (json \<times> string) option"
and parse_elems :: "nat \<Rightarrow> string \<Rightarrow> (json list \<times> string) option"
and parse_members :: "nat \<Rightarrow> string \<Rightarrow> ((string \<times> json) list \<times> string) option" where
  "parse_value 0 s = None"
| "parse_value (Suc n) s0 =
     (case skip_ws s0 of
        [] \<Rightarrow> None
      | c # s \<Rightarrow>
          if c = CHR 0x22 then map_option (\<lambda>(v, r). (JStr v, r)) (parse_chars s)
          else if c = CHR 0x5B then
            (case skip_ws s of
               d # t \<Rightarrow> if d = CHR 0x5D then Some (JArr [], t)
                         else map_option (\<lambda>(vs, r). (JArr vs, r)) (parse_elems n (d # t))
             | [] \<Rightarrow> None)
          else if c = CHR 0x7B then
            (case skip_ws s of
               d # t \<Rightarrow> if d = CHR 0x7D then Some (JObj [], t)
                         else map_option (\<lambda>(kvs, r). (JObj kvs, r)) (parse_members n (d # t))
             | [] \<Rightarrow> None)
          else if c = CHR ''t'' then expect ''true'' (JBool True) (c # s)
          else if c = CHR ''f'' then expect ''false'' (JBool False) (c # s)
          else if c = CHR ''n'' then expect ''null'' JNull (c # s)
          else map_option (\<lambda>(v, r). (JNum v, r)) (parse_number (c # s)))"
| "parse_elems 0 s = None"
| "parse_elems (Suc n) s =
     (case parse_value n s of
        None \<Rightarrow> None
      | Some (v, r) \<Rightarrow>
          (case skip_ws r of
             c # t \<Rightarrow> if c = CHR 0x5D then Some ([v], t)
                       else if c = CHR '','' then map_option (\<lambda>(vs, u). (v # vs, u)) (parse_elems n t)
                       else None
           | [] \<Rightarrow> None))"
| "parse_members 0 s = None"
| "parse_members (Suc n) s =
     (case skip_ws s of
        q # s1 \<Rightarrow>
          if q = CHR 0x22 then
            (case parse_chars s1 of
               None \<Rightarrow> None
             | Some (k, r) \<Rightarrow>
                 (case skip_ws r of
                    cl # r1 \<Rightarrow>
                      if cl = CHR '':'' then
                        (case parse_value n r1 of
                           None \<Rightarrow> None
                         | Some (v, r2) \<Rightarrow>
                             (case skip_ws r2 of
                                c # t \<Rightarrow> if c = CHR 0x7D then Some ([(k, v)], t)
                                          else if c = CHR '','' then
                                            map_option (\<lambda>(kvs, u). ((k, v) # kvs, u)) (parse_members n t)
                                          else None
                              | [] \<Rightarrow> None))
                      else None
                  | [] \<Rightarrow> None))
          else None
      | [] \<Rightarrow> None)"

text \<open>\<open>json.Unmarshal\<close>'s syntax check: one value with only white space around it.\<close>

definition json_parse :: "string \<Rightarrow> json option" where
  "json_parse s =
     (case parse_value (2 * length s + 2) s of
        Some (v, r) \<Rightarrow> if skip_ws r = [] then Some v else None
      | None \<Rightarrow> None)"

section \<open>Decoding into a struct\<close>

text \<open>
  A field decoder gives the field's JSON name and how a value updates the struct; \<open>None\<close> is a
  type error, which \<open>json.Unmarshal\<close> reports.
\<close>

type_synonym 'r field = "string \<times> ('r \<Rightarrow> json \<Rightarrow> 'r option)"

definition find_field :: "'r field list \<Rightarrow> string \<Rightarrow> ('r \<Rightarrow> json \<Rightarrow> 'r option) option" where
  "find_field fs k =
     (case map_of fs k of
        Some d \<Rightarrow> Some d
      | None \<Rightarrow> map_option snd (find (\<lambda>(n, _). equal_fold n k) fs))"

fun decode_fields :: "bool \<Rightarrow> 'r field list \<Rightarrow> 'r \<Rightarrow> (string \<times> json) list \<Rightarrow> 'r option" where
  "decode_fields strict fs r [] = Some r"
| "decode_fields strict fs r ((k, v) # kvs) =
     (case find_field fs k of
        None \<Rightarrow> if strict then None else decode_fields strict fs r kvs
      | Some d \<Rightarrow> (case d r v of None \<Rightarrow> None | Some r' \<Rightarrow> decode_fields strict fs r' kvs))"

definition decode_struct :: "bool \<Rightarrow> 'r field list \<Rightarrow> 'r \<Rightarrow> json \<Rightarrow> 'r option" where
  "decode_struct strict fs zero v =
     (case v of JNull \<Rightarrow> Some zero | JObj kvs \<Rightarrow> decode_fields strict fs zero kvs | _ \<Rightarrow> None)"

definition f_string :: "(string \<Rightarrow> 'r \<Rightarrow> 'r) \<Rightarrow> 'r \<Rightarrow> json \<Rightarrow> 'r option" where
  "f_string upd r v = (case v of JNull \<Rightarrow> Some r | JStr s \<Rightarrow> Some (upd s r) | _ \<Rightarrow> None)"

definition f_bool :: "(bool \<Rightarrow> 'r \<Rightarrow> 'r) \<Rightarrow> 'r \<Rightarrow> json \<Rightarrow> 'r option" where
  "f_bool upd r v = (case v of JNull \<Rightarrow> Some r | JBool b \<Rightarrow> Some (upd b r) | _ \<Rightarrow> None)"

definition f_int :: "(int \<Rightarrow> 'r \<Rightarrow> 'r) \<Rightarrow> 'r \<Rightarrow> json \<Rightarrow> 'r option" where
  "f_int upd r v =
     (case v of JNull \<Rightarrow> Some r | JNum n \<Rightarrow> map_option (\<lambda>i. upd i r) (atoi n) | _ \<Rightarrow> None)"

text \<open>A \<open>json.RawMessage\<close> field keeps the value, \<open>null\<close> included; absent it stays empty.\<close>

definition f_raw :: "(json option \<Rightarrow> 'r \<Rightarrow> 'r) \<Rightarrow> 'r \<Rightarrow> json \<Rightarrow> 'r option" where
  "f_raw upd r v = Some (upd (Some v) r)"

definition f_any :: "(json \<Rightarrow> 'r \<Rightarrow> 'r) \<Rightarrow> 'r \<Rightarrow> json \<Rightarrow> 'r option" where
  "f_any upd r v = Some (upd (json_any v) r)"

text \<open>A \<open>map[string]any\<close> field: \<open>null\<close> is the nil map, an object adds its keys.\<close>

type_synonym json_map = "(string \<times> json) list option"

definition f_map :: "('r \<Rightarrow> json_map) \<Rightarrow> (json_map \<Rightarrow> 'r \<Rightarrow> 'r) \<Rightarrow> 'r \<Rightarrow> json \<Rightarrow> 'r option" where
  "f_map get upd r v =
     (case v of
        JNull \<Rightarrow> Some (upd None r)
      | JObj kvs \<Rightarrow>
          let old = (case get r of None \<Rightarrow> [] | Some m \<Rightarrow> m)
          in Some (upd (Some (foldl (\<lambda>acc (k, x). obj_put k (json_any x) acc) old kvs)) r)
      | _ \<Rightarrow> None)"

fun json_strings :: "json list \<Rightarrow> string list option" where
  "json_strings [] = Some []"
| "json_strings (v # vs) =
     (case v of
        JStr s \<Rightarrow> map_option ((#) s) (json_strings vs)
      | JNull \<Rightarrow> map_option ((#) []) (json_strings vs)
      | _ \<Rightarrow> None)"

text \<open>A \<open>[]string\<close> field; a \<open>null\<close> element is the empty string.\<close>

definition f_strings :: "(string list \<Rightarrow> 'r \<Rightarrow> 'r) \<Rightarrow> 'r \<Rightarrow> json \<Rightarrow> 'r option" where
  "f_strings upd r v =
     (case v of
        JNull \<Rightarrow> Some (upd [] r)
      | JArr vs \<Rightarrow> map_option (\<lambda>xs. upd xs r) (json_strings vs)
      | _ \<Rightarrow> None)"

lemmas field_defs = f_string_def f_bool_def f_int_def f_raw_def f_any_def f_map_def f_strings_def

end
