(* ===== verification/Go_Path.thy ===== *)
theory Go_Path
  imports Go_Strings
begin

text \<open>
  Go's \<open>path/filepath\<close> on Unix, as the program uses it: \<open>Clean\<close>, \<open>Join\<close>, \<open>Dir\<close>, \<open>Base\<close>,
  \<open>IsAbs\<close> and \<open>Rel\<close>, on the components of a path. The lemmas are about the cleaned form: no
  empty or \<open>.\<close> component, \<open>..\<close> only in front of a relative path, and what \<open>Rel\<close> says of the
  components of its arguments.
\<close>

section \<open>Components\<close>

definition slash :: char where
  "slash = CHR ''/''"

definition is_abs :: "string \<Rightarrow> bool" where
  "is_abs p = (case p of [] \<Rightarrow> False | c # _ \<Rightarrow> c = slash)"

text \<open>One pass over the components; the stack holds the kept ones, innermost first.\<close>

fun clean_push :: "bool \<Rightarrow> string list \<Rightarrow> string \<Rightarrow> string list" where
  "clean_push rooted stack x =
     (if x = [] \<or> x = ''.'' then stack
      else if x = ''..'' then
        (case stack of
           [] \<Rightarrow> if rooted then [] else [''..'']
         | y # ys \<Rightarrow> if y = ''..'' then ''..'' # y # ys else ys)
      else x # stack)"

definition clean_comps :: "bool \<Rightarrow> string list \<Rightarrow> string list" where
  "clean_comps rooted xs = rev (foldl (clean_push rooted) [] xs)"

definition path_comps :: "string \<Rightarrow> string list" where
  "path_comps p = clean_comps (is_abs p) (str_split slash p)"

definition path_text :: "bool \<Rightarrow> string list \<Rightarrow> string" where
  "path_text rooted xs =
     (if rooted then slash # str_join [slash] xs
      else if xs = [] then ''.'' else str_join [slash] xs)"

definition filepath_clean :: "string \<Rightarrow> string" where
  "filepath_clean p = path_text (is_abs p) (path_comps p)"

text \<open>\<open>filepath.Join\<close>: empty elements are ignored, the rest is joined and cleaned.\<close>

definition filepath_join :: "string list \<Rightarrow> string" where
  "filepath_join xs =
     (case filter (\<lambda>x. x \<noteq> []) xs of [] \<Rightarrow> [] | ys \<Rightarrow> filepath_clean (str_join [slash] ys))"

text \<open>\<open>filepath.Dir\<close>: everything up to the last separator, cleaned.\<close>

fun upto_last_slash :: "string \<Rightarrow> string" where
  "upto_last_slash [] = []"
| "upto_last_slash (c # s) =
     (if slash \<in> set (c # s) then c # upto_last_slash s else [])"

definition filepath_dir :: "string \<Rightarrow> string" where
  "filepath_dir p = filepath_clean (upto_last_slash p)"

definition filepath_base :: "string \<Rightarrow> string" where
  "filepath_base p =
     (if p = [] then ''.''
      else let t = rev (dropWhile (\<lambda>c. c = slash) (rev p))
           in if t = [] then ''/'' else rev (takeWhile (\<lambda>c. c \<noteq> slash) (rev t)))"

text \<open>\<open>filepath.Rel\<close> on the cleaned components; an error is \<open>None\<close>.\<close>

fun strip_common :: "string list \<Rightarrow> string list \<Rightarrow> string list \<times> string list" where
  "strip_common (x # xs) (y # ys) = (if x = y then strip_common xs ys else (x # xs, y # ys))"
| "strip_common xs ys = (xs, ys)"

definition filepath_rel :: "string \<Rightarrow> string \<Rightarrow> string option" where
  "filepath_rel base targ =
     (if filepath_clean base = filepath_clean targ then Some ''.''
      else if is_abs base \<noteq> is_abs targ then None
      else
        (case strip_common (path_comps base) (path_comps targ) of
           (bs, ts) \<Rightarrow>
             (case bs of
                b # _ \<Rightarrow> if b = ''..'' then None
                         else Some (str_join [slash] (replicate (length bs) ''..'' @ ts))
              | [] \<Rightarrow> Some (str_join [slash] ts))))"

section \<open>Cleaned components\<close>

definition plain_comp :: "string \<Rightarrow> bool" where
  "plain_comp x = (x \<noteq> [] \<and> x \<noteq> ''.'' \<and> x \<noteq> ''..'' \<and> slash \<notin> set x)"

definition clean_stack :: "bool \<Rightarrow> string list \<Rightarrow> bool" where
  "clean_stack rooted stack =
     (\<exists>plain n. stack = plain @ replicate n ''..'' \<and> list_all plain_comp plain \<and> (rooted \<longrightarrow> n = 0))"

lemma clean_push_stack:
  assumes "clean_stack rooted stack" and "slash \<notin> set x"
  shows "clean_stack rooted (clean_push rooted stack x)"
proof -
  obtain plain n where s: "stack = plain @ replicate n ''..''" "list_all plain_comp plain" "rooted \<longrightarrow> n = 0"
    using assms(1) by (auto simp: clean_stack_def)
  show ?thesis
  proof (cases "x = ''..''")
    case dots: True
    show ?thesis
    proof (cases plain)
      case Nil
      have "clean_push rooted stack x = (if rooted then [] else replicate (Suc n) ''..'')"
        using s dots Nil by (cases n) auto
      moreover have "clean_stack rooted (if rooted then [] else replicate (Suc n) ''..'')"
        unfolding clean_stack_def by (rule exI [of _ "[]"], rule exI [of _ "if rooted then 0 else Suc n"]) simp
      ultimately show ?thesis by (simp del: clean_push.simps)
    next
      case (Cons y ys)
      then show ?thesis using s dots by (auto simp: clean_stack_def plain_comp_def)
    qed
  next
    case False
    show ?thesis
    proof (cases "x = [] \<or> x = ''.''")
      case True
      then show ?thesis using assms(1) False by auto
    next
      case plainx: False
      then have "clean_push rooted stack x = (x # plain) @ replicate n ''..''" using False s by auto
      moreover have "list_all plain_comp (x # plain)"
        using plainx False assms(2) s(2) by (simp add: plain_comp_def)
      ultimately show ?thesis using s(3) unfolding clean_stack_def by blast
    qed
  qed
qed

lemma clean_comps_stack:
  "\<forall>x \<in> set xs. slash \<notin> set x \<Longrightarrow> clean_stack rooted (rev (clean_comps rooted xs))"
proof -
  have "clean_stack rooted stack \<Longrightarrow> \<forall>x \<in> set xs. slash \<notin> set x \<Longrightarrow>
        clean_stack rooted (foldl (clean_push rooted) stack xs)" for stack
    by (induction xs arbitrary: stack) (auto simp del: clean_push.simps intro: clean_push_stack)
  moreover have "clean_stack rooted []" by (auto simp: clean_stack_def)
  ultimately show "\<forall>x \<in> set xs. slash \<notin> set x \<Longrightarrow> ?thesis" by (simp add: clean_comps_def)
qed

lemma split_no_slash: "\<forall>x \<in> set (str_split slash p). slash \<notin> set x"
  by (auto dest: str_split_no_sep)

lemma split_append_slash: "str_split slash (x @ slash # y) = str_split slash x @ str_split slash y"
  by (induction x) (auto split: list.splits)

lemma path_comps_stack: "clean_stack (is_abs p) (rev (path_comps p))"
  unfolding path_comps_def using split_no_slash by (rule clean_comps_stack)

lemma path_comps_rooted: "is_abs p \<Longrightarrow> list_all plain_comp (path_comps p)"
  using path_comps_stack [of p]
  by (auto simp: clean_stack_def list_all_iff)

lemma clean_stack_no_slash:
  assumes "clean_stack r st" and "x \<in> set st"
  shows "x \<noteq> [] \<and> x \<noteq> ''.'' \<and> slash \<notin> set x"
proof -
  obtain plain n where s: "st = plain @ replicate n ''..''" "list_all plain_comp plain"
    using assms(1) by (auto simp: clean_stack_def)
  then consider "x \<in> set plain" | "x = ''..''" using assms(2) by (auto split: if_splits)
  then show ?thesis
  proof cases
    case 1
    then have "plain_comp x" using s(2) by (simp add: list_all_iff)
    then show ?thesis by (simp add: plain_comp_def)
  qed (simp add: slash_def)
qed

lemma path_comps_nonempty:
  "x \<in> set (path_comps p) \<Longrightarrow> x \<noteq> [] \<and> x \<noteq> ''.'' \<and> slash \<notin> set x"
  using clean_stack_no_slash [OF path_comps_stack, of x p] by simp

lemma clean_push_plain: "plain_comp x \<Longrightarrow> clean_push r st x = x # st"
  by (simp add: plain_comp_def)

lemma foldl_clean_plain:
  "list_all plain_comp xs \<Longrightarrow> foldl (clean_push r) st xs = rev xs @ st"
  by (induction xs arbitrary: st) (auto simp: clean_push_plain simp del: clean_push.simps)

lemma foldl_clean_dots: "foldl (clean_push False) (replicate m ''..'') (replicate n ''..'') = replicate (n + m) ''..''"
proof (induction n arbitrary: m)
  case (Suc n)
  have "clean_push False (replicate m ''..'') ''..'' = replicate (Suc m) ''..''" by (cases m) auto
  then show ?case using Suc [of "Suc m"] by simp
qed simp

lemma clean_comps_clean:
  assumes "clean_stack r (rev xs)"
  shows "clean_comps r xs = xs"
proof -
  obtain plain n where s: "rev xs = plain @ replicate n ''..''" "list_all plain_comp plain" "r \<longrightarrow> n = 0"
    using assms by (auto simp: clean_stack_def)
  have xs: "xs = replicate n ''..'' @ rev plain" using s(1) by (metis rev_append rev_replicate rev_rev_ident)
  have dots: "foldl (clean_push r) [] (replicate n ''..'') = replicate n ''..''"
    using foldl_clean_dots [of 0 n] s(3) by (cases r) auto
  have "list_all plain_comp (rev plain)" using s(2) by (simp add: list_all_iff)
  then show ?thesis unfolding clean_comps_def xs
    by (simp add: foldl_append dots foldl_clean_plain del: clean_push.simps)
qed

lemma is_abs_join:
  assumes "xs \<noteq> []" and "\<And>x. x \<in> set xs \<Longrightarrow> x \<noteq> [] \<and> slash \<notin> set x"
  shows "\<not> is_abs (str_join [slash] xs)"
proof -
  obtain x ys where xs: "xs = x # ys" using assms(1) by (cases xs) auto
  obtain c r where x: "x = c # r" using assms(2) [of x] xs by (cases x) auto
  have "c \<noteq> slash" using assms(2) [of x] xs x by auto
  then show ?thesis using xs x by (cases ys) (auto simp: is_abs_def)
qed

lemma path_text_comps:
  assumes "clean_stack r (rev xs)"
  shows "is_abs (path_text r xs) = r" and "path_comps (path_text r xs) = xs"
proof -
  have plain: "\<And>x. x \<in> set xs \<Longrightarrow> x \<noteq> [] \<and> x \<noteq> ''.'' \<and> slash \<notin> set x"
    using clean_stack_no_slash [OF assms] by simp
  have sp: "xs \<noteq> [] \<Longrightarrow> str_split slash (str_join [slash] xs) = xs"
    using plain by (intro str_split_join) auto
  show abs: "is_abs (path_text r xs) = r"
    using is_abs_join [of xs] plain by (cases r) (auto simp: path_text_def is_abs_def slash_def)
  show "path_comps (path_text r xs) = xs"
  proof (cases "xs = []")
    case True
    then show ?thesis by (cases r) (simp_all add: path_comps_def path_text_def is_abs_def slash_def clean_comps_def)
  next
    case False
    have "clean_comps r ([] # xs) = clean_comps r xs" by (simp add: clean_comps_def)
    then show ?thesis
      using False sp clean_comps_clean [OF assms] abs unfolding path_comps_def abs
      by (cases r) (simp_all add: path_text_def)
  qed
qed

lemma is_abs_clean [simp]: "is_abs (filepath_clean p) = is_abs p"
  unfolding filepath_clean_def by (rule path_text_comps(1)) (rule path_comps_stack)

lemma path_comps_clean [simp]: "path_comps (filepath_clean p) = path_comps p"
  unfolding filepath_clean_def by (rule path_text_comps(2)) (rule path_comps_stack)

lemma filepath_clean_idem [simp]: "filepath_clean (filepath_clean p) = filepath_clean p"
  by (subst filepath_clean_def) (simp add: filepath_clean_def [symmetric])

lemma filepath_clean_eq_iff:
  "filepath_clean p = filepath_clean q \<longleftrightarrow> is_abs p = is_abs q \<and> path_comps p = path_comps q"
  (is "?l \<longleftrightarrow> ?r")
proof
  assume ?l
  then have "is_abs (filepath_clean p) = is_abs (filepath_clean q)"
    and "path_comps (filepath_clean p) = path_comps (filepath_clean q)" by simp_all
  then show ?r by simp
qed (simp add: filepath_clean_def)

text \<open>Joining a plain name below an absolute directory adds exactly that component.\<close>

lemma path_comps_join_plain:
  assumes "is_abs d" and "plain_comp n"
  shows "path_comps (filepath_join [d, n]) = path_comps d @ [n]" and "is_abs (filepath_join [d, n])"
proof -
  have d: "d \<noteq> []" and n: "n \<noteq> []" using assms by (auto simp: is_abs_def plain_comp_def)
  have j: "filepath_join [d, n] = filepath_clean (d @ slash # n)" using d n by (simp add: filepath_join_def)
  have abs: "is_abs (d @ slash # n)" using assms(1) by (auto simp: is_abs_def split: list.splits)
  have sp: "str_split slash (d @ slash # n) = str_split slash d @ [n]"
  proof -
    have "str_split slash n = [n]" using assms(2) by (simp add: plain_comp_def str_split_none)
    then show ?thesis by (simp add: split_append_slash)
  qed
  show "is_abs (filepath_join [d, n])" using j abs by simp
  show "path_comps (filepath_join [d, n]) = path_comps d @ [n]"
    using assms sp abs unfolding j path_comps_clean
    by (simp add: path_comps_def clean_comps_def foldl_append clean_push_plain del: clean_push.simps)
qed

section \<open>Relative paths\<close>

lemma strip_common_eq:
  "strip_common xs ys = (bs, ts) \<Longrightarrow> \<exists>cs. xs = cs @ bs \<and> ys = cs @ ts"
proof (induction xs ys rule: strip_common.induct)
  case (1 x xs y ys)
  then show ?case by (cases "x = y") (auto intro: exI [of _ "x # _"])
qed auto

lemma join_dots_prefix:
  "str_join [slash] (''..'' # xs) = ''..'' \<or> has_prefix (str_join [slash] (''..'' # xs)) ''../''"
  by (cases xs) (auto simp: has_prefix_iff slash_def)

text \<open>
  The containment test the program writes over \<open>Rel\<close>: a result that is neither \<open>..\<close> nor starts
  with \<open>../\<close> says that the target's components extend the base's.
\<close>

lemma filepath_rel_inside:
  assumes rel: "filepath_rel base targ = Some r" and "r \<noteq> ''..''" and "\<not> has_prefix r ''../''"
  shows "is_abs base = is_abs targ \<and> (\<exists>ts. path_comps targ = path_comps base @ ts)"
proof (cases "filepath_clean base = filepath_clean targ")
  case True
  then show ?thesis by (auto simp: filepath_clean_eq_iff)
next
  case False
  obtain bs ts where sc: "strip_common (path_comps base) (path_comps targ) = (bs, ts)" by force
  have abs: "is_abs base = is_abs targ" using rel False by (auto simp: filepath_rel_def split: if_splits)
  have "bs = []"
  proof (cases bs)
    case (Cons b bs')
    then have "r = str_join [slash] (''..'' # replicate (length bs') ''..'' @ ts)"
      using rel False abs sc by (auto simp: filepath_rel_def split: if_splits)
    then show ?thesis using join_dots_prefix assms(2,3) by metis
  qed
  then show ?thesis using strip_common_eq [OF sc] abs by auto
qed

lemma filepath_rel_below:
  assumes abs: "is_abs base" and rel: "filepath_rel base targ = Some r"
    and r: "r \<noteq> ''.''" "r \<noteq> ''..''" "\<not> has_prefix r ''../''"
  shows "path_comps targ = path_comps base @ path_comps r \<and> list_all plain_comp (path_comps r) \<and> path_comps r \<noteq> []"
proof -
  have ne: "filepath_clean base \<noteq> filepath_clean targ" using rel r(1) by (auto simp: filepath_rel_def)
  obtain ts where ts: "path_comps targ = path_comps base @ ts" and abst: "is_abs targ"
    using filepath_rel_inside [OF rel r(2,3)] abs by blast
  have "ts \<noteq> []" using ts ne abs abst by (auto simp: filepath_clean_eq_iff)
  have strip: "strip_common xs (xs @ ts) = ([], ts)" for xs by (induction xs) auto
  have join: "r = path_text False ts"
    using rel ne abs abst strip ts \<open>ts \<noteq> []\<close> by (auto simp: filepath_rel_def path_text_def)
  have plain: "list_all plain_comp ts" using path_comps_rooted [OF abst] ts by simp
  then have "clean_stack False (rev ts)" unfolding clean_stack_def by (intro exI [of _ "rev ts"] exI [of _ 0]) (simp add: list_all_iff)
  then have "path_comps r = ts" using path_text_comps(2) join by simp
  then show ?thesis using ts plain \<open>ts \<noteq> []\<close> by simp
qed

section \<open>Plain relative paths\<close>

definition plain_path :: "string list \<Rightarrow> bool" where
  "plain_path xs = (xs \<noteq> [] \<and> list_all plain_comp xs)"

lemma plain_path_stack: "plain_path xs \<Longrightarrow> clean_stack False (rev xs)"
  unfolding clean_stack_def plain_path_def by (intro exI [of _ "rev xs"] exI [of _ 0]) (simp add: list_all_iff)

lemma plain_path_text:
  assumes "plain_path xs"
  shows "path_comps (str_join [slash] xs) = xs" and "str_split slash (str_join [slash] xs) = xs"
    and "str_join [slash] xs \<noteq> []" and "filepath_clean (str_join [slash] xs) = str_join [slash] xs"
proof -
  have ne: "xs \<noteq> []" and plain: "list_all plain_comp xs" using assms by (auto simp: plain_path_def)
  have t: "str_join [slash] xs = path_text False xs" using ne by (simp add: path_text_def)
  show c: "path_comps (str_join [slash] xs) = xs" unfolding t by (rule path_text_comps(2)) (rule plain_path_stack [OF assms])
  show "str_split slash (str_join [slash] xs) = xs"
    by (rule str_split_join) (use ne plain in \<open>auto simp: list_all_iff plain_comp_def\<close>)
  show "str_join [slash] xs \<noteq> []" using ne plain by (cases xs; cases "tl xs") (auto simp: plain_comp_def)
  have "\<not> is_abs (str_join [slash] xs)"
    by (rule is_abs_join [OF ne]) (use plain in \<open>auto simp: list_all_iff plain_comp_def\<close>)
  then show "filepath_clean (str_join [slash] xs) = str_join [slash] xs"
    by (simp add: filepath_clean_def c) (simp add: t)
qed

lemma plain_path_join:
  assumes "plain_path xs" and "plain_comp c"
  shows "filepath_join [str_join [slash] xs, c] = str_join [slash] (xs @ [c])"
    and "filepath_dir (str_join [slash] (xs @ [c])) = str_join [slash] xs"
proof -
  have app: "str_join [slash] (xs @ [c]) = str_join [slash] xs @ slash # c"
    using assms(1) unfolding plain_path_def
  proof (induction xs)
    case (Cons x xs)
    then show ?case by (cases xs) (auto simp: str_join_Cons)
  qed simp
  have pp: "plain_path (xs @ [c])" using assms by (simp add: plain_path_def)
  have c: "c \<noteq> []" "slash \<notin> set c" using assms(2) by (simp_all add: plain_comp_def)
  show "filepath_join [str_join [slash] xs, c] = str_join [slash] (xs @ [c])"
    using plain_path_text(3) [OF assms(1)] plain_path_text(4) [OF pp] app c by (simp add: filepath_join_def)
  have none: "upto_last_slash c = []" using c(2) by (cases c) auto
  have "upto_last_slash (a @ slash # c) = a @ [slash]" for a
    by (induction a) (use none in auto)
  moreover have "filepath_clean (str_join [slash] xs @ [slash]) = str_join [slash] xs"
  proof -
    have "is_abs (str_join [slash] xs @ [slash]) = is_abs (str_join [slash] xs)"
      using plain_path_text(3) [OF assms(1)] by (cases "str_join [slash] xs") (auto simp: is_abs_def)
    then have "filepath_clean (str_join [slash] xs @ [slash]) = filepath_clean (str_join [slash] xs)"
      using split_append_slash [of "str_join [slash] xs" "[]"]
      by (simp add: filepath_clean_eq_iff path_comps_def clean_comps_def)
    then show ?thesis using plain_path_text(4) [OF assms(1)] by simp
  qed
  ultimately show "filepath_dir (str_join [slash] (xs @ [c])) = str_join [slash] xs" by (simp add: filepath_dir_def app)
qed

end
