(* ===== verification/Delegation_Broker.thy ===== *)
theory Delegation_Broker
  imports Go_Json Go_Crypto Go_Path "HOL-Library.Multiset"
begin

text \<open>
  The delegation broker: \<open>pkg/adapters/agentdelegation/broker.go\<close>, \<open>bound_tools.go\<close> and
  \<open>permissions_unix.go\<close>. The state is the map of delegation requests, the discovery flag, the
  monotonic clock and the history of what the broker asked its active Attempt (the callbacks of
  the SDK's Runtime Worker, which are parameters: an environment answers each question as any
  function of the history). The order in which Go ranges over the request map is the
  environment's too. Every tool call runs under the broker's \<open>calls\<close> mutex, so a run of the
  broker is a sequence of these operations.
\<close>

section \<open>Data\<close>

record bound_tool =
  BindingID :: string
  TargetID :: string
  Digest :: string
  Name :: string
  Title :: string
  Description :: string
  InputSchema :: json_map

text \<open>
  The SDK's run states, its run summary and its delegated run: the fields the broker reads, and
  the JSON form in which it hands the whole value on.
\<close>

datatype run_status = RunRunning | RunSuccess | RunFailed | RunCanceled | RunTimeout | RunOther string

record run_summary =
  sum_run_id :: string
  sum_body :: json

record delegated_run =
  dr_status :: run_status
  dr_output :: json
  dr_body :: json

definition zero_summary :: run_summary where
  "zero_summary = \<lparr>sum_run_id = [], sum_body = JNull\<rparr>"

record call_options =
  opt_reason :: string
  opt_key :: string
  opt_metadata :: json

record delegation_request =
  req_digest :: string
  req_run :: string
  req_terminal :: bool
  req_summary :: run_summary

text \<open>What the broker asks of its environment, in order.\<close>

datatype obs =
    CtxErr
  | CallAgent string json_map call_options
  | ReadRun string
  | Sleep int
  | OnTools
  | BoundToolUsed bound_tool
  | Respond json

type_synonym history = "obs list"

record env =
  env_ctx :: "history \<Rightarrow> go_error option"
  env_call :: "history \<Rightarrow> json result"
  env_read :: "history \<Rightarrow> delegated_run option result"
  env_done :: "history \<Rightarrow> go_error option"
  env_sent :: "history \<Rightarrow> bool"
  env_tools :: "history \<Rightarrow> go_error option"
  env_used :: "history \<Rightarrow> go_error option"
  env_elapsed :: "history \<Rightarrow> nat"
  env_order :: "history \<Rightarrow> (string \<times> delegation_request) list \<Rightarrow> (string \<times> delegation_request) list"

text \<open>
  The parts of the broker that do not change after \<open>StartBound\<close>, with the SDK's decoder of a
  run summary.
\<close>

record conf =
  runID :: string
  targets :: "string list"
  boundTools :: "bound_tool list"
  hasOnTools :: bool
  hasBoundToolUsed :: bool
  decodeSummary :: "json \<Rightarrow> run_summary option"

record broker =
  toolsReady :: bool
  requests :: "(string \<times> delegation_request) list"
  clock :: int
  hist :: history

text \<open>Asking one question appends it to the history and takes some time.\<close>

definition ask :: "env \<Rightarrow> obs \<Rightarrow> broker \<Rightarrow> broker" where
  "ask e q b = b\<lparr>hist := hist b @ [q], clock := clock b + int (env_elapsed e (hist b @ [q]))\<rparr>"

datatype call_value = VSummary run_summary | VRun delegated_run | VJson json

fun value_json :: "call_value \<Rightarrow> json" where
  "value_json (VSummary s) = sum_body s"
| "value_json (VRun r) = dr_body r"
| "value_json (VJson j) = j"

section \<open>Validation\<close>

definition maxMessageBytes :: nat where
  "maxMessageBytes = 4 * 2 ^ 20"

definition safe :: "string \<Rightarrow> go_error" where
  "safe m = ErrSafeTool m"

definition errUnknownMethod :: go_error where
  "errUnknownMethod = ErrSafeTool ''unknown delegation MCP method''"

definition ToolNames :: "string list" where
  "ToolNames = [''delegate_agent'', ''get_delegated_run'', ''wait_delegated_run'']"

fun validate_targets_from :: "string list \<Rightarrow> string list \<Rightarrow> bool" where
  "validate_targets_from seen [] = True"
| "validate_targets_from seen (t # ts) =
     (if \<not> uuid_match t \<or> t = ''00000000-0000-0000-0000-000000000000'' \<or> t \<in> set seen then False
      else validate_targets_from (t # seen) ts)"

definition ValidateTargets :: "string list \<Rightarrow> go_error option" where
  "ValidateTargets ts =
     (if 32 < length ts then Some (safe ''at most 32 delegation targets are allowed'')
      else if validate_targets_from [] ts then None
      else Some (safe ''delegation targets must be distinct lowercase Agent UUIDs''))"

definition name_match :: "string \<Rightarrow> bool" where
  "name_match s = (case cut_prefix s ''mcp_'' of None \<Rightarrow> False | Some h \<Rightarrow> hex_run 32 h)"

definition digest_match :: "string \<Rightarrow> bool" where
  "digest_match s = hex_run 64 s"

definition map_json :: "json_map \<Rightarrow> json" where
  "map_json m = (case m of None \<Rightarrow> JNull | Some kvs \<Rightarrow> JObj kvs)"

definition map_get :: "json_map \<Rightarrow> string \<Rightarrow> json" where
  "map_get m k = (case m of None \<Rightarrow> JNull | Some kvs \<Rightarrow> obj_get kvs k)"

definition bound_tool_json :: "bound_tool \<Rightarrow> json" where
  "bound_tool_json t =
     JObj [(''binding_id'', JStr (BindingID t)), (''target_agent_id'', JStr (TargetID t)),
           (''digest'', JStr (Digest t)), (''name'', JStr (Name t)), (''title'', JStr (Title t)),
           (''description'', JStr (Description t)), (''input_schema'', map_json (InputSchema t))]"

fun validate_bound_from :: "string list \<Rightarrow> bound_tool list \<Rightarrow> bool" where
  "validate_bound_from seen [] = True"
| "validate_bound_from seen (t # ts) =
     (if 20 * 1024 < length (json_marshal (bound_tool_json t)) \<or> \<not> uuid_match (BindingID t)
         \<or> \<not> uuid_match (TargetID t) \<or> \<not> digest_match (Digest t) \<or> \<not> name_match (Name t)
         \<or> Name t \<in> set seen \<or> map_get (InputSchema t) ''type'' \<noteq> JStr ''object''
      then False else validate_bound_from (Name t # seen) ts)"

definition ValidateBoundTools :: "bound_tool list \<Rightarrow> go_error option" where
  "ValidateBoundTools ts =
     (if 16 < length ts then Some (ErrNew ''too many MCP bindings'')
      else if validate_bound_from [] ts then None
      else Some (ErrNew ''invalid MCP binding snapshot''))"

definition zero_tool :: bound_tool where
  "zero_tool = \<lparr>BindingID = [], TargetID = [], Digest = [], Name = [], Title = [],
                Description = [], InputSchema = None\<rparr>"

definition bound_tool_fields :: "bound_tool field list" where
  "bound_tool_fields =
     [(''binding_id'', f_string (\<lambda>s t. t\<lparr>BindingID := s\<rparr>)),
      (''target_agent_id'', f_string (\<lambda>s t. t\<lparr>TargetID := s\<rparr>)),
      (''digest'', f_string (\<lambda>s t. t\<lparr>Digest := s\<rparr>)),
      (''name'', f_string (\<lambda>s t. t\<lparr>Name := s\<rparr>)),
      (''title'', f_string (\<lambda>s t. t\<lparr>Title := s\<rparr>)),
      (''description'', f_string (\<lambda>s t. t\<lparr>Description := s\<rparr>)),
      (''input_schema'', f_map InputSchema (\<lambda>m t. t\<lparr>InputSchema := m\<rparr>))]"

record bound_snapshot =
  Schema :: int
  Tools :: "bound_tool list"

fun decode_tools :: "json list \<Rightarrow> bound_tool list option" where
  "decode_tools [] = Some []"
| "decode_tools (v # vs) =
     (case decode_struct False bound_tool_fields zero_tool v of
        None \<Rightarrow> None
      | Some t \<Rightarrow> map_option ((#) t) (decode_tools vs))"

definition f_tools :: "bound_snapshot \<Rightarrow> json \<Rightarrow> bound_snapshot option" where
  "f_tools r v =
     (case v of
        JNull \<Rightarrow> Some (r\<lparr>Tools := []\<rparr>)
      | JArr vs \<Rightarrow> map_option (\<lambda>ts. r\<lparr>Tools := ts\<rparr>) (decode_tools vs)
      | _ \<Rightarrow> None)"

definition snapshot_fields :: "bound_snapshot field list" where
  "snapshot_fields = [(''schema_version'', f_int (\<lambda>i r. r\<lparr>Schema := i\<rparr>)), (''tools'', f_tools)]"

fun insert_tool :: "bound_tool \<Rightarrow> bound_tool list \<Rightarrow> bound_tool list" where
  "insert_tool t [] = [t]"
| "insert_tool t (u # us) = (if str_le (Name t) (Name u) then t # u # us else u # insert_tool t us)"

text \<open>\<open>sort.Slice\<close> by name; after validation the names are distinct, so the order is determined.\<close>

definition sort_tools :: "bound_tool list \<Rightarrow> bound_tool list" where
  "sort_tools ts = foldr insert_tool ts []"

definition DecodeBound :: "json \<Rightarrow> bool \<Rightarrow> (bound_tool list \<times> string) result" where
  "DecodeBound value trusted =
     (if value = JNull then Inr ([], [])
      else if 320 * 1024 < length (json_marshal value) then Inl (ErrNew ''invalid MCP binding snapshot'')
      else
        (case decode_struct False snapshot_fields \<lparr>Schema = 0, Tools = []\<rparr> value of
           None \<Rightarrow> Inl (ErrNew ''invalid MCP binding snapshot'')
         | Some snapshot \<Rightarrow>
             if Schema snapshot \<noteq> 1 then Inl (ErrNew ''invalid MCP binding snapshot'')
             else if Tools snapshot \<noteq> [] \<and> \<not> trusted
             then Inl (ErrNew ''MCP bindings require trusted Runtime authority'')
             else
               (case ValidateBoundTools (Tools snapshot) of
                  Some err \<Rightarrow> Inl err
                | None \<Rightarrow>
                    let ts = sort_tools (Tools snapshot)
                    in if ts = [] then Inr ([], [])
                       else Inr (ts, hex_encode (sha256 (json_marshal (JArr (map bound_tool_json ts))))))))"

definition BoundToolNames :: "string list \<Rightarrow> bound_tool list \<Rightarrow> string list" where
  "BoundToolNames ts tools = (if ts \<noteq> [] then ToolNames else []) @ map Name tools"

definition BoundReceipt :: "bound_tool list \<Rightarrow> (string \<times> json) list" where
  "BoundReceipt tools =
     [(''bindings'', JArr (map (\<lambda>t. JObj [(''binding_id'', JStr (BindingID t)), (''digest'', JStr (Digest t))]) tools))]"

section \<open>Run states and rejections\<close>

definition terminalRun :: "delegated_run option \<Rightarrow> bool" where
  "terminalRun r =
     (case r of None \<Rightarrow> False
      | Some d \<Rightarrow> dr_status d \<in> {RunSuccess, RunFailed, RunCanceled, RunTimeout})"

definition definiteRejection :: "go_error \<Rightarrow> string" where
  "definiteRejection err =
     (case errors_as_runtime err of
        None \<Rightarrow> []
      | Some (code, status, _) \<Rightarrow>
          if status = 403 \<and> (code = ''PERMISSION_DENIED'' \<or> code = ''FORBIDDEN'')
          then ''Delegation rejected: permission denied. No child was created; you may continue or choose another allowed Agent.''
          else if status = 401 \<and> code = ''UNAUTHORIZED''
          then ''Delegation rejected: authorization is invalid. No child was created.''
          else if status = 422 \<and> code = ''VALIDATION_FAILED'' \<or> status = 400 \<and> code = ''BAD_REQUEST''
          then ''Delegation rejected: invalid request. No child was created; correct the request before retrying.''
          else if status = 429 \<and> code = ''RATE_LIMITED''
          then ''Delegation rejected: rate limit reached. No child was created; retry later.''
          else [])"

definition mark_terminal :: "string \<Rightarrow> broker \<Rightarrow> broker" where
  "mark_terminal rid b =
     b\<lparr>requests := map (\<lambda>(k, r). if req_run r = rid then (k, r\<lparr>req_terminal := True\<rparr>) else (k, r))
                       (requests b)\<rparr>"

section \<open>Decoding requests\<close>

definition decodeArguments :: "'r field list \<Rightarrow> 'r \<Rightarrow> json option \<Rightarrow> 'r result" where
  "decodeArguments fs zero raw =
     (case raw of
        None \<Rightarrow> Inl (safe ''invalid delegation arguments'')
      | Some v \<Rightarrow>
          (case decode_struct True fs zero v of
             None \<Rightarrow> Inl (safe ''invalid delegation arguments'')
           | Some r \<Rightarrow> Inr r))"

record delegate_args =
  Target :: string
  Input :: json_map
  Reason :: string
  Key :: string

definition delegate_fields :: "delegate_args field list" where
  "delegate_fields =
     [(''target_agent_id'', f_string (\<lambda>s r. r\<lparr>Target := s\<rparr>)),
      (''input'', f_map Input (\<lambda>m r. r\<lparr>Input := m\<rparr>)),
      (''reason'', f_string (\<lambda>s r. r\<lparr>Reason := s\<rparr>)),
      (''request_key'', f_string (\<lambda>s r. r\<lparr>Key := s\<rparr>))]"

definition zero_delegate :: delegate_args where
  "zero_delegate = \<lparr>Target = [], Input = None, Reason = [], Key = []\<rparr>"

definition delegate_json :: "delegate_args \<Rightarrow> json" where
  "delegate_json r =
     JObj ([(''target_agent_id'', JStr (Target r)), (''input'', map_json (Input r))]
           @ (if Reason r = [] then [] else [(''reason'', JStr (Reason r))])
           @ [(''request_key'', JStr (Key r))])"

record read_args =
  ReadRunID :: string
  WaitMS :: int

definition read_fields :: "read_args field list" where
  "read_fields =
     [(''child_run_id'', f_string (\<lambda>s r. r\<lparr>ReadRunID := s\<rparr>)),
      (''wait_ms'', f_int (\<lambda>i r. r\<lparr>WaitMS := i\<rparr>))]"

section \<open>The tools of the broker\<close>

text \<open>
  The loop over the recorded requests, as \<open>delegate_agent\<close> and \<open>EnsureComplete\<close> run it with
  their own messages: a terminal request is skipped, an unresolved one stops it, a created one
  is read and cached when it is terminal.
\<close>

fun settle :: "env \<Rightarrow> go_error \<Rightarrow> (string \<Rightarrow> go_error) \<Rightarrow> (string \<times> delegation_request) list
    \<Rightarrow> broker \<Rightarrow> go_error option \<times> broker" where
  "settle e unresolved active [] b = (None, b)"
| "settle e unresolved active ((key, pending) # rest) b =
     (if req_terminal pending then settle e unresolved active rest b
      else if req_run pending = [] then (Some unresolved, b)
      else
        (let b1 = ask e (ReadRun (req_run pending)) b
         in case env_read e (hist b1) of
              Inl err \<Rightarrow> (Some err, b1)
            | Inr state \<Rightarrow>
                if \<not> terminalRun state then (Some (active (req_run pending)), b1)
                else settle e unresolved active rest
                       (b1\<lparr>requests := assoc_set key (pending\<lparr>req_terminal := True\<rparr>) (requests b1)\<rparr>)))"

definition MetadataKey :: string where
  "MetadataKey = ''_openlinker_mcp_bindings''"

definition CallMetadataKey :: string where
  "CallMetadataKey = ''_openlinker_mcp_binding''"

definition request_digest :: "delegate_args \<Rightarrow> string" where
  "request_digest r = sha256 (json_marshal (delegate_json r))"

definition idempotency_key :: "string \<Rightarrow> string \<Rightarrow> string" where
  "idempotency_key rid key = ''native-delegation-'' @ hex_encode (sha256 (rid @ CHR 0x00 # key))"

definition delegate_options :: "conf \<Rightarrow> bound_tool option \<Rightarrow> delegate_args \<Rightarrow> call_options" where
  "delegate_options c bound r =
     \<lparr>opt_reason = Reason r,
      opt_key = idempotency_key (runID c) (Key r),
      opt_metadata =
        (case bound of
           None \<Rightarrow> JNull
         | Some t \<Rightarrow> JObj [(CallMetadataKey,
                            JObj [(''binding_id'', JStr (BindingID t)), (''digest'', JStr (Digest t))])])\<rparr>"

definition delegate_allowed :: "conf \<Rightarrow> bound_tool option \<Rightarrow> string \<Rightarrow> bool" where
  "delegate_allowed c bound target =
     ((case bound of None \<Rightarrow> False | Some t \<Rightarrow> TargetID t = target) \<or> target \<in> set (targets c))"

definition delegate_valid :: "conf \<Rightarrow> bound_tool option \<Rightarrow> delegate_args \<Rightarrow> bool" where
  "delegate_valid c bound r =
     (delegate_allowed c bound (Target r) \<and> Input r \<noteq> None \<and> length (Key r) \<noteq> 0
      \<and> length (Key r) \<le> 128 \<and> trim_space (Key r) = Key r \<and> length (runes (Reason r)) \<le> 500)"

text \<open>The call of the Agent and the recording of its outcome; \<open>known\<close> is Go's \<open>exists\<close>.\<close>

definition create_child ::
  "env \<Rightarrow> conf \<Rightarrow> bound_tool option \<Rightarrow> delegate_args \<Rightarrow> bool \<Rightarrow> broker \<Rightarrow> call_value result \<times> broker" where
  "create_child e c bound r known b =
     (let b1 = ask e (CallAgent (Target r) (Input r) (delegate_options c bound r)) b
      in case env_call e (hist b1) of
           Inl err \<Rightarrow>
             (let reason = definiteRejection err
              in if reason \<noteq> [] \<and> \<not> known
                 then (Inl (safe reason), b1\<lparr>requests := assoc_del (Key r) (requests b1)\<rparr>)
                 else (Inl err, b1))
         | Inr encoded \<Rightarrow>
             (case decodeSummary c encoded of
                None \<Rightarrow> (Inl (safe ''invalid delegated Run response''), b1)
              | Some summary \<Rightarrow>
                  if \<not> uuid_match (sum_run_id summary)
                  then (Inl (safe ''invalid delegated Run response''), b1)
                  else (Inr (VSummary summary),
                        b1\<lparr>requests := assoc_set (Key r)
                              \<lparr>req_digest = request_digest r, req_run = sum_run_id summary,
                               req_terminal = False, req_summary = summary\<rparr> (requests b1)\<rparr>)))"

definition delegate_agent ::
  "env \<Rightarrow> conf \<Rightarrow> bound_tool option \<Rightarrow> json option \<Rightarrow> broker \<Rightarrow> call_value result \<times> broker" where
  "delegate_agent e c bound raw b =
     (case decodeArguments delegate_fields zero_delegate raw of
        Inl err \<Rightarrow> (Inl err, b)
      | Inr r \<Rightarrow>
          if \<not> delegate_valid c bound r then (Inl (safe ''invalid delegation request''), b)
          else
            (case map_of (requests b) (Key r) of
               Some previous \<Rightarrow>
                 if req_digest previous \<noteq> request_digest r
                 then (Inl (safe ''request_key conflicts with a previous request''), b)
                 else if req_run previous \<noteq> [] then (Inr (VSummary (req_summary previous)), b)
                 else create_child e c bound r True b
             | None \<Rightarrow>
                 if 64 \<le> length (requests b) then (Inl (safe ''delegation request limit reached''), b)
                 else
                   (case settle e (safe ''retry the unresolved delegation request first'')
                           (\<lambda>_. safe ''wait for the active delegated Run first'')
                           (env_order e (hist b) (requests b)) b of
                      (Some err, b1) \<Rightarrow> (Inl err, b1)
                    | (None, b1) \<Rightarrow>
                        create_child e c bound r False
                          (b1\<lparr>requests := assoc_set (Key r)
                                \<lparr>req_digest = request_digest r, req_run = [], req_terminal = False,
                                 req_summary = zero_summary\<rparr> (requests b1)\<rparr>))))"

text \<open>
  \<open>get_delegated_run\<close> and \<open>wait_delegated_run\<close>: one loop. Each round that goes on sleeps a
  positive time towards the deadline, so the loop ends whatever the Worker answers. A running
  answer is kept (\<open>last\<close> in the code); it is the result when the read itself hits the deadline.
\<close>

definition second :: int where
  "second = 1000000000"

definition millisecond :: int where
  "millisecond = 1000000"

definition observe_run :: "string \<Rightarrow> delegated_run \<Rightarrow> broker \<Rightarrow> broker" where
  "observe_run rid r b = (if terminalRun (Some r) then mark_terminal rid b else b)"

definition pause :: "env \<Rightarrow> int \<Rightarrow> broker \<Rightarrow> go_error option \<times> broker" where
  "pause e d b =
     (let b1 = ask e (Sleep d) b
      in case env_done e (hist b1) of
           Some err \<Rightarrow> (Some err, b1)
         | None \<Rightarrow> (None, b1\<lparr>clock := clock b1 + d\<rparr>))"

function wait_loop ::
  "env \<Rightarrow> string \<Rightarrow> int \<Rightarrow> delegated_run option \<Rightarrow> broker \<Rightarrow> call_value result \<times> broker" where
  "wait_loop e rid deadline prev b =
     (let b1 = ask e (ReadRun rid) b
      in case env_read e (hist b1) of
           Inl err \<Rightarrow>
             (case prev of
                None \<Rightarrow> (Inl err, b1)
              | Some r \<Rightarrow>
                  if errors_is err ErrDeadlineExceeded
                  then (let b2 = ask e CtxErr b1
                        in if env_ctx e (hist b2) = None then (Inr (VRun r), b2) else (Inl err, b2))
                  else (Inl err, b1))
         | Inr None \<Rightarrow> (Inl (safe ''missing delegated Run result''), b1)
         | Inr (Some r) \<Rightarrow>
             (let b2 = observe_run rid r b1; remaining = deadline - clock b2
              in if dr_status r \<noteq> RunRunning \<or> remaining \<le> 0 then (Inr (VRun r), b2)
                 else (case pause e (min second remaining) b2 of
                         (Some err, b3) \<Rightarrow> (Inl err, b3)
                       | (None, b3) \<Rightarrow> wait_loop e rid deadline (Some r) b3)))"
  by pat_completeness auto

lemma ask_simps [simp]:
  "requests (ask e q b) = requests b"
  "toolsReady (ask e q b) = toolsReady b"
  "hist (ask e q b) = hist b @ [q]"
  by (simp_all add: ask_def)

lemma clock_ask: "clock b \<le> clock (ask e q b)"
  by (simp add: ask_def)

lemma observe_run_simps [simp]:
  "clock (observe_run rid r b) = clock b"
  "hist (observe_run rid r b) = hist b"
  "toolsReady (observe_run rid r b) = toolsReady b"
  by (simp_all add: observe_run_def mark_terminal_def)

lemma pause_simps [simp]:
  "requests (snd (pause e d b)) = requests b"
  "toolsReady (snd (pause e d b)) = toolsReady b"
  "hist (snd (pause e d b)) = hist b @ [Sleep d]"
  by (simp_all add: pause_def Let_def split: option.splits)

lemma clock_pause: "pause e d b = (None, b') \<Longrightarrow> clock b + d \<le> clock b'"
  by (auto simp: pause_def Let_def ask_def split: option.splits)

lemma pause_progress:
  assumes "(None, b') = pause e (min second (deadline - clock (ask e (ReadRun rid) b)))
             (observe_run rid r (ask e (ReadRun rid) b))"
    and "\<not> deadline \<le> clock (ask e (ReadRun rid) b)"
  shows "clock b < deadline" and "clock b < clock b'"
proof -
  have le: "clock b \<le> clock (ask e (ReadRun rid) b)" by (rule clock_ask)
  show "clock b < deadline" using le assms(2) by linarith
  have "0 < min second (deadline - clock (ask e (ReadRun rid) b))"
    using assms(2) by (simp add: second_def)
  then show "clock b < clock b'" using clock_pause [OF assms(1) [symmetric]] le
    by (metis add_le_same_cancel1 dual_order.trans linorder_not_less observe_run_simps(1))
qed

termination wait_loop
  by (relation "measure (\<lambda>(e, rid, deadline, prev, b). nat (deadline - clock b))")
    (auto dest: pause_progress)

declare wait_loop.simps [simp del]

definition read_delegated_run ::
  "env \<Rightarrow> bool \<Rightarrow> json option \<Rightarrow> broker \<Rightarrow> call_value result \<times> broker" where
  "read_delegated_run e wait raw b =
     (case decodeArguments read_fields \<lparr>ReadRunID = [], WaitMS = 0\<rparr> raw of
        Inl err \<Rightarrow> (Inl err, b)
      | Inr r \<Rightarrow>
          if \<not> uuid_match (ReadRunID r) \<or> WaitMS r < 0 \<or> 30000 < WaitMS r \<or> (\<not> wait \<and> WaitMS r \<noteq> 0)
          then (Inl (safe ''invalid delegated Run read''), b)
          else
            (let duration = (if wait \<and> WaitMS r = 0 then 30 * second else WaitMS r * millisecond)
             in wait_loop e (ReadRunID r) (clock b + duration) None b))"

definition callWithBinding ::
  "env \<Rightarrow> conf \<Rightarrow> string \<Rightarrow> json option \<Rightarrow> bound_tool option \<Rightarrow> broker \<Rightarrow> call_value result \<times> broker" where
  "callWithBinding e c name raw bound b =
     (let b1 = ask e CtxErr b
      in case env_ctx e (hist b1) of
           Some err \<Rightarrow> (Inl err, b1)
         | None \<Rightarrow>
             if name = ''delegate_agent'' then delegate_agent e c bound raw b1
             else if name = ''get_delegated_run'' then read_delegated_run e False raw b1
             else if name = ''wait_delegated_run'' then read_delegated_run e True raw b1
             else (Inl (safe ''unknown delegation tool''), b1))"

definition EnsureComplete :: "env \<Rightarrow> conf \<Rightarrow> broker \<Rightarrow> go_error option \<times> broker" where
  "EnsureComplete e c b =
     (if boundTools c \<noteq> [] \<and> \<not> toolsReady b
      then (Some (ErrSentinel ''selected MCP tools were not discovered by the provider''), b)
      else settle e (safe ''delegation creation is unresolved; retry its request_key before finishing'')
             (\<lambda>rid. safe (''delegated Run is unfinished: '' @ rid))
             (env_order e (hist b) (requests b)) b)"

section \<open>Bound tools and the MCP methods\<close>

record bound_args =
  Arguments :: json_map
  BoundKey :: string

definition bound_fields :: "bound_args field list" where
  "bound_fields =
     [(''arguments'', f_map Arguments (\<lambda>m r. r\<lparr>Arguments := m\<rparr>)),
      (''request_key'', f_string (\<lambda>s r. r\<lparr>BoundKey := s\<rparr>))]"

text \<open>The \<open>onTools\<close> callback and the discovery flag it guards.\<close>

definition discover :: "env \<Rightarrow> conf \<Rightarrow> broker \<Rightarrow> go_error option \<times> broker" where
  "discover e c b =
     (if hasOnTools c
      then (let b1 = ask e OnTools b
            in case env_tools e (hist b1) of
                 Some err \<Rightarrow> (Some err, b1)
               | None \<Rightarrow> (None, b1\<lparr>toolsReady := True\<rparr>))
      else (None, b\<lparr>toolsReady := True\<rparr>))"

definition bound_key :: "bound_tool \<Rightarrow> string \<Rightarrow> string" where
  "bound_key t key = ''mcp-'' @ hex_encode (sha256 (BindingID t @ CHR 0x00 # key))"

definition bound_request :: "bound_tool \<Rightarrow> bound_args \<Rightarrow> json" where
  "bound_request t a =
     JObj [(''input'', map_json (Arguments a)), (''request_key'', JStr (bound_key t (BoundKey a))),
           (''target_agent_id'', JStr (TargetID t))]"

definition bound_wait :: "string \<Rightarrow> json" where
  "bound_wait rid = JObj [(''child_run_id'', JStr rid), (''wait_ms'', JNum ''30000'')]"

definition running_note :: json where
  "running_note =
     JObj [(''retry'', JStr ''Call this tool again with the same arguments and request_key to wait for its result.''),
           (''status'', JStr ''running'')]"

definition bound_result :: "env \<Rightarrow> conf \<Rightarrow> bound_tool \<Rightarrow> call_value \<Rightarrow> broker \<Rightarrow> call_value result \<times> broker" where
  "bound_result e c t state b =
     (case state of
        VRun run \<Rightarrow>
          if dr_status run = RunSuccess then
            (if hasBoundToolUsed c
             then (let b1 = ask e (BoundToolUsed t) b
                   in case env_used e (hist b1) of
                        Some err \<Rightarrow> (Inl err, b1)
                      | None \<Rightarrow> (Inr (VJson (dr_output run)), b1))
             else (Inr (VJson (dr_output run)), b))
          else if dr_status run = RunRunning then (Inr (VJson running_note), b)
          else (Inl (safe ''MCP tool execution failed. Its access may have changed; ask the Agent owner to review the tool configuration.''), b)
      | _ \<Rightarrow> (Inl (safe ''missing MCP execution result''), b))"

definition call_bound :: "env \<Rightarrow> conf \<Rightarrow> bound_tool \<Rightarrow> json option \<Rightarrow> broker \<Rightarrow> call_value result \<times> broker" where
  "call_bound e c t raw b0 =
     (case (if toolsReady b0 then (None, b0) else discover e c b0) of
        (Some err, b) \<Rightarrow> (Inl err, b)
      | (None, b) \<Rightarrow>
          (case decodeArguments bound_fields \<lparr>Arguments = None, BoundKey = []\<rparr> raw of
             Inl err \<Rightarrow> (Inl err, b)
           | Inr a \<Rightarrow>
               if Arguments a = None \<or> length (BoundKey a) = 0 \<or> 128 < length (BoundKey a)
               then (Inl (safe ''arguments and request_key are required''), b)
               else
                 (case callWithBinding e c ''delegate_agent'' (Some (bound_request t a)) (Some t) b of
                    (Inl err, b1) \<Rightarrow> (Inl err, b1)
                  | (Inr (VSummary summary), b1) \<Rightarrow>
                      (case callWithBinding e c ''wait_delegated_run'' (Some (bound_wait (sum_run_id summary))) None b1 of
                         (Inl err, b2) \<Rightarrow> (Inl err, b2)
                       | (Inr state, b2) \<Rightarrow> bound_result e c t state b2)
                  | (Inr _, b1) \<Rightarrow> (Inl (safe ''invalid MCP execution response''), b1))))"

definition callTool :: "env \<Rightarrow> conf \<Rightarrow> string \<Rightarrow> json option \<Rightarrow> broker \<Rightarrow> call_value result \<times> broker" where
  "callTool e c name raw b =
     (case find (\<lambda>t. Name t = name) (boundTools c) of
        Some t \<Rightarrow> call_bound e c t raw b
      | None \<Rightarrow>
          if targets c = [] then (Inl (safe ''unknown MCP tool''), b)
          else callWithBinding e c name raw None b)"

definition json_strs :: "string list \<Rightarrow> json" where
  "json_strs ss = JArr (map JStr ss)"

definition object_schema :: "(string \<times> json) list \<Rightarrow> string list \<Rightarrow> json" where
  "object_schema properties required =
     JObj [(''additionalProperties'', JBool False), (''properties'', JObj properties),
           (''required'', json_strs required), (''type'', JStr ''object'')]"

definition key_schema :: json where
  "key_schema = JObj [(''maxLength'', JNum ''128''), (''minLength'', JNum ''1''), (''type'', JStr ''string'')]"

definition tool_json :: "string \<Rightarrow> string \<Rightarrow> json \<Rightarrow> json" where
  "tool_json name description schema =
     JObj [(''description'', JStr description), (''inputSchema'', schema), (''name'', JStr name)]"

definition uuid_schema :: json where
  "uuid_schema = JObj [(''format'', JStr ''uuid''), (''type'', JStr ''string'')]"

definition tools :: "conf \<Rightarrow> json list" where
  "tools c =
     map (\<lambda>t. tool_json (Name t)
                (Title t @ '': '' @ Description t @ ''. Reuse request_key when retrying this call. If running, call again with the same request_key to get its result.'')
                (object_schema [(''arguments'', map_json (InputSchema t)), (''request_key'', key_schema)]
                   [''arguments'', ''request_key''])) (boundTools c)
     @ (if targets c = [] then []
        else
          [tool_json ''delegate_agent''
             ''Delegate an explicit task/context to an allowed Agent. Reuse request_key for retries. One child may run at a time. This returns a Run ID; use wait_delegated_run to obtain its result before finishing.''
             (object_schema
                [(''input'', JObj [(''type'', JStr ''object'')]),
                 (''reason'', JObj [(''maxLength'', JNum ''500''), (''type'', JStr ''string'')]),
                 (''request_key'', key_schema),
                 (''target_agent_id'', JObj [(''enum'', json_strs (targets c)), (''type'', JStr ''string'')])]
                [''target_agent_id'', ''input'', ''request_key'']),
           tool_json ''get_delegated_run''
             ''Read status, output and error of a direct child Run of this active parent.''
             (object_schema [(''child_run_id'', uuid_schema)] [''child_run_id'']),
           tool_json ''wait_delegated_run''
             ''Wait up to 30 seconds for a direct child result. A running response requires another wait. The wait stops with the parent Attempt.''
             (object_schema
                [(''child_run_id'', uuid_schema),
                 (''wait_ms'', JObj [(''default'', JNum ''30000''), (''maximum'', JNum ''30000''),
                                     (''minimum'', JNum ''0''), (''type'', JStr ''integer'')])]
                [''child_run_id''])])"

record rpc_request =
  JSONRPC :: string
  ID :: "json option"
  Method :: string
  Params :: "json option"

definition rpc_fields :: "rpc_request field list" where
  "rpc_fields =
     [(''jsonrpc'', f_string (\<lambda>s r. r\<lparr>JSONRPC := s\<rparr>)), (''id'', f_raw (\<lambda>v r. r\<lparr>ID := v\<rparr>)),
      (''method'', f_string (\<lambda>s r. r\<lparr>Method := s\<rparr>)), (''params'', f_raw (\<lambda>v r. r\<lparr>Params := v\<rparr>))]"

record tool_call =
  CallName :: string
  CallArguments :: "json option"
  CallMeta :: "json option"

definition call_fields :: "tool_call field list" where
  "call_fields =
     [(''name'', f_string (\<lambda>s r. r\<lparr>CallName := s\<rparr>)), (''arguments'', f_raw (\<lambda>v r. r\<lparr>CallArguments := v\<rparr>)),
      (''_meta'', f_raw (\<lambda>v r. r\<lparr>CallMeta := v\<rparr>))]"

definition text_content :: "string \<Rightarrow> json" where
  "text_content t = JArr [JObj [(''text'', JStr t), (''type'', JStr ''text'')]]"

text \<open>What the model is told of a tool call: only the text of a \<open>safeToolError\<close> leaves the broker.\<close>

definition error_reply :: "go_error \<Rightarrow> string" where
  "error_reply err =
     (case err of
        ErrSafeTool m \<Rightarrow> m
      | _ \<Rightarrow> ''Delegation operation failed. Reuse the same request_key when retrying creation.'')"

definition call_reply :: "call_value result \<Rightarrow> json" where
  "call_reply res =
     (case res of
        Inl err \<Rightarrow> JObj [(''content'', text_content (error_reply err)), (''isError'', JBool True)]
      | Inr v \<Rightarrow>
          (let raw = json_marshal (value_json v)
           in if maxMessageBytes < length raw
              then JObj [(''content'', text_content ''Delegated result exceeds the tool response limit.''),
                         (''isError'', JBool True)]
              else JObj [(''content'', text_content raw)]))"

definition initialize_reply :: json where
  "initialize_reply =
     JObj [(''capabilities'', JObj [(''tools'', JObj [])]), (''protocolVersion'', JStr ''2024-11-05''),
           (''serverInfo'', JObj [(''name'', JStr ''openlinker-delegation''), (''version'', JStr ''1'')])]"

definition dispatch :: "env \<Rightarrow> conf \<Rightarrow> rpc_request \<Rightarrow> broker \<Rightarrow> json result \<times> broker" where
  "dispatch e c r b =
     (if JSONRPC r \<noteq> ''2.0'' then (Inl (safe ''invalid JSON-RPC version''), b)
      else if Method r = ''initialize'' then (Inr initialize_reply, b)
      else if Method r = ''ping'' then (Inr (JObj []), b)
      else if Method r = ''tools/list'' then
        (case discover e c b of
           (Some _, b1) \<Rightarrow> (Inl (safe ''tool readiness could not be recorded''), b1)
         | (None, b1) \<Rightarrow> (Inr (JObj [(''tools'', JArr (tools c))]), b1))
      else if Method r = ''tools/call'' then
        (case decodeArguments call_fields \<lparr>CallName = [], CallArguments = None, CallMeta = None\<rparr> (Params r) of
           Inl err \<Rightarrow> (Inl err, b)
         | Inr call \<Rightarrow>
             (case callTool e c (CallName call) (CallArguments call) b of
                (res, b1) \<Rightarrow> (Inr (call_reply res), b1)))
      else (Inl errUnknownMethod, b))"

definition rpc_response :: "json \<Rightarrow> json result \<Rightarrow> json" where
  "rpc_response ident res =
     (case res of
        Inl err \<Rightarrow>
          JObj [(''error'',
                 JObj [(''code'', JNum (if errors_is err errUnknownMethod then ''-32601'' else ''-32602'')),
                       (''message'', JStr (err_text err))]),
                (''id'', ident), (''jsonrpc'', JStr ''2.0'')]
      | Inr v \<Rightarrow> JObj [(''id'', ident), (''jsonrpc'', JStr ''2.0''), (''result'', v)])"

fun serve_lines :: "env \<Rightarrow> conf \<Rightarrow> string list \<Rightarrow> broker \<Rightarrow> broker" where
  "serve_lines e c [] b = b"
| "serve_lines e c (l # ls) b =
     (case Option.bind (json_parse l)
             (decode_struct False rpc_fields \<lparr>JSONRPC = [], ID = None, Method = [], Params = None\<rparr>) of
        None \<Rightarrow> b
      | Some r \<Rightarrow>
          (case ID r of
             None \<Rightarrow> serve_lines e c ls b
           | Some ident \<Rightarrow>
               (case dispatch e c r b of
                  (res, b1) \<Rightarrow>
                    let b2 = ask e (Respond (rpc_response ident res)) b1
                    in if env_sent e (hist b2) then serve_lines e c ls b2 else b2)))"

definition serve :: "env \<Rightarrow> conf \<Rightarrow> string \<Rightarrow> broker \<Rightarrow> broker" where
  "serve e c input b = serve_lines e c (scan_lines maxMessageBytes input) b"

section \<open>Starting and closing\<close>

text \<open>
  What the operating system answers to the calls of \<open>StartBound\<close>, and the directories and
  listeners the broker holds.
\<close>

record file_info =
  fi_setgid :: bool
  fi_is_dir :: bool
  fi_perm :: nat
  fi_owner :: "(int \<times> int) option"

record start_os =
  os_mkdir_temp :: "string result"
  os_lstat :: "string \<Rightarrow> file_info result"
  os_geteuid :: int
  os_listen :: "string \<Rightarrow> go_error option"
  os_chmod :: "string \<Rightarrow> nat \<Rightarrow> go_error option"

datatype resource = TempDir string | Listener string

definition delegationSocketMode :: "start_os \<Rightarrow> string \<Rightarrow> string \<Rightarrow> nat result" where
  "delegationSocketMode os root directory =
     (if root = [] then Inr 384
      else
        (case os_lstat os root of
           Inl err \<Rightarrow> Inl err
         | Inr info \<Rightarrow>
             if \<not> fi_setgid info then Inr 384
             else
               (case fi_owner info of
                  None \<Rightarrow> Inl (ErrNew ''delegation shared root must be owner-controlled with mode 2710'')
                | Some (uid, gid) \<Rightarrow>
                    if \<not> fi_is_dir info \<or> uid \<noteq> os_geteuid os \<or> fi_perm info \<noteq> 456
                    then Inl (ErrNew ''delegation shared root must be owner-controlled with mode 2710'')
                    else
                      (case os_lstat os directory of
                         Inl err \<Rightarrow> Inl err
                       | Inr child \<Rightarrow>
                           if fi_is_dir child \<and> fi_owner child = Some (uid, gid) then Inr 432
                           else Inl (ErrNew ''delegation directory did not inherit the trusted Provider group'')))))"

definition remove_resource :: "resource \<Rightarrow> resource list \<Rightarrow> resource list" where
  "remove_resource r rs = filter (\<lambda>x. x \<noteq> r) rs"

record started =
  Socket :: string
  directory :: string
  st_conf :: conf
  st_broker :: broker

definition start_check :: "string \<Rightarrow> bool \<Rightarrow> bool \<Rightarrow> conf \<Rightarrow> go_error option" where
  "start_check root hasCallAgent hasReadRun c =
     (case ValidateBoundTools (boundTools c) of
        Some err \<Rightarrow> Some err
      | None \<Rightarrow>
          if targets c = [] \<and> boundTools c = [] \<or> \<not> hasCallAgent \<or> \<not> hasReadRun \<or> \<not> uuid_match (runID c)
          then Some (safe ''delegation requires targets and active Attempt callbacks with result support'')
          else
            (case ValidateTargets (targets c) of
               Some err \<Rightarrow> Some err
             | None \<Rightarrow> if root \<noteq> [] \<and> \<not> is_abs root
                       then Some (safe ''delegation broker root must be absolute'') else None))"

definition StartBound ::
  "start_os \<Rightarrow> string \<Rightarrow> bool \<Rightarrow> bool \<Rightarrow> conf \<Rightarrow> resource list \<Rightarrow> started result \<times> resource list" where
  "StartBound os root hasCallAgent hasReadRun c rs =
     (case start_check root hasCallAgent hasReadRun c of
        Some err \<Rightarrow> (Inl err, rs)
      | None \<Rightarrow>
          (case os_mkdir_temp os of
             Inl err \<Rightarrow> (Inl (ErrWrap ''create private delegation directory: '' err []), rs)
           | Inr dir \<Rightarrow>
               (let rs1 = TempDir dir # rs; sock = filepath_join [dir, ''mcp.sock'']
                in case delegationSocketMode os root dir of
                     Inl err \<Rightarrow> (Inl err, remove_resource (TempDir dir) rs1)
                   | Inr mode \<Rightarrow>
                       (case os_listen os sock of
                          Some err \<Rightarrow> (Inl (ErrWrap ''listen on delegation socket: '' err []),
                                       remove_resource (TempDir dir) rs1)
                        | None \<Rightarrow>
                            (let rs2 = Listener sock # rs1;
                                 undo = remove_resource (TempDir dir) (remove_resource (Listener sock) rs2)
                             in case os_chmod os sock mode of
                                  Some err \<Rightarrow> (Inl err, undo)
                                | None \<Rightarrow>
                                    (case (if mode = 432 then os_chmod os dir 456 else None) of
                                       Some err \<Rightarrow> (Inl err, undo)
                                     | None \<Rightarrow>
                                         (Inr \<lparr>Socket = sock, directory = dir, st_conf = c,
                                               st_broker = \<lparr>toolsReady = False, requests = [], clock = 0, hist = []\<rparr>\<rparr>,
                                          rs2)))))))"

definition Close :: "started \<Rightarrow> resource list \<Rightarrow> resource list" where
  "Close s rs = remove_resource (TempDir (directory s)) (remove_resource (Listener (Socket s)) rs)"

text \<open>
  The connections: \<open>accept\<close> admits one while the context lives and fewer than eight are open,
  and a connection leaves when it is served.
\<close>

definition accept :: "bool \<Rightarrow> nat \<Rightarrow> nat list \<Rightarrow> nat list" where
  "accept ctx_done conn conns =
     (if ctx_done \<or> 8 \<le> length conns then conns else conn # conns)"

definition CheckBrokerRoot :: "start_os \<Rightarrow> string \<Rightarrow> resource list \<Rightarrow> go_error option \<times> resource list" where
  "CheckBrokerRoot os root rs =
     (let ident = ''11111111-1111-4111-8111-111111111111''
      in case StartBound os root True True
                \<lparr>runID = ident, targets = [ident], boundTools = [], hasOnTools = False,
                 hasBoundToolUsed = False, decodeSummary = (\<lambda>_. None)\<rparr> rs of
           (Inl err, rs1) \<Rightarrow> (Some err, rs1)
         | (Inr s, rs1) \<Rightarrow> (None, Close s rs1))"

end
