(* ===== verification/Delegation_Safety.thy ===== *)
theory Delegation_Safety
  imports Delegation_Broker
begin

text \<open>
  What the delegation broker guarantees: the invariant of its request table, kept by every
  operation and so by every interleaving of them; which Agents it calls and with which keys;
  replay of a request; the meaning of \<open>EnsureComplete\<close>; the bound on a wait; what leaves the
  broker when a callback fails; and that a failed start leaves nothing behind.
\<close>

section \<open>The environment's obligations\<close>

text \<open>Go ranges over every entry of a map exactly once, in some order.\<close>

definition range_order :: "env \<Rightarrow> bool" where
  "range_order e = (\<forall>h rs. mset (env_order e h rs) = mset rs)"

lemma range_order_set: "range_order e \<Longrightarrow> set (env_order e h rs) = set rs"
  unfolding range_order_def by (metis set_mset_mset)

section \<open>The request table\<close>

definition request_ok :: "delegation_request \<Rightarrow> bool" where
  "request_ok r =
     ((req_run r = [] \<and> \<not> req_terminal r) \<or> (uuid_match (req_run r) \<and> sum_run_id (req_summary r) = req_run r))"

definition key_ok :: "string \<Rightarrow> bool" where
  "key_ok k = (k \<noteq> [] \<and> length k \<le> 128 \<and> trim_space k = k)"

definition live_requests :: "(string \<times> delegation_request) list \<Rightarrow> (string \<times> delegation_request) list" where
  "live_requests rs = filter (\<lambda>(k, r). \<not> req_terminal r) rs"

definition table_ok :: "(string \<times> delegation_request) list \<Rightarrow> bool" where
  "table_ok rs =
     (distinct (map fst rs) \<and> length rs \<le> 64 \<and> (\<forall>(k, r) \<in> set rs. key_ok k \<and> request_ok r)
      \<and> length (live_requests rs) \<le> 1)"

text \<open>Marking requests terminal, the only change to a created request.\<close>

definition mark_where ::
  "(string \<Rightarrow> delegation_request \<Rightarrow> bool) \<Rightarrow> (string \<times> delegation_request) list \<Rightarrow> (string \<times> delegation_request) list" where
  "mark_where P rs = map (\<lambda>(k, r). if P k r then (k, r\<lparr>req_terminal := True\<rparr>) else (k, r)) rs"

lemma mark_where_keys [simp]: "map fst (mark_where P rs) = map fst rs"
  by (auto simp: mark_where_def)

lemma mark_where_length [simp]: "length (mark_where P rs) = length rs"
  by (simp add: mark_where_def)

lemma mark_where_False [simp]: "mark_where (\<lambda>_ _. False) rs = rs"
  by (induction rs) (auto simp: mark_where_def)

lemma mark_where_mark_where:
  "mark_where Q (mark_where P rs) = mark_where (\<lambda>k r. P k r \<or> Q k (if P k r then r\<lparr>req_terminal := True\<rparr> else r)) rs"
  by (auto simp: mark_where_def)

lemma length_live_mark_where: "length (live_requests (mark_where P rs)) \<le> length (live_requests rs)"
  by (induction rs) (auto simp: mark_where_def live_requests_def split: if_splits)

lemma live_requests_Nil_iff: "live_requests rs = [] \<longleftrightarrow> (\<forall>(k, r) \<in> set rs. req_terminal r)"
  by (auto simp: live_requests_def filter_empty_conv)

lemma map_of_mark_where:
  "map_of (mark_where P rs) k = map_option (\<lambda>r. if P k r then r\<lparr>req_terminal := True\<rparr> else r) (map_of rs k)"
  by (induction rs) (auto simp: mark_where_def)

lemma table_ok_mark_where:
  assumes "table_ok rs" and "\<And>k r. (k, r) \<in> set rs \<Longrightarrow> P k r \<Longrightarrow> req_run r \<noteq> []"
  shows "table_ok (mark_where P rs)"
proof -
  have "key_ok k \<and> request_ok (if P k r then r\<lparr>req_terminal := True\<rparr> else r)" if "(k, r) \<in> set rs" for k r
    using assms(1) assms(2) [OF that] that by (auto simp: table_ok_def request_ok_def)
  then have "\<forall>(k, r) \<in> set (mark_where P rs). key_ok k \<and> request_ok r"
    unfolding mark_where_def by (fastforce split: if_splits)
  then show ?thesis
    using assms(1) length_live_mark_where [of P rs] by (simp add: table_ok_def)
qed

lemma assoc_set_mark_where:
  assumes "distinct (map fst rs)" and "(k, r) \<in> set rs"
  shows "assoc_set k (r\<lparr>req_terminal := True\<rparr>) rs = mark_where (\<lambda>k' r'. k' = k \<and> r' = r) rs"
  using assms
proof (induction rs)
  case (Cons p rs)
  obtain k' r' where p: "p = (k', r')" by force
  show ?case
  proof (cases "k' = k")
    case True
    then have "r' = r" using Cons.prems p by force
    moreover have "mark_where (\<lambda>k' r'. k' = k \<and> r' = r) rs = rs"
      using Cons.prems(1) True p by (force simp: mark_where_def intro!: map_idI)
    ultimately show ?thesis using True p by (simp add: mark_where_def)
  next
    case False
    then show ?thesis using Cons p by (auto simp: mark_where_def)
  qed
qed simp

lemma table_ok_fresh:
  assumes "table_ok rs" and "live_requests rs = []" and "map_of rs k = None" and "length rs < 64"
    and "key_ok k" and "request_ok r"
  shows "table_ok (assoc_set k r rs)"
proof -
  have new: "k \<notin> fst ` set rs" using assms(3) by (simp add: map_of_eq_None_iff)
  have "live_requests (rs @ [(k, r)]) = (if req_terminal r then [] else [(k, r)])"
    using assms(2) by (simp add: live_requests_def)
  then show ?thesis
    using assms new unfolding table_ok_def assoc_set_fresh [OF new] by auto
qed

text \<open>Replacing a live entry by a live one keeps the number of live requests.\<close>

lemma live_assoc_set:
  "map_of rs k = Some r \<Longrightarrow> \<not> req_terminal r \<Longrightarrow> length (live_requests (assoc_set k r' rs)) \<le> length (live_requests rs)"
  by (induction k r' rs rule: assoc_set.induct) (auto simp: live_requests_def split: if_splits)

lemma table_ok_replace:
  assumes "table_ok rs" and "map_of rs k = Some r" and "\<not> req_terminal r" and "request_ok r'"
  shows "table_ok (assoc_set k r' rs)"
proof -
  have mem: "(k, r) \<in> set rs" using assms(2) by (rule map_of_SomeD)
  then have "k \<in> fst ` set rs" by force
  moreover have "key_ok k" using assms(1) mem by (auto simp: table_ok_def)
  ultimately show ?thesis
    using assms live_assoc_set [OF assms(2,3), of r'] unfolding table_ok_def
    by (auto simp: set_assoc_set length_assoc_set)
qed

lemma table_ok_del:
  assumes "table_ok rs"
  shows "table_ok (assoc_del k rs)"
proof -
  have "length (live_requests (assoc_del k rs)) \<le> length (live_requests rs)"
    by (induction rs) (auto simp: assoc_del_def live_requests_def)
  then show ?thesis
    using assms length_assoc_del_le [of k rs] by (auto simp: table_ok_def set_assoc_del)
qed

section \<open>What each operation does to the table and the history\<close>

fun agent_calls :: "history \<Rightarrow> (string \<times> json_map \<times> call_options) list" where
  "agent_calls [] = []"
| "agent_calls (CallAgent t i opts # h) = (t, i, opts) # agent_calls h"
| "agent_calls (q # h) = agent_calls h"

lemma agent_calls_append [simp]: "agent_calls (h @ h') = agent_calls h @ agent_calls h'"
  by (induction h rule: agent_calls.induct) auto

text \<open>
  \<open>quiet b b'\<close>: an operation that creates no child. It calls no Agent and only marks created
  requests terminal.
\<close>

definition quiet :: "broker \<Rightarrow> broker \<Rightarrow> bool" where
  "quiet b b' =
     (agent_calls (hist b') = agent_calls (hist b)
      \<and> (\<exists>P. requests b' = mark_where P (requests b) \<and> (\<forall>k r. P k r \<longrightarrow> req_run r \<noteq> [])))"

lemma quietI:
  "requests b' = requests b \<Longrightarrow> agent_calls (hist b') = agent_calls (hist b) \<Longrightarrow> quiet b b'"
  unfolding quiet_def by (metis mark_where_False)

lemma quiet_refl [simp]: "quiet b b"
  by (rule quietI) auto

lemma quiet_trans: "quiet a b \<Longrightarrow> quiet b c \<Longrightarrow> quiet a c"
  unfolding quiet_def
proof (elim conjE exE, intro conjI)
  fix P Q
  assume P: "requests b = mark_where P (requests a)" "\<forall>k r. P k r \<longrightarrow> req_run r \<noteq> []"
    and Q: "requests c = mark_where Q (requests b)" "\<forall>k r. Q k r \<longrightarrow> req_run r \<noteq> []"
  show "\<exists>P. requests c = mark_where P (requests a) \<and> (\<forall>k r. P k r \<longrightarrow> req_run r \<noteq> [])"
    unfolding Q(1) P(1) mark_where_mark_where
  proof (intro exI conjI allI impI)
    show "mark_where (\<lambda>k r. P k r \<or> Q k (if P k r then r\<lparr>req_terminal := True\<rparr> else r)) (requests a)
        = mark_where (\<lambda>k r. P k r \<or> Q k (if P k r then r\<lparr>req_terminal := True\<rparr> else r)) (requests a)" ..
    show "req_run r \<noteq> []" if "P k r \<or> Q k (if P k r then r\<lparr>req_terminal := True\<rparr> else r)" for k r
      using that P(2) Q(2) by (cases "P k r") auto
  qed
qed simp

lemma quiet_table: "quiet b b' \<Longrightarrow> table_ok (requests b) \<Longrightarrow> table_ok (requests b')"
  unfolding quiet_def by (elim conjE exE) (simp add: table_ok_mark_where)

lemma quiet_ask:
  assumes "\<And>t i opts. q \<noteq> CallAgent t i opts"
  shows "quiet b (ask e q b)"
proof (rule quietI)
  have "agent_calls [q] = []" using assms by (cases q) auto
  then show "agent_calls (hist (ask e q b)) = agent_calls (hist b)" by simp
qed simp

lemma quiet_mark_terminal: "rid \<noteq> [] \<Longrightarrow> quiet b (mark_terminal rid b)"
  unfolding quiet_def mark_terminal_def mark_where_def
  by (auto intro!: exI [of _ "\<lambda>k r. req_run r = rid"])

lemma quiet_observe_run: "rid \<noteq> [] \<Longrightarrow> quiet b (observe_run rid r b)"
  by (simp add: observe_run_def quiet_mark_terminal)

lemma quiet_pause: "quiet b (snd (pause e d b))"
  by (rule quietI) simp_all

lemma quiet_discover: "quiet b (snd (discover e c b))"
  by (rule quietI) (auto simp: discover_def Let_def split: option.splits)

lemma quiet_wait_loop:
  "rid \<noteq> [] \<Longrightarrow> quiet b (snd (wait_loop e rid deadline prev b))"
proof (induction e rid deadline prev b rule: wait_loop.induct)
  case (1 e rid deadline prev b)
  let ?b1 = "ask e (ReadRun rid) b"
  have q1: "quiet b ?b1" by (rule quiet_ask) simp
  have q1': "quiet b (ask e CtxErr ?b1)" by (rule quiet_trans [OF q1 quiet_ask]) simp
  show ?case
  proof (cases "env_read e (hist ?b1)")
    case (Inl err)
    then show ?thesis using q1 q1'
      by (subst wait_loop.simps) (auto simp: Let_def split: option.splits)
  next
    case (Inr res)
    show ?thesis
    proof (cases res)
      case None
      then show ?thesis using Inr q1 by (subst wait_loop.simps) (simp add: Let_def)
    next
      case (Some r)
      let ?b2 = "observe_run rid r ?b1"
      let ?d = "min second (deadline - clock ?b2)"
      have q2: "quiet b ?b2" by (rule quiet_trans [OF q1 quiet_observe_run [OF "1.prems"]])
      have q3: "quiet b (snd (pause e ?d ?b2))" by (rule quiet_trans [OF q2 quiet_pause])
      show ?thesis
      proof (cases "dr_status r \<noteq> RunRunning \<or> deadline - clock ?b2 \<le> 0")
        case True
        then show ?thesis using Inr Some q2 by (subst wait_loop.simps) (simp add: Let_def)
      next
        case False
        obtain er b3 where p: "pause e ?d ?b2 = (er, b3)" by force
        have step: "er = None \<Longrightarrow> quiet b3 (snd (wait_loop e rid deadline (Some r) b3))"
          using "1.IH" [OF refl Inr Some refl refl False p [symmetric]] "1.prems" p by simp
        show ?thesis
        proof (cases er)
          case None
          have "wait_loop e rid deadline prev b = wait_loop e rid deadline (Some r) b3"
            using Inr Some False p None by (subst wait_loop.simps) (simp add: Let_def)
          then show ?thesis using step [OF None] q3 p quiet_trans by auto
        next
          case er: (Some err)
          then show ?thesis using Inr Some False p q3 by (subst wait_loop.simps) (simp add: Let_def)
        qed
      qed
    qed
  qed
qed

lemma quiet_cache:
  assumes "distinct (map fst (requests b))" and "(key, r) \<in> set (requests b)" and "req_run r \<noteq> []"
  shows "quiet b (b\<lparr>requests := assoc_set key (r\<lparr>req_terminal := True\<rparr>) (requests b)\<rparr>)"
  unfolding quiet_def using assms
  by (auto simp: assoc_set_mark_where intro!: exI [of _ "\<lambda>k' r'. k' = key \<and> r' = r"])

lemma settle_effect:
  assumes "distinct (map fst (requests b))" and "distinct (map fst rs)" and "set rs \<subseteq> set (requests b)"
  shows "quiet b (snd (settle e u a rs b))"
    and "fst (settle e u a rs b) = None \<Longrightarrow>
         \<forall>k \<in> fst ` set rs. \<exists>r. map_of (requests (snd (settle e u a rs b))) k = Some r \<and> req_terminal r"
proof -
  have "quiet b (snd (settle e u a rs b)) \<and>
    (fst (settle e u a rs b) = None \<longrightarrow>
      (\<forall>k \<in> fst ` set rs. \<exists>r. map_of (requests (snd (settle e u a rs b))) k = Some r \<and> req_terminal r))"
    using assms
  proof (induction rs arbitrary: b)
    case (Cons p rest)
    obtain key pending where p: "p = (key, pending)" by force
    have mem: "(key, pending) \<in> set (requests b)" using Cons.prems(3) p by simp
    have look: "map_of (requests b) key = Some pending" using Cons.prems(1) mem by simp
    have keep: "map_of (requests b') k = Some r'" if "quiet b b'" "map_of (requests b) k = Some r" "req_terminal r"
      "r' = r" for b b' k r r'
      using that by (auto simp: quiet_def map_of_mark_where)
    show ?case
    proof (cases "req_terminal pending")
      case True
      have ih: "quiet b (snd (settle e u a rest b)) \<and> (fst (settle e u a rest b) = None \<longrightarrow>
        (\<forall>k \<in> fst ` set rest. \<exists>r. map_of (requests (snd (settle e u a rest b))) k = Some r \<and> req_terminal r))"
        using Cons by simp
      then show ?thesis using True p keep [OF _ look True refl] by auto
    next
      case live: False
      let ?b1 = "ask e (ReadRun (req_run pending)) b"
      have q1: "quiet b ?b1" by (rule quiet_ask) simp
      show ?thesis
      proof (cases "req_run pending = [] \<or> (\<exists>err. env_read e (hist ?b1) = Inl err) \<or>
          (\<exists>st. env_read e (hist ?b1) = Inr st \<and> \<not> terminalRun st)")
        case True
        then show ?thesis using live p q1 by (auto simp: Let_def)
      next
        case False
        let ?b2 = "?b1\<lparr>requests := assoc_set key (pending\<lparr>req_terminal := True\<rparr>) (requests ?b1)\<rparr>"
        obtain st where st: "env_read e (hist ?b1) = Inr st" "terminalRun st"
          using False by (cases "env_read e (hist ?b1)") auto
        have eq: "settle e u a (p # rest) b = settle e u a rest ?b2"
          using live False st p by (simp add: Let_def)
        have q2: "quiet b ?b2"
          by (rule quiet_trans [OF q1 quiet_cache]) (use mem Cons.prems(1) False in auto)
        have sub: "set rest \<subseteq> set (requests ?b2)"
          using Cons.prems p by (force simp: set_assoc_set)
        have d2: "distinct (map fst (requests ?b2))" using Cons.prems(1) by simp
        have ih: "quiet ?b2 (snd (settle e u a rest ?b2)) \<and> (fst (settle e u a rest ?b2) = None \<longrightarrow>
          (\<forall>k \<in> fst ` set rest. \<exists>r. map_of (requests (snd (settle e u a rest ?b2))) k = Some r \<and> req_terminal r))"
          using Cons.IH [OF d2 _ sub] Cons.prems(2) by simp
        have "map_of (requests (snd (settle e u a rest ?b2))) key = Some (pending\<lparr>req_terminal := True\<rparr>)"
          by (rule keep [OF ih [THEN conjunct1]]) simp_all
        then show ?thesis
          using ih quiet_trans [OF q2] p unfolding eq by auto
      qed
    qed
  qed simp
  then show "quiet b (snd (settle e u a rs b))"
    and "fst (settle e u a rs b) = None \<Longrightarrow>
         \<forall>k \<in> fst ` set rs. \<exists>r. map_of (requests (snd (settle e u a rs b))) k = Some r \<and> req_terminal r"
    by blast+
qed

lemma settle_live:
  assumes "range_order e" and "table_ok (requests b)"
  shows "quiet b (snd (settle e u a (env_order e (hist b) (requests b)) b))"
    and "fst (settle e u a (env_order e (hist b) (requests b)) b) = None \<Longrightarrow>
         live_requests (requests (snd (settle e u a (env_order e (hist b) (requests b)) b))) = []"
proof -
  let ?rs = "env_order e (hist b) (requests b)"
  let ?b' = "snd (settle e u a ?rs b)"
  have m: "mset ?rs = mset (requests b)" using assms(1) by (simp add: range_order_def)
  have d: "distinct (map fst (requests b))" using assms(2) by (simp add: table_ok_def)
  have "mset (map fst ?rs) = mset (map fst (requests b))" using m by simp
  then have d': "distinct (map fst ?rs)" using d by (metis mset_eq_imp_distinct_iff)
  have set: "set ?rs = set (requests b)" by (rule range_order_set [OF assms(1)])
  have sub: "set ?rs \<subseteq> set (requests b)" using set by simp
  show q: "quiet b ?b'" by (rule settle_effect(1) [OF d d' sub])
  then have keys: "map fst (requests ?b') = map fst (requests b)" by (auto simp: quiet_def)
  assume "fst (settle e u a ?rs b) = None"
  from settle_effect(2) [OF d d' sub this] have all:
    "\<forall>k \<in> fst ` set (requests b). \<exists>r. map_of (requests ?b') k = Some r \<and> req_terminal r" by (simp add: set)
  have "req_terminal r" if "(k, r) \<in> set (requests ?b')" for k r
  proof -
    have "k \<in> fst ` set (requests b)" using that keys by (metis fst_conv image_eqI list.set_map)
    moreover have "map_of (requests ?b') k = Some r" using that keys d by (simp add: map_of_is_SomeI)
    ultimately show ?thesis using all by force
  qed
  then show "live_requests (requests ?b') = []" by (auto simp: live_requests_Nil_iff)
qed

section \<open>How the broker may evolve\<close>

text \<open>A created request keeps its digest, its Run and its summary, and stays terminal once it is.\<close>

definition keeps :: "broker \<Rightarrow> broker \<Rightarrow> bool" where
  "keeps b b' =
     (\<forall>k r. map_of (requests b) k = Some r \<and> req_run r \<noteq> [] \<longrightarrow>
        (\<exists>r'. map_of (requests b') k = Some r' \<and> req_digest r' = req_digest r \<and> req_run r' = req_run r
           \<and> req_summary r' = req_summary r \<and> (req_terminal r \<longrightarrow> req_terminal r')))"

text \<open>
  An Agent call the configuration allows: the target is a configured one, or the call carries
  the metadata of a bound tool with that target; the input is present, the reason is short and
  the idempotency key is the fixed prefix and a hex digest.
\<close>

definition binding_metadata :: "bound_tool \<Rightarrow> json" where
  "binding_metadata t =
     JObj [(CallMetadataKey, JObj [(''binding_id'', JStr (BindingID t)), (''digest'', JStr (Digest t))])]"

definition allowed_call :: "conf \<Rightarrow> string \<times> json_map \<times> call_options \<Rightarrow> bool" where
  "allowed_call c call =
     (case call of (t, i, opts) \<Rightarrow>
        i \<noteq> None \<and> length (runes (opt_reason opts)) \<le> 500
        \<and> has_prefix (opt_key opts) ''native-delegation-'' \<and> length (opt_key opts) = 82
        \<and> (t \<in> set (targets c) \<and> (opt_metadata opts = JNull \<or> opt_metadata opts \<in> binding_metadata ` set (boundTools c))
           \<or> (\<exists>tool \<in> set (boundTools c). TargetID tool = t \<and> opt_metadata opts = binding_metadata tool)))"

definition evolves :: "conf \<Rightarrow> broker \<Rightarrow> broker \<Rightarrow> bool" where
  "evolves c b b' =
     (table_ok (requests b') \<and> keeps b b'
      \<and> (\<exists>new. agent_calls (hist b') = agent_calls (hist b) @ new \<and> list_all (allowed_call c) new))"

lemma quiet_keeps: "quiet b b' \<Longrightarrow> keeps b b'"
  by (auto simp: quiet_def keeps_def map_of_mark_where)

lemma quiet_evolves: "quiet b b' \<Longrightarrow> table_ok (requests b) \<Longrightarrow> evolves c b b'"
  unfolding evolves_def by (auto simp: quiet_table quiet_keeps) (auto simp: quiet_def)

lemma keeps_trans: "keeps a b \<Longrightarrow> keeps b d \<Longrightarrow> keeps a d"
  unfolding keeps_def by metis

lemma evolves_trans: "evolves c a b \<Longrightarrow> evolves c b d \<Longrightarrow> evolves c a d"
  unfolding evolves_def by (auto intro: keeps_trans)

definition bound_ok :: "conf \<Rightarrow> bound_tool option \<Rightarrow> bool" where
  "bound_ok c bound = (case bound of None \<Rightarrow> True | Some t \<Rightarrow> t \<in> set (boundTools c))"

lemma allowed_options:
  assumes "delegate_valid c bound r" and "bound_ok c bound"
  shows "allowed_call c (Target r, Input r, delegate_options c bound r)"
  using assms
  by (auto simp: allowed_call_def delegate_valid_def delegate_allowed_def delegate_options_def bound_ok_def
      idempotency_key_def binding_metadata_def has_prefix_iff split: option.splits)

lemma create_child_evolves:
  assumes tab: "table_ok (requests b)" and look: "map_of (requests b) (Key r) = Some p" "req_run p = []"
    and ok: "delegate_valid c bound r" "bound_ok c bound"
  shows "evolves c b (snd (create_child e c bound r known b))"
proof -
  let ?b1 = "ask e (CallAgent (Target r) (Input r) (delegate_options c bound r)) b"
  let ?b' = "snd (create_child e c bound r known b)"
  have calls: "agent_calls (hist ?b') = agent_calls (hist b) @ [(Target r, Input r, delegate_options c bound r)]"
    by (auto simp: create_child_def Let_def split: sum.splits option.splits)
  have live: "\<not> req_terminal p"
    using tab look map_of_SomeD [OF look(1)] by (auto simp: table_ok_def request_ok_def uuid_match_def)
  have reqs: "requests ?b' = requests b \<or> requests ?b' = assoc_del (Key r) (requests b)
    \<or> (\<exists>r'. requests ?b' = assoc_set (Key r) r' (requests b) \<and> request_ok r')"
    by (auto simp: create_child_def Let_def request_ok_def split: sum.splits option.splits)
  have "table_ok (requests ?b')"
    using reqs tab table_ok_del table_ok_replace [OF tab look(1) live] by auto
  moreover have "keeps b ?b'" using reqs look by (auto simp: keeps_def)
  ultimately show ?thesis using calls allowed_options [OF ok] by (simp add: evolves_def)
qed

lemma delegate_agent_evolves:
  assumes ro: "range_order e" and tab: "table_ok (requests b)" and ok: "bound_ok c bound"
  shows "evolves c b (snd (delegate_agent e c bound raw b))"
proof (cases "decodeArguments delegate_fields zero_delegate raw")
  case (Inl err)
  then show ?thesis using tab by (simp add: delegate_agent_def quiet_evolves)
next
  case (Inr r)
  note dec = Inr
  show ?thesis
  proof (cases "delegate_valid c bound r")
    case False
    then show ?thesis using tab dec by (simp add: delegate_agent_def quiet_evolves)
  next
    case valid: True
    show ?thesis
    proof (cases "map_of (requests b) (Key r)")
      case (Some previous)
      then show ?thesis
        using tab dec valid ok create_child_evolves [OF tab Some _ valid ok]
        by (auto simp: delegate_agent_def quiet_evolves)
    next
      case None
      let ?u = "safe ''retry the unresolved delegation request first''"
      let ?a = "\<lambda>_::string. safe ''wait for the active delegated Run first''"
      obtain er b1 where st: "settle e ?u ?a (env_order e (hist b) (requests b)) b = (er, b1)" by force
      have q: "quiet b b1" using settle_live(1) [OF ro tab, of ?u ?a] st by simp
      then have t1: "table_ok (requests b1)" by (rule quiet_table) (rule tab)
      let ?new = "\<lparr>req_digest = request_digest r, req_run = [], req_terminal = False, req_summary = zero_summary\<rparr>"
      let ?b2 = "b1\<lparr>requests := assoc_set (Key r) ?new (requests b1)\<rparr>"
      have none1: "map_of (requests b1) (Key r) = None" using q None by (auto simp: quiet_def map_of_mark_where)
      have len1: "length (requests b1) = length (requests b)" using q by (auto simp: quiet_def)
      have key: "key_ok (Key r)" using valid by (auto simp: delegate_valid_def key_ok_def)
      have "evolves c b (snd (create_child e c bound r False ?b2))" if "er = None" "length (requests b) < 64"
      proof -
        have "live_requests (requests b1) = []" using settle_live(2) [OF ro tab, of ?u ?a] st that(1) by simp
        then have t2: "table_ok (requests ?b2)"
          using table_ok_fresh [OF t1 _ none1 _ key, of ?new] len1 that(2) by (simp add: request_ok_def)
        have "evolves c b1 ?b2" using t2 none1 by (auto simp: evolves_def keeps_def)
        moreover have "evolves c ?b2 (snd (create_child e c bound r False ?b2))"
          by (rule create_child_evolves [OF t2 _ _ valid ok]) auto
        ultimately show ?thesis using quiet_evolves [OF q tab] evolves_trans by blast
      qed
      then show ?thesis
        using dec valid None st quiet_evolves [OF q tab] quiet_evolves [OF quiet_refl tab]
        by (cases er) (auto simp: delegate_agent_def)
    qed
  qed
qed

lemma uuid_match_nonempty: "uuid_match rid \<Longrightarrow> rid \<noteq> []"
  by (auto simp: uuid_match_def)

lemma quiet_read: "quiet b (snd (read_delegated_run e w raw b))"
  by (auto simp: read_delegated_run_def Let_def intro: quiet_wait_loop dest: uuid_match_nonempty split: sum.splits)

lemma callWithBinding_evolves:
  assumes "range_order e" and "table_ok (requests b)" and "bound_ok c bound"
  shows "evolves c b (snd (callWithBinding e c name raw bound b))"
proof -
  let ?b1 = "ask e CtxErr b"
  have q: "evolves c b ?b1" by (rule quiet_evolves [OF quiet_ask assms(2)]) simp
  have t: "table_ok (requests ?b1)" using assms(2) by simp
  have d: "evolves c b (snd (delegate_agent e c bound raw ?b1))"
    by (rule evolves_trans [OF q delegate_agent_evolves [OF assms(1) t assms(3)]])
  have r: "evolves c b (snd (read_delegated_run e w raw ?b1))" for w
    by (rule evolves_trans [OF q quiet_evolves [OF quiet_read t]])
  show ?thesis using q d r by (auto simp: callWithBinding_def Let_def split: option.splits)
qed

lemma EnsureComplete_evolves:
  assumes "range_order e" and "table_ok (requests b)"
  shows "evolves c b (snd (EnsureComplete e c b))"
  using assms quiet_evolves [OF settle_live(1) [OF assms] assms(2)] quiet_evolves [OF quiet_refl assms(2)]
  by (auto simp: EnsureComplete_def)

section \<open>Every interleaving of operations\<close>

text \<open>
  One step of a running broker: a section under the \<open>calls\<close> mutex (a tool call, or
  \<open>EnsureComplete\<close>), a discovery of the tools, or a question outside the mutex. Connections
  interleave these steps in any way; the environment may differ from step to step.
\<close>

inductive broker_step :: "conf \<Rightarrow> broker \<Rightarrow> broker \<Rightarrow> bool" for c where
  locked: "range_order e \<Longrightarrow> bound_ok c bound \<Longrightarrow> b' = snd (callWithBinding e c name raw bound b)
    \<Longrightarrow> broker_step c b b'"
| ensure: "range_order e \<Longrightarrow> b' = snd (EnsureComplete e c b) \<Longrightarrow> broker_step c b b'"
| discovery: "b' = snd (discover e c b) \<Longrightarrow> broker_step c b b'"
| used: "b' = ask e (BoundToolUsed t) b \<Longrightarrow> broker_step c b b'"
| respond: "b' = ask e (Respond j) b \<Longrightarrow> broker_step c b b'"

lemma broker_step_evolves: "broker_step c b b' \<Longrightarrow> table_ok (requests b) \<Longrightarrow> evolves c b b'"
proof (induction rule: broker_step.induct)
  case (locked e bound b' name raw b)
  then show ?case by (simp add: callWithBinding_evolves)
next
  case (ensure e b' b)
  then show ?case by (simp add: EnsureComplete_evolves)
qed (auto intro!: quiet_evolves quiet_discover quiet_ask)

definition broker_run :: "conf \<Rightarrow> broker \<Rightarrow> broker \<Rightarrow> bool" where
  "broker_run c = (broker_step c)\<^sup>*\<^sup>*"

lemma broker_run_evolves: "broker_run c b b' \<Longrightarrow> table_ok (requests b) \<Longrightarrow> evolves c b b'"
  unfolding broker_run_def
proof (induction rule: rtranclp_induct)
  case base
  then show ?case by (simp add: quiet_evolves)
next
  case (step y z)
  then show ?case using broker_step_evolves evolves_trans by (metis evolves_def)
qed

definition initial_broker :: broker where
  "initial_broker = \<lparr>toolsReady = False, requests = [], clock = 0, hist = []\<rparr>"

lemma table_ok_initial [simp]: "table_ok (requests initial_broker)"
  by (simp add: initial_broker_def table_ok_def live_requests_def)

text \<open>The methods of the MCP connection are runs of these steps.\<close>

lemma run_refl [simp]: "broker_run c b b"
  by (simp add: broker_run_def)

lemma run_step: "broker_run c a b \<Longrightarrow> broker_step c b d \<Longrightarrow> broker_run c a d"
  by (simp add: broker_run_def)

lemma run_trans: "broker_run c a b \<Longrightarrow> broker_run c b d \<Longrightarrow> broker_run c a d"
  by (simp add: broker_run_def)

lemma bound_result_run: "broker_run c b (snd (bound_result e c t v b))"
  by (auto simp: bound_result_def Let_def split: call_value.splits option.splits
      intro: run_step [OF run_refl] broker_step.used)

lemma lock_run:
  assumes "range_order e" and "bound_ok c bound"
    and "callWithBinding e c name raw bound b = (res, b')"
  shows "broker_run c b b'"
  using broker_step.locked [OF assms(1,2), of b' name raw b] assms(3) by (auto intro: run_step [OF run_refl])

lemma discover_run: "discover e c b = (res, b') \<Longrightarrow> broker_run c b b'"
  using broker_step.discovery [of b' e c b] by (auto intro: run_step [OF run_refl])

lemma call_bound_run:
  assumes ro: "range_order e" and t: "t \<in> set (boundTools c)"
  shows "broker_run c b (snd (call_bound e c t raw b))"
proof -
  obtain er b1 where d: "(if toolsReady b then (None, b) else discover e c b) = (er, b1)" by force
  have r1: "broker_run c b b1" using d by (cases "toolsReady b") (auto intro: discover_run)
  have r2: "broker_run c b b2" if "callWithBinding e c name raw' (Some t) b1 = (res, b2)" for name raw' res b2
    by (rule run_trans [OF r1 lock_run [OF ro _ that]]) (simp add: bound_ok_def t)
  have r3: "broker_run c b b3" if "callWithBinding e c name raw' (Some t) b1 = (res, b2)"
    "callWithBinding e c name' raw'' None b2 = (res', b3)" for name raw' res b2 name' raw'' res' b3
    by (rule run_trans [OF r2 [OF that(1)] lock_run [OF ro _ that(2)]]) (simp add: bound_ok_def)
  show ?thesis
    unfolding call_bound_def d
    by (auto split: option.splits sum.splits call_value.splits prod.splits
        intro: r1 r2 r3 run_trans [OF r3 bound_result_run])
qed

lemma callTool_run:
  assumes "range_order e"
  shows "broker_run c b (snd (callTool e c name raw b))"
proof -
  have "t \<in> set (boundTools c)" if "find (\<lambda>t. Name t = name) (boundTools c) = Some t" for t
    using that by (auto simp: find_Some_iff)
  then show ?thesis
    using assms call_bound_run [OF assms] broker_step.locked [OF assms _ refl, where c = c and bound = None]
    by (auto simp: callTool_def bound_ok_def split: option.splits intro: run_step [OF run_refl])
qed

lemma dispatch_run: "range_order e \<Longrightarrow> broker_run c b (snd (dispatch e c r b))"
proof -
  assume ro: "range_order e"
  have disc: "broker_run c b (snd (discover e c b))"
    by (rule run_step [OF run_refl]) (rule broker_step.discovery [OF refl])
  have call: "broker_run c b (snd (callTool e c name raw b))" for name raw
    by (rule callTool_run [OF ro])
  show ?thesis using disc call unfolding dispatch_def
    by (auto split: prod.splits option.splits sum.splits) (metis snd_conv)+
qed

lemma serve_lines_run: "range_order e \<Longrightarrow> broker_run c b (serve_lines e c ls b)"
proof (induction ls arbitrary: b)
  case (Cons l ls)
  have turn: "broker_run c b (ask e (Respond j) (snd (dispatch e c r b)))" for r j
    by (rule run_step [OF dispatch_run [OF Cons.prems]]) (rule broker_step.respond [OF refl])
  have next_line: "broker_run c b (serve_lines e c ls (ask e (Respond j) (snd (dispatch e c r b))))" for r j
    by (rule run_trans [OF turn Cons.IH [OF Cons.prems]])
  show ?case using turn next_line Cons
    by (auto simp: Let_def split: option.splits prod.splits) (metis snd_conv)+
qed simp

lemma serve_run: "range_order e \<Longrightarrow> broker_run c b (serve e c input b)"
  unfolding serve_def by (rule serve_lines_run)

section \<open>A concrete configuration\<close>

definition demo_agent :: string where
  "demo_agent = ''22222222-2222-4222-8222-222222222222''"

definition demo_child :: string where
  "demo_child = ''33333333-3333-4333-8333-333333333333''"

definition demo_conf :: conf where
  "demo_conf =
     \<lparr>runID = ''11111111-1111-4111-8111-111111111111'', targets = [demo_agent], boundTools = [],
      hasOnTools = False, hasBoundToolUsed = False,
      decodeSummary = (\<lambda>j. Some \<lparr>sum_run_id = demo_child, sum_body = j\<rparr>)\<rparr>"

text \<open>An environment that creates the child, and one whose first call is lost.\<close>

definition demo_env :: env where
  "demo_env =
     \<lparr>env_ctx = (\<lambda>_. None), env_call = (\<lambda>_. Inr JNull),
      env_read = (\<lambda>_. Inr (Some \<lparr>dr_status = RunSuccess, dr_output = JStr ''done'', dr_body = JNull\<rparr>)),
      env_done = (\<lambda>_. None), env_sent = (\<lambda>_. True), env_tools = (\<lambda>_. None), env_used = (\<lambda>_. None),
      env_elapsed = (\<lambda>_. 1), env_order = (\<lambda>_ rs. rs)\<rparr>"

definition lost_env :: env where
  "lost_env = demo_env\<lparr>env_call := (\<lambda>_. Inl (ErrNew ''connection reset''))\<rparr>"

definition demo_args :: "string \<Rightarrow> json" where
  "demo_args key =
     JObj [(''target_agent_id'', JStr demo_agent), (''input'', JObj []), (''request_key'', JStr key)]"

definition demo_request :: "string \<Rightarrow> delegate_args" where
  "demo_request key = \<lparr>Target = demo_agent, Input = Some [], Reason = [], Key = key\<rparr>"

lemma demo_range_order [simp]: "range_order demo_env" "range_order lost_env"
  by (simp_all add: range_order_def demo_env_def lost_env_def)

lemma demo_uuid [simp]: "uuid_match demo_child" "uuid_match demo_agent"
  by code_simp+

lemma demo_decode: "decodeArguments delegate_fields zero_delegate (Some (demo_args key)) = Inr (demo_request key)"
  by (simp add: decodeArguments_def decode_struct_def demo_args_def delegate_fields_def find_field_def
      field_defs zero_delegate_def demo_request_def)

lemma demo_valid [simp]: "delegate_valid demo_conf None (demo_request ''k1'')" "delegate_valid demo_conf None (demo_request ''k2'')"
  by code_simp+

lemma demo_simps [simp]:
  "env_ctx demo_env h = None" "env_call demo_env h = Inr JNull" "env_elapsed demo_env h = 1"
  "env_order demo_env h rs = rs" "env_done demo_env h = None"
  "env_read demo_env h = Inr (Some \<lparr>dr_status = RunSuccess, dr_output = JStr ''done'', dr_body = JNull\<rparr>)"
  "env_ctx lost_env h = None" "env_call lost_env h = Inl (ErrNew ''connection reset'')"
  "env_order lost_env h rs = rs"
  "decodeSummary demo_conf j = Some \<lparr>sum_run_id = demo_child, sum_body = j\<rparr>"
  "Target (demo_request key) = demo_agent" "Input (demo_request key) = Some []" "Key (demo_request key) = key"
  by (simp_all add: demo_env_def lost_env_def demo_conf_def demo_request_def)

section \<open>Reads of a wait\<close>

definition run_reads :: "history \<Rightarrow> nat" where
  "run_reads h = length (filter (\<lambda>q. case q of ReadRun _ \<Rightarrow> True | _ \<Rightarrow> False) h)"

lemma run_reads_simps [simp]:
  "run_reads (h @ h') = run_reads h + run_reads h'"
  "run_reads [] = 0" "run_reads (ReadRun rid # h) = Suc (run_reads h)"
  "run_reads (CtxErr # h) = run_reads h" "run_reads (Sleep d # h) = run_reads h"
  by (simp_all add: run_reads_def)

text \<open>The rounds a wait may take: the remaining time in started seconds.\<close>

definition rounds :: "int \<Rightarrow> nat" where
  "rounds rest = nat ((rest + second - 1) div second)"

lemma rounds_step:
  assumes "0 < rest" and "rest' \<le> rest - min second rest"
  shows "Suc (rounds rest') \<le> rounds rest"
proof (cases "second \<le> rest")
  case True
  then have "rest' + second - 1 + 1 * second \<le> rest + second - 1" using assms(2) by simp
  then have "(rest' + second - 1 + 1 * second) div second \<le> (rest + second - 1) div second"
    by (intro zdiv_mono1) (simp_all add: second_def)
  moreover have "(rest' + second - 1 + 1 * second) div second = (rest' + second - 1) div second + 1"
    by (subst div_mult_self1) (simp_all add: second_def)
  moreover have "1 \<le> (rest + second - 1) div second" using True by (simp add: second_def)
  ultimately show ?thesis by (simp add: rounds_def)
next
  case False
  then have "(rest' + second - 1) div second \<le> 0" using assms(2) by (simp add: second_def)
  moreover have "1 \<le> (rest + second - 1) div second" using assms(1) by (simp add: second_def)
  ultimately show ?thesis by (simp add: rounds_def)
qed

lemma rounds_mono: "rest' \<le> rest \<Longrightarrow> rounds rest' \<le> rounds rest"
  unfolding rounds_def by (intro nat_mono zdiv_mono1) (simp_all add: second_def)

lemma wait_loop_reads:
  "run_reads (hist (snd (wait_loop e rid deadline prev b))) \<le> run_reads (hist b) + 1 + rounds (deadline - clock b)"
proof (induction e rid deadline prev b rule: wait_loop.induct)
  case (1 e rid deadline prev b)
  let ?b1 = "ask e (ReadRun rid) b"
  show ?case
  proof (cases "env_read e (hist ?b1)")
    case (Inl err)
    then show ?thesis by (subst wait_loop.simps) (auto simp: Let_def split: option.splits)
  next
    case (Inr res)
    show ?thesis
    proof (cases "\<exists>r. res = Some r \<and> dr_status r = RunRunning \<and> clock ?b1 < deadline")
      case False
      then show ?thesis using Inr
        by (subst wait_loop.simps) (auto simp: Let_def not_less split: option.splits)
    next
      case True
      then obtain r where r: "res = Some r" "dr_status r = RunRunning" "clock ?b1 < deadline" by blast
      let ?b2 = "observe_run rid r ?b1"
      let ?d = "min second (deadline - clock ?b2)"
      obtain er b3 where p: "pause e ?d ?b2 = (er, b3)" by force
      have h3: "run_reads (hist b3) = Suc (run_reads (hist b))"
        using pause_simps(3) [of e ?d ?b2] unfolding p snd_conv by simp
      have eq: "wait_loop e rid deadline prev b =
          (case er of Some err \<Rightarrow> (Inl err, b3) | None \<Rightarrow> wait_loop e rid deadline (Some r) b3)"
        using Inr r p by (subst wait_loop.simps) (simp add: Let_def)
      show ?thesis
      proof (cases er)
        case None
        have go: "\<not> (dr_status r \<noteq> RunRunning \<or> deadline - clock ?b2 \<le> 0)" using r by simp
        have ih: "run_reads (hist (snd (wait_loop e rid deadline (Some r) b3)))
            \<le> run_reads (hist b3) + 1 + rounds (deadline - clock b3)"
          using "1.IH" [OF refl Inr r(1) refl refl go p [symmetric]] None by simp
        have "clock ?b1 + ?d \<le> clock b3" using clock_pause [of e ?d ?b2 b3] p None by simp
        then have "Suc (rounds (deadline - clock b3)) \<le> rounds (deadline - clock ?b1)"
          using rounds_step [of "deadline - clock ?b1" "deadline - clock b3"] r(3) by simp
        also have "\<dots> \<le> rounds (deadline - clock b)"
          by (rule rounds_mono) (simp add: clock_ask)
        finally show ?thesis using ih h3 eq None by simp
      next
        case (Some err)
        then show ?thesis using eq h3 by simp
      qed
    qed
  qed
qed

section \<open>What a failed call tells\<close>

text \<open>Every text the broker itself can put into an answer.\<close>

definition public_texts :: "string list" where
  "public_texts =
     [''Delegation operation failed. Reuse the same request_key when retrying creation.'',
      ''unknown delegation MCP method'', ''invalid JSON-RPC version'', ''tool readiness could not be recorded'',
      ''invalid delegation arguments'', ''invalid delegation request'',
      ''request_key conflicts with a previous request'', ''delegation request limit reached'',
      ''retry the unresolved delegation request first'', ''wait for the active delegated Run first'',
      ''invalid delegated Run response'', ''invalid delegated Run read'', ''missing delegated Run result'',
      ''unknown delegation tool'', ''unknown MCP tool'', ''arguments and request_key are required'',
      ''invalid MCP execution response'', ''missing MCP execution result'',
      ''MCP tool execution failed. Its access may have changed; ask the Agent owner to review the tool configuration.'',
      ''Delegation rejected: permission denied. No child was created; you may continue or choose another allowed Agent.'',
      ''Delegation rejected: authorization is invalid. No child was created.'',
      ''Delegation rejected: invalid request. No child was created; correct the request before retrying.'',
      ''Delegation rejected: rate limit reached. No child was created; retry later.'']"

text \<open>
  The type \<open>safeToolError\<close> is private to the package, so no callback returns one.
\<close>

definition foreign_errors :: "env \<Rightarrow> bool" where
  "foreign_errors e =
     (\<forall>h m. env_ctx e h \<noteq> Some (ErrSafeTool m) \<and> env_call e h \<noteq> Inl (ErrSafeTool m)
        \<and> env_read e h \<noteq> Inl (ErrSafeTool m) \<and> env_done e h \<noteq> Some (ErrSafeTool m)
        \<and> env_tools e h \<noteq> Some (ErrSafeTool m) \<and> env_used e h \<noteq> Some (ErrSafeTool m))"

definition tame :: "go_error \<Rightarrow> bool" where
  "tame err = (\<forall>m. err = ErrSafeTool m \<longrightarrow> m \<in> set public_texts)"

lemma tame_safe: "m \<in> set public_texts \<Longrightarrow> tame (safe m)"
  by (simp add: tame_def safe_def)

lemma tame_foreign:
  assumes "foreign_errors e"
  shows "env_ctx e h = Some err \<Longrightarrow> tame err" "env_call e h = Inl err \<Longrightarrow> tame err"
    "env_read e h = Inl err \<Longrightarrow> tame err" "env_done e h = Some err \<Longrightarrow> tame err"
    "env_tools e h = Some err \<Longrightarrow> tame err" "env_used e h = Some err \<Longrightarrow> tame err"
  using assms unfolding foreign_errors_def tame_def by blast+

lemma error_reply_tame: "tame err \<Longrightarrow> error_reply err \<in> set public_texts"
  by (cases err) (auto simp: error_reply_def tame_def public_texts_def)

lemma definiteRejection_public: "definiteRejection err \<noteq> [] \<Longrightarrow> definiteRejection err \<in> set public_texts"
  by (auto simp: definiteRejection_def public_texts_def split: option.splits if_splits)

lemma tame_decode: "decodeArguments fs z raw = Inl err \<Longrightarrow> tame err"
  by (auto simp: decodeArguments_def tame_def safe_def public_texts_def split: option.splits)

lemma tame_settle:
  assumes "foreign_errors e" and "tame u" and "\<And>rid. tame (a rid)"
  shows "fst (settle e u a rs b) = Some err \<Longrightarrow> tame err"
  using assms
  by (induction e u a rs b rule: settle.induct)
    (auto simp: Let_def split: if_splits sum.splits dest: tame_foreign)

lemma tame_create_child:
  "foreign_errors e \<Longrightarrow> fst (create_child e c bound r known b) = Inl err \<Longrightarrow> tame err"
  using definiteRejection_public
  by (auto simp: create_child_def Let_def split: sum.splits option.splits if_splits
      intro: tame_safe dest: tame_foreign) (auto intro!: tame_safe simp: public_texts_def)

lemma tame_delegate_agent:
  assumes "foreign_errors e" and "fst (delegate_agent e c bound raw b) = Inl err"
  shows "tame err"
proof -
  have retry: "tame (safe ''retry the unresolved delegation request first'')"
    and wait: "tame (safe ''wait for the active delegated Run first'')"
    by (auto intro!: tame_safe simp: public_texts_def)
  have "tame err'" if "settle e (safe ''retry the unresolved delegation request first'')
      (\<lambda>_. safe ''wait for the active delegated Run first'') rs b = (Some err', b')" for rs err' b'
    by (rule tame_settle [OF assms(1) retry, of "\<lambda>_. safe ''wait for the active delegated Run first''" rs b])
      (use wait that in simp_all)
  then show ?thesis
    using assms(2) tame_create_child [OF assms(1)]
    by (auto simp: delegate_agent_def split: sum.splits option.splits if_splits prod.splits
        intro!: tame_safe intro: tame_decode) (auto simp: public_texts_def)
qed

lemma tame_wait_loop:
  "foreign_errors e \<Longrightarrow> fst (wait_loop e rid deadline prev b) = Inl err \<Longrightarrow> tame err"
proof (induction e rid deadline prev b rule: wait_loop.induct)
  case (1 e rid deadline prev b)
  have missing: "tame (safe ''missing delegated Run result'')"
    by (rule tame_safe) (simp add: public_texts_def)
  have stop: "tame err'" if "pause e d b' = (Some err', b'')" for d b' b'' err'
    using that tame_foreign(4) [OF "1.prems"(1)] by (auto simp: pause_def Let_def split: option.splits)
  have again: "tame err" if "env_read e (hist (ask e (ReadRun rid) b)) = Inr (Some r)"
    "dr_status r = RunRunning" "\<not> deadline - clock (ask e (ReadRun rid) b) \<le> 0"
    "pause e (min second (deadline - clock (ask e (ReadRun rid) b))) (observe_run rid r (ask e (ReadRun rid) b)) = (None, b3)"
    "fst (wait_loop e rid deadline (Some r) b3) = Inl err" for r b3
    using that "1.IH" [OF refl that(1) refl refl refl _ _ refl "1.prems"(1) that(5)] by simp
  show ?case
    using "1.prems"(2) missing stop again tame_foreign(3) [OF "1.prems"(1)]
    by (subst (asm) wait_loop.simps)
      (auto simp: Let_def split: sum.splits option.splits if_splits prod.splits)
qed

lemma tame_callWithBinding:
  assumes "foreign_errors e" and "fst (callWithBinding e c name raw bound b) = Inl err"
  shows "tame err"
proof -
  have "tame err'" if "fst (read_delegated_run e w raw b') = Inl err'" for w b' err'
    using that tame_wait_loop [OF assms(1)]
    by (auto simp: read_delegated_run_def Let_def split: sum.splits if_splits
        intro!: tame_safe intro: tame_decode) (auto simp: public_texts_def)
  then show ?thesis
    using assms(2) tame_delegate_agent [OF assms(1)] tame_foreign(1) [OF assms(1)]
    by (auto simp: callWithBinding_def Let_def split: option.splits if_splits intro!: tame_safe)
      (auto simp: public_texts_def)
qed

lemma tame_discover: "foreign_errors e \<Longrightarrow> discover e c b = (Some err, b') \<Longrightarrow> tame err"
  by (auto simp: discover_def Let_def split: if_splits option.splits dest: tame_foreign)

lemma tame_bound_result:
  "foreign_errors e \<Longrightarrow> fst (bound_result e c t v b) = Inl err \<Longrightarrow> tame err"
  by (auto simp: bound_result_def Let_def split: call_value.splits if_splits option.splits
      intro!: tame_safe dest: tame_foreign) (auto simp: public_texts_def)

lemma tame_call_bound:
  assumes "foreign_errors e" and "fst (call_bound e c t raw b) = Inl err"
  shows "tame err"
proof -
  have call: "tame err'" if "callWithBinding e c name raw' bound b' = (Inl err', b'')" for name raw' bound b' b'' err'
    using tame_callWithBinding [OF assms(1), of c name raw' bound b' err'] that by simp
  have dis: "tame err'" if "(if toolsReady b then (None, b) else discover e c b) = (Some err', b')" for err' b'
    using that tame_discover [OF assms(1)] by (auto split: if_splits)
  show ?thesis
    using assms(2) call dis tame_bound_result [OF assms(1)] unfolding call_bound_def
    by (auto split: prod.splits option.splits sum.splits if_splits call_value.splits
        intro!: tame_safe intro: tame_decode) (auto simp: public_texts_def)
qed

lemma tame_callTool: "foreign_errors e \<Longrightarrow> fst (callTool e c name raw b) = Inl err \<Longrightarrow> tame err"
  by (auto simp: callTool_def split: option.splits if_splits intro: tame_call_bound tame_callWithBinding)
    (auto intro!: tame_safe simp: public_texts_def)

section \<open>Properties\<close>

text \<open>A first delegation that succeeds, and one whose answer is lost.\<close>

definition created_broker :: broker where
  "created_broker = snd (delegate_agent demo_env demo_conf None (Some (demo_args ''k1'')) initial_broker)"

definition lost_broker :: broker where
  "lost_broker = snd (delegate_agent lost_env demo_conf None (Some (demo_args ''k1'')) initial_broker)"

lemma demo_create:
  "delegate_agent demo_env demo_conf None (Some (demo_args ''k1'')) initial_broker =
     (Inr (VSummary \<lparr>sum_run_id = demo_child, sum_body = JNull\<rparr>), created_broker)"
  "requests created_broker =
     [(''k1'', \<lparr>req_digest = request_digest (demo_request ''k1''), req_run = demo_child, req_terminal = False,
               req_summary = \<lparr>sum_run_id = demo_child, sum_body = JNull\<rparr>\<rparr>)]"
  by (simp_all add: created_broker_def delegate_agent_def demo_decode create_child_def Let_def ask_def initial_broker_def)

lemma demo_lost:
  "requests lost_broker =
     [(''k1'', \<lparr>req_digest = request_digest (demo_request ''k1''), req_run = [], req_terminal = False,
               req_summary = zero_summary\<rparr>)]"
  by (simp add: lost_broker_def delegate_agent_def demo_decode create_child_def Let_def initial_broker_def definiteRejection_def)

lemma demo_key_ok [simp]: "key_ok ''k1''"
  by code_simp

lemma demo_table [simp]: "table_ok (requests created_broker)" "table_ok (requests lost_broker)"
  by (simp_all add: demo_create demo_lost table_ok_def live_requests_def request_ok_def)

lemma delegate_created:
  assumes "delegate_agent e c bound raw b = (Inr v, b1)"
  shows "\<exists>r p. decodeArguments delegate_fields zero_delegate raw = Inr r \<and> delegate_valid c bound r
    \<and> map_of (requests b1) (Key r) = Some p \<and> req_digest p = request_digest r \<and> req_run p \<noteq> []
    \<and> v = VSummary (req_summary p)"
  using assms
  by (auto simp: delegate_agent_def create_child_def Let_def uuid_match_nonempty
      split: sum.splits option.splits if_splits prod.splits)

text \<open>
  C1: Whatever the connections of a broker do, in any interleaving and against any answers of the
  platform, its request table stays sound: distinct well-formed keys, at most 64 requests, each
  either unresolved or created with a UUID that its summary carries, and at most one that is not
  known to be finished. Every Agent call it ever made went to a configured target or to the
  target of a bound tool with that tool's metadata.
\<close>

theorem broker_requests_safe:
  assumes "broker_run c initial_broker b"
  shows "table_ok (requests b) \<and> list_all (allowed_call c) (agent_calls (hist b))"
  using broker_run_evolves [OF assms table_ok_initial] by (auto simp: evolves_def initial_broker_def)

theorem broker_requests_safe_witness:
  "\<exists>b. broker_run demo_conf initial_broker b \<and> table_ok (requests b) \<and> length (agent_calls (hist b)) = 1
     \<and> list_all (allowed_call demo_conf) (agent_calls (hist b))"
proof -
  let ?b = "snd (callWithBinding demo_env demo_conf ''delegate_agent'' (Some (demo_args ''k1'')) None initial_broker)"
  have run: "broker_run demo_conf initial_broker ?b"
    by (rule lock_run [of demo_env]) (auto simp: bound_ok_def intro: prod.collapse [symmetric])
  have "length (agent_calls (hist ?b)) = 1"
    by (simp add: callWithBinding_def Let_def delegate_agent_def demo_decode create_child_def initial_broker_def)
  then show ?thesis using run broker_requests_safe [OF run] by blast
qed

text \<open>
  C2: A delegation is idempotent: once \<open>delegate_agent\<close> has returned a summary, the same call with
  the same arguments, after anything else the broker did and whatever the platform answers now,
  returns the same summary, asks nothing and changes nothing.
\<close>

theorem delegate_replay:
  assumes "delegate_agent e c bound raw b = (Inr v, b1)"
    and "table_ok (requests b1)" and "broker_run c b1 b2"
  shows "delegate_agent e' c bound raw b2 = (Inr v, b2)"
proof -
  obtain r p where r: "decodeArguments delegate_fields zero_delegate raw = Inr r" "delegate_valid c bound r"
    and p: "map_of (requests b1) (Key r) = Some p" "req_digest p = request_digest r" "req_run p \<noteq> []"
    and v: "v = VSummary (req_summary p)"
    using delegate_created [OF assms(1)] by blast
  have "keeps b1 b2" using broker_run_evolves [OF assms(3,2)] by (simp add: evolves_def)
  then obtain p' where "map_of (requests b2) (Key r) = Some p'" "req_digest p' = req_digest p"
    "req_run p' = req_run p" "req_summary p' = req_summary p"
    using p unfolding keeps_def by blast
  then show ?thesis using r p v by (simp add: delegate_agent_def)
qed

theorem delegate_replay_witness:
  "delegate_agent lost_env demo_conf None (Some (demo_args ''k1'')) created_broker
     = (Inr (VSummary \<lparr>sum_run_id = demo_child, sum_body = JNull\<rparr>), created_broker)"
  by (rule delegate_replay [OF demo_create(1)]) simp_all

text \<open>
  While the creation of one child is unresolved (its call failed without a definite rejection),
  a delegation under any other key calls no Agent, and the unresolved request stays recorded.
\<close>

theorem unresolved_blocks_creation:
  assumes ro: "range_order e" and tab: "table_ok (requests b)"
    and p: "map_of (requests b) k = Some p" "req_run p = []"
    and r: "decodeArguments delegate_fields zero_delegate raw = Inr r" "Key r \<noteq> k"
  shows "agent_calls (hist (snd (delegate_agent e c bound raw b))) = agent_calls (hist b)
    \<and> map_of (requests (snd (delegate_agent e c bound raw b))) k = Some p"
proof (cases "delegate_valid c bound r \<and> map_of (requests b) (Key r) = None \<and> length (requests b) < 64")
  case True
  let ?u = "safe ''retry the unresolved delegation request first''"
  let ?a = "\<lambda>_::string. safe ''wait for the active delegated Run first''"
  obtain er b1 where st: "settle e ?u ?a (env_order e (hist b) (requests b)) b = (er, b1)" by force
  have q: "quiet b b1" using settle_live(1) [OF ro tab, of ?u ?a] st by simp
  then have p1: "map_of (requests b1) k = Some p" using p by (auto simp: quiet_def map_of_mark_where)
  have "\<not> req_terminal p"
    using tab p map_of_SomeD [OF p(1)] by (auto simp: table_ok_def request_ok_def uuid_match_def)
  then have "live_requests (requests b1) \<noteq> []" using map_of_SomeD [OF p1] by (auto simp: live_requests_Nil_iff)
  then have "er \<noteq> None" using settle_live(2) [OF ro tab, of ?u ?a] st by auto
  then show ?thesis using True r st q p1 by (auto simp: delegate_agent_def quiet_def)
next
  case False
  have "req_run previous \<noteq> []" if "map_of (requests b) (Key r) = Some previous" for previous
  proof
    assume n: "req_run previous = []"
    have "(k, p) \<in> set (live_requests (requests b))" "(Key r, previous) \<in> set (live_requests (requests b))"
      using tab p n map_of_SomeD [OF p(1)] map_of_SomeD [OF that]
      by (auto simp: live_requests_def table_ok_def request_ok_def uuid_match_def)
    moreover have "length (live_requests (requests b)) \<le> 1" using tab by (simp add: table_ok_def)
    ultimately show False using r(2) by (cases "live_requests (requests b)") (auto simp: Suc_le_eq)
  qed
  then show ?thesis using False r p by (auto simp: delegate_agent_def split: option.splits)
qed

theorem unresolved_blocks_creation_witness:
  "agent_calls (hist (snd (delegate_agent demo_env demo_conf None (Some (demo_args ''k2'')) lost_broker)))
     = agent_calls (hist lost_broker)"
proof -
  have look: "map_of (requests lost_broker) ''k1'' =
      Some \<lparr>req_digest = request_digest (demo_request ''k1''), req_run = [], req_terminal = False,
            req_summary = zero_summary\<rparr>" by (simp add: demo_lost)
  show ?thesis
    using unresolved_blocks_creation [OF demo_range_order(1) demo_table(2) look _ demo_decode,
        of "''k2''" demo_conf None] by simp
qed

text \<open>
  When \<open>EnsureComplete\<close> returns no error, every request the broker recorded was created and
  is finished, and bound tools were discovered by the provider; it creates nothing itself.
\<close>

theorem ensure_complete_finished:
  assumes "range_order e" and "table_ok (requests b)" and "EnsureComplete e c b = (None, b')"
  shows "(\<forall>(k, r) \<in> set (requests b'). req_terminal r \<and> uuid_match (req_run r))
    \<and> map fst (requests b') = map fst (requests b)
    \<and> (boundTools c \<noteq> [] \<longrightarrow> toolsReady b) \<and> agent_calls (hist b') = agent_calls (hist b)"
proof -
  let ?u = "safe ''delegation creation is unresolved; retry its request_key before finishing''"
  let ?a = "\<lambda>rid. safe (''delegated Run is unfinished: '' @ rid)"
  have st: "settle e ?u ?a (env_order e (hist b) (requests b)) b = (None, b')"
    and ready: "boundTools c \<noteq> [] \<longrightarrow> toolsReady b"
    using assms(3) by (auto simp: EnsureComplete_def split: if_splits)
  have q: "quiet b b'" using settle_live(1) [OF assms(1,2), of ?u ?a] st by simp
  have "live_requests (requests b') = []" using settle_live(2) [OF assms(1,2), of ?u ?a] st by simp
  moreover have "table_ok (requests b')" by (rule quiet_table [OF q assms(2)])
  ultimately have "\<forall>(k, r) \<in> set (requests b'). req_terminal r \<and> uuid_match (req_run r)"
    unfolding live_requests_Nil_iff table_ok_def request_ok_def by blast
  then show ?thesis using q ready by (auto simp: quiet_def)
qed

theorem ensure_complete_finished_witness:
  "\<exists>b'. EnsureComplete demo_env demo_conf created_broker = (None, b') \<and> length (requests b') = 1
     \<and> (\<forall>(k, r) \<in> set (requests b'). req_terminal r \<and> uuid_match (req_run r))"
proof -
  let ?b = "snd (EnsureComplete demo_env demo_conf created_broker)"
  have tools: "boundTools demo_conf = []" by (simp add: demo_conf_def)
  have ne: "demo_child \<noteq> []" by (simp add: demo_child_def)
  have run: "EnsureComplete demo_env demo_conf created_broker = (None, ?b)" and len: "length (requests ?b) = 1"
    by (simp_all add: EnsureComplete_def tools demo_create(2) ne Let_def terminalRun_def)
  show ?thesis
    using run len ensure_complete_finished [OF demo_range_order(1) demo_table(1) run] by blast
qed

text \<open>
  One call of a tool reads the platform at most 31 times while it waits: a wait lasts at most
  30 seconds and sleeps a second, or what remains, between two reads. It calls no Agent.
\<close>

theorem wait_reads_bounded:
  "run_reads (hist (snd (read_delegated_run e wait raw b))) \<le> run_reads (hist b) + 31
   \<and> agent_calls (hist (snd (read_delegated_run e wait raw b))) = agent_calls (hist b)"
proof -
  have "rounds d \<le> 30" if "d \<le> 30 * second" for d
    using rounds_mono [OF that] by (simp add: rounds_def second_def)
  then have bound: "run_reads (hist (snd (wait_loop e rid (clock b + d) None b))) \<le> run_reads (hist b) + 31"
    if "d \<le> 30 * second" for rid d
    using that wait_loop_reads [of e rid "clock b + d" None b] by force
  have "run_reads (hist (snd (read_delegated_run e wait raw b))) \<le> run_reads (hist b) + 31"
    using bound [of "30 * second"] bound [of "w * millisecond" for w]
    by (auto simp: read_delegated_run_def Let_def second_def millisecond_def split: sum.splits)
  moreover have "agent_calls (hist (snd (read_delegated_run e wait raw b))) = agent_calls (hist b)"
    using quiet_read by (simp add: quiet_def)
  ultimately show ?thesis by blast
qed



lemma remove_resource_simps [simp]:
  "remove_resource r (x # rs) = (if x = r then remove_resource r rs else x # remove_resource r rs)"
  "r \<notin> set rs \<Longrightarrow> remove_resource r rs = rs"
  by (auto simp: remove_resource_def filter_id_conv)

lemma StartBound_clean:
  assumes "\<And>dir. os_mkdir_temp os = Inr dir \<Longrightarrow>
      TempDir dir \<notin> set rs \<and> Listener (filepath_join [dir, ''mcp.sock'']) \<notin> set rs"
  shows "case StartBound os root hc hr c rs of
            (Inl err, rs') \<Rightarrow> rs' = rs
          | (Inr s, rs') \<Rightarrow> Close s rs' = rs \<and> start_check root hc hr c = None"
  using assms by (auto simp: StartBound_def Close_def Let_def split: option.splits sum.splits)

text \<open>
  Starting a broker leaks nothing: when any step of \<open>StartBound\<close> fails, the directory and the
  listener it made are gone again; when it succeeds, \<open>Close\<close> gives back exactly what was held
  before. \<open>CheckBrokerRoot\<close>, which does both, changes nothing either way.
\<close>

theorem start_releases_everything:
  assumes fresh: "\<And>dir. os_mkdir_temp os = Inr dir \<Longrightarrow>
      TempDir dir \<notin> set rs \<and> Listener (filepath_join [dir, ''mcp.sock'']) \<notin> set rs"
  shows "(case StartBound os root hasCall hasRead c rs of
            (Inl err, rs') \<Rightarrow> rs' = rs
          | (Inr s, rs') \<Rightarrow> Close s rs' = rs \<and> start_check root hasCall hasRead c = None)
    \<and> snd (CheckBrokerRoot os root rs) = rs"
proof -
  have all: "case StartBound os root hc hr c' rs of
            (Inl err, rs') \<Rightarrow> rs' = rs
          | (Inr s, rs') \<Rightarrow> Close s rs' = rs \<and> start_check root hc hr c' = None" for hc hr c'
    by (rule StartBound_clean [OF fresh])
  then show ?thesis
    unfolding CheckBrokerRoot_def Let_def by (fastforce split: prod.splits sum.splits)
qed

definition demo_os :: start_os where
  "demo_os =
     \<lparr>os_mkdir_temp = Inr ''/tmp/ol-d-1'', os_lstat = (\<lambda>_. Inl (ErrNew ''lstat'')), os_geteuid = 1000,
      os_listen = (\<lambda>_. None), os_chmod = (\<lambda>_ _. None)\<rparr>"

theorem start_releases_everything_witness:
  "snd (CheckBrokerRoot demo_os [] []) = [] \<and> fst (CheckBrokerRoot demo_os [] []) = None"
proof -
  have "fst (CheckBrokerRoot demo_os [] []) = None" by code_simp
  then show ?thesis
    using start_releases_everything [of demo_os "[]" "[]" True True demo_conf] by simp
qed

lemma set_insert_tool [simp]: "set (insert_tool t ts) = insert t (set ts)"
  by (induction t ts rule: insert_tool.induct) auto

lemma mset_insert_tool [simp]: "mset (insert_tool t ts) = add_mset t (mset ts)"
  by (induction t ts rule: insert_tool.induct) auto

lemma mset_sort_tools: "mset (sort_tools ts) = mset ts"
  by (induction ts) (auto simp: sort_tools_def)

lemma sorted_insert_tool:
  "sorted_wrt (\<lambda>t u. str_le (Name t) (Name u)) ts \<Longrightarrow> sorted_wrt (\<lambda>t u. str_le (Name t) (Name u)) (insert_tool t ts)"
proof (induction t ts rule: insert_tool.induct)
  case (2 t u us)
  then show ?case using str_le_total [of "Name t" "Name u"] by (auto intro: str_le_trans)
qed simp

lemma sorted_sort_tools: "sorted_wrt (\<lambda>t u. str_le (Name t) (Name u)) (sort_tools ts)"
  by (induction ts) (auto simp: sort_tools_def sorted_insert_tool)

lemma validate_bound_from_iff:
  "validate_bound_from seen ts \<longleftrightarrow>
     distinct (map Name ts) \<and> set (map Name ts) \<inter> set seen = {} \<and>
     (\<forall>t \<in> set ts. length (json_marshal (bound_tool_json t)) \<le> 20 * 1024 \<and> uuid_match (BindingID t)
        \<and> uuid_match (TargetID t) \<and> digest_match (Digest t) \<and> name_match (Name t)
        \<and> map_get (InputSchema t) ''type'' = JStr ''object'')"
  by (induction seen ts rule: validate_bound_from.induct) auto

text \<open>
  The bound tools of a Run are usable only with trusted authority, at most 16, with distinct
  well-formed names in byte order, UUID targets and object schemas; and the snapshot has a
  64-digit hex digest exactly when it has tools.
\<close>

theorem decode_bound_sound:
  assumes "DecodeBound value trusted = Inr (ts, digest)"
  shows "(ts \<noteq> [] \<longrightarrow> trusted) \<and> length ts \<le> 16 \<and> distinct (map Name ts)
    \<and> sorted_wrt (\<lambda>t u. str_le (Name t) (Name u)) ts
    \<and> (\<forall>t \<in> set ts. name_match (Name t) \<and> uuid_match (TargetID t) \<and> uuid_match (BindingID t)
         \<and> map_get (InputSchema t) ''type'' = JStr ''object'')
    \<and> (if ts = [] then digest = [] else hex_run 64 digest)"
proof (cases "ts = []")
  case True
  have "digest = []"
    using assms True by (auto simp: DecodeBound_def Let_def split: if_splits option.splits)
  then show ?thesis using True by simp
next
  case False
  obtain snap :: bound_snapshot where snap: "trusted" "ValidateBoundTools (Tools snap) = None" "ts = sort_tools (Tools snap)"
    "digest = hex_encode (sha256 (json_marshal (JArr (map bound_tool_json ts))))"
    using assms False
    by (auto simp: DecodeBound_def Let_def sort_tools_def [of "[]"] split: if_splits option.splits)
  have m: "mset ts = mset (Tools snap)" using snap(3) by (simp add: mset_sort_tools)
  have valid: "length (Tools snap) \<le> 16" "validate_bound_from [] (Tools snap)"
    using snap(2) by (auto simp: ValidateBoundTools_def split: if_splits)
  have "mset (map Name ts) = mset (map Name (Tools snap))" using m by simp
  from mset_eq_imp_distinct_iff [OF this] have "distinct (map Name ts)"
    using valid(2) by (simp add: validate_bound_from_iff)
  moreover have "set ts = set (Tools snap)" by (rule mset_eq_setD [OF m])
  moreover have "length ts \<le> 16" using valid(1) m by (metis size_mset)
  moreover have "sorted_wrt (\<lambda>t u. str_le (Name t) (Name u)) ts" using snap(3) sorted_sort_tools by simp
  ultimately show ?thesis
    using snap valid(2) False by (auto simp: validate_bound_from_iff hex_digest_run)
qed

definition demo_tool :: bound_tool where
  "demo_tool =
     \<lparr>BindingID = demo_agent, TargetID = demo_child, Digest = replicate 64 (CHR ''a''),
      Name = ''mcp_'' @ replicate 32 (CHR ''b''), Title = ''t'', Description = ''d'',
      InputSchema = Some [(''type'', JStr ''object'')]\<rparr>"

definition demo_snapshot :: json where
  "demo_snapshot = JObj [(''schema_version'', JNum ''1''), (''tools'', JArr [bound_tool_json demo_tool])]"

lemma demo_snapshot_decode:
  "decode_struct False snapshot_fields \<lparr>Schema = 0, Tools = []\<rparr> demo_snapshot = Some \<lparr>Schema = 1, Tools = [demo_tool]\<rparr>"
  by code_simp

lemma demo_tool_valid: "ValidateBoundTools [demo_tool] = None"
proof -
  have "length (json_marshal (bound_tool_json demo_tool)) < 500" by code_simp
  moreover have "uuid_match (BindingID demo_tool) \<and> uuid_match (TargetID demo_tool) \<and> digest_match (Digest demo_tool)
      \<and> name_match (Name demo_tool) \<and> map_get (InputSchema demo_tool) ''type'' = JStr ''object''" by code_simp
  ultimately show ?thesis by (simp add: ValidateBoundTools_def)
qed

theorem decode_bound_sound_witness:
  "\<exists>digest. DecodeBound demo_snapshot True = Inr ([demo_tool], digest) \<and> hex_run 64 digest"
proof -
  have size: "length (json_marshal demo_snapshot) < 600" "demo_snapshot \<noteq> JNull" by code_simp+
  obtain digest where d: "DecodeBound demo_snapshot True = Inr ([demo_tool], digest)"
    using size by (simp add: DecodeBound_def Let_def demo_snapshot_decode demo_tool_valid sort_tools_def)
  then show ?thesis using decode_bound_sound [OF d] by simp
qed

end
