(* ===== verification/Json_Roundtrip.thy ===== *)
theory Json_Roundtrip
  imports Go_Json Go_Crypto
begin

text \<open>
  What the encoder of \<open>Go_Json\<close> writes, compact or indented, the parser reads back: the strings
  must be valid UTF-8 (\<open>encoding/json\<close> replaces any other byte) and the numbers literals of the
  JSON grammar. The proof is generic in the white space the encoder inserts.
\<close>

section \<open>Strings\<close>

lemma utf8_valid_mono: "length s \<le> k \<Longrightarrow> utf8_valid k s \<longleftrightarrow> utf8_valid (length s) s"
proof (induction "length s" arbitrary: s k rule: less_induct)
  case less
  show ?case
  proof (cases s)
    case Nil
    then show ?thesis by (cases k) auto
  next
    case (Cons c t)
    then obtain k' where k: "k = Suc k'" using less.prems by (cases k) auto
    let ?d = "drop (rune_width s) s"
    show ?thesis
    proof (cases "rune_width s = 0")
      case True
      then show ?thesis using Cons k by (simp del: rune_width.simps)
    next
      case False
      have len: "length ?d < length s" using False Cons by simp
      have "utf8_valid k' ?d \<longleftrightarrow> utf8_valid (length ?d) ?d"
        by (rule less.hyps [OF len]) (use len less.prems k in linarith)
      moreover have "utf8_valid (length t) ?d \<longleftrightarrow> utf8_valid (length ?d) ?d"
        by (rule less.hyps [OF len]) (use len Cons in simp)
      ultimately show ?thesis using Cons k False by (simp del: rune_width.simps)
    qed
  qed
qed

lemma valid_string_Nil [simp]: "valid_string []"
  by (simp add: valid_string_def)

lemma valid_string_Cons:
  "valid_string (c # s) \<longleftrightarrow>
     rune_width (c # s) \<noteq> 0 \<and> valid_string (drop (rune_width (c # s)) (c # s))"
proof (cases "rune_width (c # s) = 0")
  case False
  let ?d = "drop (rune_width (c # s)) (c # s)"
  have "length ?d \<le> length s" using False by (simp del: rune_width.simps)
  then have "utf8_valid (length s) ?d \<longleftrightarrow> utf8_valid (length ?d) ?d" by (rule utf8_valid_mono)
  then show ?thesis using False by (simp add: valid_string_def del: rune_width.simps)
qed (simp add: valid_string_def del: rune_width.simps)

lemma hex_val_lower: "d < 16 \<Longrightarrow> hex_val (hex_lower d) = Some d"
  by (auto simp: hex_val_def hex_lower_def is_digit_def)

lemma hex4_byte:
  "x < 256 \<Longrightarrow> hex4 (CHR ''0'' # CHR ''0'' # hex_lower (x div 16) # hex_lower (x mod 16) # r) = Some x"
proof -
  assume "x < 256"
  then have "x div 16 < 16" by (simp add: less_mult_imp_div_less)
  moreover have "hex_val (CHR ''0'') = Some 0" by code_simp
  ultimately show ?thesis by (simp add: hex_val_lower)
qed

lemma parse_esc_byte:
  assumes "byte c < 128"
  shows "parse_chars (esc_byte c @ r) = map_option (\<lambda>(v, u). (c # v, u)) (parse_chars r)"
proof -
  have u: "parse_chars (CHR 0x5C # CHR ''u'' # CHR ''0'' # CHR ''0'' # hex_lower (byte c div 16) #
      hex_lower (byte c mod 16) # r) = map_option (\<lambda>(v, u). (c # v, u)) (parse_chars r)"
    using assms hex4_byte [of "byte c" r] by (simp add: is_surrogate_def utf8_encode_def)
  have w: "rune_width (c # r) = 1" using assms by (simp add: rune_lead_def)
  have self: "char_of (byte c) = c" by simp
  have ctl: "char_of (8 :: nat) = CHR 0x08" "char_of (12 :: nat) = CHR 0x0C" "char_of (10 :: nat) = CHR 0x0A"
    "char_of (13 :: nat) = CHR 0x0D" "char_of (9 :: nat) = CHR 0x09" by code_simp+
  consider "c = CHR 0x22 \<or> c = CHR 0x5C" | "c = CHR 0x08 \<or> c = CHR 0x0C \<or> c = CHR 0x0A \<or> c = CHR 0x0D \<or> c = CHR 0x09"
    | "c \<noteq> CHR 0x22 \<and> c \<noteq> CHR 0x5C \<and> byte c \<notin> {8, 12, 10, 13, 9}"
    using self ctl by (metis insertE emptyE)
  then show ?thesis
  proof cases
    case 1
    then show ?thesis by (elim disjE) (simp_all add: esc_byte_def simple_escape_def)
  next
    case 2
    then show ?thesis by (elim disjE) (simp_all add: esc_byte_def simple_escape_def)
  next
    case 3
    then have plain: "c \<noteq> CHR 0x22" "c \<noteq> CHR 0x5C" "byte c \<noteq> 8" "byte c \<noteq> 12" "byte c \<noteq> 10" "byte c \<noteq> 13" "byte c \<noteq> 9"
      by auto
    show ?thesis
    proof (cases "byte c < 32 \<or> c \<in> set ''<>&''")
      case True
      then have "esc_byte c = [CHR 0x5C, CHR ''u'', CHR ''0'', CHR ''0'', hex_lower (byte c div 16), hex_lower (byte c mod 16)]"
        unfolding esc_byte_def using plain by (simp only: if_False if_True simp_thms)
      then show ?thesis using u by simp
    next
      case False
      then have "esc_byte c = [c]" unfolding esc_byte_def using plain by (simp only: if_False if_True simp_thms)
      then show ?thesis using w plain False by (simp add: Let_def del: rune_width.simps)
    qed
  qed
qed

lemma parse_chars_rune:
  assumes "rune_width (c # s) = n" and "1 < n"
  shows "parse_chars (take n (c # s) @ r) = map_option (\<lambda>(v, u). (take n (c # s) @ v, u)) (parse_chars r)"
proof -
  have nz: "rune_width (c # s) \<noteq> 0" using assms by simp
  obtain a u m where s: "c # s = a # u" "rune_width (c # s) = Suc m" "m \<le> length u"
    and w: "\<And>t. rune_width (a # take m u @ t) = Suc m"
    using rune_width_Suc [OF nz] by metis
  have n: "n = Suc m" using s(2) assms(1) by (rule trans [OF sym, rotated])
  have h: "take n (c # s) = c # take m s" unfolding n by (rule take_Suc_Cons)
  have high: "128 \<le> byte c"
  proof (rule ccontr)
    assume "\<not> 128 \<le> byte c"
    then show False using assms by (simp add: rune_lead_def)
  qed
  have bound: "\<not> byte c < 32" using high by simp
  have ne: "c \<noteq> CHR 0x22" "c \<noteq> CHR 0x5C" using high by auto
  have width: "rune_width (c # take m s @ r) = Suc m" using w [of r] s(1) by simp
  have len: "length (take m s) = m" using s by simp
  show ?thesis
    unfolding h using ne bound width len
    by (simp add: Let_def del: rune_width.simps)
qed

lemma rune_width_one: "rune_width (c # s) = 1 \<Longrightarrow> byte c < 128"
  by (auto simp: rune_lead_def split: if_splits)

lemma parse_esc_rune:
  assumes "rune_width (c # s) = n" and "n \<noteq> 0"
  shows "parse_chars (esc_rune (take n (c # s)) @ r)
    = map_option (\<lambda>(v, u). (take n (c # s) @ v, u)) (parse_chars r)"
proof -
  let ?h = "take n (c # s)"
  have sep: "hex4 (''2028'' @ r) = Some 0x2028" "hex4 (''2029'' @ r) = Some 0x2029"
    by (simp_all add: hex_val_def is_digit_def)
  have enc: "utf8_encode 0x2028 = [CHR 0xE2, CHR 0x80, CHR 0xA8]" "utf8_encode 0x2029 = [CHR 0xE2, CHR 0x80, CHR 0xA9]"
    by (simp_all add: utf8_encode_def char_of_def bit_0)
  consider "?h = [CHR 0xE2, CHR 0x80, CHR 0xA8]" | "?h = [CHR 0xE2, CHR 0x80, CHR 0xA9]"
    | "n = 1" "?h \<noteq> [CHR 0xE2, CHR 0x80, CHR 0xA8]" "?h \<noteq> [CHR 0xE2, CHR 0x80, CHR 0xA9]"
    | "1 < n" "?h \<noteq> [CHR 0xE2, CHR 0x80, CHR 0xA8]" "?h \<noteq> [CHR 0xE2, CHR 0x80, CHR 0xA9]"
    using assms(2) by linarith
  then show ?thesis
  proof cases
    case 1
    have e: "esc_rune [CHR 0xE2, CHR 0x80, CHR 0xA8] = CHR 0x5C # ''u2028''" by (simp add: esc_rune_def)
    show ?thesis unfolding 1 e using sep(1) enc(1) by (simp add: is_surrogate_def)
  next
    case 2
    have e: "esc_rune [CHR 0xE2, CHR 0x80, CHR 0xA9] = CHR 0x5C # ''u2029''" by (simp add: esc_rune_def)
    show ?thesis unfolding 2 e using sep(2) enc(2) by (simp add: is_surrogate_def)
  next
    case 3
    have low: "byte c < 128" by (rule rune_width_one [of c s]) (use assms(1) 3(1) in \<open>simp only:\<close>)
    have h: "?h = [c]" using 3(1) by simp
    have e: "esc_rune [c] = esc_byte c" by (simp add: esc_rune_def)
    show ?thesis unfolding h e parse_esc_byte [OF low, of r] by simp
  next
    case 4
    have "length ?h = n" using rune_width_le [of "c # s"] assms(1) by simp
    then have "esc_rune ?h = ?h" using 4 by (simp add: esc_rune_def)
    then show ?thesis using parse_chars_rune [OF assms(1) 4(1), of r] by simp
  qed
qed

lemma parse_json_chars:
  "valid_string s \<Longrightarrow> parse_chars (json_chars s @ CHR 0x22 # r) = Some (s, r)"
proof (induction s rule: json_chars.induct)
  case (2 c s)
  let ?n = "rune_width (c # s)"
  have nz: "?n \<noteq> 0" and v: "valid_string (drop ?n (c # s))" using "2.prems" by (auto simp: valid_string_Cons)
  have e: "json_chars (c # s) = esc_rune (take ?n (c # s)) @ json_chars (drop ?n (c # s))"
    using nz by (simp add: Let_def del: rune_width.simps)
  have ih: "parse_chars (json_chars (drop ?n (c # s)) @ CHR 0x22 # r) = Some (drop ?n (c # s), r)"
    by (rule "2.IH"(2) [OF refl nz v])
  show ?case unfolding e append_assoc parse_esc_rune [OF refl nz] ih by simp
qed simp

section \<open>Numbers\<close>

text \<open>A literal of the JSON grammar: the parser reads all of it.\<close>

definition number_literal :: "string \<Rightarrow> bool" where
  "number_literal n = (parse_number n = Some (n, []))"

text \<open>What may follow a value: the end of the text, a delimiter or white space.\<close>

definition ends_value :: "string \<Rightarrow> bool" where
  "ends_value r = (case r of [] \<Rightarrow> True | c # _ \<Rightarrow> json_ws c \<or> c \<in> set '',]}'')"

lemma ends_value_chars:
  assumes "ends_value (c # r)"
  shows "\<not> is_digit c" "c \<noteq> CHR ''.''" "c \<noteq> CHR ''e''" "c \<noteq> CHR ''E''"
proof -
  have "byte c \<in> {9, 10, 13, 32, 44, 93, 125}" using assms by (auto simp: ends_value_def json_ws_def)
  then show "\<not> is_digit c" "c \<noteq> CHR ''.''" "c \<noteq> CHR ''e''" "c \<noteq> CHR ''E''"
    by (auto simp: is_digit_def)
qed

lemma span_digits_append:
  "span_digits s = (d, []) \<Longrightarrow> ends_value r \<Longrightarrow> span_digits (s @ r) = (d, r)"
proof (induction s arbitrary: d)
  case Nil
  then show ?case by (cases r) (auto dest: ends_value_chars)
next
  case (Cons c s)
  then show ?case by (auto split: if_splits prod.splits)
qed

lemma span_digits_split: "span_digits s = (d, t) \<Longrightarrow> s = d @ t \<and> span_digits (s @ r) = (if t = [] then (d @ fst (span_digits r), snd (span_digits r)) else (d, t @ r))"
  by (induction s arbitrary: d) (auto split: if_splits prod.splits)

lemma span_digits_ends: "ends_value r \<Longrightarrow> span_digits r = ([], r)"
  by (cases r) (auto dest: ends_value_chars)

lemma parse_exp_append:
  assumes "parse_exp s = Some (e, t)" and "ends_value r"
  shows "parse_exp (s @ r) = Some (e, t @ r)"
proof (cases s)
  case Nil
  then show ?thesis using assms by (cases r) (auto simp: parse_exp_def dest: ends_value_chars)
next
  case (Cons c u)
  show ?thesis
  proof (cases "c = CHR ''e'' \<or> c = CHR ''E''")
    case False
    then show ?thesis using assms Cons by (auto simp: parse_exp_def)
  next
    case True
    have sp: "span_digits (v @ r) = (d, w @ r)" if "span_digits v = (d, w)" for v d w
      using span_digits_split [OF that, of r] span_digits_ends [OF assms(2)] by (auto split: if_splits)
    have digits: "span_digits r = ([], r)" by (rule span_digits_ends [OF assms(2)])
    show ?thesis
    proof (cases u)
      case Nil
      then show ?thesis using assms Cons True by (auto simp: parse_exp_def)
    next
      case u: (Cons x v)
      obtain d w where d: "span_digits v = (d, w)" by force
      obtain d' w' where d': "span_digits (x # v) = (d', w')" by force
      show ?thesis
        using assms(1) Cons True u sp [OF d] sp [OF d'] d d'
        by (auto simp: parse_exp_def split: if_splits simp del: span_digits.simps)
    qed
  qed
qed

lemma parse_frac_append:
  assumes "parse_frac s = Some (f, t)" and "ends_value r"
  shows "parse_frac (s @ r) = Some (f, t @ r)"
proof (cases s)
  case Nil
  then show ?thesis using assms by (cases r) (auto simp: parse_frac_def dest: ends_value_chars)
next
  case (Cons c u)
  obtain d w where d: "span_digits u = (d, w)" by force
  have "span_digits (u @ r) = (d, w @ r)"
    using span_digits_split [OF d, of r] span_digits_ends [OF assms(2)] by (auto split: if_splits)
  then show ?thesis using assms(1) Cons d by (auto simp: parse_frac_def split: if_splits)
qed

lemma parse_int_part_append:
  assumes "parse_int_part s = Some (i, t)" and "ends_value r"
  shows "parse_int_part (s @ r) = Some (i, t @ r)"
proof -
  obtain c u where s: "s = c # u" using assms(1) by (cases s) (auto simp: parse_int_part_def)
  obtain d w where d: "span_digits s = (d, w)" by force
  have "span_digits (s @ r) = (d, w @ r)"
    using span_digits_split [OF d, of r] span_digits_ends [OF assms(2)] by (auto split: if_splits)
  then show ?thesis using assms(1) s d
    by (auto simp: parse_int_part_def split: if_splits simp del: span_digits.simps)
qed

definition number_sign :: "string \<Rightarrow> string \<times> string" where
  "number_sign s = (case s of c # r \<Rightarrow> if c = CHR ''-'' then ([c], r) else ([], s) | [] \<Rightarrow> ([], s))"

lemma parse_number_append:
  assumes "number_literal n" and "ends_value r"
  shows "parse_number (n @ r) = Some (n, r)"
proof -
  obtain sg t where st: "number_sign n = (sg, t)" by force
  have p: "parse_number s = Option.bind (parse_int_part (snd (number_sign s))) (\<lambda>(i, r1).
      Option.bind (parse_frac r1) (\<lambda>(f, r2).
      Option.bind (parse_exp r2) (\<lambda>(e, r3). Some (fst (number_sign s) @ i @ f @ e, r3))))" for s
    unfolding parse_number_def number_sign_def by (simp add: Let_def case_prod_beta)
  obtain i r1 f r2 e where parts: "parse_int_part t = Some (i, r1)" "parse_frac r1 = Some (f, r2)"
    "parse_exp r2 = Some (e, [])" "sg @ i @ f @ e = n"
    using assms(1) unfolding number_literal_def p st by (auto simp: bind_eq_Some_conv)
  have "n \<noteq> []"
  proof
    assume "n = []"
    then show False using parts(1) st by (auto simp: number_sign_def parse_int_part_def)
  qed
  then have "number_sign (n @ r) = (sg, t @ r)" using st by (cases n) (auto simp: number_sign_def split: if_splits)
  then show ?thesis
    using parse_int_part_append [OF parts(1) assms(2)] parse_frac_append [OF parts(2) assms(2)]
      parse_exp_append [OF parts(3) assms(2)] parts(4) by (simp add: p)
qed

lemma number_literal_start:
  assumes "number_literal (c # n)"
  shows "is_digit c \<or> c = CHR ''-''"
proof (rule ccontr)
  assume no: "\<not> ?thesis"
  have "is_digit (CHR ''0'')" by (simp add: is_digit_def)
  then have "parse_int_part (c # n) = None" using no by (auto simp: parse_int_part_def)
  then show False using assms no by (simp add: number_literal_def parse_number_def)
qed

section \<open>Values\<close>

text \<open>The encoder with the white space it inserts left open: before an element at a depth, after a colon.\<close>

fun json_layout :: "(nat \<Rightarrow> string) \<Rightarrow> string \<Rightarrow> nat \<Rightarrow> json \<Rightarrow> string" where
  "json_layout nl sp d (JArr vs) =
     (if vs = [] then [CHR 0x5B, CHR 0x5D]
      else CHR 0x5B # nl (Suc d) @ str_join (CHR '','' # nl (Suc d)) (map (json_layout nl sp (Suc d)) vs)
           @ nl d @ [CHR 0x5D])"
| "json_layout nl sp d (JObj kvs) =
     (if kvs = [] then [CHR 0x7B, CHR 0x7D]
      else CHR 0x7B # nl (Suc d)
           @ str_join (CHR '','' # nl (Suc d))
               (map (\<lambda>(k, v). json_quote k @ CHR '':'' # sp @ json_layout nl sp (Suc d) v) kvs)
           @ nl d @ [CHR 0x7D])"
| "json_layout nl sp d v = json_print v"

lemma json_layout_compact: "json_layout (\<lambda>_. []) [] d v = json_print v"
proof (induction v arbitrary: d)
  case (JArr vs)
  then have "map (json_layout (\<lambda>_. []) [] (Suc d)) vs = map json_print vs" by simp
  then show ?case by (cases "vs = []") (simp_all del: map_eq_conv)
next
  case (JObj kvs)
  then have "map (\<lambda>(k, v). json_quote k @ CHR '':'' # json_layout (\<lambda>_. []) [] (Suc d) v) kvs
      = map (\<lambda>(k, v). json_quote k @ CHR '':'' # json_print v) kvs"
    by (fastforce simp: snds.simps)
  then show ?case by (cases "kvs = []") (simp_all del: map_eq_conv)
qed simp_all

lemma json_layout_pretty: "json_layout json_newline [CHR '' ''] d v = json_pretty d v"
proof (induction v arbitrary: d)
  case (JArr vs)
  then have "map (json_layout json_newline [CHR '' ''] (Suc d)) vs = map (json_pretty (Suc d)) vs" by simp
  then show ?case by (cases "vs = []") (simp_all del: map_eq_conv)
next
  case (JObj kvs)
  then have "map (\<lambda>(k, v). json_quote k @ CHR '':'' # [CHR '' ''] @ json_layout json_newline [CHR '' ''] (Suc d) v) kvs
      = map (\<lambda>(k, v). json_quote k @ CHR '':'' # [CHR '' ''] @ json_pretty (Suc d) v) kvs"
    by (fastforce simp: snds.simps)
  then show ?case by (cases "kvs = []") (simp_all del: map_eq_conv)
qed simp_all

text \<open>Values whose strings are valid UTF-8 and whose numbers are literals.\<close>

fun json_wf :: "json \<Rightarrow> bool" where
  "json_wf (JStr s) = valid_string s"
| "json_wf (JNum n) = number_literal n"
| "json_wf (JArr vs) = list_all json_wf vs"
| "json_wf (JObj kvs) = list_all (\<lambda>(k, v). valid_string k \<and> json_wf v) kvs"
| "json_wf v = True"

text \<open>The nesting of parser calls a value needs.\<close>

fun json_depth :: "json \<Rightarrow> nat" where
  "json_depth (JArr vs) = Suc (foldr (\<lambda>v n. Suc (max (json_depth v) n)) vs 0)"
| "json_depth (JObj kvs) = Suc (foldr (\<lambda>(k, v) n. Suc (max (json_depth v) n)) kvs 0)"
| "json_depth v = 1"

lemma skip_ws_append: "list_all json_ws w \<Longrightarrow> skip_ws (w @ s) = skip_ws s"
  by (induction w) auto

lemma skip_ws_stop: "\<not> json_ws c \<Longrightarrow> skip_ws (c # s) = c # s"
  by simp

lemma structural_not_ws [simp]:
  "\<not> json_ws (CHR 0x5B)" "\<not> json_ws (CHR 0x5D)" "\<not> json_ws (CHR 0x7B)" "\<not> json_ws (CHR 0x7D)"
  "\<not> json_ws (CHR '','')" "\<not> json_ws (CHR '':'')" "\<not> json_ws (CHR 0x22)"
  "\<not> json_ws (CHR ''t'')" "\<not> json_ws (CHR ''f'')" "\<not> json_ws (CHR ''n'')"
  by (simp_all add: json_ws_def)

lemma number_start_not_ws:
  "is_digit c \<or> c = CHR ''-'' \<Longrightarrow>
   \<not> json_ws c \<and> c \<noteq> CHR 0x22 \<and> c \<noteq> CHR 0x5B \<and> c \<noteq> CHR 0x7B \<and> c \<noteq> CHR ''t'' \<and> c \<noteq> CHR ''f''
   \<and> c \<noteq> CHR ''n'' \<and> c \<noteq> CHR 0x5D \<and> c \<noteq> CHR 0x7D"
  by (auto simp: is_digit_def json_ws_def)

text \<open>The first byte of a printed value is neither white space nor a closing bracket.\<close>

lemma json_layout_start:
  assumes "json_wf v"
  shows "\<exists>c s. json_layout nl sp d v = c # s \<and> \<not> json_ws c \<and> c \<noteq> CHR 0x5D \<and> c \<noteq> CHR 0x7D"
proof (cases v)
  case (JNum n)
  then obtain c m where "n = c # m" "number_literal (c # m)"
    using assms by (cases n) (auto simp: number_literal_def parse_number_def parse_int_part_def)
  then show ?thesis using JNum number_start_not_ws [OF number_literal_start [of c m]] by auto
qed (auto simp: json_quote_def)

lemma ends_value_simps [simp]:
  "ends_value (CHR '','' # r)" "ends_value (CHR 0x5D # r)" "ends_value (CHR 0x7D # r)" "ends_value []"
  by (simp_all add: ends_value_def)

lemma ends_value_ws: "list_all json_ws w \<Longrightarrow> ends_value (CHR 0x5D # r) \<Longrightarrow> ends_value (w @ CHR 0x5D # r)"
  "list_all json_ws w \<Longrightarrow> ends_value (w @ CHR 0x7D # r)"
  by (cases w; simp add: ends_value_def)+

lemma parse_elems_layout:
  assumes nl: "list_all json_ws nl" "list_all json_ws nl'" and "vs \<noteq> []" and "list_all json_ws w"
    and "foldr (\<lambda>v n. Suc (max (json_depth v) n)) vs 0 \<le> n"
    and one: "\<And>v m w r. v \<in> set vs \<Longrightarrow> json_depth v \<le> m \<Longrightarrow> list_all json_ws w \<Longrightarrow> ends_value r \<Longrightarrow>
        parse_value m (w @ out v @ r) = Some (v, r)"
  shows "parse_elems n (w @ str_join (CHR '','' # nl) (map out vs) @ nl' @ CHR 0x5D # r) = Some (vs, r)"
  using assms(3-)
proof (induction vs arbitrary: n w)
  case (Cons v vs)
  then obtain m where n: "n = Suc m" by (cases n) auto
  have dm: "json_depth v \<le> m" "foldr (\<lambda>v n. Suc (max (json_depth v) n)) vs 0 \<le> m" using Cons.prems(3) n by auto
  show ?case
  proof (cases vs)
    case Nil
    have "parse_value m (w @ out v @ nl' @ CHR 0x5D # r) = Some (v, nl' @ CHR 0x5D # r)"
      using Cons.prems dm nl(2) by (intro Cons.prems(4)) (auto intro: ends_value_ws)
    then show ?thesis using Nil n nl(2) by (simp add: skip_ws_append)
  next
    case (Cons u us)
    let ?rest = "str_join (CHR '','' # nl) (map out vs) @ nl' @ CHR 0x5D # r"
    have j: "str_join (CHR '','' # nl) (map out (v # vs)) = out v @ CHR '','' # nl @ str_join (CHR '','' # nl) (map out vs)"
      using Cons by (simp add: str_join_Cons)
    have pv: "parse_value m (w @ out v @ CHR '','' # nl @ ?rest) = Some (v, CHR '','' # nl @ ?rest)"
      using Cons.prems dm by (intro Cons.prems(4)) auto
    have pe: "parse_elems m (nl @ ?rest) = Some (vs, r)"
      by (rule Cons.IH) (use Cons Cons.prems dm nl in auto)
    show ?thesis unfolding j using n pv pe by simp
  qed
qed simp

lemma parse_members_layout:
  assumes nl: "list_all json_ws nl" "list_all json_ws nl'" and sp: "list_all json_ws sp"
    and "kvs \<noteq> []" and "list_all json_ws w" and "list_all (\<lambda>(k, v). valid_string k) kvs"
    and "foldr (\<lambda>(k, v) n. Suc (max (json_depth v) n)) kvs 0 \<le> n"
    and one: "\<And>k v m w r. (k, v) \<in> set kvs \<Longrightarrow> json_depth v \<le> m \<Longrightarrow> list_all json_ws w \<Longrightarrow> ends_value r \<Longrightarrow>
        parse_value m (w @ out v @ r) = Some (v, r)"
  shows "parse_members n (w @ str_join (CHR '','' # nl) (map (\<lambda>(k, v). json_quote k @ CHR '':'' # sp @ out v) kvs)
      @ nl' @ CHR 0x7D # r) = Some (kvs, r)"
  using assms(4-)
proof (induction kvs arbitrary: n w)
  case (Cons kv kvs)
  obtain k v where kv: "kv = (k, v)" by force
  obtain m where n: "n = Suc m" using Cons.prems(4) kv by (cases n) auto
  have dm: "json_depth v \<le> m" "foldr (\<lambda>(k, v) n. Suc (max (json_depth v) n)) kvs 0 \<le> m"
    using Cons.prems(4) n kv by auto
  have key: "parse_chars (json_chars k @ CHR 0x22 # t) = Some (k, t)" for t
    using Cons.prems(3) kv by (intro parse_json_chars) simp
  let ?pr = "\<lambda>(k, v). json_quote k @ CHR '':'' # sp @ out v"
  show ?case
  proof (cases kvs)
    case Nil
    have "parse_value m (sp @ out v @ nl' @ CHR 0x7D # r) = Some (v, nl' @ CHR 0x7D # r)"
      using Cons.prems dm nl(2) sp kv by (intro Cons.prems(5) [of k]) (auto intro: ends_value_ws)
    then show ?thesis
      using Nil n nl(2) kv Cons.prems(2) key by (simp add: skip_ws_append json_quote_def)
  next
    case (Cons u us)
    let ?rest = "str_join (CHR '','' # nl) (map ?pr kvs) @ nl' @ CHR 0x7D # r"
    have j: "str_join (CHR '','' # nl) (map ?pr (kv # kvs)) =
        CHR 0x22 # json_chars k @ CHR 0x22 # CHR '':'' # sp @ out v @ CHR '','' # nl @ str_join (CHR '','' # nl) (map ?pr kvs)"
      using Cons kv by (simp add: str_join_Cons json_quote_def)
    have pv: "parse_value m (sp @ out v @ CHR '','' # nl @ ?rest) = Some (v, CHR '','' # nl @ ?rest)"
      using Cons.prems dm sp kv by (intro Cons.prems(5) [of k]) auto
    have pe: "parse_members m (nl @ ?rest) = Some (kvs, r)"
    proof (rule Cons.IH)
      show "parse_value m' (w' @ out v' @ r') = Some (v', r')"
        if "(k', v') \<in> set kvs" "json_depth v' \<le> m'" "list_all json_ws w'" "ends_value r'" for k' v' m' w' r'
        by (rule Cons.prems(5) [of k']) (use that in auto)
    qed (use Cons Cons.prems(1-4) dm nl in auto)
    show ?thesis unfolding j using n pv pe key Cons.prems(2) kv by (simp add: skip_ws_append)
  qed
qed simp

lemma parse_layout:
  assumes nl: "\<And>d. list_all json_ws (nl d)" and sp: "list_all json_ws sp"
  shows "json_wf v \<Longrightarrow> ends_value r \<Longrightarrow> json_depth v \<le> n \<Longrightarrow> list_all json_ws w \<Longrightarrow>
    parse_value n (w @ json_layout nl sp d v @ r) = Some (v, r)"
proof (induction v arbitrary: d n w r)
  case JNull
  then show ?case by (cases n) (simp_all add: skip_ws_append expect_def cut_prefix_def)
next
  case (JBool b)
  then show ?case by (cases n) (simp_all add: skip_ws_append expect_def cut_prefix_def)
next
  case (JNum l)
  obtain c m where l: "l = c # m"
    using JNum by (cases l) (auto simp: number_literal_def parse_number_def parse_int_part_def)
  have lit: "number_literal (c # m)" using JNum l by simp
  have ch: "\<not> json_ws c" "c \<noteq> CHR 0x22" "c \<noteq> CHR 0x5B" "c \<noteq> CHR 0x7B" "c \<noteq> CHR ''t''" "c \<noteq> CHR ''f''" "c \<noteq> CHR ''n''"
    using number_start_not_ws [OF number_literal_start [OF lit]] by auto
  have "parse_number (c # m @ r) = Some (c # m, r)" using parse_number_append [OF lit JNum.prems(2)] by simp
  then show ?case using JNum.prems l ch by (cases n) (simp_all add: skip_ws_append)
next
  case (JStr t)
  then show ?case
    by (cases n) (simp_all add: skip_ws_append json_quote_def parse_json_chars)
next
  case (JArr vs)
  then obtain m where n: "n = Suc m" by (cases n) auto
  show ?case
  proof (cases "vs = []")
    case True
    then show ?thesis using n JArr.prems(4) by (simp add: skip_ws_append)
  next
    case False
    let ?j = "str_join (CHR '','' # nl (Suc d)) (map (json_layout nl sp (Suc d)) vs)"
    obtain c s where start: "?j @ nl d @ CHR 0x5D # r = c # s" "\<not> json_ws c" "c \<noteq> CHR 0x5D"
    proof -
      obtain v us where v: "vs = v # us" using False by (cases vs) auto
      then show thesis using json_layout_start [of v nl sp "Suc d"] JArr.prems(1) that
        by (cases us) (auto simp: str_join_Cons)
    qed
    have "parse_elems m ([] @ ?j @ nl d @ CHR 0x5D # r) = Some (vs, r)"
      by (rule parse_elems_layout)
        (use False JArr n nl sp in \<open>auto simp: list_all_iff\<close>)
    then show ?thesis
      using False n JArr.prems(4) nl start by (simp add: skip_ws_append)
  qed
next
  case (JObj kvs)
  then obtain m where n: "n = Suc m" by (cases n) auto
  show ?case
  proof (cases "kvs = []")
    case True
    then show ?thesis using n JObj.prems(4) by (simp add: skip_ws_append)
  next
    case False
    let ?j = "str_join (CHR '','' # nl (Suc d)) (map (\<lambda>(k, v). json_quote k @ CHR '':'' # sp @ json_layout nl sp (Suc d) v) kvs)"
    obtain s where start: "?j @ nl d @ CHR 0x7D # r = CHR 0x22 # s"
    proof -
      obtain k v us where v: "kvs = (k, v) # us" using False by (cases kvs) auto
      then show thesis using that by (cases us) (auto simp: str_join_Cons json_quote_def)
    qed
    have "parse_members m ([] @ ?j @ nl d @ CHR 0x7D # r) = Some (kvs, r)"
      by (rule parse_members_layout)
        (use False JObj n nl sp in \<open>fastforce simp: list_all_iff snds.simps\<close>)+
    then show ?thesis
      using False n JObj.prems(4) nl start by (simp add: skip_ws_append)
  qed
qed

lemma length_join_ge:
  "vs \<noteq> [] \<Longrightarrow> (\<And>v. v \<in> set vs \<Longrightarrow> f v \<le> length (out v)) \<Longrightarrow>
   foldr (\<lambda>v n. Suc (max (f v) n)) vs 0 \<le> Suc (length (str_join (CHR '','' # nl) (map out vs)))"
proof (induction vs)
  case (Cons v vs)
  show ?case
  proof (cases vs)
    case Nil
    then show ?thesis using Cons.prems(2) [of v] by simp
  next
    case (Cons u us)
    then have "foldr (\<lambda>v n. Suc (max (f v) n)) vs 0 \<le> Suc (length (str_join (CHR '','' # nl) (map out vs)))"
      using Cons.IH Cons.prems(2) by simp
    moreover have "length (str_join (CHR '','' # nl) (map out (v # vs))) =
        length (out v) + Suc (length nl) + length (str_join (CHR '','' # nl) (map out vs))"
      using Cons by (simp add: str_join_Cons)
    ultimately show ?thesis using Cons.prems(2) [of v] by simp
  qed
qed simp

lemma json_depth_le: "json_wf v \<Longrightarrow> json_depth v \<le> length (json_layout nl sp d v)"
proof (induction v arbitrary: d)
  case (JNum l)
  then show ?case by (cases l) (auto simp: number_literal_def parse_number_def parse_int_part_def)
next
  case (JArr vs)
  then show ?case
    using length_join_ge [of vs json_depth "json_layout nl sp (Suc d)" "nl (Suc d)"]
    by (cases "vs = []") (auto simp: list_all_iff)
next
  case (JObj kvs)
  let ?out = "\<lambda>(k, v). json_quote k @ CHR '':'' # sp @ json_layout nl sp (Suc d) v"
  have "json_depth (snd kv) \<le> length (?out kv)" if "kv \<in> set kvs" for kv
  proof -
    obtain k v where kv: "kv = (k, v)" by force
    have "json_depth v \<le> length (json_layout nl sp (Suc d) v)"
      using JObj that kv by (fastforce simp: list_all_iff snds.simps)
    then show ?thesis using kv by simp
  qed
  then show ?case
    using length_join_ge [of kvs "\<lambda>kv. json_depth (snd kv)" ?out "nl (Suc d)"]
    by (cases "kvs = []") (simp_all add: case_prod_unfold)
qed (auto simp: json_quote_def)

lemma json_parse_layout:
  assumes nl: "\<And>d. list_all json_ws (nl d)" and sp: "list_all json_ws sp" and wf: "json_wf v"
  shows "json_parse (json_layout nl sp d v) = Some v"
proof -
  let ?s = "json_layout nl sp d v"
  have "parse_value (2 * length ?s + 2) ([] @ ?s @ []) = Some (v, [])"
    by (rule parse_layout [OF nl sp wf]) (use json_depth_le [OF wf, of nl sp d] in simp_all)
  then show ?thesis by (simp add: json_parse_def del: parse_value.simps)
qed

text \<open>Both encoders round trip.\<close>

lemma json_parse_marshal: "json_wf v \<Longrightarrow> json_parse (json_marshal v) = Some v"
  using json_parse_layout [of "\<lambda>_. []" "[]" v 0] by (simp add: json_layout_compact json_marshal_def)

lemma json_parse_marshal_indent: "json_wf v \<Longrightarrow> json_parse (json_marshal_indent v) = Some v"
proof -
  have "list_all json_ws (json_newline d)" for d
    by (auto simp: json_newline_def list_all_iff json_ws_def)
  moreover have "list_all json_ws [CHR '' '']" by (simp add: json_ws_def)
  ultimately show "json_wf v \<Longrightarrow> ?thesis"
    using json_parse_layout [of json_newline "[CHR '' '']" v 0]
    by (simp add: json_layout_pretty json_marshal_indent_def)
qed

section \<open>Bounds and plain text\<close>

lemma ascii_valid: "list_all (\<lambda>c. byte c < 128) s \<Longrightarrow> valid_string s"
proof (induction s)
  case (Cons c s)
  then have "rune_width (c # s) = 1" by (simp add: rune_lead_def)
  then show ?case using Cons by (simp add: valid_string_Cons del: rune_width.simps)
qed simp

lemma hex_encode_valid: "valid_string (hex_encode b)"
proof (rule ascii_valid)
  show "list_all (\<lambda>c. byte c < 128) (hex_encode b)"
    unfolding list_all_iff using hex_encode_hex by (force simp: is_lower_hex_def is_digit_def)
qed

lemma length_json_chars: "length (json_chars s) \<le> 6 * length s"
proof (induction s rule: json_chars.induct)
  case (2 c s)
  let ?n = "rune_width (c # s)"
  have esc: "length (esc_byte x) \<le> 6" for x by (simp add: esc_byte_def)
  show ?case
  proof (cases "?n = 0")
    case True
    then show ?thesis using "2.IH"(1) [OF refl True] by (simp add: Let_def del: rune_width.simps)
  next
    case False
    have le: "?n \<le> length (c # s)" by (rule rune_width_le)
    have "length (esc_rune (take ?n (c # s))) \<le> 6 * ?n"
    proof (cases "length (take ?n (c # s)) = 1")
      case True
      then show ?thesis using esc [of "hd (take ?n (c # s))"] False
        by (auto simp: esc_rune_def simp del: rune_width.simps)
    next
      case no: False
      then show ?thesis using False le by (simp add: esc_rune_def del: rune_width.simps)
    qed
    moreover have "length (json_chars (drop ?n (c # s))) \<le> 6 * (length (c # s) - ?n)"
      using "2.IH"(2) [OF refl False] by (simp del: rune_width.simps)
    ultimately show ?thesis using False le by (simp add: Let_def del: rune_width.simps)
  qed
qed simp

lemma length_json_quote: "length (json_quote s) \<le> 6 * length s + 2"
  using length_json_chars [of s] by (simp add: json_quote_def)

end
