(* ===== verification/Session_Store.thy ===== *)
theory Session_Store
  imports Json_Roundtrip Go_Crypto Go_Path
begin

text \<open>
  The private provider sessions: \<open>pkg/adapters/providersession/store.go\<close>, \<open>history.go\<close> and the
  owner and replace helpers, the product policy of \<open>pkg/adapters/session.go\<close>, and \<open>Scope\<close> of
  \<open>pkg/adapters/sessionsandbox/session.go\<close>. A file is its mode bits, owner and bytes; the
  operating system may fail any call and may swap the file between \<open>Lstat\<close> and \<open>Open\<close>.
\<close>

section \<open>Files\<close>

record file_node =
  fn_symlink :: bool
  fn_regular :: bool
  fn_perm :: nat
  fn_owned :: bool
  fn_bytes :: string

type_synonym files = "string \<Rightarrow> file_node option"

text \<open>
  \<open>fe_lstat\<close> is a failure of \<open>Lstat\<close> other than a missing file; \<open>fe_open\<close> says what the path
  holds when it is opened after the check (whether it is the same file, and its node);
  \<open>fe_write\<close> fails one of the calls of \<open>writeStore\<close>.
\<close>

datatype write_call = WMkdirAll | WCreateTemp | WChmod | WWrite | WSync | WClose | WRename

record fs_env =
  fe_lstat :: "go_error option"
  fe_open :: "file_node \<Rightarrow> (bool \<times> file_node) result"
  fe_read :: "go_error option"
  fe_write :: "write_call \<Rightarrow> go_error option"
  fe_temp :: string

definition group_or_other :: "nat \<Rightarrow> bool" where
  "group_or_other perm = (perm mod 64 \<noteq> 0)"

definition private_file :: "file_node \<Rightarrow> bool" where
  "private_file n = (\<not> fn_symlink n \<and> fn_regular n \<and> \<not> group_or_other (fn_perm n) \<and> fn_owned n)"

section \<open>The store\<close>

record session_record =
  SessionID :: string
  SessionKeyHash :: string
  Workspace :: string
  ClientMode :: string
  ClientModeGeneration :: "64 word"
  HistorySeen :: "string list"
  UpdatedAt :: string

type_synonym sessions = "(string \<times> session_record) list"

definition zero_record :: session_record where
  "zero_record = \<lparr>SessionID = [], SessionKeyHash = [], Workspace = [], ClientMode = [],
                  ClientModeGeneration = 0, HistorySeen = [], UpdatedAt = []\<rparr>"

definition f_uint64 :: "(64 word \<Rightarrow> 'r \<Rightarrow> 'r) \<Rightarrow> 'r \<Rightarrow> json \<Rightarrow> 'r option" where
  "f_uint64 upd r v =
     (case v of
        JNull \<Rightarrow> Some r
      | JNum n \<Rightarrow>
          (case digits_value 0 n of
             None \<Rightarrow> None
           | Some k \<Rightarrow> if n \<noteq> [] \<and> k < 2 ^ 64 then Some (upd (word_of_nat k) r) else None)
      | _ \<Rightarrow> None)"

definition record_fields :: "session_record field list" where
  "record_fields =
     [(''session_id'', f_string (\<lambda>s r. r\<lparr>SessionID := s\<rparr>)),
      (''session_key_hash'', f_string (\<lambda>s r. r\<lparr>SessionKeyHash := s\<rparr>)),
      (''workspace'', f_string (\<lambda>s r. r\<lparr>Workspace := s\<rparr>)),
      (''client_mode'', f_string (\<lambda>s r. r\<lparr>ClientMode := s\<rparr>)),
      (''client_mode_generation'', f_uint64 (\<lambda>g r. r\<lparr>ClientModeGeneration := g\<rparr>)),
      (''history_seen'', f_strings (\<lambda>ss r. r\<lparr>HistorySeen := ss\<rparr>)),
      (''updated_at'', f_string (\<lambda>s r. r\<lparr>UpdatedAt := s\<rparr>))]"

definition record_json :: "session_record \<Rightarrow> json" where
  "record_json r =
     JObj ([(''session_id'', JStr (SessionID r)), (''session_key_hash'', JStr (SessionKeyHash r)),
            (''workspace'', JStr (Workspace r))]
           @ (if ClientMode r = [] then [] else [(''client_mode'', JStr (ClientMode r))])
           @ (if ClientModeGeneration r = 0 then []
              else [(''client_mode_generation'', JNum (itoa_nat (unat (ClientModeGeneration r))))])
           @ (if HistorySeen r = [] then [] else [(''history_seen'', JArr (map JStr (HistorySeen r)))])
           @ [(''updated_at'', JStr (UpdatedAt r))])"

definition store_json :: "sessions \<Rightarrow> json" where
  "store_json ss = JObj [(''sessions'', JObj (map (\<lambda>(k, r). (k, record_json r)) ss))]"

text \<open>Decoding into a \<open>map[string]Record\<close>: every value starts from a zero record.\<close>

fun decode_records :: "(string \<times> json) list \<Rightarrow> sessions \<Rightarrow> sessions option" where
  "decode_records [] acc = Some acc"
| "decode_records ((k, v) # kvs) acc =
     (case decode_struct False record_fields zero_record v of
        None \<Rightarrow> None
      | Some r \<Rightarrow> decode_records kvs (obj_put k r acc))"

definition f_sessions :: "sessions option \<Rightarrow> json \<Rightarrow> sessions option option" where
  "f_sessions old v =
     (case v of
        JNull \<Rightarrow> Some None
      | JObj kvs \<Rightarrow> map_option Some (decode_records kvs (case old of None \<Rightarrow> [] | Some m \<Rightarrow> m))
      | _ \<Rightarrow> None)"

definition decode_store :: "string \<Rightarrow> sessions" where
  "decode_store raw =
     (case Option.bind (json_parse raw) (decode_struct False [(''sessions'', f_sessions)] (Some [])) of
        Some (Some ss) \<Rightarrow> ss
      | _ \<Rightarrow> [])"

definition MaxStoreBytes :: nat where
  "MaxStoreBytes = 8 * 2 ^ 20"

definition readStore :: "fs_env \<Rightarrow> string \<Rightarrow> files \<Rightarrow> sessions" where
  "readStore e path fs =
     (case (fe_lstat e, fs path) of
        (None, Some info) \<Rightarrow>
          if \<not> private_file info \<or> MaxStoreBytes < length (fn_bytes info) then []
          else
            (case fe_open e info of
               Inl _ \<Rightarrow> []
             | Inr (same, opened) \<Rightarrow>
                 if \<not> same \<or> \<not> fn_regular opened \<or> group_or_other (fn_perm opened) \<or> \<not> fn_owned opened then []
                 else if fe_read e \<noteq> None \<or> MaxStoreBytes < length (fn_bytes opened) then []
                 else decode_store (fn_bytes opened))
      | _ \<Rightarrow> [])"

text \<open>
  The calls of \<open>writeStore\<close> in order; the deferred cleanup removes the temporary file unless the
  rename succeeded, which replaces the target in one step.
\<close>

definition store_unsafe :: go_error where
  "store_unsafe = ErrNew ''provider session store must be an owner-only regular non-symlink file''"

fun first_failure :: "(write_call \<Rightarrow> go_error option) \<Rightarrow> write_call list \<Rightarrow> go_error option" where
  "first_failure f [] = None"
| "first_failure f (c # cs) = (case f c of Some err \<Rightarrow> Some err | None \<Rightarrow> first_failure f cs)"

definition temp_node :: "string \<Rightarrow> file_node" where
  "temp_node raw = \<lparr>fn_symlink = False, fn_regular = True, fn_perm = 384, fn_owned = True, fn_bytes = raw\<rparr>"

definition writeStore :: "fs_env \<Rightarrow> string \<Rightarrow> sessions \<Rightarrow> files \<Rightarrow> go_error option \<times> files" where
  "writeStore e path store fs =
     (case fe_write e WMkdirAll of
        Some err \<Rightarrow> (Some err, fs)
      | None \<Rightarrow>
          (case fe_lstat e of
             Some err \<Rightarrow> (Some err, fs)
           | None \<Rightarrow>
               if (case fs path of None \<Rightarrow> False | Some info \<Rightarrow> \<not> private_file info) then (Some store_unsafe, fs)
               else
                 (let raw = json_marshal_indent (store_json store)
                  in if MaxStoreBytes < length raw then (Some (ErrNew ''provider session store exceeds size limit''), fs)
                     else
                       (case fe_write e WCreateTemp of
                          Some err \<Rightarrow> (Some err, fs)
                        | None \<Rightarrow>
                            (case first_failure (fe_write e) [WChmod, WWrite, WSync, WClose, WRename] of
                               Some err \<Rightarrow> (Some err, fs(fe_temp e := None))
                             | None \<Rightarrow> (None, fs(fe_temp e := None, path \<mapsto> temp_node raw)))))))"

definition Update :: "fs_env \<Rightarrow> string \<Rightarrow> (sessions \<Rightarrow> sessions option) \<Rightarrow> files \<Rightarrow> go_error option \<times> files" where
  "Update e path edit fs =
     (case edit (readStore e path fs) of
        None \<Rightarrow> (None, fs)
      | Some store \<Rightarrow> writeStore e path store fs)"

section \<open>Keys and scopes\<close>

definition key_text :: "string \<Rightarrow> string \<Rightarrow> string \<Rightarrow> string" where
  "key_text provider workspace sessionKey =
     trim_space provider @ CHR 0x00 # filepath_clean workspace @ CHR 0x00 # trim_space sessionKey"

definition session_key :: "string \<Rightarrow> string \<Rightarrow> string \<Rightarrow> string" where
  "session_key provider workspace sessionKey = hex_encode (sha256 (key_text provider workspace sessionKey))"

definition KeyHash :: "string \<Rightarrow> string \<Rightarrow> string \<Rightarrow> string" where
  "KeyHash provider workspace sessionKey = take 24 (session_key provider workspace sessionKey)"

text \<open>\<open>cache\<close> is \<open>os.UserCacheDir\<close> (\<open>None\<close> its failure), \<open>tmp\<close> \<open>os.TempDir\<close>.\<close>

definition store_path :: "string option \<Rightarrow> string \<Rightarrow> string \<Rightarrow> string \<Rightarrow> string \<Rightarrow> string" where
  "store_path cache tmp configured provider workspace =
     (let value = trim_space configured
      in if value \<noteq> [] then value
         else
           (let dir = (case cache of None \<Rightarrow> tmp | Some d \<Rightarrow> if trim_space d = [] then tmp else d)
            in filepath_join [dir, ''openlinker'', ''session-map'',
                 provider @ ''-'' @ hex_encode (take 8 (sha256 (filepath_clean workspace))) @ ''.json'']))"

fun scope_parts :: "string list \<Rightarrow> string" where
  "scope_parts [] = []"
| "scope_parts (p # ps) = CHR ''/'' # itoa_nat (length p) @ CHR '':'' # p @ scope_parts ps"

definition scope_text :: "string list \<Rightarrow> string" where
  "scope_text ps = ''openlinker/native-session/v1'' @ scope_parts ps"

definition Scope :: "string list \<Rightarrow> string" where
  "Scope ps = hex_encode (sha256 (scope_text ps))"

section \<open>History cursors\<close>

text \<open>A message is the JSON value its struct encodes to.\<close>

definition HistoryKey :: "json \<Rightarrow> string" where
  "HistoryKey message = hex_encode (sha256 (json_marshal message))"

definition remember_key :: "nat \<Rightarrow> string list \<Rightarrow> json \<Rightarrow> string list" where
  "remember_key limit keys m =
     (let k = HistoryKey m; keys1 = (if k \<in> set keys then keys else keys @ [k])
      in if limit < length keys1 then drop (length keys1 - limit) keys1 else keys1)"

fun RememberHistory :: "string list \<Rightarrow> json list \<Rightarrow> nat \<Rightarrow> string list" where
  "RememberHistory keys [] limit = keys"
| "RememberHistory keys (m # ms) limit = RememberHistory (remember_key limit keys m) ms limit"

fun UnseenHistory :: "json list \<Rightarrow> string list \<Rightarrow> json list" where
  "UnseenHistory [] seen = []"
| "UnseenHistory (m # ms) seen =
     (if HistoryKey m \<in> set seen then UnseenHistory ms seen else m # UnseenHistory ms seen)"

section \<open>Product policy\<close>

record conversation =
  conv_id :: string
  conv_session_key :: string
  conv_protocol_context :: string
  conv_root_context :: string
  conv_current_run :: string
  conv_source :: string
  conv_history :: "json list"
  conv_protocol_task :: string
  conv_truncated :: bool

record run_context =
  rc_run_id :: string
  rc_agent_id :: string
  rc_principal :: "string option"
  rc_conversation :: "conversation option"
  rc_packages_loaded :: bool

definition conversationSessionKey :: "'a run_context_scheme \<Rightarrow> string" where
  "conversationSessionKey run =
     (case rc_conversation run of
        None \<Rightarrow> []
      | Some c \<Rightarrow>
          (case filter (\<lambda>v. v \<noteq> [])
                  (map trim_space [conv_session_key c, conv_root_context c, conv_protocol_context c, conv_id c]) of
             [] \<Rightarrow> []
           | v # _ \<Rightarrow> v))"

text \<open>\<open>sandboxed\<close> stands for \<open>config.sandbox != nil\<close>.\<close>

definition providerSessionScope :: "string \<Rightarrow> bool \<Rightarrow> 'a run_context_scheme \<Rightarrow> string \<times> string" where
  "providerSessionScope provider sandboxed run =
     (if sandboxed then (provider, conversationSessionKey run)
      else
        (let namespace = provider @ ''/principal-v1''
         in case (rc_principal run, rc_conversation run) of
              (Some prin, Some c) \<Rightarrow>
                if trim_space prin = [] \<or> trim_space (rc_agent_id run) = [] \<or> rc_run_id run = []
                   \<or> conv_source c \<noteq> ''core'' \<or> conv_current_run c \<noteq> rc_run_id run
                   \<or> trim_space (conv_session_key c) = []
                then (namespace, [])
                else (namespace, Scope [''provider-principal-v1'', rc_agent_id run, prin,
                                        conversationSessionKey run])
            | _ \<Rightarrow> (namespace, [])))"

definition loadSessionForClientMode ::
  "fs_env \<Rightarrow> string \<Rightarrow> string \<Rightarrow> string \<Rightarrow> string \<Rightarrow> string \<Rightarrow> files \<Rightarrow> string \<times> 64 word \<times> bool" where
  "loadSessionForClientMode e path provider workspace sessionKey clientMode fs =
     (case map_of (readStore e path fs) (session_key provider workspace sessionKey) of
        None \<Rightarrow> ([], 1, False)
      | Some record \<Rightarrow>
          (let generation = (if ClientModeGeneration record = 0 then 1 else ClientModeGeneration record);
               stored = trim_space (ClientMode record);
               stored = (if stored = [] then ''standard'' else stored)
           in if stored \<noteq> clientMode then ([], generation + 1, True)
              else (trim_space (SessionID record), generation, False)))"

fun remember_runs :: "string list \<Rightarrow> 'a run_context_scheme list \<Rightarrow> string list" where
  "remember_runs seen [] = seen"
| "remember_runs seen (run # runs) =
     remember_runs (case rc_conversation run of None \<Rightarrow> seen
                    | Some c \<Rightarrow> RememberHistory seen (conv_history c) 512) runs"

definition saved_record ::
  "string \<Rightarrow> string \<Rightarrow> string \<Rightarrow> string \<Rightarrow> 64 word \<Rightarrow> 'a run_context_scheme list \<Rightarrow> string \<Rightarrow> sessions \<Rightarrow> session_record" where
  "saved_record key workspace sessionID clientMode generation runs now store =
     (let previous = (case map_of store key of None \<Rightarrow> zero_record | Some r \<Rightarrow> r)
      in \<lparr>SessionID = sessionID, SessionKeyHash = take 24 key, Workspace = filepath_clean workspace,
          ClientMode = trim_space clientMode, ClientModeGeneration = generation,
          HistorySeen = remember_runs (if SessionID previous = sessionID then HistorySeen previous else []) runs,
          UpdatedAt = now\<rparr>)"

definition saveSessionForClientMode ::
  "fs_env \<Rightarrow> string \<Rightarrow> string \<Rightarrow> string \<Rightarrow> string \<Rightarrow> string \<Rightarrow> string \<Rightarrow> 64 word \<Rightarrow> 'a run_context_scheme list \<Rightarrow> string
   \<Rightarrow> files \<Rightarrow> go_error option \<times> files" where
  "saveSessionForClientMode e path provider workspace sessionKey sessionID clientMode generation runs now fs =
     (let sessionID = trim_space sessionID; generation = (if generation = 0 then 1 else generation);
          key = session_key provider workspace sessionKey
      in if sessionID = [] then (None, fs)
         else Update e path
                (\<lambda>store. Some (obj_put key
                   (saved_record key workspace sessionID clientMode generation runs now store) store)) fs)"

definition deleteSessionID ::
  "fs_env \<Rightarrow> string \<Rightarrow> string \<Rightarrow> string \<Rightarrow> string \<Rightarrow> files \<Rightarrow> go_error option \<times> files" where
  "deleteSessionID e path provider workspace sessionKey fs =
     (let key = session_key provider workspace sessionKey
      in Update e path (\<lambda>store. if map_of store key = None then None else Some (assoc_del key store)) fs)"

definition runWithSessionHistory ::
  "fs_env \<Rightarrow> 'a run_context_scheme \<Rightarrow> string \<Rightarrow> string \<Rightarrow> string \<Rightarrow> string \<Rightarrow> string \<Rightarrow> files \<Rightarrow> 'a run_context_scheme" where
  "runWithSessionHistory e run path provider workspace key ident fs =
     (let run = run\<lparr>rc_packages_loaded := (ident \<noteq> [])\<rparr>
      in case rc_conversation run of
           None \<Rightarrow> run
         | Some c \<Rightarrow>
             if ident = [] then run
             else
               (let record = (case map_of (readStore e path fs) (session_key provider workspace key) of
                                None \<Rightarrow> zero_record | Some r \<Rightarrow> r)
                in if SessionID record \<noteq> ident then run
                   else run\<lparr>rc_conversation := Some (c\<lparr>conv_history := UnseenHistory (conv_history c) (HistorySeen record)\<rparr>)\<rparr>))"

definition missingProviderSession :: "string \<Rightarrow> bool" where
  "missingProviderSession diagnostic =
     list_ex (str_contains (to_lower diagnostic))
       [''session not found'', ''unknown session'', ''no conversation found'', ''invalid session id'',
        ''no rollout found'', ''thread not found'']"

definition sessionPersistenceError :: "string \<Rightarrow> go_error \<Rightarrow> go_error" where
  "sessionPersistenceError provider err = ErrWrap (''persist '' @ provider @ '' session: '') err []"

section \<open>Encoding and decoding the store\<close>

lemma span_digits_all: "list_all is_digit s \<Longrightarrow> span_digits s = (s, [])"
  by (induction s) auto

lemma itoa_nat_head: "0 < n \<Longrightarrow> hd (itoa_nat n) \<noteq> CHR ''0''"
proof (induction n rule: itoa_nat.induct)
  case (1 n)
  show ?case
  proof (cases "n < 10")
    case True
    have "byte (digit_char n) \<noteq> 48" using True "1.prems" by simp
    then have "digit_char n \<noteq> CHR ''0''" by auto
    then show ?thesis using True by (simp add: itoa_nat.simps)
  next
    case False
    then have "hd (itoa_nat (n div 10)) \<noteq> CHR ''0''" using 1 by simp
    then show ?thesis using False by (subst itoa_nat.simps) simp
  qed
qed

lemma number_literal_itoa: "number_literal (itoa_nat n)"
proof -
  have digits: "list_all is_digit (itoa_nat n)" by (auto simp: list_all_iff intro: itoa_nat_digits)
  obtain c t where ct: "itoa_nat n = c # t" by (cases "itoa_nat n") auto
  have dc: "is_digit c" using digits ct by simp
  then have nm: "c \<noteq> CHR ''-''" by (auto simp: is_digit_def)
  have tail: "parse_frac [] = Some ([], [])" "parse_exp [] = Some ([], [])" by (simp_all add: parse_frac_def parse_exp_def)
  have int: "parse_int_part (c # t) = Some (c # t, [])"
  proof (cases "c = CHR ''0''")
    case True
    then have "n = 0" using itoa_nat_head [of n] ct by auto
    then have "t = []" using ct by (simp add: itoa_nat.simps)
    then show ?thesis using True by (simp add: parse_int_part_def)
  next
    case False
    then show ?thesis using dc span_digits_all digits ct by (simp add: parse_int_part_def del: span_digits.simps)
  qed
  show ?thesis unfolding number_literal_def parse_number_def ct using nm int tail by simp
qed

definition record_wf :: "session_record \<Rightarrow> bool" where
  "record_wf r =
     (valid_string (SessionID r) \<and> valid_string (SessionKeyHash r) \<and> valid_string (Workspace r)
      \<and> valid_string (ClientMode r) \<and> list_all valid_string (HistorySeen r) \<and> valid_string (UpdatedAt r))"

definition store_wf :: "sessions \<Rightarrow> bool" where
  "store_wf ss = (distinct (map fst ss) \<and> sorted_wrt str_le (map fst ss)
                  \<and> list_all (\<lambda>(k, r). valid_string k \<and> record_wf r) ss)"

lemma json_strings_JStr [simp]: "json_strings (map JStr ss) = Some ss"
  by (induction ss) auto

lemma unat64_less: "unat (g :: 64 word) < 18446744073709551616"
  using unsigned_less [of g] by simp

lemma record_decode: "decode_struct False record_fields zero_record (record_json r) = Some r"
  by (cases r)
    (simp add: record_json_def decode_struct_def record_fields_def find_field_def field_defs f_uint64_def zero_record_def
      digits_value_itoa unat64_less)

lemma field_names_valid:
  "valid_string ''session_id''" "valid_string ''session_key_hash''" "valid_string ''workspace''"
  "valid_string ''client_mode''" "valid_string ''client_mode_generation''" "valid_string ''history_seen''"
  "valid_string ''updated_at''" "valid_string ''sessions''"
  by (rule ascii_valid, simp)+

lemma store_json_wf: "store_wf ss \<Longrightarrow> json_wf (store_json ss)"
proof -
  have "record_wf r \<Longrightarrow> json_wf (record_json r)" for r
    by (auto simp: record_json_def record_wf_def field_names_valid number_literal_itoa list_all_iff)
  then show "store_wf ss \<Longrightarrow> ?thesis"
    by (auto simp: store_json_def store_wf_def field_names_valid list_all_iff)
qed

lemma obj_put_last:
  assumes "\<forall>k' \<in> fst ` set acc. str_le k' k \<and> k' \<noteq> k"
  shows "obj_put k v acc = acc @ [(k, v)]"
  using assms
proof (induction acc)
  case (Cons p acc)
  obtain k' v' where p: "p = (k', v')" by force
  have "\<not> str_le k k'" using Cons.prems p str_le_antisym by auto
  then show ?case using Cons p by auto
qed simp

lemma decode_records_sorted:
  "distinct (map fst (acc @ ss)) \<Longrightarrow> sorted_wrt str_le (map fst (acc @ ss)) \<Longrightarrow>
   decode_records (map (\<lambda>(k, r). (k, record_json r)) ss) acc = Some (acc @ ss)"
proof (induction ss arbitrary: acc)
  case (Cons p ss)
  obtain k r where p: "p = (k, r)" by force
  have "\<forall>k' \<in> fst ` set acc. str_le k' k \<and> k' \<noteq> k"
    using Cons.prems p by (auto simp: sorted_wrt_append)
  then have put: "obj_put k r acc = acc @ [(k, r)]" by (rule obj_put_last)
  show ?case using Cons.IH [of "acc @ [(k, r)]"] Cons.prems p put record_decode [of r] by simp
qed simp

lemma decode_store_encode:
  assumes "store_wf ss"
  shows "decode_store (json_marshal_indent (store_json ss)) = ss"
proof -
  have "json_parse (json_marshal_indent (store_json ss)) = Some (store_json ss)"
    by (rule json_parse_marshal_indent [OF store_json_wf [OF assms]])
  moreover have "decode_records (map (\<lambda>(k, r). (k, record_json r)) ss) [] = Some ss"
    using decode_records_sorted [of "[]" ss] assms by (simp add: store_wf_def)
  ultimately show ?thesis
    by (simp add: decode_store_def store_json_def decode_struct_def find_field_def f_sessions_def)
qed

section \<open>Reads and writes\<close>

text \<open>An operating system in which nothing fails and nothing is swapped.\<close>

definition calm :: "fs_env \<Rightarrow> bool" where
  "calm e = (fe_lstat e = None \<and> (\<forall>n. fe_open e n = Inr (True, n)) \<and> fe_read e = None)"

lemma private_temp [simp]: "private_file (temp_node raw)"
  by (simp add: private_file_def temp_node_def group_or_other_def)

lemma writeStore_None:
  assumes "writeStore e path store fs = (None, fs')"
  shows "fs' path = Some (temp_node (json_marshal_indent (store_json store)))
    \<and> length (json_marshal_indent (store_json store)) \<le> MaxStoreBytes"
  using assms by (auto simp: writeStore_def Let_def split: option.splits if_splits)

lemma writeStore_Some:
  assumes "writeStore e path store fs = (Some err, fs')"
  shows "fs' = fs \<or> fs' = fs(fe_temp e := None)"
  using assms by (auto simp: writeStore_def Let_def split: option.splits if_splits)

lemma readStore_written:
  assumes "calm e" and "store_wf store" and "fs path = Some (temp_node (json_marshal_indent (store_json store)))"
    and "length (json_marshal_indent (store_json store)) \<le> MaxStoreBytes"
  shows "readStore e path fs = store"
proof -
  let ?n = "temp_node (json_marshal_indent (store_json store))"
  have n: "fn_bytes ?n = json_marshal_indent (store_json store)" "fn_regular ?n" "fn_owned ?n" "\<not> group_or_other (fn_perm ?n)"
    by (simp_all add: temp_node_def group_or_other_def)
  show ?thesis using assms n decode_store_encode [OF assms(2)] by (simp add: readStore_def calm_def)
qed

lemma obj_put_keys: "set (map fst (obj_put k v m)) = insert k (set (map fst m))"
  by (induction k v m rule: obj_put.induct) auto

lemma obj_put_wf:
  assumes "store_wf ss" and "valid_string k" and "record_wf r"
  shows "store_wf (obj_put k r ss)"
proof -
  have "distinct (map fst (obj_put k r ss)) \<and> sorted_wrt str_le (map fst (obj_put k r ss))"
    if "distinct (map fst ss)" "sorted_wrt str_le (map fst ss)"
    using that
  proof (induction k r ss rule: obj_put.induct)
    case (2 k v k' v' kvs)
    show ?case
    proof (cases "k = k'")
      case True
      then show ?thesis using 2 by auto
    next
      case False
      show ?thesis
      proof (cases "str_le k k'")
        case True
        have "str_le k x \<and> x \<noteq> k" if "x \<in> fst ` set kvs" for x
        proof -
          have "str_le k' x" using "2.prems"(2) that by auto
          then show ?thesis using True False str_le_trans str_le_antisym by blast
        qed
        then show ?thesis using "2.prems" True False by auto
      next
        case nle: False
        then have "str_le k' k" using str_le_total by blast
        then show ?thesis using 2 False nle obj_put_keys [of k v kvs] by auto
      qed
    qed
  qed simp
  moreover have "list_all (\<lambda>(k, r). valid_string k \<and> record_wf r) (obj_put k r ss)"
    if "list_all (\<lambda>(k, r). valid_string k \<and> record_wf r) ss"
    using that assms(2,3) by (induction k r ss rule: obj_put.induct) auto
  ultimately show ?thesis using assms(1) by (simp add: store_wf_def)
qed

lemma remember_key_eq:
  "remember_key limit keys m = lastn limit (if HistoryKey m \<in> set keys then keys else keys @ [HistoryKey m])"
  by (simp add: remember_key_def Let_def lastn_def)

lemma RememberHistory_subset: "set (RememberHistory keys h limit) \<subseteq> set keys \<union> HistoryKey ` set h"
proof (induction keys h limit rule: RememberHistory.induct)
  case (2 keys m ms limit)
  have "set (remember_key limit keys m) \<subseteq> insert (HistoryKey m) (set keys)"
    unfolding remember_key_eq by (rule subset_trans [OF set_lastn]) auto
  then show ?case using 2 by auto
qed simp

lemma remember_runs_valid:
  "list_all valid_string seen \<Longrightarrow> list_all valid_string (remember_runs seen runs)"
proof (induction seen runs rule: remember_runs.induct)
  case (2 seen run runs)
  have "list_all valid_string (RememberHistory seen h 512)" for h
    using RememberHistory_subset [of seen h 512] "2.prems"
    by (auto simp: list_all_iff HistoryKey_def hex_encode_valid)
  then show ?case using 2 by (simp split: option.splits)
qed simp

lemma saved_record_wf:
  assumes "store_wf store" and "valid_string sid" and "valid_string (filepath_clean workspace)"
    and "valid_string (trim_space mode)" and "valid_string now"
  shows "record_wf (saved_record (session_key p w k) workspace sid mode g runs now store)"
proof -
  have "valid_string (take 24 (session_key p w k))"
    by (rule ascii_valid) (auto simp: list_all_iff session_key_def is_lower_hex_def is_digit_def
        dest!: in_set_takeD hex_encode_hex)
  moreover have "list_all valid_string (HistorySeen r)" if "map_of store key = Some r" for key r
    using assms(1) map_of_SomeD [OF that] by (auto simp: store_wf_def list_all_iff record_wf_def)
  ultimately show ?thesis
    using assms by (auto simp: saved_record_def record_wf_def Let_def zero_record_def split: option.splits
        intro!: remember_runs_valid)
qed

lemma assoc_del_wf: "store_wf ss \<Longrightarrow> store_wf (assoc_del k ss)"
proof -
  have "map fst (assoc_del k ss) = filter (\<lambda>x. x \<noteq> k) (map fst ss)"
    by (induction ss) (auto simp: assoc_del_def)
  then show "store_wf ss \<Longrightarrow> store_wf (assoc_del k ss)"
    by (auto simp: store_wf_def list_all_iff set_assoc_del sorted_wrt_filter)
qed

lemma deleted_store:
  assumes "calm e" "store_wf (readStore e path fs)" "deleteSessionID e path provider workspace key fs = (None, fs')"
  shows "readStore e path fs' = assoc_del (session_key provider workspace key) (readStore e path fs)"
proof (cases "map_of (readStore e path fs) (session_key provider workspace key)")
  case None
  then have "session_key provider workspace key \<notin> fst ` set (readStore e path fs)" by (simp add: map_of_eq_None_iff)
  then have "assoc_del (session_key provider workspace key) (readStore e path fs) = readStore e path fs"
    by (force simp: assoc_del_def intro!: filter_True)
  then show ?thesis using assms(3) None by (simp add: deleteSessionID_def Update_def Let_def)
next
  case (Some r)
  let ?new = "assoc_del (session_key provider workspace key) (readStore e path fs)"
  have w: "writeStore e path ?new fs = (None, fs')" using assms(3) Some by (simp add: deleteSessionID_def Update_def Let_def)
  show ?thesis using readStore_written [OF assms(1) assoc_del_wf [OF assms(2)]] writeStore_None [OF w] by blast
qed

lemma saved_loads:
  assumes calm: "calm e" and wf: "store_wf (readStore e path fs)"
    and valid: "valid_string (trim_space sid)" "valid_string (filepath_clean workspace)"
      "valid_string (trim_space mode)" "valid_string now"
    and sid: "trim_space sid \<noteq> []" and mode: "trim_space mode \<noteq> []"
    and saved: "saveSessionForClientMode e path provider workspace key sid mode generation runs now fs = (None, fs')"
  shows "loadSessionForClientMode e path provider workspace key mode' fs' =
    (let g = (if generation = 0 then 1 else generation)
     in if mode' = trim_space mode then (trim_space sid, g, False) else ([], g + 1, True))"
proof -
  let ?g = "if generation = 0 then 1 else generation"
  let ?k = "session_key provider workspace key"
  let ?old = "readStore e path fs"
  let ?r = "saved_record ?k workspace (trim_space sid) mode ?g runs now ?old"
  let ?new = "obj_put ?k ?r ?old"
  have w: "writeStore e path ?new fs = (None, fs')"
    using saved sid by (simp add: saveSessionForClientMode_def Update_def Let_def)
  have "store_wf ?new"
    by (rule obj_put_wf [OF wf]) (simp_all add: session_key_def hex_encode_valid saved_record_wf wf valid [unfolded session_key_def]
        saved_record_wf [unfolded session_key_def])
  then have "readStore e path fs' = ?new" using readStore_written [OF calm] writeStore_None [OF w] by blast
  moreover have "SessionID ?r = trim_space sid" "ClientMode ?r = trim_space mode" "ClientModeGeneration ?r = ?g"
    by (simp_all add: saved_record_def Let_def)
  ultimately show ?thesis using mode by (auto simp: loadSessionForClientMode_def Let_def)
qed

section \<open>Properties\<close>

text \<open>
  C5: A saved session is found again: after a successful save, loading it in the same client mode
  gives the trimmed session id and its generation, and loading it in any other mode gives no id
  and the next generation, marked as a mode change.
\<close>

theorem saved_session_loads:
  assumes calm: "calm e" and wf: "store_wf (readStore e path fs)"
    and valid: "valid_string (trim_space sid)" "valid_string (filepath_clean workspace)"
      "valid_string (trim_space mode)" "valid_string now"
    and sid: "trim_space sid \<noteq> []" and mode: "trim_space mode \<noteq> []"
    and saved: "saveSessionForClientMode e path provider workspace key sid mode generation runs now fs = (None, fs')"
  shows "loadSessionForClientMode e path provider workspace key mode' fs' =
    (let g = (if generation = 0 then 1 else generation)
     in if mode' = trim_space mode then (trim_space sid, g, False) else ([], g + 1, True))"
  by (rule saved_loads [OF assms])

definition demo_fs_env :: fs_env where
  "demo_fs_env = \<lparr>fe_lstat = None, fe_open = (\<lambda>n. Inr (True, n)), fe_read = None, fe_write = (\<lambda>_. None),
                  fe_temp = ''/s/.sessions-1.tmp''\<rparr>"

lemma demo_trims: "trim_space '' id-1 '' = ''id-1''" "trim_space ''standard'' = ''standard''" "filepath_clean ''/w'' = ''/w''"
  by code_simp+

lemma demo_store_valid:
  "valid_string ''id-1''" "valid_string ''/w''" "valid_string ''standard''" "valid_string ''2024-01-01T00:00:00Z''"
  by (rule ascii_valid, simp)+

lemma demo_reads: "readStore demo_fs_env path (\<lambda>_. None) = []"
  by (simp add: readStore_def demo_fs_env_def)

lemma demo_calm: "calm demo_fs_env"
  by (simp add: calm_def demo_fs_env_def)

lemma demo_saves:
  assumes "remember_runs [] runs = []"
  shows "\<exists>fs'. saveSessionForClientMode demo_fs_env path provider ''/w'' key '' id-1 '' ''standard'' 0 runs
       ''2024-01-01T00:00:00Z'' (\<lambda>_. None) = (None, fs')"
proof -
  let ?k = "session_key provider ''/w'' key"
  let ?new = "[(?k, saved_record ?k ''/w'' ''id-1'' ''standard'' 1 runs ''2024-01-01T00:00:00Z'' [])]"
  have len: "length (json_marshal_indent (store_json ?new)) \<le> 2000"
    using length_json_quote [of "''sessions''"] length_json_quote [of ?k] length_json_quote [of "''session_id''"]
      length_json_quote [of "''id-1''"] length_json_quote [of "''session_key_hash''"] length_json_quote [of "take 24 ?k"]
      length_json_quote [of "''workspace''"] length_json_quote [of "''/w''"] length_json_quote [of "''client_mode''"]
      length_json_quote [of "''standard''"] length_json_quote [of "''client_mode_generation''"]
      length_json_quote [of "''updated_at''"] length_json_quote [of "''2024-01-01T00:00:00Z''"]
    by (simp add: json_marshal_indent_def store_json_def record_json_def saved_record_def Let_def zero_record_def
        json_newline_def demo_trims session_key_def itoa_nat.simps str_join_Cons assms)
  have env: "fe_lstat demo_fs_env = None" "fe_write demo_fs_env c = None" for c by (simp_all add: demo_fs_env_def)
  show ?thesis
    using len by (simp add: saveSessionForClientMode_def Update_def writeStore_def Let_def demo_trims demo_reads env MaxStoreBytes_def)
qed

theorem saved_session_loads_witness:
  "\<exists>fs'. saveSessionForClientMode demo_fs_env ''/s/map.json'' ''codex'' ''/w'' ''chat'' '' id-1 '' ''standard'' 0 ([] :: run_context list)
       ''2024-01-01T00:00:00Z'' (\<lambda>_. None) = (None, fs')
     \<and> loadSessionForClientMode demo_fs_env ''/s/map.json'' ''codex'' ''/w'' ''chat'' ''standard'' fs' = (''id-1'', 1, False)"
proof -
  obtain fs' where save: "saveSessionForClientMode demo_fs_env ''/s/map.json'' ''codex'' ''/w'' ''chat'' '' id-1 '' ''standard'' 0
      ([] :: run_context list) ''2024-01-01T00:00:00Z'' (\<lambda>_. None) = (None, fs')"
    using demo_saves [of "[] :: run_context list"] by force
  show ?thesis
    using saved_session_loads [OF demo_calm _ _ _ _ _ _ _ save, of "''standard''"] save
    by (simp add: demo_trims demo_reads demo_store_valid store_wf_def)
qed



text \<open>
  The history cursor may forget but never hides: after any sequence of remembered histories it
  holds at most the limit of keys, all of them of messages that were remembered, so a message
  whose content was never remembered is always passed on, and, when the conversation fits the
  limit, exactly the remembered messages are filtered.
\<close>

theorem history_cursor_safe:
  fixes limit :: nat
  shows "(length keys \<le> limit \<longrightarrow> length (RememberHistory keys h limit) \<le> limit)
    \<and> (\<forall>m \<in> set h'. HistoryKey m \<notin> set keys \<union> HistoryKey ` set h \<longrightarrow>
         m \<in> set (UnseenHistory h' (RememberHistory keys h limit)))
    \<and> (length keys + length h \<le> limit \<longrightarrow>
         UnseenHistory h' (RememberHistory keys h limit)
           = filter (\<lambda>m. HistoryKey m \<notin> set keys \<union> HistoryKey ` set h) h')"
proof (intro conjI)
  have unseen: "UnseenHistory h' seen = filter (\<lambda>m. HistoryKey m \<notin> set seen) h'" for seen
    by (induction h') auto
  show "length keys \<le> limit \<longrightarrow> length (RememberHistory keys h limit) \<le> limit"
    by (induction keys h limit rule: RememberHistory.induct) (auto simp: remember_key_eq)
  show "\<forall>m \<in> set h'. HistoryKey m \<notin> set keys \<union> HistoryKey ` set h \<longrightarrow>
      m \<in> set (UnseenHistory h' (RememberHistory keys h limit))"
    using RememberHistory_subset [of keys h limit] by (auto simp: unseen)
  have "length keys + length h \<le> limit \<longrightarrow>
      set (RememberHistory keys h limit) = set keys \<union> HistoryKey ` set h"
    by (induction keys h limit rule: RememberHistory.induct) (auto simp: remember_key_eq)
  then show "length keys + length h \<le> limit \<longrightarrow>
      UnseenHistory h' (RememberHistory keys h limit)
        = filter (\<lambda>m. HistoryKey m \<notin> set keys \<union> HistoryKey ` set h) h'"
    by (auto simp: unseen)
qed

theorem history_cursor_safe_witness:
  "length (RememberHistory [] [JStr ''a'', JStr ''b''] 2) \<le> 2
   \<and> UnseenHistory [JStr ''a''] (RememberHistory [] [JStr ''a'', JStr ''b''] 2) = []"
  using history_cursor_safe [of "[]" 2 "[JStr ''a'', JStr ''b'']" "[JStr ''a'']"] by simp

lemma digits_then_colon:
  assumes "itoa_nat m @ CHR '':'' # x = itoa_nat n @ CHR '':'' # y"
  shows "m = n \<and> x = y"
proof -
  have nc: "CHR '':'' \<notin> set (itoa_nat k)" for k using itoa_nat_digits [of "CHR '':''" k] by (auto simp: is_digit_def)
  have "takeWhile (\<lambda>c. c \<noteq> CHR '':'') (itoa_nat k @ CHR '':'' # z) = itoa_nat k" for k z
    using nc [of k] by (induction "itoa_nat k") (auto simp: takeWhile_append)
  then have "itoa_nat m = itoa_nat n" using assms by metis
  then show ?thesis using assms by simp
qed

lemma scope_parts_inject: "scope_parts ps = scope_parts qs \<Longrightarrow> ps = qs"
proof (induction ps arbitrary: qs)
  case Nil
  then show ?case by (cases qs) auto
next
  case (Cons p ps)
  then obtain q rest where q: "qs = q # rest" by (cases qs) auto
  have eq: "itoa_nat (length p) @ CHR '':'' # p @ scope_parts ps = itoa_nat (length q) @ CHR '':'' # q @ scope_parts rest"
    using Cons.prems q by simp
  from digits_then_colon [OF this] have "length p = length q" "p @ scope_parts ps = q @ scope_parts rest" by auto
  then show ?case using Cons.IH q by simp
qed

text \<open>
  C8: Session scopes do not alias: two scopes hash the same bytes only when they have the same
  parts, so a Run that is not isolated and two different principals, Agents or conversations
  never share the hashed text of a stored session; and without Core authority (a principal, the
  Agent, the current Run of a Core conversation) there is no key at all.
\<close>

theorem session_scopes_separate:
  "(scope_text ps = scope_text qs \<longrightarrow> ps = qs)
   \<and> (snd (providerSessionScope provider False run) \<noteq> [] \<longrightarrow>
        (\<exists>prin c. rc_principal run = Some prin \<and> rc_conversation run = Some c \<and> trim_space prin \<noteq> []
           \<and> trim_space (rc_agent_id run) \<noteq> [] \<and> conv_source c = ''core'' \<and> conv_current_run c = rc_run_id run
           \<and> snd (providerSessionScope provider False run) =
               hex_encode (sha256 (scope_text [''provider-principal-v1'', rc_agent_id run, prin, conversationSessionKey run]))))"
  by (auto simp: scope_text_def providerSessionScope_def Let_def Scope_def split: option.splits if_splits
      dest: scope_parts_inject)

theorem session_scopes_separate_witness:
  "scope_text [''a'', ''bc''] \<noteq> scope_text [''ab'', ''c'']"
  using session_scopes_separate [of "[''a'', ''bc'']" "[''ab'', ''c'']"] by blast

end
