(* ===== verification/Session_Lock.thy ===== *)
theory Session_Lock
  imports Prelude
begin

text \<open>
  The in-process session locks: \<open>Lock\<close> of \<open>pkg/adapters/providersession/store.go\<close>. The table
  maps a session key to an entry with a mutex and a reference count; an entry is deleted when its
  last user leaves. The model is a step relation over the goroutines that use it: registering
  (under the table's mutex), entering the entry's mutex, leaving it, and unregistering.
\<close>

section \<open>The machine\<close>

text \<open>Where a goroutine is: outside, blocked in \<open>entry.mu.Lock\<close>, inside, or about to unregister.\<close>

datatype phase = Outside | Waiting string nat | Inside string nat | Leaving string nat

record lock_state =
  entries :: "string \<Rightarrow> nat option"
  refs :: "nat \<Rightarrow> nat"
  fresh :: nat
  phase_of :: "nat \<Rightarrow> phase"

definition init_locks :: lock_state where
  "init_locks = \<lparr>entries = (\<lambda>_. None), refs = (\<lambda>_. 0), fresh = 0, phase_of = (\<lambda>_. Outside)\<rparr>"

fun entry_of :: "phase \<Rightarrow> (string \<times> nat) option" where
  "entry_of Outside = None"
| "entry_of (Waiting k i) = Some (k, i)"
| "entry_of (Inside k i) = Some (k, i)"
| "entry_of (Leaving k i) = Some (k, i)"

definition register :: "nat \<Rightarrow> string \<Rightarrow> lock_state \<Rightarrow> lock_state" where
  "register t k s =
     (let i = (case entries s k of Some i \<Rightarrow> i | None \<Rightarrow> fresh s);
          s1 = (case entries s k of Some _ \<Rightarrow> s | None \<Rightarrow> s\<lparr>entries := (entries s)(k \<mapsto> i), fresh := Suc (fresh s)\<rparr>)
      in s1\<lparr>refs := (refs s1)(i := Suc (refs s1 i)), phase_of := (phase_of s1)(t := Waiting k i)\<rparr>)"

definition unregister :: "nat \<Rightarrow> string \<Rightarrow> nat \<Rightarrow> lock_state \<Rightarrow> lock_state" where
  "unregister t k i s =
     (let s1 = s\<lparr>refs := (refs s)(i := refs s i - 1), phase_of := (phase_of s)(t := Outside)\<rparr>
      in if refs s1 i = 0 then s1\<lparr>entries := (entries s1)(k := None)\<rparr> else s1)"

inductive lock_step :: "lock_state \<Rightarrow> lock_state \<Rightarrow> bool" where
  start: "phase_of s t = Outside \<Longrightarrow> lock_step s (register t k s)"
| enter: "phase_of s t = Waiting k i \<Longrightarrow> (\<And>u k'. phase_of s u \<noteq> Inside k' i) \<Longrightarrow>
    lock_step s (s\<lparr>phase_of := (phase_of s)(t := Inside k i)\<rparr>)"
| leave: "phase_of s t = Inside k i \<Longrightarrow> lock_step s (s\<lparr>phase_of := (phase_of s)(t := Leaving k i)\<rparr>)"
| stop: "phase_of s t = Leaving k i \<Longrightarrow> lock_step s (unregister t k i s)"

section \<open>The invariant\<close>

definition users :: "lock_state \<Rightarrow> nat \<Rightarrow> nat set" where
  "users s i = {t. \<exists>k. entry_of (phase_of s t) = Some (k, i)}"

definition lock_inv :: "lock_state \<Rightarrow> bool" where
  "lock_inv s =
     (finite {t. phase_of s t \<noteq> Outside}
      \<and> (\<forall>t k i. entry_of (phase_of s t) = Some (k, i) \<longrightarrow> entries s k = Some i)
      \<and> (\<forall>i. refs s i = card (users s i))
      \<and> (\<forall>k i. entries s k = Some i \<longrightarrow> i < fresh s \<and> users s i \<noteq> {})
      \<and> (\<forall>k k' i. entries s k = Some i \<and> entries s k' = Some i \<longrightarrow> k = k')
      \<and> (\<forall>t u k i. phase_of s t = Inside k i \<and> phase_of s u = Inside k i \<longrightarrow> t = u))"

lemma users_move:
  "phase_of s' = (phase_of s)(t := p) \<Longrightarrow>
   users s' i = (if \<exists>k. entry_of p = Some (k, i) then insert t (users s i) else users s i - {t})"
  by (auto simp: users_def)

lemma users_finite: "lock_inv s \<Longrightarrow> finite (users s i)"
proof -
  assume "lock_inv s"
  moreover have "users s i \<subseteq> {t. phase_of s t \<noteq> Outside}" by (auto simp: users_def)
  ultimately show ?thesis by (auto simp: lock_inv_def intro: finite_subset)
qed

lemma lock_invD:
  assumes "lock_inv s"
  shows "entry_of (phase_of s t) = Some (k, i) \<Longrightarrow> entries s k = Some i"
    and "refs s i = card (users s i)"
    and "entries s k = Some i \<Longrightarrow> i < fresh s \<and> users s i \<noteq> {}"
    and "entries s k = Some i \<Longrightarrow> entries s k' = Some i \<Longrightarrow> k = k'"
    and "phase_of s t = Inside k i \<Longrightarrow> phase_of s u = Inside k i \<Longrightarrow> t = u"
  using assms unfolding lock_inv_def by blast+

lemma outside_finite: "finite {t. phase_of s t \<noteq> Outside} \<Longrightarrow> finite {u. ((phase_of s)(t := p)) u \<noteq> Outside}"
  by (rule finite_subset [of _ "insert t {t. phase_of s t \<noteq> Outside}"]) auto

lemma inv_register:
  assumes inv: "lock_inv s" and t: "phase_of s t = Outside"
  shows "lock_inv (register t k s)"
proof -
  let ?i = "case entries s k of Some i \<Rightarrow> i | None \<Rightarrow> fresh s"
  let ?s = "register t k s"
  have ph: "phase_of ?s = (phase_of s)(t := Waiting k ?i)"
    and en: "entries ?s = (entries s)(k \<mapsto> ?i)"
    and rf: "refs ?s = (refs s)(?i := Suc (refs s ?i))"
    and fr: "fresh s \<le> fresh ?s" "?i < fresh ?s"
    using lock_invD(3) [OF inv] by (auto simp: register_def Let_def split: option.splits)
  have us: "users ?s i = (if i = ?i then insert t (users s i) else users s i - {t})" for i
    using users_move [OF ph] by auto
  have nt: "t \<notin> users s i" for i using t by (auto simp: users_def)
  have none: "users s (fresh s) = {}"
    using lock_invD(1,3) [OF inv] by (fastforce simp: users_def)
  have old: "entry_of (phase_of s u) = Some (k', ?i) \<Longrightarrow> k' = k" for u k'
  proof -
    assume a: "entry_of (phase_of s u) = Some (k', ?i)"
    then have e: "entries s k' = Some ?i" by (rule lock_invD(1) [OF inv])
    show "k' = k"
    proof (cases "entries s k")
      case None
      then show ?thesis using lock_invD(3) [OF inv e] by simp
    next
      case (Some i)
      then show ?thesis using lock_invD(4) [OF inv e] by simp
    qed
  qed
  have uniq: "entries s k' = Some ?i \<Longrightarrow> k' = k" for k'
    using lock_invD(3,4) [OF inv] by (cases "entries s k") fastforce+
  show ?thesis
    unfolding lock_inv_def
  proof (intro conjI allI impI)
    show "finite {u. phase_of ?s u \<noteq> Outside}" unfolding ph by (rule outside_finite) (use inv in \<open>simp add: lock_inv_def\<close>)
    show "entries ?s k' = Some i" if "entry_of (phase_of ?s u) = Some (k', i)" for u k' i
      using that lock_invD(1) [OF inv, of u k' i] unfolding ph en by (auto split: if_splits option.splits)
    show "refs ?s i = card (users ?s i)" for i
      unfolding rf us using nt users_finite [OF inv] lock_invD(2) [OF inv] by simp
    show "i < fresh ?s" "users ?s i \<noteq> {}" if "entries ?s k' = Some i" for k' i
      using that lock_invD(3) [OF inv, of k' i] fr nt unfolding en us by (auto split: if_splits)
    show "k' = k''" if "entries ?s k' = Some i \<and> entries ?s k'' = Some i" for k' k'' i
      using that lock_invD(4) [OF inv, of k' i k''] uniq unfolding en by (auto split: if_splits)
    show "u = v" if "phase_of ?s u = Inside k' i \<and> phase_of ?s v = Inside k' i" for u v k' i
      using that lock_invD(5) [OF inv, of u k' i v] unfolding ph by (auto split: if_splits)
  qed
qed

lemma inv_move:
  assumes inv: "lock_inv s" and t: "entry_of (phase_of s t) = Some (k, i)" and p: "entry_of p = Some (k, i)"
    and excl: "p = Inside k i \<Longrightarrow> (\<And>u k'. phase_of s u \<noteq> Inside k' i)"
  shows "lock_inv (s\<lparr>phase_of := (phase_of s)(t := p)\<rparr>)"
proof -
  let ?s = "s\<lparr>phase_of := (phase_of s)(t := p)\<rparr>"
  have us: "users ?s j = users s j" for j
    using t p by (auto simp: users_def)
  show ?thesis
    unfolding lock_inv_def
  proof (intro conjI allI impI)
    show "finite {u. phase_of ?s u \<noteq> Outside}"
      using outside_finite [of s t p] inv by (simp add: lock_inv_def)
    show "entries ?s k' = Some i'" if "entry_of (phase_of ?s u) = Some (k', i')" for u k' i'
      using that lock_invD(1) [OF inv, of u k' i'] lock_invD(1) [OF inv t] p by (auto split: if_splits)
    show "refs ?s j = card (users ?s j)" for j using lock_invD(2) [OF inv] us by simp
    show "j < fresh ?s" "users ?s j \<noteq> {}" if "entries ?s k' = Some j" for k' j
      using that lock_invD(3) [OF inv] us by auto
    show "k' = k''" if "entries ?s k' = Some j \<and> entries ?s k'' = Some j" for k' k'' j
      using that lock_invD(4) [OF inv] by auto
    show "u = v" if "phase_of ?s u = Inside k' j \<and> phase_of ?s v = Inside k' j" for u v k' j
      using that lock_invD(5) [OF inv, of u k' j v] excl p by (auto split: if_splits)
  qed
qed

lemma inv_unregister:
  assumes inv: "lock_inv s" and t: "phase_of s t = Leaving k i"
  shows "lock_inv (unregister t k i s)"
proof -
  let ?s = "unregister t k i s"
  have e: "entries s k = Some i" using lock_invD(1) [OF inv, of t k i] t by simp
  have tin: "t \<in> users s i" using t by (auto simp: users_def)
  have ph: "phase_of ?s = (phase_of s)(t := Outside)" by (auto simp: unregister_def Let_def)
  have rf: "refs ?s = (refs s)(i := refs s i - 1)" by (auto simp: unregister_def Let_def)
  have fr: "fresh ?s = fresh s" by (auto simp: unregister_def Let_def)
  have us: "users ?s j = users s j - {t}" for j using users_move [OF ph] by auto
  have only: "t \<notin> users s j" if "j \<noteq> i" for j using t that by (auto simp: users_def)
  have card: "refs s i - 1 = card (users s i - {t})" using lock_invD(2) [OF inv, of i] tin by simp
  have "card (users s i - {t}) = 0 \<longleftrightarrow> users s i - {t} = {}" using users_finite [OF inv, of i] by simp
  then have last: "refs s i - 1 = 0 \<longleftrightarrow> users s i = {t}" unfolding card using tin by auto
  have en: "entries ?s = (if users s i = {t} then (entries s)(k := None) else entries s)"
    unfolding last [symmetric] by (simp add: unregister_def Let_def)
  show ?thesis
    unfolding lock_inv_def
  proof (intro conjI allI impI)
    show "finite {u. phase_of ?s u \<noteq> Outside}"
      unfolding ph by (rule outside_finite) (use inv in \<open>simp add: lock_inv_def\<close>)
    show "entries ?s k' = Some j" if a: "entry_of (phase_of ?s u) = Some (k', j)" for u k' j
    proof -
      have u: "u \<noteq> t" "entry_of (phase_of s u) = Some (k', j)" using a unfolding ph by (auto split: if_splits)
      then have k': "entries s k' = Some j" using lock_invD(1) [OF inv] by blast
      have "u \<in> users s j" using u by (auto simp: users_def)
      then show ?thesis using k' u e lock_invD(4) [OF inv] unfolding en by (auto split: if_splits)
    qed
    show "refs ?s j = card (users ?s j)" for j
      unfolding rf us using card lock_invD(2) [OF inv, of j] only [of j] by auto
    show "j < fresh ?s" "users ?s j \<noteq> {}" if "entries ?s k' = Some j" for k' j
      using that lock_invD(3) [OF inv, of k' j] lock_invD(4) [OF inv e, of k'] only [of j] tin unfolding en fr us
      by (auto split: if_splits)
    show "k' = k''" if "entries ?s k' = Some j \<and> entries ?s k'' = Some j" for k' k'' j
      using that lock_invD(4) [OF inv, of k' j k''] unfolding en by (auto split: if_splits)
    show "u = v" if "phase_of ?s u = Inside k' j \<and> phase_of ?s v = Inside k' j" for u v k' j
      using that lock_invD(5) [OF inv, of u k' j v] unfolding ph by (auto split: if_splits)
  qed
qed

lemma lock_step_inv: "lock_step s s' \<Longrightarrow> lock_inv s \<Longrightarrow> lock_inv s'"
proof (induction rule: lock_step.induct)
  case (start s t k)
  then show ?case by (simp add: inv_register)
next
  case (enter s t k i)
  then show ?case by (intro inv_move [of s t k i]) auto
next
  case (leave s t k i)
  then show ?case by (intro inv_move [of s t k i]) auto
next
  case (stop s t k i)
  then show ?case by (simp add: inv_unregister)
qed

definition locks_reachable :: "lock_state \<Rightarrow> bool" where
  "locks_reachable s = lock_step\<^sup>*\<^sup>* init_locks s"

lemma reachable_inv: "locks_reachable s \<Longrightarrow> lock_inv s"
  unfolding locks_reachable_def
proof (induction rule: rtranclp_induct)
  case base
  then show ?case by (simp add: init_locks_def lock_inv_def users_def)
next
  case (step y z)
  then show ?case by (blast intro: lock_step_inv)
qed

section \<open>Properties\<close>

text \<open>
  C7: At most one goroutine is inside a session's critical section, whatever the interleaving, and
  the table holds an entry exactly for the sessions somebody is using: it neither loses a lock
  that is waited for nor keeps one nobody uses.
\<close>

theorem session_lock_exclusive:
  assumes "locks_reachable s"
  shows "(phase_of s t = Inside k i \<and> phase_of s u = Inside k j \<longrightarrow> t = u)
    \<and> (entries s k \<noteq> None \<longleftrightarrow> (\<exists>t i. entry_of (phase_of s t) = Some (k, i)))"
proof (intro conjI impI)
  have inv: "lock_inv s" by (rule reachable_inv [OF assms])
  show "t = u" if "phase_of s t = Inside k i \<and> phase_of s u = Inside k j"
    using that lock_invD(1) [OF inv, of t k i] lock_invD(1) [OF inv, of u k j] lock_invD(5) [OF inv, of t k i u] by auto
  show "entries s k \<noteq> None \<longleftrightarrow> (\<exists>t i. entry_of (phase_of s t) = Some (k, i))"
  proof
    assume "entries s k \<noteq> None"
    then obtain i where e: "entries s k = Some i" by blast
    then obtain t k' where "entry_of (phase_of s t) = Some (k', i)"
      using lock_invD(3) [OF inv] by (fastforce simp: users_def)
    then show "\<exists>t i. entry_of (phase_of s t) = Some (k, i)"
      using lock_invD(1) [OF inv] lock_invD(4) [OF inv e] by metis
  qed (use lock_invD(1) [OF inv] in auto)
qed

theorem session_lock_exclusive_witness:
  "\<exists>s. locks_reachable s \<and> entries s ''chat'' \<noteq> None \<and> (\<exists>t i. entry_of (phase_of s t) = Some (''chat'', i))"
proof -
  let ?s = "register 7 ''chat'' init_locks"
  have r: "locks_reachable ?s"
    unfolding locks_reachable_def by (rule r_into_rtranclp, rule lock_step.start) (simp add: init_locks_def)
  have "entries ?s ''chat'' \<noteq> None" by (simp add: register_def init_locks_def)
  then show ?thesis using r session_lock_exclusive [OF r, of 0 "''chat''" 0 0 0] by blast
qed

end
