(* ===== verification/Codex_Rpc.thy ===== *)
theory Codex_Rpc
  imports Go_Json
begin

text \<open>
  The bounded stdio transport of one Codex app-server: \<open>pkg/adapters/codexrpc/client.go\<close>. The
  state is the client struct: the request counter, the pending calls with their one-slot
  response channels, the first failure, and the two bounded queues. The reader, the writer and
  the callers are goroutines; their critical sections are the functions below and a run is any
  interleaving of them, the step relation \<open>rpc_step\<close>.
\<close>

section \<open>Messages\<close>

record rpc_error =
  re_code :: int
  re_message :: string
  re_data :: "json option"

record rpc_message =
  msg_id :: "json option"
  msg_method :: string
  msg_params :: "json option"
  msg_result :: "json option"
  msg_error :: "rpc_error option"

definition zero_message :: rpc_message where
  "zero_message = \<lparr>msg_id = None, msg_method = [], msg_params = None, msg_result = None, msg_error = None\<rparr>"

definition rpc_error_fields :: "rpc_error field list" where
  "rpc_error_fields =
     [(''code'', f_int (\<lambda>i r. r\<lparr>re_code := i\<rparr>)), (''message'', f_string (\<lambda>s r. r\<lparr>re_message := s\<rparr>)),
      (''data'', f_raw (\<lambda>v r. r\<lparr>re_data := v\<rparr>))]"

definition f_rpc_error :: "rpc_message \<Rightarrow> json \<Rightarrow> rpc_message option" where
  "f_rpc_error r v =
     (if v = JNull then Some (r\<lparr>msg_error := None\<rparr>)
      else map_option (\<lambda>x. r\<lparr>msg_error := Some x\<rparr>)
             (decode_struct False rpc_error_fields
                (case msg_error r of Some old \<Rightarrow> old
                 | None \<Rightarrow> \<lparr>re_code = 0, re_message = [], re_data = None\<rparr>) v))"

definition message_fields :: "rpc_message field list" where
  "message_fields =
     [(''id'', f_raw (\<lambda>v r. r\<lparr>msg_id := v\<rparr>)), (''method'', f_string (\<lambda>s r. r\<lparr>msg_method := s\<rparr>)),
      (''params'', f_raw (\<lambda>v r. r\<lparr>msg_params := v\<rparr>)), (''result'', f_raw (\<lambda>v r. r\<lparr>msg_result := v\<rparr>)),
      (''error'', f_rpc_error)]"

definition decode_message :: "string \<Rightarrow> rpc_message option" where
  "decode_message line = Option.bind (json_parse line) (decode_struct False message_fields zero_message)"

text \<open>\<open>string(message.ID)\<close>: the raw text of the id; only a number can be the text of a request id.\<close>

definition id_text :: "json option \<Rightarrow> string" where
  "id_text i = (case i of None \<Rightarrow> [] | Some (JNum n) \<Rightarrow> n | Some v \<Rightarrow> json_print v)"

definition denyRequest :: "rpc_message \<Rightarrow> rpc_message" where
  "denyRequest request =
     (let reply = zero_message\<lparr>msg_id := msg_id request\<rparr>; m = msg_method request
      in if m = ''item/commandExecution/requestApproval'' \<or> m = ''item/fileChange/requestApproval''
         then reply\<lparr>msg_result := Some (JObj [(''decision'', JStr ''decline'')])\<rparr>
         else if m = ''mcpServer/elicitation/request''
         then reply\<lparr>msg_result := Some (JObj [(''action'', JStr ''decline''), (''content'', JNull)])\<rparr>
         else if m = ''item/permissions/requestApproval''
         then reply\<lparr>msg_result := Some (JObj [(''permissions'', JObj []), (''scope'', JStr ''turn'')])\<rparr>
         else if m = ''item/tool/requestUserInput''
         then reply\<lparr>msg_result := Some (JObj [(''answers'', JObj [])])\<rparr>
         else reply\<lparr>msg_error := Some \<lparr>re_code = -32601,
                re_message = ''Interactive requests and dynamic tools are unavailable in this Worker'',
                re_data = None\<rparr>\<rparr>)"

section \<open>The client\<close>

definition MaxOutputBytes :: nat where
  "MaxOutputBytes = 4 * 2 ^ 20"

definition maxQueuedMessages :: nat where
  "maxQueuedMessages = 128"

text \<open>A pending call is its response channel: the messages it holds, at most one.\<close>

record rpc_client =
  next_id :: "64 word"
  pending :: "(string \<times> rpc_message list) list"
  err :: "go_error option"
  events :: "rpc_message list"
  writes :: "rpc_message list"

definition new_client :: rpc_client where
  "new_client = \<lparr>next_id = 0, pending = [], err = None, events = [], writes = []\<rparr>"

text \<open>\<open>once.Do\<close>: the first failure is kept and closes \<open>done\<close>.\<close>

definition fail :: "go_error \<Rightarrow> rpc_client \<Rightarrow> rpc_client" where
  "fail e c = (case err c of None \<Rightarrow> c\<lparr>err := Some e\<rparr> | Some _ \<Rightarrow> c)"

definition is_done :: "rpc_client \<Rightarrow> bool" where
  "is_done c = (err c \<noteq> None)"

definition io_EOF :: go_error where
  "io_EOF = ErrSentinel ''EOF''"

text \<open>
  \<open>send\<close> when its \<open>select\<close> takes a ready case: the queue has room, the client is done, or the
  context ended (\<open>ctx\<close> is its error). \<open>None\<close> means every case blocks.
\<close>

datatype send_choice = ChooseQueue | ChooseDone | ChooseCtx go_error

definition send :: "send_choice \<Rightarrow> rpc_message \<Rightarrow> rpc_client \<Rightarrow> (go_error option \<times> rpc_client) option" where
  "send ch m c =
     (case ch of
        ChooseCtx e \<Rightarrow> Some (Some e, c)
      | ChooseDone \<Rightarrow> (case err c of None \<Rightarrow> None | Some e \<Rightarrow> Some (Some e, c))
      | ChooseQueue \<Rightarrow> if length (writes c) < maxQueuedMessages
                       then Some (None, c\<lparr>writes := writes c @ [m]\<rparr>) else None)"

definition Notify :: "send_choice \<Rightarrow> string \<Rightarrow> json \<Rightarrow> rpc_client \<Rightarrow> (go_error option \<times> rpc_client) option" where
  "Notify ch method params c = send ch (zero_message\<lparr>msg_method := method, msg_params := Some params\<rparr>) c"

text \<open>\<open>Call\<close> up to its \<open>send\<close>: the size and pending limits, a new id and its channel.\<close>

definition begin_call :: "json \<Rightarrow> rpc_client \<Rightarrow> (string \<times> rpc_client) result" where
  "begin_call params c =
     (if MaxOutputBytes < length (json_marshal params)
      then Inl (ErrNew ''Codex RPC request exceeds size limit'')
      else if maxQueuedMessages \<le> length (pending c)
      then Inl (ErrNew ''Codex RPC pending request limit exceeded'')
      else
        (let n = next_id c + 1; i = itoa_nat (unat n)
         in Inr (i, c\<lparr>next_id := n, pending := assoc_set i [] (pending c)\<rparr>)))"

definition call_message :: "string \<Rightarrow> string \<Rightarrow> json \<Rightarrow> rpc_message" where
  "call_message i method params =
     zero_message\<lparr>msg_id := Some (JNum i), msg_method := method, msg_params := Some params\<rparr>"

text \<open>The end of a call: its deferred \<open>delete\<close>.\<close>

definition end_call :: "string \<Rightarrow> rpc_client \<Rightarrow> rpc_client" where
  "end_call i c = c\<lparr>pending := assoc_del i (pending c)\<rparr>"

text \<open>What a response gives the caller; \<open>decode\<close> is \<open>json.Unmarshal\<close> into the caller's result.\<close>

definition rpc_rejected :: "rpc_error \<Rightarrow> go_error" where
  "rpc_rejected e = ErrNew (''Codex RPC rejected the request (code '' @ itoa (re_code e) @ '')'')"

definition call_result :: "(json \<Rightarrow> 'a option) option \<Rightarrow> rpc_message \<Rightarrow> 'a option result" where
  "call_result decode m =
     (case msg_error m of
        Some e \<Rightarrow> Inl (rpc_rejected e)
      | None \<Rightarrow>
          (case decode of
             None \<Rightarrow> Inr None
           | Some d \<Rightarrow>
               (case msg_result m of
                  None \<Rightarrow> Inl (ErrNew ''Codex RPC response is missing result'')
                | Some v \<Rightarrow>
                    (case d v of
                       None \<Rightarrow> Inl (ErrNew ''Codex RPC response has an invalid shape'')
                     | Some x \<Rightarrow> Inr (Some x)))))"

text \<open>The reader on one scanned line.\<close>

definition read_request :: "rpc_message \<Rightarrow> rpc_client \<Rightarrow> rpc_client" where
  "read_request m c =
     (if length (writes c) < maxQueuedMessages then c\<lparr>writes := writes c @ [denyRequest m]\<rparr>
      else fail (ErrNew ''Codex RPC reply queue exceeded'') c)"

definition read_notification :: "rpc_message \<Rightarrow> rpc_client \<Rightarrow> rpc_client" where
  "read_notification m c =
     (if length (events c) < maxQueuedMessages then c\<lparr>events := events c @ [m]\<rparr>
      else fail (ErrNew ''Codex RPC notification queue exceeded'') c)"

definition read_response :: "rpc_message \<Rightarrow> rpc_client \<Rightarrow> rpc_client" where
  "read_response m c =
     (if msg_id m = None \<or> (msg_error m = None \<and> msg_result m = None)
      then fail (ErrNew ''Codex RPC emitted an invalid response'') c
      else
        (case map_of (pending c) (id_text (msg_id m)) of
           None \<Rightarrow> c
         | Some [] \<Rightarrow> c\<lparr>pending := assoc_set (id_text (msg_id m)) [m] (pending c)\<rparr>
         | Some (_ # _) \<Rightarrow> fail (ErrNew ''Codex RPC emitted a duplicate response'') c))"

definition read_line :: "string \<Rightarrow> rpc_client \<Rightarrow> rpc_client" where
  "read_line line c =
     (if MaxOutputBytes < length line then fail (ErrNew ''Codex RPC output exceeds size limit'') c
      else
        (case decode_message line of
           None \<Rightarrow> fail (ErrNew ''Codex RPC emitted malformed JSON'') c
         | Some m \<Rightarrow>
             if msg_method m \<noteq> [] then
               (if msg_id m \<noteq> None then read_request m c else read_notification m c)
             else read_response m c))"

text \<open>The reader's end: the scanner stopped with an error or at the end of the stream.\<close>

definition read_end :: "bool \<Rightarrow> rpc_client \<Rightarrow> rpc_client" where
  "read_end scan_error c =
     (if scan_error then fail (ErrNew ''Codex RPC stream read failed'') c else fail io_EOF c)"

text \<open>The whole reader without other goroutines: it stops at the first failure.\<close>

fun read_lines :: "string list \<Rightarrow> rpc_client \<Rightarrow> rpc_client" where
  "read_lines [] c = c"
| "read_lines (l # ls) c = (if is_done c then c else read_lines ls (read_line l c))"

definition read :: "string \<Rightarrow> bool \<Rightarrow> rpc_client \<Rightarrow> rpc_client" where
  "read out io_error c =
     (let c1 = read_lines (scan_lines (MaxOutputBytes + 1) out) c
      in if is_done c1 then c1
         else read_end (io_error \<or> list_ex (\<lambda>l. MaxOutputBytes + 1 \<le> length l) (stream_lines out)) c1)"

text \<open>The writer on one queued message; a failed write stops it.\<close>

definition write_one :: "bool \<Rightarrow> rpc_client \<Rightarrow> rpc_client option" where
  "write_one failed c =
     (case writes c of
        [] \<Rightarrow> None
      | m # ms \<Rightarrow>
          (let c1 = c\<lparr>writes := ms\<rparr>
           in Some (if failed then fail (ErrNew ''Codex RPC write failed'') c1 else c1)))"

definition take_event :: "rpc_client \<Rightarrow> (rpc_message \<times> rpc_client) option" where
  "take_event c = (case events c of [] \<Rightarrow> None | m # ms \<Rightarrow> Some (m, c\<lparr>events := ms\<rparr>))"

definition take_response :: "string \<Rightarrow> rpc_client \<Rightarrow> (rpc_message \<times> rpc_client) option" where
  "take_response i c =
     (case map_of (pending c) i of
        Some (m # ms) \<Rightarrow> Some (m, c\<lparr>pending := assoc_set i ms (pending c)\<rparr>)
      | _ \<Rightarrow> None)"

section \<open>Interleavings\<close>

text \<open>
  A process makes fewer than \<open>2 ^ 64\<close> requests, so the counter does not wrap. A reader that
  finds the client done may also drop the line.
\<close>

inductive rpc_step :: "rpc_client \<Rightarrow> rpc_client \<Rightarrow> bool" where
  call: "next_id c \<noteq> - 1 \<Longrightarrow> begin_call params c = Inr (i, c') \<Longrightarrow> rpc_step c c'"
| request: "method \<noteq> [] \<Longrightarrow> send ch (call_message i method params) c = Some (e, c') \<Longrightarrow> rpc_step c c'"
| notify: "method \<noteq> [] \<Longrightarrow> Notify ch method params c = Some (e, c') \<Longrightarrow> rpc_step c c'"
| response: "take_response i c = Some (m, c') \<Longrightarrow> rpc_step c c'"
| finish: "rpc_step c (end_call i c)"
| reader: "rpc_step c (read_line line c)"
| reader_end: "rpc_step c (read_end b c)"
| writer: "write_one b c = Some c' \<Longrightarrow> rpc_step c c'"
| event: "take_event c = Some (m, c') \<Longrightarrow> rpc_step c c'"
| close: "rpc_step c (fail io_EOF c)"

definition is_denial :: "rpc_message \<Rightarrow> bool" where
  "is_denial m =
     (msg_params m = None \<and>
      (if msg_error m = None
       then msg_result m \<in> {Some (JObj [(''decision'', JStr ''decline'')]),
                            Some (JObj [(''action'', JStr ''decline''), (''content'', JNull)]),
                            Some (JObj [(''permissions'', JObj []), (''scope'', JStr ''turn'')]),
                            Some (JObj [(''answers'', JObj [])])}
       else msg_result m = None \<and> map_option re_code (msg_error m) = Some (-32601)))"

definition channel_ok :: "nat \<Rightarrow> string \<times> rpc_message list \<Rightarrow> bool" where
  "channel_ok bound p =
     (case p of (i, ch) \<Rightarrow>
        (\<exists>n. i = itoa_nat n \<and> 0 < n \<and> n \<le> bound) \<and> length ch \<le> 1
        \<and> list_all (\<lambda>m. id_text (msg_id m) = i \<and> msg_method m = []) ch)"

definition rpc_inv :: "rpc_client \<Rightarrow> bool" where
  "rpc_inv c =
     (length (writes c) \<le> maxQueuedMessages \<and> length (events c) \<le> maxQueuedMessages
      \<and> length (pending c) \<le> maxQueuedMessages \<and> distinct (map fst (pending c))
      \<and> (\<forall>p \<in> set (pending c). channel_ok (unat (next_id c)) p)
      \<and> (\<forall>m \<in> set (writes c). msg_method m = [] \<longrightarrow> is_denial m)
      \<and> (\<forall>m \<in> set (events c). msg_method m \<noteq> [] \<and> msg_id m = None))"

lemma is_denial_deny: "is_denial (denyRequest m)" "msg_method (denyRequest m) = []"
  by (simp_all add: is_denial_def denyRequest_def Let_def zero_message_def)

lemma fail_simps [simp]:
  "next_id (fail e c) = next_id c" "pending (fail e c) = pending c" "events (fail e c) = events c"
  "writes (fail e c) = writes c" "err (fail e c) \<noteq> None"
  by (auto simp: fail_def split: option.splits)

lemma inv_fail [simp]: "rpc_inv (fail e c) = rpc_inv c"
  by (simp add: rpc_inv_def)

lemma inv_send:
  assumes "send ch m c = Some (e, c')" and "rpc_inv c" and "msg_method m = [] \<longrightarrow> is_denial m"
  shows "rpc_inv c'"
  using assms by (auto simp: send_def rpc_inv_def split: send_choice.splits option.splits if_splits)

lemma inv_channel:
  assumes "rpc_inv c" and "i \<in> fst ` set (pending c)" and "channel_ok (unat (next_id c)) (i, ch)"
  shows "rpc_inv (c\<lparr>pending := assoc_set i ch (pending c)\<rparr>)"
  using assms by (auto simp: rpc_inv_def set_assoc_set length_assoc_set)

lemma unat_succ: "(w :: 64 word) \<noteq> - 1 \<Longrightarrow> unat (w + 1) = Suc (unat w)"
proof -
  assume "w \<noteq> - 1"
  moreover have "unat (- 1 :: 64 word) = 2 ^ 64 - 1" by (simp add: unsigned_minus_1_eq_mask mask_eq_exp_minus_1)
  ultimately have "unat w \<noteq> 2 ^ 64 - 1" using word_unat_eq_iff [of w "- 1"] by simp
  moreover have "unat w < 2 ^ 64" using unsigned_less [of w] by simp
  ultimately show ?thesis by (simp add: unat_word_ariths(1))
qed

lemma inv_begin_call:
  assumes "begin_call params c = Inr (i, c')" and "rpc_inv c" and "next_id c \<noteq> - 1"
  shows "rpc_inv c' \<and> i = itoa_nat (Suc (unat (next_id c))) \<and> i \<notin> fst ` set (pending c)"
proof -
  have i: "i = itoa_nat (Suc (unat (next_id c)))" and c': "c' = c\<lparr>next_id := next_id c + 1, pending := assoc_set i [] (pending c)\<rparr>"
    and room: "length (pending c) < maxQueuedMessages"
    using assms(1) unat_succ [OF assms(3)] by (auto simp: begin_call_def Let_def split: if_splits)
  have mono: "channel_ok (unat (next_id c)) p \<Longrightarrow> channel_ok (Suc (unat (next_id c))) p" for p
    by (auto simp: channel_ok_def le_SucI split: prod.splits)
  have new: "i \<notin> fst ` set (pending c)"
  proof
    assume "i \<in> fst ` set (pending c)"
    then obtain ch where "channel_ok (unat (next_id c)) (i, ch)" using assms(2) by (force simp: rpc_inv_def)
    then show False using i by (auto simp: channel_ok_def)
  qed
  have "channel_ok (Suc (unat (next_id c))) (i, [])" using i by (auto simp: channel_ok_def)
  then show ?thesis
    using assms(2) c' new room mono i
    by (auto simp: rpc_inv_def assoc_set_fresh unat_succ [OF assms(3)])
qed

lemma inv_read_line:
  assumes "rpc_inv c"
  shows "rpc_inv (read_line line c)"
proof -
  have req: "rpc_inv (read_request m c)" for m
    using assms is_denial_deny [of m] by (auto simp: read_request_def rpc_inv_def)
  have ntf: "msg_method m \<noteq> [] \<Longrightarrow> msg_id m = None \<Longrightarrow> rpc_inv (read_notification m c)" for m
    using assms by (auto simp: read_notification_def rpc_inv_def)
  have resp: "rpc_inv (read_response m c)" if "msg_method m = []" for m
  proof -
    have "rpc_inv (c\<lparr>pending := assoc_set (id_text (msg_id m)) [m] (pending c)\<rparr>)"
      if look: "map_of (pending c) (id_text (msg_id m)) = Some []"
    proof (rule inv_channel [OF assms])
      show "id_text (msg_id m) \<in> fst ` set (pending c)" using map_of_SomeD [OF look] by force
      have "channel_ok (unat (next_id c)) (id_text (msg_id m), [])"
        using assms map_of_SomeD [OF look] by (auto simp: rpc_inv_def)
      then show "channel_ok (unat (next_id c)) (id_text (msg_id m), [m])"
        using \<open>msg_method m = []\<close> by (auto simp: channel_ok_def)
    qed
    then show ?thesis using assms by (auto simp: read_response_def split: option.splits list.splits)
  qed
  show ?thesis using assms req ntf resp by (auto simp: read_line_def split: option.splits)
qed

lemma inv_take_response:
  assumes "take_response i c = Some (m, c')" and "rpc_inv c"
  shows "rpc_inv c' \<and> id_text (msg_id m) = i \<and> msg_method m = []"
proof -
  obtain ms where look: "map_of (pending c) i = Some (m # ms)" "c' = c\<lparr>pending := assoc_set i ms (pending c)\<rparr>"
    using assms(1) by (auto simp: take_response_def split: option.splits list.splits)
  have ok: "channel_ok (unat (next_id c)) (i, m # ms)"
    using assms(2) map_of_SomeD [OF look(1)] by (auto simp: rpc_inv_def)
  have "rpc_inv (c\<lparr>pending := assoc_set i ms (pending c)\<rparr>)"
    using map_of_SomeD [OF look(1)] ok by (intro inv_channel [OF assms(2)]) (force, auto simp: channel_ok_def)
  then show ?thesis using look ok by (auto simp: channel_ok_def)
qed

lemma rpc_step_inv: "rpc_step c c' \<Longrightarrow> rpc_inv c \<Longrightarrow> rpc_inv c'"
proof (induction rule: rpc_step.induct)
  case (call c params i c')
  then show ?case using inv_begin_call by blast
next
  case (request mth ch i params c e c')
  then show ?case by (auto intro: inv_send simp: call_message_def)
next
  case (notify mth ch params c e c')
  then show ?case by (auto intro: inv_send simp: Notify_def)
next
  case (response i c m c')
  then show ?case using inv_take_response by blast
next
  case (finish c i)
  then show ?case using length_assoc_del_le [of i "pending c"] by (auto simp: end_call_def rpc_inv_def set_assoc_del)
next
  case (reader c line)
  then show ?case by (rule inv_read_line)
next
  case (writer b c c')
  then show ?case by (auto simp: write_one_def rpc_inv_def Let_def split: list.splits if_splits)
next
  case (event c m c')
  then show ?case by (auto simp: take_event_def rpc_inv_def split: list.splits)
qed (auto simp: read_end_def)

definition rpc_reachable :: "rpc_client \<Rightarrow> bool" where
  "rpc_reachable c = rpc_step\<^sup>*\<^sup>* new_client c"

lemma rpc_reachable_inv: "rpc_reachable c \<Longrightarrow> rpc_inv c"
  unfolding rpc_reachable_def
proof (induction rule: rtranclp_induct)
  case base
  then show ?case by (simp add: new_client_def rpc_inv_def)
next
  case (step y z)
  then show ?case by (blast intro: rpc_step_inv)
qed

section \<open>Properties\<close>

text \<open>
  C12: In every interleaving of reader, writer and callers the queues and the table of pending
  calls stay within 128, a call only ever receives a response that carries its own id, a new
  call's id is none of the pending ones, and every reply the client queues to a request of the
  server is a denial.
\<close>

theorem rpc_transport_safe:
  assumes "rpc_reachable c"
  shows "length (writes c) \<le> 128 \<and> length (events c) \<le> 128 \<and> length (pending c) \<le> 128
    \<and> (\<forall>i m c'. take_response i c = Some (m, c') \<longrightarrow> id_text (msg_id m) = i \<and> msg_method m = [])
    \<and> (next_id c \<noteq> - 1 \<longrightarrow> (\<forall>params i c'. begin_call params c = Inr (i, c') \<longrightarrow>
         map_of (pending c) i = None \<and> map_of (pending c') i = Some []))
    \<and> (\<forall>m \<in> set (writes c). msg_method m = [] \<longrightarrow> is_denial m)"
proof -
  have inv: "rpc_inv c" by (rule rpc_reachable_inv [OF assms])
  have fresh: "map_of (pending c) i = None \<and> map_of (pending c') i = Some []"
    if "next_id c \<noteq> - 1" "begin_call params c = Inr (i, c')" for params i c'
    using inv_begin_call [OF that(2) inv that(1)] that(2)
    by (auto simp: begin_call_def Let_def map_of_None_iff_keys split: if_splits)
  show ?thesis
    using inv inv_take_response [OF _ inv] fresh by (auto simp: rpc_inv_def maxQueuedMessages_def)
qed

theorem rpc_transport_safe_witness:
  "\<exists>c. rpc_reachable c \<and> length (writes c) = 1 \<and> (\<forall>m \<in> set (writes c). is_denial m)"
proof -
  let ?m = "zero_message\<lparr>msg_id := Some (JNum ''7''), msg_method := ''item/fileChange/requestApproval''\<rparr>"
  let ?line = "json_marshal (JObj [(''id'', JNum ''7''), (''method'', JStr ''item/fileChange/requestApproval'')])"
  let ?c = "read_line ?line new_client"
  have r: "rpc_reachable ?c"
    unfolding rpc_reachable_def by (rule r_into_rtranclp, rule rpc_step.reader)
  have dec: "decode_message ?line = Some ?m" by code_simp
  have len: "length ?line < 100" by code_simp
  have c: "?c = new_client\<lparr>writes := [denyRequest ?m]\<rparr>"
    using len dec
    by (simp add: read_line_def MaxOutputBytes_def read_request_def new_client_def maxQueuedMessages_def
        del: json_marshal_def)
  have one: "writes ?c = [denyRequest ?m]" unfolding c by simp
  have deny: "msg_method (denyRequest ?m) = []" by (simp add: is_denial_deny)
  from rpc_transport_safe [OF r] have "\<forall>m \<in> set (writes ?c). msg_method m = [] \<longrightarrow> is_denial m" by blast
  then show ?thesis using r one deny by (intro exI [of _ ?c]) auto
qed

text \<open>
  The first failure is final: once the client has failed, no step of any goroutine changes the
  recorded error, and a reader that comes to the end of any stream leaves the client failed.
\<close>

theorem rpc_first_failure_final:
  "(rpc_step c c' \<and> err c = Some e \<longrightarrow> err c' = Some e) \<and> err (read out io_error c0) \<noteq> None"
proof (intro conjI impI)
  have keep: "err (fail e' c) = Some e" if "err c = Some e" for e' c using that by (simp add: fail_def)
  have step: "rpc_step c c' \<Longrightarrow> err c = Some e \<Longrightarrow> err c' = Some e"
    by (induction rule: rpc_step.induct)
      (auto simp: begin_call_def Notify_def send_def take_response_def end_call_def read_line_def read_request_def
        read_notification_def read_response_def read_end_def write_one_def take_event_def Let_def keep
        split: if_splits option.splits list.splits send_choice.splits)
  show "err c' = Some e" if "rpc_step c c' \<and> err c = Some e" using that step by blast
  show "err (read out io_error c0) \<noteq> None"
    by (simp add: read_def Let_def is_done_def read_end_def del: not_None_eq)
qed

theorem rpc_first_failure_final_witness:
  "err (fail io_EOF (fail (ErrNew ''Codex RPC write failed'') new_client)) = Some (ErrNew ''Codex RPC write failed'')"
  using rpc_first_failure_final [of "fail (ErrNew ''Codex RPC write failed'') new_client"
      "fail io_EOF (fail (ErrNew ''Codex RPC write failed'') new_client)"] rpc_step.close
  by (auto simp: fail_def new_client_def)

end
