(* ===== verification/Codex_Turn.thy ===== *)
theory Codex_Turn
  imports Codex_Rpc
begin

text \<open>
  One Codex app-server turn: \<open>pkg/adapters/codexturn/turn.go\<close>. The handler of notifications and
  its event loop are functions over the sequence of what the loop's \<open>select\<close> yields; \<open>Run\<close> is the
  protocol before it and the deferred shutdown after it, over the answers of the client and of the
  operating system. The generated protocol types (\<open>codexrpc/protocol.gen.go\<close>) enter as the
  acceptance test of their decoder; the fields the code reads are looked up in the JSON.
\<close>

section \<open>Notifications\<close>

text \<open>
  \<open>accepts c t v\<close>: \<open>json.Unmarshal\<close> of \<open>v\<close> into the generated type \<open>t\<close> succeeds; \<open>reencode\<close> is
  the JSON of a decoded \<open>ThreadItem\<close>, with the fields of that type only.
\<close>

record schema =
  accepts :: "string \<Rightarrow> json \<Rightarrow> bool"
  reencode :: "json \<Rightarrow> json"

text \<open>
  A struct field after decoding: members whose name matches up to case apply in order; \<open>null\<close>
  leaves a string or a struct alone and clears a pointer or a slice; a repeated struct member
  is decoded into the same struct.
\<close>

definition members :: "json \<Rightarrow> (string \<times> json) list" where
  "members v = (case v of JObj kvs \<Rightarrow> kvs | _ \<Rightarrow> [])"

definition matching :: "json \<Rightarrow> string \<Rightarrow> json list" where
  "matching v k = map snd (filter (\<lambda>(k', _). k' = k \<or> equal_fold k k') (members v))"

definition str_field :: "json \<Rightarrow> string \<Rightarrow> string" where
  "str_field v k = foldl (\<lambda>acc x. case x of JStr s \<Rightarrow> s | _ \<Rightarrow> acc) [] (matching v k)"

definition opt_str_field :: "json \<Rightarrow> string \<Rightarrow> string option" where
  "opt_str_field v k = foldl (\<lambda>acc x. case x of JStr s \<Rightarrow> Some s | JNull \<Rightarrow> None | _ \<Rightarrow> acc) None (matching v k)"

definition bool_field :: "json \<Rightarrow> string \<Rightarrow> bool" where
  "bool_field v k = foldl (\<lambda>acc x. case x of JBool b \<Rightarrow> b | _ \<Rightarrow> acc) False (matching v k)"

definition obj_field :: "json \<Rightarrow> string \<Rightarrow> json" where
  "obj_field v k = JObj (concat (map members (matching v k)))"

definition list_field :: "json \<Rightarrow> string \<Rightarrow> json list" where
  "list_field v k = foldl (\<lambda>acc x. case x of JArr vs \<Rightarrow> vs | JNull \<Rightarrow> [] | _ \<Rightarrow> acc) [] (matching v k)"

definition codexRPCFinal :: "json \<Rightarrow> string" where
  "codexRPCFinal item =
     (case opt_str_field item ''text'' of
        None \<Rightarrow> []
      | Some text \<Rightarrow>
          if str_field item ''type'' \<noteq> ''agentMessage'' then []
          else (case opt_str_field item ''phase'' of
                  Some ph \<Rightarrow> if ph \<noteq> ''final_answer'' then [] else trim_space text
                | None \<Rightarrow> trim_space text))"

section \<open>The handler\<close>

record turn_state =
  final :: string
  observed :: "json list"
  emitted :: "(string \<times> json) list"

definition ErrSessionMissing :: go_error where
  "ErrSessionMissing = ErrSentinel ''Codex native session no longer exists''"

definition ErrProcessCleanup :: go_error where
  "ErrProcessCleanup = ErrSentinel ''Codex native process cleanup failed''"

definition ErrResponseMessageLimit :: go_error where
  "ErrResponseMessageLimit = ErrSentinel ''Codex upstream response reached its message limit (max_messages)''"

text \<open>The item as the observer gets it: the type names of three tools are translated.\<close>

definition safe_source :: "json \<Rightarrow> json" where
  "safe_source item =
     (case item of
        JObj kvs \<Rightarrow>
          JObj (case map_of kvs ''type'' of
                  Some (JStr t) \<Rightarrow>
                    if t = ''commandExecution'' then obj_put ''type'' (JStr ''command_execution'') kvs
                    else if t = ''mcpToolCall'' then obj_put ''type'' (JStr ''mcp_tool_call'') kvs
                    else if t = ''webSearch'' then obj_put ''type'' (JStr ''web_search'') kvs
                    else kvs
                | _ \<Rightarrow> kvs)
      | _ \<Rightarrow> JNull)"

definition observed_line :: "schema \<Rightarrow> string \<Rightarrow> json \<Rightarrow> json" where
  "observed_line c method item =
     JObj [(''item'', safe_source (json_any (reencode c item))),
           (''type'', JStr (if method = ''item/started'' then ''item.started'' else ''item.completed''))]"

definition limit_status :: json where
  "limit_status =
     JObj [(''phase'', JStr ''failed''), (''provider'', JStr ''codex''),
           (''provider_error_kind'', JStr ''incomplete_response''),
           (''provider_error_reason'', JStr ''max_messages''), (''status'', JStr ''provider_failed'')]"

definition retry_status :: json where
  "retry_status =
     JObj [(''phase'', JStr ''retrying''), (''provider'', JStr ''codex''), (''status'', JStr ''provider_retrying'')]"

definition message_limit :: "json \<Rightarrow> bool" where
  "message_limit failure =
     (let incomplete = ''Incomplete response returned, reason: max_messages''; e = obj_field failure ''error''
      in has_suffix (trim_space (str_field e ''message'')) incomplete
         \<or> (case opt_str_field e ''additionalDetails'' of
              None \<Rightarrow> False | Some d \<Rightarrow> has_suffix (trim_space d) incomplete))"

fun last_final :: "string \<Rightarrow> json list \<Rightarrow> string" where
  "last_final f [] = f"
| "last_final f (i # is) = last_final (if codexRPCFinal i \<noteq> [] then codexRPCFinal i else f) is"

definition handle_item ::
  "schema \<Rightarrow> string \<Rightarrow> string \<Rightarrow> string \<Rightarrow> json \<Rightarrow> turn_state \<Rightarrow> (bool \<times> go_error option) \<times> turn_state" where
  "handle_item c threadID turnID method v s =
     (if \<not> accepts c ''ItemCompletedNotification'' v
      then ((False, Some (ErrNew ''Codex emitted an invalid item event'')), s)
      else if str_field v ''threadId'' \<noteq> threadID \<or> str_field v ''turnId'' \<noteq> turnID then ((False, None), s)
      else
        (let item = obj_field v ''item'';
             s1 = (if method = ''item/completed'' \<and> codexRPCFinal item \<noteq> []
                   then s\<lparr>final := codexRPCFinal item\<rparr> else s)
         in ((False, None), s1\<lparr>observed := observed s1 @ [observed_line c method item]\<rparr>)))"

definition handle_error ::
  "schema \<Rightarrow> string \<Rightarrow> string \<Rightarrow> json \<Rightarrow> turn_state \<Rightarrow> (bool \<times> go_error option) \<times> turn_state" where
  "handle_error c threadID turnID v s =
     (if \<not> accepts c ''ErrorNotification'' v
      then ((False, Some (ErrNew ''Codex emitted an invalid error notification'')), s)
      else if str_field v ''threadId'' \<noteq> threadID \<or> str_field v ''turnId'' \<noteq> turnID then ((False, None), s)
      else if message_limit v
      then ((True, Some ErrResponseMessageLimit),
            s\<lparr>emitted := emitted s @ [(''run.status.changed'', limit_status)], final := []\<rparr>)
      else if bool_field v ''willRetry''
      then ((False, None), s\<lparr>emitted := emitted s @ [(''run.status.changed'', retry_status)]\<rparr>)
      else ((False, None), s))"

definition handle_completed ::
  "schema \<Rightarrow> string \<Rightarrow> string \<Rightarrow> json \<Rightarrow> turn_state \<Rightarrow> (bool \<times> go_error option) \<times> turn_state" where
  "handle_completed c threadID turnID v s =
     (let turn = obj_field v ''turn''; status = str_field turn ''status''
      in if \<not> accepts c ''TurnCompletedNotification'' v
         then ((False, Some (ErrNew ''Codex emitted an invalid completed turn'')), s)
         else if str_field v ''threadId'' \<noteq> threadID \<or> str_field turn ''id'' \<noteq> turnID then ((False, None), s)
         else if status = ''completed'' then
           (let s1 = s\<lparr>final := last_final (final s) (list_field turn ''items'')\<rparr>
            in ((True, if final s1 = [] then Some (ErrNew ''Codex completed without a final message'') else None), s1))
         else if status = ''interrupted'' then ((True, Some ErrCanceled), s)
         else if status = ''failed'' then ((True, Some (ErrNew ''Codex reported a failed turn'')), s)
         else ((True, Some (ErrNew ''Codex completed with an invalid turn status'')), s))"

text \<open>A notification without params unmarshals no bytes, which every decoder rejects.\<close>

definition handle ::
  "schema \<Rightarrow> string \<Rightarrow> string \<Rightarrow> rpc_message \<Rightarrow> turn_state \<Rightarrow> (bool \<times> go_error option) \<times> turn_state" where
  "handle c threadID turnID event s =
     (let m = msg_method event;
          c1 = c\<lparr>accepts := (\<lambda>t v. msg_params event \<noteq> None \<and> accepts c t v)\<rparr>;
          v = (case msg_params event of None \<Rightarrow> JNull | Some v \<Rightarrow> v)
      in if m = ''item/started'' \<or> m = ''item/completed'' then handle_item c1 threadID turnID m v s
         else if m = ''error'' then handle_error c1 threadID turnID v s
         else if m = ''turn/completed'' then handle_completed c1 threadID turnID v s
         else ((False, None), s))"

section \<open>The event loop\<close>

text \<open>
  What the loop's \<open>select\<close> yields, in order: an event, the end of the context, or the end of the
  client with no event left. Queued events are taken before the other two.
\<close>

datatype turn_input = Event rpc_message | CtxDone go_error | ClientDone go_error

fun turn_loop ::
  "schema \<Rightarrow> string \<Rightarrow> string \<Rightarrow> turn_input list \<Rightarrow> turn_state \<Rightarrow> ((string \<times> go_error option) \<times> turn_state) option" where
  "turn_loop c threadID turnID [] s = None"
| "turn_loop c threadID turnID (Event m # rest) s =
     (case handle c threadID turnID m s of
        ((stop, e), s1) \<Rightarrow>
          if stop \<or> e \<noteq> None then Some ((final s1, e), s1)
          else turn_loop c threadID turnID rest s1)"
| "turn_loop c threadID turnID (CtxDone e # rest) s = Some (([], Some e), s)"
| "turn_loop c threadID turnID (ClientDone e # rest) s = Some (([], Some e), s)"

section \<open>The turn\<close>

record turn_config =
  tc_session :: string
  tc_prompt :: string
  tc_sandbox :: string
  tc_model :: string
  tc_approval :: string
  tc_persistent :: bool
  tc_configured_permissions :: bool
  tc_thread_config :: "(string \<times> json) list"

record prepared_command =
  pp_has_command :: bool
  pp_workspace :: string
  pp_has_cleanup :: bool
  pp_track :: bool

text \<open>
  What the factory, the operating system and the client answer. An RPC rejection carries its code
  and message (\<open>errors.As\<close>); \<open>te_inputs\<close> is what the event loop sees, \<open>te_late\<close> what the
  interrupt sees afterwards, \<open>te_ctx_end\<close> the context's state when \<open>Run\<close> shuts down.
\<close>

record turn_env =
  te_ctx0 :: "go_error option"
  te_prepare :: "prepared_command \<times> go_error option"
  te_stdin :: "go_error option"
  te_stdout :: "go_error option"
  te_ctx1 :: "go_error option"
  te_start :: "go_error option"
  te_tracked :: "go_error option"
  te_call :: "string \<Rightarrow> json \<Rightarrow> (go_error \<times> (int \<times> string) option) + json"
  te_notify :: "go_error option"
  te_before :: "go_error option"
  te_inputs :: "turn_input list"
  te_late :: "turn_input list"
  te_ctx_end :: "go_error option"
  te_finish :: "go_error option"
  te_client_err :: "go_error option"

datatype turn_action =
    PrepareCommand | Cleanup | CloseStdin | CloseStdout | StartProcess | StopProcess | WaitProcess
  | FinishDescendants | CloseClient | CallMethod string json | NotifyMethod string | BeforeThread

definition optional :: "string \<Rightarrow> json option \<Rightarrow> (string \<times> json) list" where
  "optional k v = (case v of None \<Rightarrow> [] | Some x \<Rightarrow> [(k, x)])"

definition approval_json :: "turn_config \<Rightarrow> json" where
  "approval_json cfg = (if tc_approval cfg = [] then JStr ''never'' else JStr (tc_approval cfg))"

definition sandbox_override :: "turn_config \<Rightarrow> json option" where
  "sandbox_override cfg = (if tc_configured_permissions cfg then None else Some (JStr (tc_sandbox cfg)))"

definition model_override :: "turn_config \<Rightarrow> json option" where
  "model_override cfg = (let m = trim_space (tc_model cfg) in if m = [] then None else Some (JStr m))"

definition config_override :: "turn_config \<Rightarrow> json option" where
  "config_override cfg = (if tc_thread_config cfg = [] then None else Some (JObj (tc_thread_config cfg)))"

definition resume_params :: "turn_config \<Rightarrow> string \<Rightarrow> json" where
  "resume_params cfg workspace =
     JObj ([(''approvalPolicy'', approval_json cfg)] @ optional ''config'' (config_override cfg)
           @ [(''cwd'', JStr workspace), (''excludeTurns'', JBool True)]
           @ optional ''model'' (model_override cfg) @ optional ''sandbox'' (sandbox_override cfg)
           @ [(''threadId'', JStr (tc_session cfg))])"

definition start_params :: "turn_config \<Rightarrow> string \<Rightarrow> json" where
  "start_params cfg workspace =
     JObj ([(''approvalPolicy'', approval_json cfg)] @ optional ''config'' (config_override cfg)
           @ [(''cwd'', JStr workspace), (''ephemeral'', JBool (\<not> tc_persistent cfg))]
           @ optional ''model'' (model_override cfg) @ optional ''sandbox'' (sandbox_override cfg))"

definition turn_params :: "string \<Rightarrow> string \<Rightarrow> json" where
  "turn_params threadID prompt =
     JObj [(''input'', JArr [JObj [(''text'', JStr prompt), (''type'', JStr ''text'')]]),
           (''threadId'', JStr threadID)]"

definition init_params :: json where
  "init_params =
     JObj [(''capabilities'', JObj [(''optOutNotificationMethods'',
              JArr (map JStr [''item/agentMessage/delta'', ''item/reasoning/summaryTextDelta'',
                              ''item/reasoning/summaryPartAdded'', ''item/reasoning/textDelta'']))]),
           (''clientInfo'', JObj [(''name'', JStr ''openlinker_worker''), (''version'', JStr ''1'')])]"

definition valid_id :: "string \<Rightarrow> bool" where
  "valid_id i = (trim_space i \<noteq> [] \<and> length i \<le> 256)"

text \<open>The result of the protocol part: thread, turn, whether a turn was requested, the answer, the trace.\<close>

record turn_outcome =
  to_thread :: string
  to_turn :: string
  to_requested :: bool
  to_final :: string
  to_err :: "go_error option"
  to_state :: turn_state
  to_actions :: "turn_action list"

definition empty_turn :: turn_state where
  "empty_turn = \<lparr>final = [], observed = [], emitted = []\<rparr>"

definition failed_turn :: "go_error \<Rightarrow> turn_action list \<Rightarrow> turn_outcome" where
  "failed_turn e acts =
     \<lparr>to_thread = [], to_turn = [], to_requested = False, to_final = [], to_err = Some e,
      to_state = empty_turn, to_actions = acts\<rparr>"

definition missing_session :: "string \<Rightarrow> (int \<times> string) option \<Rightarrow> bool" where
  "missing_session sessionID rejection =
     (case rejection of
        None \<Rightarrow> False
      | Some (code, m) \<Rightarrow> code = -32600 \<and> (m = ''no rollout found for thread id '' @ sessionID
                                            \<or> m = ''thread not found: '' @ sessionID))"

text \<open>Opening the thread: resume the given session, or start a new thread.\<close>

definition open_thread :: "turn_config \<Rightarrow> turn_env \<Rightarrow> string \<Rightarrow> string result \<times> turn_action" where
  "open_thread cfg e workspace =
     (if tc_session cfg \<noteq> [] then
        (case te_call e ''thread/resume'' (resume_params cfg workspace) of
           Inl (er, rejection) \<Rightarrow> Inl (if missing_session (tc_session cfg) rejection then ErrSessionMissing else er)
         | Inr v \<Rightarrow>
             (let tid = str_field (obj_field v ''thread'') ''id''
              in if tid \<noteq> tc_session cfg then Inl (ErrNew ''Codex resumed a different thread'') else Inr tid),
         CallMethod ''thread/resume'' (resume_params cfg workspace))
      else
        (case te_call e ''thread/start'' (start_params cfg workspace) of
           Inl (er, _) \<Rightarrow> Inl er
         | Inr v \<Rightarrow> Inr (str_field (obj_field v ''thread'') ''id''),
         CallMethod ''thread/start'' (start_params cfg workspace)))"

definition run_turn :: "schema \<Rightarrow> turn_config \<Rightarrow> turn_env \<Rightarrow> string \<Rightarrow> turn_action list \<Rightarrow> turn_outcome option" where
  "run_turn c cfg e threadID acts =
     (let acts1 = acts @ [CallMethod ''turn/start'' (turn_params threadID (tc_prompt cfg))];
          out = \<lparr>to_thread = threadID, to_turn = [], to_requested = True, to_final = [], to_err = None,
                 to_state = empty_turn, to_actions = acts1\<rparr>
      in case te_call e ''turn/start'' (turn_params threadID (tc_prompt cfg)) of
           Inl (er, _) \<Rightarrow> Some (out\<lparr>to_err := Some er\<rparr>)
         | Inr v \<Rightarrow>
             (let turnID = str_field (obj_field v ''turn'') ''id''
              in if \<not> valid_id turnID
                 then Some (out\<lparr>to_turn := turnID, to_err := Some (ErrNew ''Codex returned an invalid turn ID'')\<rparr>)
                 else (case turn_loop c threadID turnID (te_inputs e) empty_turn of
                         None \<Rightarrow> None
                       | Some ((f, er), s) \<Rightarrow> Some (out\<lparr>to_turn := turnID, to_final := f, to_err := er, to_state := s\<rparr>))))"

definition run_protocol :: "schema \<Rightarrow> turn_config \<Rightarrow> turn_env \<Rightarrow> string \<Rightarrow> turn_outcome option" where
  "run_protocol c cfg e workspace =
     (let a1 = [CallMethod ''initialize'' init_params]
      in case te_call e ''initialize'' init_params of
           Inl (er, _) \<Rightarrow> Some (failed_turn er a1)
         | Inr _ \<Rightarrow>
             (let a2 = a1 @ [NotifyMethod ''initialized'']
              in case te_notify e of
                   Some er \<Rightarrow> Some (failed_turn er a2)
                 | None \<Rightarrow>
                     (let a3 = a2 @ [BeforeThread]
                      in case te_before e of
                           Some er \<Rightarrow> Some (failed_turn er a3)
                         | None \<Rightarrow>
                             (case open_thread cfg e workspace of
                                (Inl er, a) \<Rightarrow> Some (failed_turn er (a3 @ [a]))
                              | (Inr threadID, a) \<Rightarrow>
                                  if \<not> valid_id threadID
                                  then Some (failed_turn (ErrNew ''Codex returned an invalid thread ID'') (a3 @ [a]))
                                  else run_turn c cfg e threadID (a3 @ [a])))))"

text \<open>\<open>interruptCodexRPC\<close>: the turn it interrupts, learned from a scoped notification when unknown.\<close>

fun learn_turn :: "schema \<Rightarrow> string \<Rightarrow> string \<Rightarrow> turn_input list \<Rightarrow> string" where
  "learn_turn c threadID turnID inputs =
     (if turnID \<noteq> [] then turnID
      else (case inputs of
              Event m # rest \<Rightarrow>
                learn_turn c threadID
                  (case msg_params m of
                     Some v \<Rightarrow> if msg_method m = ''turn/started'' \<and> accepts c ''TurnStartedNotification'' v
                                  \<and> str_field v ''threadId'' = threadID
                               then str_field (obj_field v ''turn'') ''id'' else []
                   | None \<Rightarrow> []) rest
            | _ \<Rightarrow> []))"

definition interrupt_params :: "string \<Rightarrow> string \<Rightarrow> json" where
  "interrupt_params threadID turnID = JObj [(''threadId'', JStr threadID), (''turnId'', JStr turnID)]"

definition interruptCodexRPC :: "schema \<Rightarrow> string \<Rightarrow> string \<Rightarrow> turn_input list \<Rightarrow> turn_action list" where
  "interruptCodexRPC c threadID turnID late =
     (if threadID = [] then []
      else (let t = learn_turn c threadID turnID late
            in if t = [] then [] else [CallMethod ''turn/interrupt'' (interrupt_params threadID t)]))"

text \<open>The deferred shutdown of \<open>Run\<close>.\<close>

definition is_message_limit :: "go_error option \<Rightarrow> bool" where
  "is_message_limit er = (case er of None \<Rightarrow> False | Some x \<Rightarrow> errors_is x ErrResponseMessageLimit)"

definition shutdown :: "schema \<Rightarrow> turn_env \<Rightarrow> bool \<Rightarrow> turn_outcome \<Rightarrow> turn_outcome" where
  "shutdown c e tracked out =
     (let interrupted = (te_ctx_end e \<noteq> None \<or> is_message_limit (to_err out));
          a1 = (if interrupted \<and> to_requested out
                then interruptCodexRPC c (to_thread out) (to_turn out) (te_late e) else []);
          a2 = (if to_err out = None \<or> interrupted then [CloseStdin] else []);
          finish = (if tracked then te_finish e else None);
          er1 = (case finish of
                   None \<Rightarrow> to_err out
                 | Some x \<Rightarrow> Some (ErrJoin ((case to_err out of None \<Rightarrow> [] | Some y \<Rightarrow> [y]) @ [ErrProcessCleanup, x])));
          er2 = (if er1 = None
                 then (case te_client_err e of
                         None \<Rightarrow> None | Some x \<Rightarrow> if errors_is x io_EOF then None else Some x)
                 else er1)
      in out\<lparr>to_err := er2,
             to_actions := to_actions out @ a1 @ a2 @ [CloseClient]
                           @ (if tracked then [FinishDescendants] else []) @ [WaitProcess]\<rparr>)"

text \<open>The launch: the factory's error, the pipes, the start and the tracking, with what each undoes.\<close>

definition launch_failure :: "turn_env \<Rightarrow> (go_error \<times> turn_action list) option" where
  "launch_failure e =
     (case te_prepare e of (prep, perr) \<Rightarrow>
        case perr of
          Some er \<Rightarrow> Some (er, [])
        | None \<Rightarrow>
            if \<not> pp_has_command prep then Some (ErrNew ''Codex command factory returned no command'', [])
            else
              (case te_stdin e of
                 Some er \<Rightarrow> Some (er, [])
               | None \<Rightarrow>
                   (case te_stdout e of
                      Some er \<Rightarrow> Some (er, [CloseStdin])
                    | None \<Rightarrow>
                        (case te_ctx1 e of
                           Some er \<Rightarrow> Some (er, [CloseStdin, CloseStdout])
                         | None \<Rightarrow>
                             (case te_start e of
                                Some er \<Rightarrow> Some (er, [CloseStdin, CloseStdout])
                              | None \<Rightarrow>
                                  (case (if pp_track prep then te_tracked e else None) of
                                     Some er \<Rightarrow> Some (er, [StartProcess, StopProcess, CloseStdin, CloseStdout, WaitProcess])
                                   | None \<Rightarrow> None))))))"

definition Run :: "schema \<Rightarrow> turn_config \<Rightarrow> turn_env \<Rightarrow> turn_outcome option" where
  "Run c cfg e =
     (case te_ctx0 e of
        Some er \<Rightarrow> Some (failed_turn er [])
      | None \<Rightarrow>
          (let prep = fst (te_prepare e); tail_acts = (if pp_has_cleanup prep then [Cleanup] else [])
           in case launch_failure e of
                Some (er, acts) \<Rightarrow> Some (failed_turn er ([PrepareCommand] @ acts @ tail_acts))
              | None \<Rightarrow>
                  map_option
                    (\<lambda>out. let out1 = shutdown c e (pp_track prep) out
                           in out1\<lparr>to_actions := [PrepareCommand, StartProcess] @ to_actions out1 @ tail_acts\<rparr>)
                    (run_protocol c cfg e (pp_workspace prep))))"

section \<open>Which events count\<close>

text \<open>A final text of this turn: an item of the right thread and turn, or of its completed turn.\<close>

definition item_answer :: "string \<Rightarrow> string \<Rightarrow> json \<Rightarrow> string \<Rightarrow> bool" where
  "item_answer threadID turnID v t =
     (str_field v ''threadId'' = threadID \<and> str_field v ''turnId'' = turnID \<and> codexRPCFinal (obj_field v ''item'') = t)"

definition turn_answer :: "string \<Rightarrow> string \<Rightarrow> json \<Rightarrow> string \<Rightarrow> bool" where
  "turn_answer threadID turnID v t =
     (str_field v ''threadId'' = threadID \<and> str_field (obj_field v ''turn'') ''id'' = turnID
      \<and> t \<in> codexRPCFinal ` set (list_field (obj_field v ''turn'') ''items''))"

definition answers :: "string \<Rightarrow> string \<Rightarrow> turn_input \<Rightarrow> string \<Rightarrow> bool" where
  "answers threadID turnID inp t =
     (case inp of
        Event m \<Rightarrow>
          (case msg_params m of
             None \<Rightarrow> False
           | Some v \<Rightarrow> (msg_method m = ''item/completed'' \<and> item_answer threadID turnID v t)
                       \<or> (msg_method m = ''turn/completed'' \<and> turn_answer threadID turnID v t))
      | _ \<Rightarrow> False)"

lemma last_final_cases: "last_final f is = f \<or> (last_final f is \<noteq> [] \<and> last_final f is \<in> codexRPCFinal ` set is)"
  by (induction f "is" rule: last_final.induct) (auto split: if_splits)

lemma handle_final:
  assumes "handle c threadID turnID m s = (r, s1)"
  shows "final s1 = final s \<or> final s1 = [] \<or> answers threadID turnID (Event m) (final s1)"
  using assms last_final_cases
  by (auto simp: handle_def handle_item_def handle_error_def handle_completed_def Let_def answers_def
      item_answer_def turn_answer_def split: if_splits option.splits) blast

lemma handle_success:
  assumes "handle c threadID turnID m s = ((True, None), s1)"
  shows "final s1 \<noteq> []"
  using assms
  by (auto simp: handle_def handle_item_def handle_error_def handle_completed_def Let_def split: if_splits option.splits)

lemma turn_loop_success:
  assumes "turn_loop c threadID turnID inputs s = Some ((f, None), s1)"
    and "final s = [] \<or> (\<exists>inp \<in> set old. answers threadID turnID inp (final s))"
  shows "f \<noteq> [] \<and> (\<exists>inp \<in> set (old @ inputs). answers threadID turnID inp f)"
  using assms
proof (induction c threadID turnID inputs s arbitrary: old rule: turn_loop.induct)
  case (2 c threadID turnID m rest s)
  obtain stop e s2 where h: "handle c threadID turnID m s = ((stop, e), s2)" by (metis prod.exhaust)
  have fin: "final s2 = [] \<or> (\<exists>inp \<in> set (old @ [Event m]). answers threadID turnID inp (final s2))"
    using handle_final [OF h] "2.prems"(2) by auto
  show ?case
  proof (cases "stop \<or> e \<noteq> None")
    case True
    then have r: "f = final s2" "e = None" "stop" using "2.prems"(1) h by auto
    then show ?thesis using handle_success h fin by fastforce
  next
    case False
    then have "turn_loop c threadID turnID rest s2 = Some ((f, None), s1)" using "2.prems"(1) h by simp
    then show ?thesis using "2.IH" [OF h [symmetric] refl False _ fin] by auto
  qed
qed auto

text \<open>An accepted event of another thread or turn.\<close>

definition foreign :: "schema \<Rightarrow> string \<Rightarrow> string \<Rightarrow> turn_input \<Rightarrow> bool" where
  "foreign c threadID turnID inp =
     (case inp of
        Event m \<Rightarrow>
          (case msg_params m of
             None \<Rightarrow> False
           | Some v \<Rightarrow>
               (msg_method m \<in> {''item/started'', ''item/completed''} \<and> accepts c ''ItemCompletedNotification'' v
                \<and> (str_field v ''threadId'' \<noteq> threadID \<or> str_field v ''turnId'' \<noteq> turnID))
               \<or> (msg_method m = ''error'' \<and> accepts c ''ErrorNotification'' v
                  \<and> (str_field v ''threadId'' \<noteq> threadID \<or> str_field v ''turnId'' \<noteq> turnID))
               \<or> (msg_method m = ''turn/completed'' \<and> accepts c ''TurnCompletedNotification'' v
                  \<and> (str_field v ''threadId'' \<noteq> threadID \<or> str_field (obj_field v ''turn'') ''id'' \<noteq> turnID)))
      | _ \<Rightarrow> False)"

lemma handle_foreign:
  assumes "foreign c threadID turnID (Event m)"
  shows "handle c threadID turnID m s = ((False, None), s)"
proof -
  obtain v where v: "msg_params m = Some v" using assms by (cases "msg_params m") (simp_all add: foreign_def)
  consider (item) "msg_method m = ''item/started'' \<or> msg_method m = ''item/completed''"
      "accepts c ''ItemCompletedNotification'' v" "str_field v ''threadId'' \<noteq> threadID \<or> str_field v ''turnId'' \<noteq> turnID"
    | (error) "msg_method m = ''error''" "accepts c ''ErrorNotification'' v"
      "str_field v ''threadId'' \<noteq> threadID \<or> str_field v ''turnId'' \<noteq> turnID"
    | (completed) "msg_method m = ''turn/completed''" "accepts c ''TurnCompletedNotification'' v"
      "str_field v ''threadId'' \<noteq> threadID \<or> str_field (obj_field v ''turn'') ''id'' \<noteq> turnID"
    using assms v by (simp add: foreign_def) blast
  then show ?thesis
  proof cases
    case item
    then show ?thesis by (simp add: handle_def handle_item_def v)
  next
    case error
    then show ?thesis by (simp add: handle_def handle_error_def v)
  next
    case completed
    then show ?thesis by (simp add: handle_def handle_completed_def v)
  qed
qed

section \<open>Properties\<close>

lemma run_turn_success:
  assumes r: "run_turn c cfg e threadID acts = Some out" and ok: "to_err out = None"
  shows "to_final out \<noteq> [] \<and> valid_id (to_turn out) \<and> to_thread out = threadID
    \<and> (\<exists>inp \<in> set (te_inputs e). answers threadID (to_turn out) inp (to_final out))"
proof -
  obtain v where v: "te_call e ''turn/start'' (turn_params threadID (tc_prompt cfg)) = Inr v"
    using r ok by (auto simp: run_turn_def Let_def split: sum.splits prod.splits)
  let ?turn = "str_field (obj_field v ''turn'') ''id''"
  obtain f s where l: "valid_id ?turn" "turn_loop c threadID ?turn (te_inputs e) empty_turn = Some ((f, None), s)"
    and out: "to_turn out = ?turn" "to_final out = f" "to_thread out = threadID"
  proof -
    have valid: "valid_id ?turn" using r ok v by (simp add: run_turn_def Let_def split: if_splits) auto
    obtain f er s where l: "turn_loop c threadID ?turn (te_inputs e) empty_turn = Some ((f, er), s)"
      using r v valid by (cases "turn_loop c threadID ?turn (te_inputs e) empty_turn")
        (auto simp: run_turn_def Let_def)
    then show thesis using that [OF valid] r ok v valid by (auto simp: run_turn_def Let_def)
  qed
  have "final empty_turn = []" by (simp add: empty_turn_def)
  then show ?thesis using turn_loop_success [OF l(2), of "[]"] l(1) out by simp
qed

lemma run_protocol_success:
  assumes "run_protocol c cfg e w = Some out" and "to_err out = None"
  shows "to_final out \<noteq> [] \<and> valid_id (to_thread out) \<and> valid_id (to_turn out)
    \<and> (tc_session cfg \<noteq> [] \<longrightarrow> to_thread out = tc_session cfg)
    \<and> (\<exists>inp \<in> set (te_inputs e). answers (to_thread out) (to_turn out) inp (to_final out))"
proof -
  obtain threadID a acts where o: "open_thread cfg e w = (Inr threadID, a)" "valid_id threadID"
    and r: "run_turn c cfg e threadID acts = Some out"
    using assms by (auto simp: run_protocol_def failed_turn_def Let_def split: sum.splits prod.splits option.splits if_splits)
  have "tc_session cfg \<noteq> [] \<longrightarrow> threadID = tc_session cfg"
    using o(1) by (auto simp: open_thread_def Let_def split: if_splits sum.splits prod.splits)
  then show ?thesis using run_turn_success [OF r assms(2)] o(2) by auto
qed

text \<open>
  C9: A turn that ends without error has an answer, and it is the model's own: a non-empty final
  text of an agent message of exactly this thread and turn, among the events received; the thread
  is the resumed session when one was given, and both ids are valid.
\<close>

theorem turn_success_has_answer:
  assumes "Run c cfg e = Some out" and "to_err out = None"
  shows "to_final out \<noteq> [] \<and> valid_id (to_thread out) \<and> valid_id (to_turn out)
    \<and> (tc_session cfg \<noteq> [] \<longrightarrow> to_thread out = tc_session cfg)
    \<and> (\<exists>inp \<in> set (te_inputs e). answers (to_thread out) (to_turn out) inp (to_final out))"
proof -
  have sd: "to_err out0 = None" if "to_err (shutdown c e b out0) = None" for b out0
    using that by (auto simp: shutdown_def Let_def split: option.splits if_splits)
  have keep: "to_final (shutdown c e b out0) = to_final out0" "to_thread (shutdown c e b out0) = to_thread out0"
    "to_turn (shutdown c e b out0) = to_turn out0" for b out0
    by (simp_all add: shutdown_def Let_def)
  obtain w b out0 where p: "run_protocol c cfg e w = Some out0" "to_err (shutdown c e b out0) = None"
    "to_final out = to_final out0" "to_thread out = to_thread out0" "to_turn out = to_turn out0"
    using assms keep
    by (auto simp: Run_def failed_turn_def Let_def split: option.splits)
  show ?thesis using run_protocol_success [OF p(1) sd [OF p(2)]] p(3-5) by simp
qed

text \<open>A run of the protocol: a new thread, one final message, the turn completed.\<close>

definition demo_schema :: schema where
  "demo_schema = \<lparr>accepts = (\<lambda>_ _. True), reencode = (\<lambda>v. v)\<rparr>"

definition demo_turn_config :: turn_config where
  "demo_turn_config =
     \<lparr>tc_session = [], tc_prompt = ''hi'', tc_sandbox = ''read-only'', tc_model = [], tc_approval = [],
      tc_persistent = True, tc_configured_permissions = False, tc_thread_config = []\<rparr>"

definition demo_item :: "string \<Rightarrow> rpc_message" where
  "demo_item thread =
     zero_message\<lparr>msg_method := ''item/completed'',
       msg_params := Some (JObj [(''threadId'', JStr thread), (''turnId'', JStr ''u1''),
         (''item'', JObj [(''type'', JStr ''agentMessage''), (''text'', JStr '' hello '')])])\<rparr>"

definition demo_completed :: rpc_message where
  "demo_completed =
     zero_message\<lparr>msg_method := ''turn/completed'',
       msg_params := Some (JObj [(''threadId'', JStr ''t1''),
         (''turn'', JObj [(''id'', JStr ''u1''), (''status'', JStr ''completed'')])])\<rparr>"

definition demo_turn_env :: turn_env where
  "demo_turn_env =
     \<lparr>te_ctx0 = None,
      te_prepare = (\<lparr>pp_has_command = True, pp_workspace = ''/w'', pp_has_cleanup = True, pp_track = True\<rparr>, None),
      te_stdin = None, te_stdout = None, te_ctx1 = None, te_start = None, te_tracked = None,
      te_call = (\<lambda>m _. Inr (if m = ''thread/start'' then JObj [(''thread'', JObj [(''id'', JStr ''t1'')])]
                            else JObj [(''turn'', JObj [(''id'', JStr ''u1'')])])),
      te_notify = None, te_before = None,
      te_inputs = [Event (demo_item ''t2''), Event (demo_item ''t1''), Event demo_completed],
      te_late = [], te_ctx_end = None, te_finish = None, te_client_err = Some io_EOF\<rparr>"

theorem turn_success_has_answer_witness:
  "\<exists>out. Run demo_schema demo_turn_config demo_turn_env = Some out \<and> to_err out = None \<and> to_final out = ''hello''
     \<and> (\<exists>inp \<in> set (te_inputs demo_turn_env). answers ''t1'' ''u1'' inp ''hello'')"
proof -
  let ?out = "the (Run demo_schema demo_turn_config demo_turn_env)"
  have "Run demo_schema demo_turn_config demo_turn_env \<noteq> None \<and> to_err ?out = None \<and> to_final ?out = ''hello''
      \<and> to_thread ?out = ''t1'' \<and> to_turn ?out = ''u1''" by code_simp
  then obtain out where o: "Run demo_schema demo_turn_config demo_turn_env = Some out" "to_err out = None"
    "to_final out = ''hello''" "to_thread out = ''t1''" "to_turn out = ''u1''" by auto
  then show ?thesis using turn_success_has_answer [OF o(1,2)] by (intro exI [of _ out]) simp
qed

text \<open>
  C10: Events of other threads or turns have no influence: the loop behaves as if they had never
  been received, whatever they contain.
\<close>

theorem foreign_events_ignored:
  "turn_loop c threadID turnID inputs s = turn_loop c threadID turnID (filter (\<lambda>i. \<not> foreign c threadID turnID i) inputs) s"
proof (induction c threadID turnID inputs s rule: turn_loop.induct)
  case (2 c threadID turnID m rest s)
  show ?case
  proof (cases "foreign c threadID turnID (Event m)")
    case True
    have "turn_loop c threadID turnID rest s
        = turn_loop c threadID turnID (filter (\<lambda>i. \<not> foreign c threadID turnID i) rest) s"
      by (rule "2.IH" [OF handle_foreign [OF True, symmetric] refl]) simp
    then show ?thesis using True handle_foreign [OF True, of s] by simp
  next
    case False
    obtain stop e s2 where h: "handle c threadID turnID m s = ((stop, e), s2)" by (metis prod.exhaust)
    show ?thesis
    proof (cases "stop \<or> e \<noteq> None")
      case True
      then show ?thesis using False h by simp
    next
      case go: False
      show ?thesis using "2.IH" [OF h [symmetric] refl go] go False h by simp
    qed
  qed
qed (simp_all add: foreign_def)

text \<open>The methods a run calls on the server, in order.\<close>

fun called :: "turn_action list \<Rightarrow> string list" where
  "called [] = []"
| "called (CallMethod m v # as) = m # called as"
| "called (a # as) = called as"

lemma called_append [simp]: "called (as @ bs) = called as @ called bs"
  by (induction as rule: called.induct) auto

lemma called_interrupt: "called (interruptCodexRPC c t u l) \<in> {[], [''turn/interrupt'']}"
  by (simp add: interruptCodexRPC_def Let_def)

lemma open_thread_action: "\<exists>v. snd (open_thread cfg e w) = CallMethod (if tc_session cfg = [] then ''thread/start'' else ''thread/resume'') v"
  by (simp add: open_thread_def)

lemma run_protocol_called:
  assumes "run_protocol c cfg e w = Some out"
  shows "\<exists>n. called (to_actions out)
      = take n [''initialize'', if tc_session cfg = [] then ''thread/start'' else ''thread/resume'', ''turn/start'']
    \<and> (to_requested out \<longleftrightarrow> n = 3) \<and> n \<le> 3"
proof -
  let ?ms = "[''initialize'', if tc_session cfg = [] then ''thread/start'' else ''thread/resume'', ''turn/start'']"
  obtain r a where op: "open_thread cfg e w = (r, a)" by force
  then have a: "called [a] = [if tc_session cfg = [] then ''thread/start'' else ''thread/resume'']"
    using open_thread_action [of cfg e w] by auto
  have early: "\<exists>n. called (to_actions (failed_turn er acts)) = take n ?ms \<and> (to_requested (failed_turn er acts) \<longleftrightarrow> n = 3) \<and> n \<le> 3"
    if "called acts = take n ?ms" "n < 3" for er acts n
    using that by (intro exI [of _ n]) (simp add: failed_turn_def)
  have requested: "to_requested out' \<and> called (to_actions out') = called acts @ [''turn/start'']"
    if "run_turn c cfg e t acts = Some out'" for t acts out'
    using that by (auto simp: run_turn_def Let_def split: sum.splits prod.splits if_splits option.splits)
  let ?a3 = "[CallMethod ''initialize'' init_params, NotifyMethod ''initialized'', BeforeThread]"
  have c3: "called (?a3 @ [a]) = take 2 ?ms" unfolding called_append a by simp
  consider (init) er where "out = failed_turn er [CallMethod ''initialize'' init_params]"
    | (ntf) er where "out = failed_turn er [CallMethod ''initialize'' init_params, NotifyMethod ''initialized'']"
    | (before) er where "out = failed_turn er ?a3"
    | (thread) er where "out = failed_turn er (?a3 @ [a])"
    | (turn) t where "run_turn c cfg e t (?a3 @ [a]) = Some out"
    using assms op by (auto simp: run_protocol_def Let_def split: sum.splits prod.splits option.splits if_splits)
  then show ?thesis
  proof cases
    case init
    then show ?thesis using early [of "[CallMethod ''initialize'' init_params]" 1] by simp
  next
    case ntf
    then show ?thesis using early [of "[CallMethod ''initialize'' init_params, NotifyMethod ''initialized'']" 1] by simp
  next
    case before
    then show ?thesis using early [of ?a3 1] by simp
  next
    case thread
    then show ?thesis using early [OF c3] by simp
  next
    case (turn t)
    then show ?thesis using requested [OF turn] c3 by (intro exI [of _ 3]) simp
  qed
qed

lemma run_protocol_plain:
  assumes "run_protocol c cfg e w = Some out" and "a \<in> set (to_actions out)"
  shows "(\<exists>m v. a = CallMethod m v) \<or> (\<exists>m. a = NotifyMethod m) \<or> a = BeforeThread"
  using assms
  by (auto simp: run_protocol_def run_turn_def open_thread_def failed_turn_def Let_def
      split: sum.splits prod.splits option.splits if_splits)

lemma count_plain: "(\<And>x. x \<in> set xs \<Longrightarrow> x \<noteq> a) \<Longrightarrow> count_list xs a = 0"
  by (induction xs) auto

lemma count_protocol:
  assumes "run_protocol c cfg e w = Some out" and "a \<in> {StartProcess, WaitProcess, Cleanup, FinishDescendants, CloseClient}"
  shows "count_list (to_actions out) a = 0"
  by (rule count_plain) (use run_protocol_plain [OF assms(1)] assms(2) in fastforce)

lemma count_interrupt:
  "a \<in> {StartProcess, WaitProcess, Cleanup, FinishDescendants, CloseClient} \<Longrightarrow> count_list (interruptCodexRPC c t u l) a = 0"
  by (auto simp: interruptCodexRPC_def Let_def)

lemma launch_failure_acts:
  "launch_failure e = Some (er, acts) \<Longrightarrow>
   acts \<in> {[], [CloseStdin], [CloseStdin, CloseStdout], [StartProcess, StopProcess, CloseStdin, CloseStdout, WaitProcess]}"
  by (auto simp: launch_failure_def split: prod.splits option.splits if_splits)



end
