(* ===== verification/Root_Fs.thy ===== *)
theory Root_Fs
  imports Go_Path
begin

text \<open>
  A directory opened with \<open>os.OpenRoot\<close>: a tree of nodes addressed by the components of a cleaned
  relative path, and the operations the program performs on it. Every call is recorded, and the
  environment may fail any call as any function of the calls so far; a failed write may leave a
  part of the data. The operations compose with \<open>rbind\<close>, Go's \<open>if err != nil { return err }\<close>.
\<close>

datatype rnode = RDir nat | RFile nat string | RLink "string option"

type_synonym rpath = "string list"
type_synonym rtree = "rpath \<Rightarrow> rnode option"

datatype rcall =
    CMkdir rpath | CLstat rpath | CChmod rpath | CRead rpath | CCreate rpath | CFchmod rpath
  | CWrite rpath | CClose rpath | CLink rpath rpath | CRemove rpath | CReadDir

record renv =
  r_fault :: "rcall list \<Rightarrow> go_error option"
  r_partial :: "rcall list \<Rightarrow> nat"

record rstate =
  tree :: rtree
  calls :: "rcall list"

type_synonym 'a rop = "rstate \<Rightarrow> 'a result \<times> rstate"

definition os_ErrExist :: go_error where
  "os_ErrExist = ErrSentinel ''file already exists''"

definition os_ErrNotExist :: go_error where
  "os_ErrNotExist = ErrSentinel ''file does not exist''"

definition rreturn :: "'a \<Rightarrow> 'a rop" where
  "rreturn x s = (Inr x, s)"

definition rfail :: "go_error \<Rightarrow> 'a rop" where
  "rfail er s = (Inl er, s)"

definition rbind :: "'a rop \<Rightarrow> ('a \<Rightarrow> 'b rop) \<Rightarrow> 'b rop" where
  "rbind m f s = (case m s of (Inl er, s1) \<Rightarrow> (Inl er, s1) | (Inr x, s1) \<Rightarrow> f x s1)"

text \<open>Running an operation and looking at its error, as Go does with \<open>err :=\<close>.\<close>

definition rtry :: "'a rop \<Rightarrow> ('a result \<Rightarrow> 'b rop) \<Rightarrow> 'b rop" where
  "rtry m f s = (case m s of (r, s1) \<Rightarrow> f r s1)"

definition rsys :: "renv \<Rightarrow> rcall \<Rightarrow> 'a rop \<Rightarrow> 'a rop" where
  "rsys e c act s =
     (let s1 = s\<lparr>calls := calls s @ [c]\<rparr>
      in case r_fault e (calls s1) of Some er \<Rightarrow> (Inl er, s1) | None \<Rightarrow> act s1)"

definition is_dir :: "rtree \<Rightarrow> rpath \<Rightarrow> bool" where
  "is_dir t p = (p = [] \<or> (case t p of Some (RDir _) \<Rightarrow> True | _ \<Rightarrow> False))"

definition put_node :: "rpath \<Rightarrow> rnode \<Rightarrow> unit rop" where
  "put_node p n s = (Inr (), s\<lparr>tree := (tree s)(p \<mapsto> n)\<rparr>)"

definition new_node :: "rpath \<Rightarrow> rnode \<Rightarrow> unit rop" where
  "new_node p n s =
     (if p = [] \<or> tree s p \<noteq> None then (Inl os_ErrExist, s)
      else if \<not> is_dir (tree s) (butlast p) then (Inl os_ErrNotExist, s)
      else put_node p n s)"

definition root_mkdir :: "renv \<Rightarrow> rpath \<Rightarrow> nat \<Rightarrow> unit rop" where
  "root_mkdir e p mode = rsys e (CMkdir p) (new_node p (RDir mode))"

definition root_create :: "renv \<Rightarrow> rpath \<Rightarrow> nat \<Rightarrow> unit rop" where
  "root_create e p mode = rsys e (CCreate p) (new_node p (RFile mode []))"

definition root_lstat :: "renv \<Rightarrow> rpath \<Rightarrow> rnode rop" where
  "root_lstat e p =
     rsys e (CLstat p)
       (\<lambda>s. (if p = [] then Inr (RDir 448) else case tree s p of None \<Rightarrow> Inl os_ErrNotExist | Some n \<Rightarrow> Inr n, s))"

definition root_chmod :: "renv \<Rightarrow> rpath \<Rightarrow> nat \<Rightarrow> unit rop" where
  "root_chmod e p mode =
     rsys e (CChmod p)
       (\<lambda>s. if p = [] then (Inr (), s) else case tree s p of
              Some (RDir _) \<Rightarrow> put_node p (RDir mode) s
            | Some (RFile _ b) \<Rightarrow> put_node p (RFile mode b) s
            | Some (RLink _) \<Rightarrow> (Inr (), s)
            | None \<Rightarrow> (Inl os_ErrNotExist, s))"

definition root_read :: "renv \<Rightarrow> rpath \<Rightarrow> string rop" where
  "root_read e p =
     rsys e (CRead p)
       (\<lambda>s. (case tree s p of
               Some (RFile _ b) \<Rightarrow> Inr b
             | Some (RLink (Some b)) \<Rightarrow> Inr b
             | Some (RLink None) \<Rightarrow> Inl os_ErrNotExist
             | Some (RDir _) \<Rightarrow> Inl (ErrNew ''is a directory'')
             | None \<Rightarrow> Inl os_ErrNotExist, s))"

text \<open>Writing to a file this program has just created; a fault leaves a part of the data.\<close>

definition file_write :: "renv \<Rightarrow> rpath \<Rightarrow> string \<Rightarrow> unit rop" where
  "file_write e p data s =
     (let s1 = s\<lparr>calls := calls s @ [CWrite p]\<rparr>;
          store = (\<lambda>d. case tree s1 p of
                         Some (RFile m b) \<Rightarrow> s1\<lparr>tree := (tree s1)(p \<mapsto> RFile m (b @ d))\<rparr> | _ \<Rightarrow> s1)
      in case r_fault e (calls s1) of
           Some er \<Rightarrow> (Inl er, store (take (r_partial e (calls s1)) data))
         | None \<Rightarrow> (Inr (), store data))"

definition file_close :: "renv \<Rightarrow> rpath \<Rightarrow> unit rop" where
  "file_close e p = rsys e (CClose p) (rreturn ())"

definition file_chmod :: "renv \<Rightarrow> rpath \<Rightarrow> nat \<Rightarrow> unit rop" where
  "file_chmod e p mode =
     rsys e (CFchmod p)
       (\<lambda>s. case tree s p of Some (RFile _ b) \<Rightarrow> put_node p (RFile mode b) s | _ \<Rightarrow> (Inr (), s))"

definition root_link :: "renv \<Rightarrow> rpath \<Rightarrow> rpath \<Rightarrow> unit rop" where
  "root_link e old p =
     rsys e (CLink old p)
       (\<lambda>s. case tree s old of None \<Rightarrow> (Inl os_ErrNotExist, s) | Some n \<Rightarrow> new_node p n s)"

definition root_remove :: "renv \<Rightarrow> rpath \<Rightarrow> unit rop" where
  "root_remove e p =
     rsys e (CRemove p)
       (\<lambda>s. case tree s p of
              None \<Rightarrow> (Inl os_ErrNotExist, s)
            | Some (RDir _) \<Rightarrow> (Inl (ErrNew ''directory not empty''), s)
            | Some _ \<Rightarrow> (Inr (), s\<lparr>tree := (tree s)(p := None)\<rparr>))"

section \<open>Frames\<close>

text \<open>
  \<open>node_kept\<close>: a file or a link stays exactly as it was and a directory stays a directory.
  \<open>preserves Q m\<close>: whatever fails, \<open>m\<close> keeps every node outside \<open>Q\<close>.
\<close>

definition node_kept :: "rnode option \<Rightarrow> rnode option \<Rightarrow> bool" where
  "node_kept old new =
     (case old of
        None \<Rightarrow> True
      | Some (RDir _) \<Rightarrow> (case new of Some (RDir _) \<Rightarrow> True | _ \<Rightarrow> False)
      | Some n \<Rightarrow> new = Some n)"

definition preserves :: "rpath set \<Rightarrow> 'a rop \<Rightarrow> bool" where
  "preserves Q m = (\<forall>s p. p \<notin> Q \<longrightarrow> node_kept (tree s p) (tree (snd (m s)) p))"

lemma node_kept_refl [simp]: "node_kept n n"
  by (auto simp: node_kept_def split: option.splits rnode.splits)

lemma node_kept_None [simp]: "node_kept None n"
  by (simp add: node_kept_def)

lemma node_kept_trans: "node_kept a b \<Longrightarrow> node_kept b c \<Longrightarrow> node_kept a c"
  by (auto simp: node_kept_def split: option.splits rnode.splits)

lemma node_kept_file: "node_kept (Some (RFile m c)) n \<longleftrightarrow> n = Some (RFile m c)"
  by (auto simp: node_kept_def)

named_theorems frame \<open>rules for \<open>preserves\<close>\<close>

lemma preservesD: "preserves Q m \<Longrightarrow> m s = (r, s') \<Longrightarrow> p \<notin> Q \<Longrightarrow> node_kept (tree s p) (tree s' p)"
  by (metis preserves_def snd_conv)

lemma preserves_mono: "preserves Q m \<Longrightarrow> Q \<subseteq> R \<Longrightarrow> preserves R m"
  by (auto simp: preserves_def)

lemma preserves_return [frame]: "preserves Q (rreturn x)"
  by (simp add: preserves_def rreturn_def)

lemma preserves_fail [frame]: "preserves Q (rfail er)"
  by (simp add: preserves_def rfail_def)

lemma preserves_try [frame]: "preserves Q m \<Longrightarrow> (\<And>r. preserves Q (f r)) \<Longrightarrow> preserves Q (rtry m f)"
  unfolding preserves_def rtry_def by (auto split: prod.splits) (metis node_kept_trans snd_conv)

lemma preserves_bind [frame]: "preserves Q m \<Longrightarrow> (\<And>x. preserves Q (f x)) \<Longrightarrow> preserves Q (rbind m f)"
  unfolding preserves_def rbind_def by (auto split: prod.splits sum.splits) (metis node_kept_trans snd_conv)+

lemma preserves_state: "(\<And>s. preserves Q (f s)) \<Longrightarrow> preserves Q (\<lambda>s. f s s)"
  by (simp add: preserves_def)

lemma preserves_if [frame]:
  "(b \<Longrightarrow> preserves Q m) \<Longrightarrow> (\<not> b \<Longrightarrow> preserves Q m') \<Longrightarrow> preserves Q (if b then m else m')"
  by simp

lemma preserves_sys [frame]: "preserves Q act \<Longrightarrow> preserves Q (rsys e c act)"
  by (auto simp: preserves_def rsys_def Let_def split: option.splits) (metis rstate.select_convs(1) rstate.surjective rstate.update_convs(2))

lemma preserves_new [frame]: "preserves Q (new_node p n)"
  by (auto simp: preserves_def new_node_def put_node_def)

lemma preserves_mkdir [frame]: "preserves Q (root_mkdir e p mode)"
  and preserves_create [frame]: "preserves Q (root_create e p mode)"
  unfolding root_mkdir_def root_create_def by (intro frame)+

lemma preserves_link [frame]: "preserves Q (root_link e old p)"
  unfolding root_link_def
  by (rule preserves_sys) (auto simp: preserves_def new_node_def put_node_def split: option.splits)

lemma preserves_lstat [frame]: "preserves Q (root_lstat e p)"
  and preserves_read [frame]: "preserves Q (root_read e p)"
  and preserves_close [frame]: "preserves Q (file_close e p)"
  unfolding root_lstat_def root_read_def file_close_def
  by (rule preserves_sys, simp add: preserves_def rreturn_def)+

lemma preserves_remove [frame]: "p \<in> Q \<Longrightarrow> preserves Q (root_remove e p)"
  unfolding root_remove_def by (rule preserves_sys) (auto simp: preserves_def split: option.splits rnode.splits)

lemma preserves_fchmod [frame]: "p \<in> Q \<Longrightarrow> preserves Q (file_chmod e p mode)"
  unfolding file_chmod_def by (rule preserves_sys) (auto simp: preserves_def put_node_def split: option.splits rnode.splits)

lemma preserves_chmod [frame]: "p \<in> Q \<Longrightarrow> preserves Q (root_chmod e p mode)"
  unfolding root_chmod_def by (rule preserves_sys) (auto simp: preserves_def put_node_def split: option.splits rnode.splits)

lemma preserves_write [frame]: "p \<in> Q \<Longrightarrow> preserves Q (file_write e p data)"
  by (auto simp: preserves_def file_write_def Let_def split: option.splits rnode.splits)

section \<open>Successful runs\<close>

lemma rbind_Inr: "rbind m f s = (Inr x, s') \<longleftrightarrow> (\<exists>y s1. m s = (Inr y, s1) \<and> f y s1 = (Inr x, s'))"
  by (auto simp: rbind_def split: prod.splits sum.splits)

lemma rtry_eq: "rtry m f s = (x, s') \<longleftrightarrow> (\<exists>y s1. m s = (y, s1) \<and> f y s1 = (x, s'))"
  by (auto simp: rtry_def split: prod.splits)

lemma rsys_Inr: "rsys e c act s = (Inr x, s') \<longleftrightarrow>
  r_fault e (calls s @ [c]) = None \<and> act (s\<lparr>calls := calls s @ [c]\<rparr>) = (Inr x, s')"
  by (auto simp: rsys_def Let_def split: option.splits)

lemma lstat_Inr: "root_lstat e p s = (Inr n, s') \<Longrightarrow> tree s' = tree s \<and> (if p = [] then n = RDir 448 else tree s p = Some n)"
  by (auto simp: root_lstat_def rsys_Inr split: if_splits option.splits)

lemma lstat_tree: "root_lstat e p s = (r, s') \<Longrightarrow> tree s' = tree s"
  by (auto simp: root_lstat_def rsys_def Let_def split: option.splits)

lemma read_tree: "root_read e p s = (r, s') \<Longrightarrow> tree s' = tree s"
  by (auto simp: root_read_def rsys_def Let_def split: option.splits)

lemma close_tree: "file_close e p s = (r, s') \<Longrightarrow> tree s' = tree s"
  by (auto simp: file_close_def rsys_def rreturn_def Let_def split: option.splits)

lemma read_Inr: "root_read e p s = (Inr b, s') \<Longrightarrow>
  tree s' = tree s \<and> ((\<exists>m. tree s p = Some (RFile m b)) \<or> tree s p = Some (RLink (Some b)))"
  by (auto simp: root_read_def rsys_Inr split: option.splits rnode.splits)

lemma create_Inr: "root_create e p m s = (Inr x, s') \<Longrightarrow> tree s p = None \<and> tree s' = (tree s)(p \<mapsto> RFile m [])"
  by (auto simp: root_create_def rsys_Inr new_node_def put_node_def split: if_splits)

lemma fchmod_Inr: "file_chmod e p m s = (Inr x, s') \<Longrightarrow> tree s p = Some (RFile m' b) \<Longrightarrow> tree s' = (tree s)(p \<mapsto> RFile m b)"
  by (auto simp: file_chmod_def rsys_Inr put_node_def)

lemma write_Inr:
  "file_write e p d s = (Inr x, s') \<Longrightarrow> tree s p = Some (RFile m b) \<Longrightarrow> tree s' = (tree s)(p \<mapsto> RFile m (b @ d))"
  by (auto simp: file_write_def Let_def split: option.splits)

lemma link_Inr: "root_link e q p s = (Inr x, s') \<Longrightarrow> \<exists>n. tree s q = Some n \<and> tree s p = None \<and> tree s' = (tree s)(p \<mapsto> n)"
  by (auto simp: root_link_def rsys_Inr new_node_def put_node_def split: if_splits option.splits)

lemma remove_other: "root_remove e q s = (r, s') \<Longrightarrow> p \<noteq> q \<Longrightarrow> tree s' p = tree s p"
  by (auto simp: root_remove_def rsys_def Let_def split: option.splits rnode.splits)

section \<open>Temporary files\<close>

text \<open>A temporary file is created fresh, so what happens to it leaves every older node alone.\<close>

lemma preserves_fresh:
  assumes "\<And>u. preserves (insert q Q) (rest u)"
  shows "preserves Q (rbind (root_create e q m) rest)"
  unfolding preserves_def
proof (intro allI impI)
  fix s x assume x: "x \<notin> Q"
  obtain r s1 where c: "root_create e q m s = (r, s1)" by fastforce
  have k: "node_kept (tree s x) (tree s1 x)" by (rule preservesD [OF preserves_create [of "{}"] c]) simp
  show "node_kept (tree s x) (tree (snd (rbind (root_create e q m) rest s)) x)"
  proof (cases r)
    case (Inr u)
    obtain r2 s2 where r2: "rest u s1 = (r2, s2)" by fastforce
    have "x \<noteq> q \<Longrightarrow> node_kept (tree s1 x) (tree s2 x)" using preservesD [OF assms r2] x by simp
    moreover have "tree s q = None" using create_Inr c Inr by blast
    ultimately show ?thesis using c Inr r2 k node_kept_trans by (cases "x = q") (auto simp: rbind_def)
  qed (use c k in \<open>simp add: rbind_def\<close>)
qed

end
