(* ===== verification/Skill_Packages.thy ===== *)
theory Skill_Packages
  imports Root_Fs Json_Roundtrip
begin

text \<open>
  The owner-managed skill packages of a Run: \<open>pkg/adapters/skillpackages/packages.go\<close>
  (\<open>Decode\<close>, \<open>materialize\<close>, \<open>packageDirectories\<close>, \<open>SessionMode\<close>, \<open>Instructions\<close>) and
  \<open>commands.go\<close>. The lemmas show that a decoded package has only file names that stay below the
  package's directory, and that writing it never changes a file that was there before, whatever
  the file system does.
\<close>

section \<open>The snapshot\<close>

record version =
  v_binding :: string
  v_package :: string
  v_id :: string
  v_version :: string
  v_digest :: string
  v_payload :: string

record snapshot =
  sn_schema :: int
  sn_bundles :: "version list"

record contents =
  c_commands :: "string list"
  c_name :: string
  c_description :: string
  c_files :: "(string \<times> string) list"
  c_capabilities :: "string list"
  c_providers :: "string list"

record package =
  p_name :: string
  p_instructions :: string
  p_directory :: string
  p_files :: "string list"

definition Feature :: string where
  "Feature = ''skill_packages.v1''"

definition Features :: "string \<Rightarrow> string list" where
  "Features provider =
     (if provider \<noteq> ''codex'' \<and> provider \<noteq> ''claude'' then []
      else [Feature, ''skill_packages.'' @ provider @ ''.v1''])"

definition zero_version :: version where
  "zero_version = \<lparr>v_binding = [], v_package = [], v_id = [], v_version = [], v_digest = [], v_payload = []\<rparr>"

definition version_fields :: "version field list" where
  "version_fields =
     [(''binding_id'', f_string (\<lambda>x r. r\<lparr>v_binding := x\<rparr>)), (''package_id'', f_string (\<lambda>x r. r\<lparr>v_package := x\<rparr>)),
      (''version_id'', f_string (\<lambda>x r. r\<lparr>v_id := x\<rparr>)), (''version'', f_string (\<lambda>x r. r\<lparr>v_version := x\<rparr>)),
      (''digest'', f_string (\<lambda>x r. r\<lparr>v_digest := x\<rparr>)), (''payload'', f_string (\<lambda>x r. r\<lparr>v_payload := x\<rparr>))]"

definition version_json :: "version \<Rightarrow> json" where
  "version_json v =
     JObj [(''binding_id'', JStr (v_binding v)), (''package_id'', JStr (v_package v)), (''version_id'', JStr (v_id v)),
           (''version'', JStr (v_version v)), (''digest'', JStr (v_digest v)), (''payload'', JStr (v_payload v))]"

fun decode_all :: "('r field list) \<Rightarrow> 'r \<Rightarrow> json list \<Rightarrow> 'r list option" where
  "decode_all fs zero [] = Some []"
| "decode_all fs zero (v # vs) =
     (case decode_struct False fs zero v of
        None \<Rightarrow> None
      | Some r \<Rightarrow> map_option ((#) r) (decode_all fs zero vs))"

definition snapshot_fields :: "snapshot field list" where
  "snapshot_fields =
     [(''schema_version'', f_int (\<lambda>i r. r\<lparr>sn_schema := i\<rparr>)),
      (''bundles'', \<lambda>r v. case v of
          JNull \<Rightarrow> Some (r\<lparr>sn_bundles := []\<rparr>)
        | JArr vs \<Rightarrow> map_option (\<lambda>bs. r\<lparr>sn_bundles := bs\<rparr>) (decode_all version_fields zero_version vs)
        | _ \<Rightarrow> None)]"

definition zero_snapshot :: snapshot where
  "zero_snapshot = \<lparr>sn_schema = 0, sn_bundles = []\<rparr>"

text \<open>A \<open>map[string]string\<close>, kept sorted by key; a \<open>null\<close> value is the empty string.\<close>

fun put_strings :: "(string \<times> json) list \<Rightarrow> (string \<times> string) list \<Rightarrow> (string \<times> string) list option" where
  "put_strings [] acc = Some acc"
| "put_strings ((k, v) # kvs) acc =
     (case v of
        JStr s \<Rightarrow> put_strings kvs (obj_put k s acc)
      | JNull \<Rightarrow> put_strings kvs (obj_put k [] acc)
      | _ \<Rightarrow> None)"

definition contents_fields :: "contents field list" where
  "contents_fields =
     [(''required_commands'', f_strings (\<lambda>x r. r\<lparr>c_commands := x\<rparr>)), (''name'', f_string (\<lambda>x r. r\<lparr>c_name := x\<rparr>)),
      (''description'', f_string (\<lambda>x r. r\<lparr>c_description := x\<rparr>)),
      (''files'', \<lambda>r v. case v of
          JNull \<Rightarrow> Some (r\<lparr>c_files := []\<rparr>)
        | JObj kvs \<Rightarrow> map_option (\<lambda>fs. r\<lparr>c_files := fs\<rparr>) (put_strings kvs (c_files r))
        | _ \<Rightarrow> None),
      (''capability_ids'', f_strings (\<lambda>x r. r\<lparr>c_capabilities := x\<rparr>)),
      (''providers'', f_strings (\<lambda>x r. r\<lparr>c_providers := x\<rparr>))]"

definition zero_contents :: contents where
  "zero_contents = \<lparr>c_commands = [], c_name = [], c_description = [], c_files = [], c_capabilities = [], c_providers = []\<rparr>"

definition decode_payload :: "string \<Rightarrow> contents option" where
  "decode_payload payload = Option.bind (json_parse payload) (decode_struct False contents_fields zero_contents)"

section \<open>Patterns\<close>

definition alnum :: "char \<Rightarrow> bool" where
  "alnum c = (is_digit c \<or> is_alpha c)"

definition command_match :: "string \<Rightarrow> bool" where
  "command_match s =
     (case s of [] \<Rightarrow> False
      | c # r \<Rightarrow> alnum c \<and> length r \<le> 63 \<and> list_all (\<lambda>x. alnum x \<or> x \<in> set ''._+-'') r)"

definition path_match :: "string \<Rightarrow> bool" where
  "path_match s = (s \<noteq> [] \<and> list_all (\<lambda>x. alnum x \<or> x \<in> set ''._/-'') s)"

definition safe_name :: "string \<Rightarrow> bool" where
  "safe_name name =
     (\<not> (name = ''.'' \<or> 180 < length name \<or> \<not> path_match name \<or> is_abs name \<or> filepath_clean name \<noteq> name
         \<or> has_prefix name ''.'' \<or> str_contains name ''/.''))"

definition safe_content :: "string \<Rightarrow> bool" where
  "safe_content content = (valid_string content \<and> CHR 0x00 \<notin> set content)"

definition file_of :: "(string \<times> string) list \<Rightarrow> string \<Rightarrow> string" where
  "file_of files name = (case map_of files name of None \<Rightarrow> [] | Some c \<Rightarrow> c)"

section \<open>Decode\<close>

definition bad_version :: "string list \<Rightarrow> version \<Rightarrow> bool" where
  "bad_version seen v =
     (\<not> uuid_match (v_binding v) \<or> \<not> uuid_match (v_package v) \<or> \<not> uuid_match (v_id v) \<or> v_package v \<in> set seen
      \<or> 65536 < length (v_payload v) \<or> hex_encode (sha256 (v_payload v)) \<noteq> v_digest v)"

definition bad_contents :: "string \<Rightarrow> contents \<Rightarrow> bool" where
  "bad_contents provider b =
     (provider \<notin> set (c_providers b) \<or> length (c_files b) < 1 \<or> 32 < length (c_files b)
      \<or> trim_space (file_of (c_files b) ''SKILL.md'') = [])"

fun decode_bundles :: "string \<Rightarrow> string list \<Rightarrow> version list \<Rightarrow> contents list result" where
  "decode_bundles provider seen [] = Inr []"
| "decode_bundles provider seen (v # vs) =
     (if bad_version seen v then Inl (ErrNew ''skill package identity or digest mismatch'')
      else
        (case decode_payload (v_payload v) of
           None \<Rightarrow> Inl (ErrNew ''incompatible skill package'')
         | Some b \<Rightarrow>
             if bad_contents provider b then Inl (ErrNew ''incompatible skill package'')
             else if \<not> list_all (\<lambda>(n, c). safe_name n \<and> safe_content c) (c_files b)
             then Inl (ErrNew ''unsafe skill package file'')
             else
               (case decode_bundles provider (v_package v # seen) vs of
                  Inl er \<Rightarrow> Inl er
                | Inr bs \<Rightarrow> Inr (b # bs))))"

definition Decode :: "json \<Rightarrow> string \<Rightarrow> (snapshot \<times> contents list) result" where
  "Decode value provider =
     (let raw = json_marshal value
      in if 768 * 1024 < length raw then Inl (ErrNew ''invalid skill package snapshot'')
         else
           (case Option.bind (json_parse raw) (decode_struct False snapshot_fields zero_snapshot) of
              None \<Rightarrow> Inl (ErrNew ''invalid skill package snapshot'')
            | Some sn \<Rightarrow>
                if sn_schema sn \<noteq> 1 \<or> 5 < length (sn_bundles sn) then Inl (ErrNew ''invalid skill package snapshot'')
                else
                  (case decode_bundles provider [] (sn_bundles sn) of
                     Inl er \<Rightarrow> Inl er
                   | Inr bs \<Rightarrow> Inr (sn, bs))))"

definition SessionMode :: "string \<Rightarrow> string" where
  "SessionMode digest = (if digest = [] then [] else '':skill_packages:'' @ digest)"

definition newline :: char where
  "newline = CHR 0x0A"

definition package_lines :: "bool \<Rightarrow> package \<Rightarrow> string list" where
  "package_lines resumed b =
     [[], ''Skill package: '' @ p_name b @ newline # ''Read instructions: '' @ filepath_join [p_directory b, ''SKILL.md'']]
     @ (if resumed then [''Read SKILL.md again if its instructions are no longer in context.'']
        else [''Available files: '' @ str_join '', '' (p_files b), p_instructions b])"

definition Instructions :: "package list \<Rightarrow> bool \<Rightarrow> string" where
  "Instructions packages resumed =
     (if packages = [] then []
      else str_join [newline]
        ([[], ''The Agent owner associated these version-pinned skill packages with this Agent.'',
          ''Use their instructions when relevant to the task. They do not grant new tool, credential or network permissions.'',
          ''Resolve supporting files relative to each package directory. Do not modify package files or reveal their private contents.'']
         @ concat (map (package_lines resumed) packages)))"

section \<open>Required commands\<close>

text \<open>
  \<open>found\<close> is the answer of \<open>os.Stat\<close> and \<open>access\<close> for a candidate (a regular executable file),
  \<open>allow\<close> the product's file policy; the Windows branches are left out.
\<close>

fun env_value :: "string list \<Rightarrow> string \<Rightarrow> string" where
  "env_value [] k = []"
| "env_value (entry # entries) k =
     (case str_cut CHR ''='' entry of
        (k', v, ok) \<Rightarrow>
          if ok \<and> k' = k \<and> list_all (\<lambda>x. case str_cut CHR ''='' x of (k2, _, ok2) \<Rightarrow> \<not> (ok2 \<and> k2 = k)) entries
          then v else env_value entries k)"

definition split_list :: "string \<Rightarrow> string list" where
  "split_list p = (if p = [] then [] else str_split CHR '':'' p)"

definition command_candidates :: "string \<Rightarrow> string \<Rightarrow> string \<Rightarrow> string list" where
  "command_candidates path workspace name =
     map (\<lambda>d. filepath_join [if is_abs d then d else filepath_join [workspace, d], name])
         (filter (\<lambda>d. d \<noteq> []) (split_list path))"

fun CheckCommands ::
  "(nat \<Rightarrow> go_error option) \<Rightarrow> (string \<Rightarrow> bool) \<Rightarrow> (string \<Rightarrow> bool) option \<Rightarrow> string list \<Rightarrow> string \<Rightarrow> string list
   \<Rightarrow> go_error option" where
  "CheckCommands ctx found allow environment workspace [] = None"
| "CheckCommands ctx found allow environment workspace (name # names) =
     (case ctx (length names) of
        Some er \<Rightarrow> Some er
      | None \<Rightarrow>
          if \<not> command_match name then Some (ErrNew (''invalid required command: '' @ name))
          else if list_ex (\<lambda>c. found c \<and> (case allow of None \<Rightarrow> True | Some f \<Rightarrow> f c))
                    (command_candidates (env_value environment ''PATH'') workspace name)
          then CheckCommands ctx found allow environment workspace names
          else Some (ErrNew (''required command is unavailable in the Provider environment: '' @ name)))"

section \<open>Writing a package\<close>

text \<open>
  Paths are strings, as in the code; the tree is addressed by their components. \<open>sfx\<close> gives
  the random suffix drawn after the calls so far. Modes are the permission bits, with 1024 for
  the set-group-id bit: 448 and 256 are 0700 and 0400, 1512 and 288 are 02750 and 0440. The files
  of a package are a map, listed by sorted name.
\<close>

definition real_dir :: "renv \<Rightarrow> nat \<Rightarrow> rpath \<Rightarrow> unit rop" where
  "real_dir e mode p =
     rtry (root_lstat e p) (\<lambda>i. case i of
         Inr (RDir _) \<Rightarrow> root_chmod e p mode
       | _ \<Rightarrow> rfail (ErrNew ''package directory must be a real directory''))"

fun package_dirs :: "renv \<Rightarrow> nat \<Rightarrow> string \<Rightarrow> string list \<Rightarrow> unit rop" where
  "package_dirs e mode current [] = rreturn ()"
| "package_dirs e mode current (part # parts) =
     (let current = filepath_join [current, part]; p = path_comps current
      in rtry (root_mkdir e p (mode mod 512)) (\<lambda>r.
           if (case r of Inl er \<Rightarrow> errors_is er os_ErrExist | Inr _ \<Rightarrow> True)
           then rbind (real_dir e mode p) (\<lambda>_. package_dirs e mode current parts)
           else rfail (case r of Inl er \<Rightarrow> er | Inr _ \<Rightarrow> os_ErrExist)))"

definition packageDirectories :: "renv \<Rightarrow> string \<Rightarrow> nat \<Rightarrow> unit rop" where
  "packageDirectories e directory mode = package_dirs e mode [] (str_split slash directory)"

definition existing_matches :: "renv \<Rightarrow> bool \<Rightarrow> nat \<Rightarrow> rpath \<Rightarrow> string \<Rightarrow> unit rop" where
  "existing_matches e shared fileMode p content =
     rtry (root_lstat e p) (\<lambda>i. case i of
         Inr (RFile m _) \<Rightarrow>
           if shared \<and> m \<noteq> fileMode then rfail (ErrNew ''package cache entry is not a regular file'')
           else rtry (root_read e p) (\<lambda>c.
                  if c = Inr content then rreturn ()
                  else rfail (ErrNew ''package cache content does not match its pinned version''))
       | _ \<Rightarrow> rfail (ErrNew ''package cache entry is not a regular file''))"

text \<open>The new file is written under a temporary name and linked to its target, which must not exist.\<close>

definition link_written :: "renv \<Rightarrow> nat \<Rightarrow> rpath \<Rightarrow> rpath \<Rightarrow> string \<Rightarrow> unit result rop" where
  "link_written e fileMode q p content =
     rtry (rbind (file_chmod e q fileMode) (\<lambda>_. file_write e q content)) (\<lambda>w.
     rtry (file_close e q) (\<lambda>c.
     rtry (case w of Inl er \<Rightarrow> rfail er
           | Inr _ \<Rightarrow> (case c of Inl er \<Rightarrow> rfail er | Inr _ \<Rightarrow> root_link e q p)) (\<lambda>l.
     rtry (root_remove e q) (\<lambda>_. rreturn l))))"

definition install_file :: "renv \<Rightarrow> string \<Rightarrow> bool \<Rightarrow> nat \<Rightarrow> string \<Rightarrow> string \<Rightarrow> unit rop" where
  "install_file e sfx shared fileMode target content =
     (let q = path_comps (target @ ''.pending-'' @ sfx); p = path_comps target
      in rbind (root_create e q fileMode) (\<lambda>_.
         rbind (link_written e fileMode q p content) (\<lambda>l.
           case l of
             Inl er \<Rightarrow> if errors_is er os_ErrExist then existing_matches e shared fileMode p content else rfail er
           | Inr _ \<Rightarrow> rreturn ())))"

definition dir_mode :: "bool \<Rightarrow> nat" where
  "dir_mode shared = (if shared then 1512 else 448)"

definition file_mode :: "bool \<Rightarrow> nat" where
  "file_mode shared = (if shared then 288 else 256)"

definition materialize_file ::
  "renv \<Rightarrow> (rcall list \<Rightarrow> string) \<Rightarrow> string \<Rightarrow> bool \<Rightarrow> string \<Rightarrow> string \<Rightarrow> unit rop" where
  "materialize_file e sfx directory shared name content =
     (let target = filepath_join [directory, name]; p = path_comps target
      in rbind (packageDirectories e (filepath_dir target) (dir_mode shared)) (\<lambda>_.
         rtry (root_lstat e p) (\<lambda>i.
           case i of
             Inr _ \<Rightarrow> existing_matches e shared (file_mode shared) p content
           | Inl er \<Rightarrow>
               if errors_is er os_ErrNotExist
               then (\<lambda>s. install_file e (sfx (calls s)) shared (file_mode shared) target content s)
               else rfail er)))"

fun materialize_files ::
  "renv \<Rightarrow> (rcall list \<Rightarrow> string) \<Rightarrow> string \<Rightarrow> bool \<Rightarrow> (string \<times> string) list \<Rightarrow> unit rop" where
  "materialize_files e sfx directory shared [] = rreturn ()"
| "materialize_files e sfx directory shared ((name, content) # files) =
     rbind (materialize_file e sfx directory shared name content)
       (\<lambda>_. materialize_files e sfx directory shared files)"

definition materialize ::
  "renv \<Rightarrow> (rcall list \<Rightarrow> string) \<Rightarrow> string \<Rightarrow> (string \<times> string) list \<Rightarrow> bool \<Rightarrow> unit rop" where
  "materialize e sfx directory files shared =
     rbind (packageDirectories e directory (dir_mode shared))
       (\<lambda>_. materialize_files e sfx directory shared files)"

section \<open>Nothing is overwritten\<close>

lemma preserves_real_dir [frame]: "preserves Q (real_dir e mode p)"
proof -
  have "node_kept (tree s x) (tree (snd (real_dir e mode p s)) x)" for s x
  proof -
    obtain i s1 where i: "root_lstat e p s = (i, s1)" by fastforce
    have t: "tree s1 = tree s" using lstat_tree [OF i] .
    show ?thesis
    proof (cases "\<exists>m. i = Inr (RDir m)")
      case True
      then obtain m where m: "i = Inr (RDir m)" by blast
      have "p = [] \<or> tree s p = Some (RDir m)" using lstat_Inr [of e p s "RDir m" s1] i m by (simp split: if_splits)
      then show ?thesis
        using i m t by (auto simp: real_dir_def rtry_def root_chmod_def rsys_def Let_def put_node_def node_kept_def
          split: option.splits rnode.splits)
    next
      case False
      then show ?thesis using i t
        by (auto simp: real_dir_def rtry_def rfail_def split: sum.splits rnode.splits)
    qed
  qed
  then show ?thesis by (simp add: preserves_def)
qed

lemma preserves_package_dirs [frame]: "preserves Q (package_dirs e mode current parts)"
  by (induction parts arbitrary: current) (auto simp: Let_def intro!: frame)

lemma preserves_existing [frame]: "preserves Q (existing_matches e shared m p content)"
  unfolding existing_matches_def by (intro frame) (auto split: sum.splits rnode.splits intro!: frame)

lemma preserves_link_written: "preserves {q} (link_written e m q p content)"
  unfolding link_written_def by (intro frame) (auto split: sum.splits intro!: frame)

lemma preserves_install [frame]: "preserves Q (install_file e sfx shared m target content)"
  unfolding install_file_def Let_def
  by (rule preserves_fresh, rule preserves_bind, rule preserves_mono [OF preserves_link_written], simp, split sum.split)
    (intro conjI allI impI frame)

lemma preserves_materialize_file [frame]: "preserves Q (materialize_file e sfx directory shared name content)"
proof -
  have inst: "preserves Q (\<lambda>s. install_file e (sfx (calls s)) shared m target content s)" for m target
    by (rule preserves_state) (rule preserves_install)
  show ?thesis
    unfolding materialize_file_def packageDirectories_def Let_def
    by (intro frame, split sum.split) (intro conjI allI impI frame inst)
qed

lemma preserves_materialize [frame]:
  "preserves Q (materialize_files e sfx directory shared files)"
  "preserves Q (materialize e sfx directory files shared)"
proof -
  show files: "preserves Q (materialize_files e sfx directory shared files)"
    by (induction e sfx directory shared files rule: materialize_files.induct) (auto intro!: frame)
  show "preserves Q (materialize e sfx directory files shared)"
    unfolding materialize_def packageDirectories_def by (intro frame files)
qed

section \<open>A written package is complete\<close>

definition has_file :: "rtree \<Rightarrow> rpath \<Rightarrow> string \<Rightarrow> bool" where
  "has_file t p content = (\<exists>m. t p = Some (RFile m content))"

lemma has_file_kept: "has_file t p c \<Longrightarrow> node_kept (t p) (t' p) \<Longrightarrow> has_file t' p c"
  by (auto simp: has_file_def node_kept_file)

lemma existing_Inr:
  assumes "existing_matches e shared m p content s = (Inr u, s')"
  shows "has_file (tree s') p content"
proof -
  obtain i s1 where i: "root_lstat e p s = (i, s1)" by fastforce
  then obtain m' b where f: "i = Inr (RFile m' b)"
    using assms by (auto simp: existing_matches_def rtry_def rfail_def split: sum.splits rnode.splits)
  have l: "tree s1 = tree s" "tree s p = Some (RFile m' b)"
    using lstat_Inr [of e p s "RFile m' b" s1] i f by (auto split: if_splits)
  have "root_read e p s1 = (Inr content, s')"
    using assms i f by (auto simp: existing_matches_def rtry_def rfail_def rreturn_def split: if_splits prod.splits)
  then show ?thesis using read_Inr l by (fastforce simp: has_file_def)
qed

lemma link_written_Inr:
  assumes run: "link_written e m q p content s = (Inr (Inr u), s')" and q: "tree s q = Some (RFile m0 [])"
  shows "has_file (tree s') p content"
proof -
  obtain w s1 where w: "rbind (file_chmod e q m) (\<lambda>_. file_write e q content) s = (w, s1)" by fastforce
  obtain c s2 where c: "file_close e q s1 = (c, s2)" by fastforce
  obtain a b where ok: "w = Inr a" "c = Inr b"
    using run w c by (auto simp: link_written_def rtry_eq rreturn_def rfail_def split: sum.splits)
  obtain x s3 where l: "root_link e q p s2 = (Inr x, s3)" and r: "\<exists>y. root_remove e q s3 = (y, s')"
    using run w c ok by (auto simp: link_written_def rtry_eq rreturn_def)
  have q1: "tree s1 q = Some (RFile m content)"
    using w ok q by (auto simp: rbind_Inr dest!: fchmod_Inr write_Inr)
  have q2: "tree s2 q = Some (RFile m content)" using close_tree [OF c] q1 by simp
  obtain n where n: "tree s2 q = Some n" "tree s2 p = None" "tree s3 = (tree s2)(p \<mapsto> n)" using link_Inr [OF l] by blast
  have "p \<noteq> q" and p3: "tree s3 p = Some (RFile m content)" using n q2 by auto
  then show ?thesis using r remove_other has_file_def by metis
qed

lemma install_Inr:
  assumes run: "install_file e sfx shared m target content s = (Inr u, s')"
  shows "has_file (tree s') (path_comps target) content"
proof -
  define q where "q = path_comps (target @ ''.pending-'' @ sfx)"
  obtain s1 l s2 where c: "root_create e q m s = (Inr (), s1)"
    and l: "link_written e m q (path_comps target) content s1 = (Inr l, s2)"
    and fin: "(case l of
             Inl er \<Rightarrow> if errors_is er os_ErrExist then existing_matches e shared m (path_comps target) content else rfail er
           | Inr _ \<Rightarrow> rreturn ()) s2 = (Inr u, s')"
    using run unfolding install_file_def Let_def rbind_Inr q_def by auto
  show ?thesis
  proof (cases l)
    case (Inl er)
    then show ?thesis using fin existing_Inr by (auto simp: rfail_def split: if_splits)
  next
    case (Inr x)
    have "tree s1 q = Some (RFile m [])" using create_Inr [OF c] by simp
    then show ?thesis using link_written_Inr l Inr fin by (auto simp: rreturn_def)
  qed
qed

lemma materialize_file_Inr:
  assumes "materialize_file e sfx directory shared name content s = (Inr u, s')"
  shows "has_file (tree s') (path_comps (filepath_join [directory, name])) content"
proof -
  define target where "target = filepath_join [directory, name]"
  obtain s1 i s2 where i: "root_lstat e (path_comps target) s1 = (i, s2)"
    and r: "(case i of
             Inr _ \<Rightarrow> existing_matches e shared (file_mode shared) (path_comps target) content
           | Inl er \<Rightarrow>
               if errors_is er os_ErrNotExist
               then (\<lambda>s. install_file e (sfx (calls s)) shared (file_mode shared) target content s)
               else rfail er) s2 = (Inr u, s')"
    using assms unfolding materialize_file_def Let_def rbind_Inr rtry_eq target_def by blast
  show ?thesis
    using r existing_Inr install_Inr unfolding target_def
    by (cases i) (auto simp: rfail_def split: if_splits)
qed

lemma materialize_files_Inr:
  "materialize_files e sfx directory shared files s = (Inr u, s') \<Longrightarrow> (name, content) \<in> set files \<Longrightarrow>
   has_file (tree s') (path_comps (filepath_join [directory, name])) content"
proof (induction e sfx directory shared files arbitrary: s rule: materialize_files.induct)
  case (2 e sfx directory shared n c files)
  then obtain s1 where f: "materialize_file e sfx directory shared n c s = (Inr (), s1)"
    and r: "materialize_files e sfx directory shared files s1 = (Inr u, s')" by (auto simp: rbind_Inr)
  have kept: "node_kept (tree s1 p) (tree s' p)" for p
    by (rule preservesD [OF preserves_materialize(1) [of "{}"] r]) simp
  show ?case
    using "2.prems"(2) has_file_kept [OF materialize_file_Inr [OF f], of "tree s'"] kept "2.IH" [OF r] by auto
qed simp

lemma materialize_Inr:
  "materialize e sfx directory files shared s = (Inr u, s') \<Longrightarrow> (name, content) \<in> set files \<Longrightarrow>
   has_file (tree s') (path_comps (filepath_join [directory, name])) content"
  by (auto simp: materialize_def rbind_Inr intro: materialize_files_Inr)

section \<open>Names stay inside\<close>

lemma join_hidden_comp:
  assumes "x \<in> set xs" and "x \<noteq> []" and "hd x = CHR ''.''"
  shows "has_prefix (str_join [slash] xs) ''.'' \<or> str_contains (str_join [slash] xs) ''/.''"
proof -
  obtain r where x: "x = CHR ''.'' # r" using assms(2,3) by (cases x) auto
  obtain as bs where xs: "xs = as @ x # bs" using assms(1) by (auto simp: in_set_conv_decomp)
  have "str_join [slash] (as @ x # bs) = str_join [slash] as @ (if as = [] then [] else ''/'') @ str_join [slash] (x # bs)"
  proof (induction as)
    case (Cons a as)
    then show ?case by (cases as) (auto simp: str_join_Cons slash_def)
  qed simp
  moreover obtain v where "str_join [slash] (x # bs) = x @ v" by (cases bs) auto
  ultimately have "str_join [slash] xs = str_join [slash] as @ (if as = [] then [] else ''/'') @ ''.'' @ r @ v"
    using xs x by simp
  then show ?thesis by (cases "as = []") (auto simp: has_prefix_iff str_contains_iff)
qed

lemma safe_name_comps:
  assumes "safe_name n"
  shows "list_all (\<lambda>x. plain_comp x \<and> hd x \<noteq> CHR ''.'') (path_comps n)" and "path_comps n \<noteq> []"
    and "str_split slash n = path_comps n"
proof -
  have n: "\<not> is_abs n" "filepath_clean n = n" "\<not> has_prefix n ''.''" "\<not> str_contains n ''/.''"
    using assms by (auto simp: safe_name_def)
  have whole: "n = path_text False (path_comps n)" using n(1,2) by (simp add: filepath_clean_def)
  show ne: "path_comps n \<noteq> []" using whole n(3) by (auto simp: path_text_def)
  have join: "n = str_join [slash] (path_comps n)" using whole ne by (simp add: path_text_def)
  show split: "str_split slash n = path_comps n"
    using join ne path_comps_nonempty [of _ n] str_split_join [of "path_comps n" slash] by metis
  obtain plain k where st: "rev (path_comps n) = plain @ replicate k ''..''" "list_all plain_comp plain"
    using path_comps_stack [of n] by (auto simp: clean_stack_def)
  have comps: "path_comps n = replicate k ''..'' @ rev plain" using st(1) by (metis rev_append rev_replicate rev_rev_ident)
  have "k = 0"
  proof (cases k)
    case (Suc j)
    then obtain xs where "path_comps n = ''..'' # xs" using comps by simp
    then have "n = str_join [slash] (''..'' # xs)" using join by simp
    then have "has_prefix n ''.''" by (cases xs) (auto simp: has_prefix_iff)
    then show ?thesis using n(3) by simp
  qed simp
  then have plain: "list_all plain_comp (path_comps n)" using comps st(2) by (simp add: list_all_iff)
  have "hd x \<noteq> CHR ''.''" if "x \<in> set (path_comps n)" for x
    using join_hidden_comp [OF that] path_comps_nonempty [OF that] join n(3,4) by auto
  then show "list_all (\<lambda>x. plain_comp x \<and> hd x \<noteq> CHR ''.'') (path_comps n)" using plain by (auto simp: list_all_iff)
qed

lemma path_comps_join_safe:
  assumes "d \<noteq> []" and "safe_name n"
  shows "path_comps (filepath_join [d, n]) = path_comps d @ path_comps n"
proof -
  have "n \<noteq> []" using assms(2) by (auto simp: safe_name_def path_match_def)
  then have j: "filepath_join [d, n] = filepath_clean (d @ slash # n)" using assms(1) by (simp add: filepath_join_def)
  have abs: "is_abs (d @ slash # n) = is_abs d" using assms(1) by (cases d) (auto simp: is_abs_def)
  have sp: "str_split slash (d @ slash # n) = str_split slash d @ path_comps n"
    using safe_name_comps(3) [OF assms(2)] by (simp add: split_append_slash)
  have "list_all plain_comp (path_comps n)" using safe_name_comps(1) [OF assms(2)] by (auto simp: list_all_iff)
  then show ?thesis
    unfolding j path_comps_clean path_comps_def [of "d @ slash # n"] abs sp
    by (simp add: clean_comps_def foldl_append foldl_clean_plain path_comps_def [of d] del: clean_push.simps)
qed

lemma decode_bundles_sound:
  "decode_bundles provider seen vs = Inr bs \<Longrightarrow>
   length bs = length vs \<and> distinct (map v_package vs) \<and> set (map v_package vs) \<inter> set seen = {}
   \<and> (\<forall>i < length vs. hex_encode (sha256 (v_payload (vs ! i))) = v_digest (vs ! i)
        \<and> decode_payload (v_payload (vs ! i)) = Some (bs ! i) \<and> \<not> bad_contents provider (bs ! i)
        \<and> list_all (\<lambda>(n, c). safe_name n \<and> safe_content c) (c_files (bs ! i)))"
proof (induction provider seen vs arbitrary: bs rule: decode_bundles.induct)
  case (2 provider seen v vs)
  then obtain b bs' where b: "decode_payload (v_payload v) = Some b" "\<not> bad_version seen v" "\<not> bad_contents provider b"
      "list_all (\<lambda>(n, c). safe_name n \<and> safe_content c) (c_files b)"
    and r: "decode_bundles provider (v_package v # seen) vs = Inr bs'" and bs: "bs = b # bs'"
    by (auto split: if_splits option.splits sum.splits)
  note ih = "2.IH" [OF b(2) b(1) b(3) _ r]
  have step: "\<forall>i < length (v # vs). hex_encode (sha256 (v_payload ((v # vs) ! i))) = v_digest ((v # vs) ! i)
        \<and> decode_payload (v_payload ((v # vs) ! i)) = Some (bs ! i) \<and> \<not> bad_contents provider (bs ! i)
        \<and> list_all (\<lambda>(n, c). safe_name n \<and> safe_content c) (c_files (bs ! i))"
    using ih b bs by (auto simp: nth_Cons bad_version_def split: nat.splits)
  show ?case using ih b(2,4) bs step by (auto simp: bad_version_def)
qed simp

section \<open>Properties\<close>

definition demo_skill :: json where
  "demo_skill = JObj [(''files'', JObj [(''SKILL.md'', JStr ''Do it.'')]),
                      (''name'', JStr ''Demo''), (''providers'', JArr [JStr ''codex''])]"

definition demo_bundle_id :: string where
  "demo_bundle_id = ''01234567-89ab-cdef-0123-456789abcdef''"

definition demo_version :: version where
  "demo_version = \<lparr>v_binding = demo_bundle_id, v_package = demo_bundle_id, v_id = demo_bundle_id, v_version = ''1'',
     v_digest = hex_encode (sha256 (json_marshal demo_skill)), v_payload = json_marshal demo_skill\<rparr>"

definition demo_packages :: json where
  "demo_packages = JObj [(''bundles'', JArr [version_json demo_version]), (''schema_version'', JNum ''1'')]"

text \<open>
  C14: A decoded snapshot holds at most five distinct packages, and each is the decoding of a payload
  with the declared digest, supports the provider, has 1 to 32 files with a non-blank SKILL.md,
  and has only file names that add plain, non-hidden components to whatever directory they are
  joined to, so no file of a package is outside its directory.
\<close>

theorem decoded_packages_sound:
  assumes "Decode value provider = Inr (sn, bs)"
  shows "sn_schema sn = 1 \<and> length bs = length (sn_bundles sn) \<and> length bs \<le> 5
    \<and> distinct (map v_package (sn_bundles sn))
    \<and> (\<forall>i < length bs. let b = bs ! i; v = sn_bundles sn ! i in
         hex_encode (sha256 (v_payload v)) = v_digest v \<and> decode_payload (v_payload v) = Some b
         \<and> provider \<in> set (c_providers b) \<and> length (c_files b) \<in> {1..32}
         \<and> trim_space (file_of (c_files b) ''SKILL.md'') \<noteq> []
         \<and> (\<forall>(n, c) \<in> set (c_files b). safe_content c
              \<and> list_all (\<lambda>x. plain_comp x \<and> hd x \<noteq> CHR ''.'') (path_comps n)
              \<and> (\<forall>d. d \<noteq> [] \<longrightarrow> path_comps (filepath_join [d, n]) = path_comps d @ path_comps n)))"
proof -
  have d: "decode_bundles provider [] (sn_bundles sn) = Inr bs" "sn_schema sn = 1" "length (sn_bundles sn) \<le> 5"
    using assms by (auto simp: Decode_def Let_def split: if_splits option.splits sum.splits)
  note sound = decode_bundles_sound [OF d(1)]
  have "case p of (n, c) \<Rightarrow> safe_content c \<and> list_all (\<lambda>x. plain_comp x \<and> hd x \<noteq> CHR ''.'') (path_comps n)
              \<and> (\<forall>d. d \<noteq> [] \<longrightarrow> path_comps (filepath_join [d, n]) = path_comps d @ path_comps n)"
    if "i < length bs" "p \<in> set (c_files (bs ! i))" for i p
    using sound that safe_name_comps(1) path_comps_join_safe by (fastforce simp: list_all_iff)
  then show ?thesis using d(2,3) sound by (auto simp: Let_def bad_contents_def Suc_le_eq)
qed

lemma demo_skill_valid: "list_all (\<lambda>c. byte c < 128) (json_marshal demo_skill)"
  by code_simp

lemma demo_skill_length: "length (json_marshal demo_skill) \<le> 200"
  by code_simp

lemma demo_decode_payload:
  "decode_payload (json_marshal demo_skill) =
   Some (zero_contents\<lparr>c_name := ''Demo'', c_providers := [''codex''],
                       c_files := [(''SKILL.md'', ''Do it.'')]\<rparr>)"
  by code_simp

definition demo_contents :: contents where
  "demo_contents = zero_contents\<lparr>c_name := ''Demo'', c_providers := [''codex''], c_files := [(''SKILL.md'', ''Do it.'')]\<rparr>"

lemma demo_Decode: "Decode demo_packages ''codex'' = Inr (\<lparr>sn_schema = 1, sn_bundles = [demo_version]\<rparr>, [demo_contents])"
proof -
  let ?p = "json_marshal demo_skill"
  have ids: "uuid_match demo_bundle_id" "list_all (\<lambda>c. byte c < 128) demo_bundle_id" "length demo_bundle_id = 36" by code_simp+
  have wf: "json_wf demo_packages"
    using ids by (auto simp: demo_packages_def version_json_def demo_version_def hex_encode_valid number_literal_def
        intro!: ascii_valid demo_skill_valid) code_simp
  have small: "length (json_marshal demo_packages) \<le> 4000"
    using length_json_quote [of ?p] length_json_quote [of demo_bundle_id] length_json_quote [of "hex_encode (sha256 ?p)"]
      demo_skill_length ids(3)
      length_json_quote [of "''bundles''"] length_json_quote [of "''schema_version''"] length_json_quote [of "''binding_id''"]
      length_json_quote [of "''package_id''"] length_json_quote [of "''version_id''"] length_json_quote [of "''version''"]
      length_json_quote [of "''digest''"] length_json_quote [of "''payload''"] length_json_quote [of "''1''"]
    unfolding json_marshal_def [of demo_packages]
    by (simp add: demo_packages_def version_json_def demo_version_def str_join_Cons)
  have sn: "decode_struct False snapshot_fields zero_snapshot demo_packages = Some \<lparr>sn_schema = 1, sn_bundles = [demo_version]\<rparr>"
    by (simp add: demo_packages_def version_json_def decode_struct_def snapshot_fields_def version_fields_def find_field_def
        f_string_def f_int_def zero_snapshot_def zero_version_def demo_version_def atoi_def is_digit_def)
  have trim: "trim_space ''Do it.'' = ''Do it.''" by code_simp
  have names: "safe_name ''SKILL.md''" "safe_content ''Do it.''" by code_simp+
  show ?thesis
    using small demo_skill_length
    by (simp add: Decode_def json_parse_marshal [OF wf] sn Let_def bad_version_def demo_version_def ids demo_decode_payload
        bad_contents_def file_of_def trim names zero_contents_def demo_contents_def)
qed

theorem decoded_packages_sound_witness:
  "\<exists>sn bs. Decode demo_packages ''codex'' = Inr (sn, bs) \<and> sn_schema sn = 1 \<and> length bs = 1
     \<and> ''codex'' \<in> set (c_providers (hd bs))"
  using decoded_packages_sound [OF demo_Decode] demo_Decode by (auto simp: Let_def)

text \<open>
  Writing a package never damages the cache: whatever calls fail, every file and link that was
  there is unchanged and every directory is still one; and when it succeeds, every file of the
  package is there with exactly its pinned content.
\<close>

theorem materialize_safe:
  assumes "materialize e sfx directory files shared s = (r, s')"
  shows "(\<forall>p. node_kept (tree s p) (tree s' p))
    \<and> (r = Inr () \<longrightarrow> (\<forall>(n, c) \<in> set files. \<exists>m. tree s' (path_comps (filepath_join [directory, n])) = Some (RFile m c)))"
proof (intro conjI impI allI)
  show "node_kept (tree s p) (tree s' p)" for p
    by (rule preservesD [OF preserves_materialize(2) [of "{}"] assms]) simp
  assume "r = Inr ()"
  then show "\<forall>(n, c) \<in> set files. \<exists>m. tree s' (path_comps (filepath_join [directory, n])) = Some (RFile m c)"
    using assms materialize_Inr by (fastforce simp: has_file_def)
qed

definition demo_renv :: renv where
  "demo_renv = \<lparr>r_fault = (\<lambda>_. None), r_partial = (\<lambda>_. 0)\<rparr>"

definition demo_rstate :: rstate where
  "demo_rstate = \<lparr>tree = [[''b''] \<mapsto> RFile 420 ''old''], calls = []\<rparr>"

theorem materialize_safe_witness:
  "\<exists>s'. materialize demo_renv (\<lambda>_. ''00'') ''a'' [(''SKILL.md'', ''Do it.'')] False demo_rstate = (Inr (), s')
     \<and> tree s' [''b''] = Some (RFile 420 ''old'')
     \<and> (\<exists>m. tree s' (path_comps (filepath_join [''a'', ''SKILL.md''])) = Some (RFile m ''Do it.''))"
proof -
  let ?run = "materialize demo_renv (\<lambda>_. ''00'') ''a'' [(''SKILL.md'', ''Do it.'')] False demo_rstate"
  have ok: "fst ?run = Inr ()" by code_simp
  then obtain s' where run: "?run = (Inr (), s')" by (cases ?run) auto
  have "node_kept (tree demo_rstate [''b'']) (tree s' [''b''])" using materialize_safe [OF run] by blast
  then have "tree s' [''b''] = Some (RFile 420 ''old'')" by (simp add: demo_rstate_def node_kept_file)
  then show ?thesis using materialize_safe [OF run] run by auto
qed

end
