(* ===== verification/Skill_Load.thy ===== *)
theory Skill_Load
  imports Skill_Packages
begin

text \<open>
  Loading the skill packages of a Run: \<open>Load\<close> of \<open>pkg/adapters/skillpackages/packages.go\<close>,
  \<open>recovery.go\<close>, \<open>git.go\<close>, \<open>shared_unix.go\<close> and the caller in \<open>pkg/adapters/skill_packages.go\<close>.
  The cache and the workspace are trees opened with \<open>os.OpenRoot\<close>; \<open>git\<close> and the calls outside
  these trees answer through parameters.
\<close>

section \<open>Recovery\<close>

definition recovery_prefix :: "string \<Rightarrow> string \<Rightarrow> string" where
  "recovery_prefix agentID digest = agentID @ ''-'' @ digest @ ''-recovered-''"

fun try_recovered ::
  "renv \<Rightarrow> (rcall list \<Rightarrow> string) \<Rightarrow> string \<Rightarrow> (string \<times> string) list \<Rightarrow> (string \<times> bool) list \<Rightarrow> string option rop" where
  "try_recovered e sfx pre files [] = rreturn None"
| "try_recovered e sfx pre files ((name, isdir) # entries) =
     (if \<not> isdir \<or> \<not> has_prefix name pre \<or> length name \<noteq> length pre + 32
      then try_recovered e sfx pre files entries
      else rtry (materialize e sfx name files False) (\<lambda>r.
             case r of Inr _ \<Rightarrow> rreturn (Some name) | Inl _ \<Rightarrow> try_recovered e sfx pre files entries))"

definition fresh_recovery ::
  "renv \<Rightarrow> (rcall list \<Rightarrow> string) \<Rightarrow> string \<Rightarrow> (string \<times> string) list \<Rightarrow> string rop" where
  "fresh_recovery e sfx name files =
     rbind (root_mkdir e (path_comps name) 448) (\<lambda>_.
     rbind (materialize e sfx name files False) (\<lambda>_. rreturn name))"

definition recoverPrivatePackage ::
  "renv \<Rightarrow> (rcall list \<Rightarrow> string) \<Rightarrow> (string \<times> bool) list result \<Rightarrow> string \<Rightarrow> string \<Rightarrow> (string \<times> string) list
   \<Rightarrow> string rop" where
  "recoverPrivatePackage e sfx listing agentID digest files =
     (let pre = recovery_prefix agentID digest
      in case listing of
           Inl er \<Rightarrow> rfail er
         | Inr entries \<Rightarrow>
             rbind (try_recovered e sfx pre files (take 1024 entries)) (\<lambda>found.
               case found of
                 Some name \<Rightarrow> rreturn name
               | None \<Rightarrow>
                   (\<lambda>s. fresh_recovery e sfx (pre @ sfx (calls s)) files s)))"

section \<open>The ignore file of the cache\<close>

definition ignore_contents :: string where
  "ignore_contents = ''# OpenLinker generated cache; never add package contents'' @ [newline] @ ''*'' @ [newline]"

definition gitignore :: rpath where
  "gitignore = [''.gitignore'']"

definition unless_missing :: "unit rop \<Rightarrow> unit rop" where
  "unless_missing m =
     rtry m (\<lambda>r. case r of Inl er \<Rightarrow> if errors_is er os_ErrNotExist then rreturn () else rfail er | Inr _ \<Rightarrow> rreturn ())"

definition link_ignore :: "renv \<Rightarrow> rpath \<Rightarrow> unit rop" where
  "link_ignore e q =
     rtry (root_link e q gitignore) (\<lambda>l.
       case l of
         Inr _ \<Rightarrow> rreturn ()
       | Inl er \<Rightarrow> rtry (root_read e gitignore) (\<lambda>d. if d = Inr ignore_contents then rreturn () else rfail er))"

definition replace_ignore :: "renv \<Rightarrow> rpath \<Rightarrow> unit rop" where
  "replace_ignore e q =
     rtry (root_lstat e gitignore) (\<lambda>i.
       case i of
         Inr (RDir _) \<Rightarrow> rfail (ErrNew ''cache ignore marker must be a file'')
       | Inr (RFile _ _) \<Rightarrow>
           rbind (unless_missing (root_chmod e gitignore 384)) (\<lambda>_.
           rbind (unless_missing (root_remove e gitignore)) (\<lambda>_. link_ignore e q))
       | Inr (RLink _) \<Rightarrow> rbind (unless_missing (root_remove e gitignore)) (\<lambda>_. link_ignore e q)
       | Inl er \<Rightarrow> if errors_is er os_ErrNotExist then link_ignore e q else rfail er)"

definition op_error :: "'a result \<Rightarrow> go_error option" where
  "op_error r = (case r of Inl er \<Rightarrow> Some er | Inr _ \<Rightarrow> None)"

definition write_ignore :: "renv \<Rightarrow> rpath \<Rightarrow> unit rop" where
  "write_ignore e q =
     rtry (file_write e q ignore_contents) (\<lambda>w.
     rtry (file_close e q) (\<lambda>c.
       case errors_join (op_error w) (op_error c) of
         Some er \<Rightarrow> rfail er
       | None \<Rightarrow> replace_ignore e q))"

definition install_ignore :: "renv \<Rightarrow> rpath \<Rightarrow> unit rop" where
  "install_ignore e q =
     rbind (root_create e q 384) (\<lambda>_.
     rtry (write_ignore e q) (\<lambda>r.
     rtry (root_remove e q) (\<lambda>_. case r of Inl er \<Rightarrow> rfail er | Inr _ \<Rightarrow> rreturn ())))"

definition writeCacheIgnore :: "renv \<Rightarrow> (rcall list \<Rightarrow> string) \<Rightarrow> unit rop" where
  "writeCacheIgnore e sfx =
     rtry (root_read e gitignore) (\<lambda>d.
       if d = Inr ignore_contents then rreturn ()
       else (\<lambda>s. install_ignore e [''.gitignore-'' @ sfx (calls s)] s))"

section \<open>The repository of the workspace\<close>

definition workspaceRelative :: "string \<Rightarrow> string \<Rightarrow> string \<times> bool" where
  "workspaceRelative workspace name =
     (case filepath_rel workspace name of
        None \<Rightarrow> ([], False)
      | Some rel \<Rightarrow> (rel, rel \<noteq> ''.'' \<and> rel \<noteq> ''..'' \<and> \<not> has_prefix rel ''../'' \<and> \<not> is_abs rel))"

text \<open>
  \<open>pe_resolve\<close> is \<open>Abs\<close> and \<open>EvalSymlinks\<close> of the workspace, \<open>pe_git\<close> the output of one \<open>git\<close>
  command under an environment.
\<close>

record protect_env =
  pe_resolve :: "string \<Rightarrow> string result"
  pe_open :: "go_error option"
  pe_eval :: "string \<Rightarrow> string result"
  pe_environ :: "string list"
  pe_git :: "string list \<Rightarrow> string list \<Rightarrow> string result"

definition git_environment :: "string list \<Rightarrow> string list" where
  "git_environment environ =
     filter (\<lambda>x. \<not> has_prefix (to_upper x) ''GIT_'') environ
     @ [''GIT_CONFIG_NOSYSTEM=1'', ''GIT_CONFIG_GLOBAL=/dev/null'', ''GIT_OPTIONAL_LOCKS=0'']"

definition git :: "protect_env \<Rightarrow> string \<Rightarrow> string \<Rightarrow> string list \<Rightarrow> string result" where
  "git pe workspace gitdir args =
     pe_git pe (git_environment (pe_environ pe))
       ([''-c'', ''core.fsmonitor=false'', ''-C'', workspace, ''--git-dir='' @ gitdir, ''--work-tree='' @ workspace] @ args)"

fun root_mkdir_all :: "renv \<Rightarrow> nat \<Rightarrow> rpath \<Rightarrow> string list \<Rightarrow> unit rop" where
  "root_mkdir_all e mode made [] = rreturn ()"
| "root_mkdir_all e mode made (c # cs) =
     (\<lambda>s. (if is_dir (tree s) (made @ [c]) then root_mkdir_all e mode (made @ [c]) cs
           else rbind (root_mkdir e (made @ [c]) mode) (\<lambda>_. root_mkdir_all e mode (made @ [c]) cs)) s)"

text \<open>Opening for append creates a missing file; a link that appears after the check is not followed.\<close>

definition root_open_append :: "renv \<Rightarrow> rpath \<Rightarrow> nat \<Rightarrow> unit rop" where
  "root_open_append e p mode =
     rsys e (CCreate p)
       (\<lambda>s. case tree s p of
              None \<Rightarrow> new_node p (RFile mode []) s
            | Some (RFile _ _) \<Rightarrow> (Inr (), s)
            | Some _ \<Rightarrow> (Inl (ErrNew ''not a regular file''), s))"

definition ignore_rule :: string where
  "ignore_rule = ''.openlinker-skills/''"

definition add_rule :: "renv \<Rightarrow> rpath \<Rightarrow> string \<Rightarrow> unit rop" where
  "add_rule e p previous =
     (if str_contains (newline # previous @ [newline]) (newline # ignore_rule @ [newline]) then rreturn ()
      else
        rbind (root_open_append e p 384) (\<lambda>_.
        rtry (file_write e p (newline # ''# OpenLinker generated skill package cache'' @ newline # ignore_rule @ [newline])) (\<lambda>w.
        rtry (file_close e p) (\<lambda>c.
          case errors_join (op_error w) (op_error c) of Some er \<Rightarrow> rfail er | None \<Rightarrow> rreturn ()))))"

definition rule_from :: "renv \<Rightarrow> rpath \<Rightarrow> unit rop" where
  "rule_from e p =
     rtry (root_read e p) (\<lambda>d.
       case d of
         Inr previous \<Rightarrow> add_rule e p previous
       | Inl er \<Rightarrow> if errors_is er os_ErrNotExist then add_rule e p [] else rfail er)"

definition ensure_rule :: "renv \<Rightarrow> rpath \<Rightarrow> unit rop" where
  "ensure_rule e p =
     rtry (root_lstat e p) (\<lambda>i.
       case i of
         Inl er \<Rightarrow> if errors_is er os_ErrNotExist then rule_from e p else rfail er
       | Inr (RFile _ _) \<Rightarrow> rule_from e p
       | Inr _ \<Rightarrow> rfail (ErrNew ''Git exclude must be a regular file''))"

definition exclude_cache :: "renv \<Rightarrow> protect_env \<Rightarrow> string \<Rightarrow> string \<Rightarrow> unit rop" where
  "exclude_cache e pe workspace gitdir =
     (case git pe workspace gitdir [''rev-parse'', ''--git-path'', ''info/exclude''] of
        Inl er \<Rightarrow> rfail er
      | Inr excluded \<Rightarrow>
          (let name = trim_space excluded;
               full = (if is_abs name then name else filepath_join [workspace, name]);
               (relative, inside) = workspaceRelative workspace full
           in if name = [] then rfail (ErrNew ''missing Git exclude path'')
              else if \<not> inside then rreturn ()
              else
                (case git pe workspace gitdir [''ls-files'', ''--'', ''.openlinker-skills''] of
                   Inl er \<Rightarrow> rfail er
                 | Inr tracked \<Rightarrow>
                     if tracked \<noteq> []
                     then rfail (ErrNew ''skill cache contains tracked files; remove them from version control before loading packages'')
                     else
                       rbind (root_mkdir_all e 448 [] (path_comps (filepath_dir relative))) (\<lambda>_.
                       rbind (ensure_rule e (path_comps relative)) (\<lambda>_.
                         case git pe workspace gitdir [''check-ignore'', ''--quiet'', ''.openlinker-skills/probe''] of
                           Inl er \<Rightarrow> rfail (ErrWrap ''skill cache is not excluded by Git: '' er [])
                         | Inr _ \<Rightarrow> rreturn ())))))"

definition protect_repository :: "renv \<Rightarrow> protect_env \<Rightarrow> string \<Rightarrow> string \<Rightarrow> unit rop" where
  "protect_repository e pe workspace gitdir =
     (case pe_eval pe gitdir of
        Inl _ \<Rightarrow> rreturn ()
      | Inr g \<Rightarrow> if snd (workspaceRelative workspace g) then exclude_cache e pe workspace g else rreturn ())"

definition protectSkillPackageCache :: "renv \<Rightarrow> protect_env \<Rightarrow> string \<Rightarrow> unit rop" where
  "protectSkillPackageCache e pe workspace0 =
     (case pe_resolve pe workspace0 of
        Inl er \<Rightarrow> rfail er
      | Inr workspace \<Rightarrow>
          (case pe_open pe of
             Some er \<Rightarrow> rfail er
           | None \<Rightarrow>
               rtry (root_lstat e [''.git'']) (\<lambda>i.
                 case i of
                   Inl er \<Rightarrow> if errors_is er os_ErrNotExist then rreturn () else rfail er
                 | Inr (RLink _) \<Rightarrow> rreturn ()
                 | Inr (RDir _) \<Rightarrow> protect_repository e pe workspace (filepath_join [workspace, ''.git''])
                 | Inr (RFile _ b) \<Rightarrow>
                     if 4096 < length b then rreturn ()
                     else rbind (root_read e [''.git'']) (\<lambda>raw.
                       case cut_prefix (trim_space raw) ''gitdir: '' of
                         None \<Rightarrow> rreturn ()
                       | Some target \<Rightarrow>
                           protect_repository e pe workspace
                             (if is_abs target then target else filepath_join [workspace, target])))))"

section \<open>Shared caches\<close>

record cache_info =
  ci_dir :: bool
  ci_symlink :: bool
  ci_perm :: nat
  ci_setgid :: bool
  ci_uid :: int
  ci_gid :: int

definition probe_cache :: "renv \<Rightarrow> string \<Rightarrow> unit rop" where
  "probe_cache e sfx =
     (let q = [''.write-probe-'' @ sfx]
      in rbind (root_create e q 384) (\<lambda>_.
         rtry (file_write e q ''probe'') (\<lambda>w.
         rtry (file_close e q) (\<lambda>c.
         rtry (root_remove e q) (\<lambda>r.
           case List.map_filter op_error [w, c, r] of
             [] \<Rightarrow> rreturn ()
           | es \<Rightarrow> rfail (ErrJoin es))))))"

definition CheckSharedCache ::
  "renv \<Rightarrow> (rcall list \<Rightarrow> string) \<Rightarrow> (string \<Rightarrow> cache_info result) \<Rightarrow> int \<Rightarrow> (string \<Rightarrow> string result) \<Rightarrow> (string \<Rightarrow> go_error option)
   \<Rightarrow> string \<Rightarrow> int \<Rightarrow> unit rop" where
  "CheckSharedCache e sfx lstat euid eval openroot directory groupID =
     (case lstat directory of
        Inl er \<Rightarrow> rfail er
      | Inr info \<Rightarrow>
          if \<not> ci_dir info \<or> ci_symlink info \<or> ci_perm info \<noteq> 488 \<or> \<not> ci_setgid info \<or> ci_uid info \<noteq> euid
             \<or> groupID \<le> 0 \<or> ci_gid info \<noteq> groupID
          then rfail (ErrNew ''shared skill cache requires host ownership, the configured group and mode 02750'')
          else if eval directory \<noteq> Inr (filepath_clean directory)
          then rfail (ErrNew ''shared skill cache must not have symlink ancestors'')
          else (case openroot directory of
                  Some er \<Rightarrow> rfail er
                | None \<Rightarrow> (\<lambda>s. probe_cache e (sfx (calls s)) s)))"

section \<open>Load\<close>

text \<open>
  \<open>le_emit\<close> is the durable event channel (\<open>None\<close> when the request has none), \<open>le_check\<close> the
  command checker, \<open>le_ctx\<close> the context before each package. \<open>le_protect\<close>, \<open>le_make\<close>,
  \<open>le_abs\<close>, \<open>le_real\<close>, \<open>le_shared\<close>, \<open>le_open\<close> answer for the preparation of the cache directory
  outside the opened cache; \<open>le_listing\<close> is \<open>ReadDir\<close> of the cache.
\<close>

record load_env =
  le_emit :: "(string \<Rightarrow> json \<Rightarrow> go_error option) option"
  le_check :: "(string list \<Rightarrow> go_error option) option"
  le_ctx :: "nat \<Rightarrow> go_error option"
  le_getwd :: "string result"
  le_protect :: "string \<Rightarrow> go_error option"
  le_make :: "string \<Rightarrow> go_error option"
  le_abs :: "string \<Rightarrow> string result"
  le_real :: "string \<Rightarrow> bool"
  le_shared :: "string \<Rightarrow> int \<Rightarrow> go_error option"
  le_open :: "string \<Rightarrow> go_error option"
  le_listing :: "rcall list \<Rightarrow> (string \<times> bool) list result"
  le_fs :: renv
  le_sfx :: "rcall list \<Rightarrow> string"

record load_request =
  lr_snapshot :: "json option"
  lr_agent :: string
  lr_trusted :: bool
  lr_cache_dir :: string
  lr_group :: int

record load_outcome =
  lo_result :: "(string \<times> package list) result"
  lo_events :: "(string \<times> json) list"
  lo_state :: rstate

definition receipt_json :: "version list \<Rightarrow> json" where
  "receipt_json vs =
     JArr (map (\<lambda>v. JObj [(''binding_id'', JStr (v_binding v)), (''digest'', JStr (v_digest v)), (''version_id'', JStr (v_id v))]) vs)"

definition failed_event :: "version list \<Rightarrow> string \<Rightarrow> string \<times> json" where
  "failed_event vs code =
     (''run.skill_packages.failed'', JObj [(''bindings'', receipt_json vs), (''error_code'', JStr code)])"

definition loaded_event :: "version list \<Rightarrow> string \<times> json" where
  "loaded_event vs = (''run.skill_packages.loaded'', JObj [(''bindings'', receipt_json vs)])"

definition load_fail ::
  "(string \<Rightarrow> json \<Rightarrow> go_error option) \<Rightarrow> version list \<Rightarrow> go_error \<Rightarrow> string \<Rightarrow> rstate \<Rightarrow> load_outcome" where
  "load_fail emit vs cause code s =
     (let ev = failed_event vs code
      in \<lparr>lo_result = Inl (case emit (fst ev) (snd ev) of Some er \<Rightarrow> er | None \<Rightarrow> cause), lo_events = [ev], lo_state = s\<rparr>)"

fun add_commands :: "string list \<Rightarrow> string list \<Rightarrow> string list option" where
  "add_commands acc [] = Some acc"
| "add_commands acc (c # cs) =
     (if \<not> command_match c then None else add_commands (if c \<in> set acc then acc else acc @ [c]) cs)"

definition check_required :: "load_env \<Rightarrow> contents list \<Rightarrow> (go_error \<times> string) option" where
  "check_required env bundles =
     (case add_commands [] (concat (map c_commands bundles)) of
        None \<Rightarrow> Some (ErrNew ''invalid required command'', ''package_invalid'')
      | Some commands \<Rightarrow>
          if commands = [] then None
          else
            (case le_check env of
               None \<Rightarrow> Some (ErrNew ''Provider command availability checker is unavailable'', ''dependency_missing'')
             | Some check \<Rightarrow> map_option (\<lambda>er. (er, ''dependency_missing'')) (check commands)))"

definition workspace_cache :: "load_env \<Rightarrow> load_request \<Rightarrow> string \<Rightarrow> string result" where
  "workspace_cache env req workspace0 =
     (if lr_cache_dir req \<noteq> [] then Inr (lr_cache_dir req)
      else if lr_group req \<noteq> 0 then Inl (ErrNew ''shared cache requires an explicit directory'')
      else
        (case (if workspace0 = [] then le_getwd env else Inr workspace0) of
           Inl er \<Rightarrow> Inl er
         | Inr workspace \<Rightarrow>
             (case le_protect env workspace of
                Some er \<Rightarrow> Inl er
              | None \<Rightarrow>
                  (case le_make env workspace of
                     Some er \<Rightarrow> Inl er
                   | None \<Rightarrow> Inr (filepath_join [workspace, ''.openlinker-skills''])))))"

definition prepare_cache :: "load_env \<Rightarrow> load_request \<Rightarrow> string \<Rightarrow> string result" where
  "prepare_cache env req workspace =
     (case workspace_cache env req workspace of
        Inl er \<Rightarrow> Inl er
      | Inr d \<Rightarrow>
          (case le_abs env d of
             Inl er \<Rightarrow> Inl er
           | Inr directory \<Rightarrow>
               if \<not> le_real env directory then Inl (ErrNew ''skill package cache must be a real directory'')
               else
                 (case (if lr_group req \<noteq> 0 then le_shared env directory (lr_group req) else None) of
                    Some er \<Rightarrow> Inl er
                  | None \<Rightarrow> (case le_open env directory of Some er \<Rightarrow> Inl er | None \<Rightarrow> Inr directory))))"

text \<open>One package: the pinned location, or for a private cache a recovered copy.\<close>

definition place_package :: "load_env \<Rightarrow> load_request \<Rightarrow> version \<Rightarrow> contents \<Rightarrow> (string \<times> bool) rop" where
  "place_package env req v b =
     (let relative = filepath_join [lr_agent req, v_digest v]
      in rtry (materialize (le_fs env) (le_sfx env) relative (c_files b) (lr_group req \<noteq> 0)) (\<lambda>r.
           case r of
             Inr _ \<Rightarrow> rreturn (relative, False)
           | Inl er \<Rightarrow>
               if lr_group req \<noteq> 0 then rfail er
               else (\<lambda>s. rbind (recoverPrivatePackage (le_fs env) (le_sfx env) (le_listing env (calls s))
                                  (lr_agent req) (v_digest v) (c_files b))
                           (\<lambda>name. rreturn (name, True)) s)))"

text \<open>The packages in order; a context error is returned as it is, any other one is reported.\<close>

fun load_bundles ::
  "load_env \<Rightarrow> load_request \<Rightarrow> string \<Rightarrow> nat \<Rightarrow> (version \<times> contents) list \<Rightarrow> rstate
   \<Rightarrow> ((bool \<times> go_error) + (package list \<times> (string \<times> string) list)) \<times> rstate" where
  "load_bundles env req directory i [] s = (Inr ([], []), s)"
| "load_bundles env req directory i ((v, b) # rest) s =
     (case le_ctx env i of
        Some er \<Rightarrow> (Inl (True, er), s)
      | None \<Rightarrow>
          (case place_package env req v b s of
             (Inl er, s1) \<Rightarrow> (Inl (False, ErrWrap ''could not materialize pinned skill package: '' er []), s1)
           | (Inr (relative, recovered), s1) \<Rightarrow>
               (case load_bundles env req directory (Suc i) rest s1 of
                  (Inl er, s2) \<Rightarrow> (Inl er, s2)
                | (Inr (ps, rec), s2) \<Rightarrow>
                    (Inr (\<lparr>p_name = c_name b, p_instructions = file_of (c_files b) ''SKILL.md'',
                           p_directory = filepath_join [directory, relative], p_files = map fst (c_files b)\<rparr> # ps,
                          (if recovered then obj_put (v_package v) relative rec else rec)), s2))))"

definition version_le :: "version \<Rightarrow> version \<Rightarrow> bool" where
  "version_le a b = str_le (v_package a) (v_package b)"

fun insert_version :: "version \<Rightarrow> version list \<Rightarrow> version list" where
  "insert_version v [] = [v]"
| "insert_version v (w # ws) = (if version_le v w then v # w # ws else w # insert_version v ws)"

definition versions_text :: "version list \<Rightarrow> string" where
  "versions_text vs = json_marshal (JArr (map version_json (foldr insert_version vs [])))"

definition packages_digest :: "version list \<Rightarrow> (string \<times> string) list \<Rightarrow> string" where
  "packages_digest vs rec =
     hex_encode (sha256 (versions_text vs
       @ (if rec = [] then [] else json_marshal (JObj (map (\<lambda>(k, d). (k, JStr d)) rec)))))"

definition load_trusted ::
  "load_env \<Rightarrow> load_request \<Rightarrow> (string \<Rightarrow> json \<Rightarrow> go_error option) \<Rightarrow> string \<Rightarrow> version list \<Rightarrow> contents list \<Rightarrow> rstate \<Rightarrow> load_outcome" where
  "load_trusted env req emit workspace vs bundles s =
     (case check_required env bundles of
        Some (er, code) \<Rightarrow> load_fail emit vs er code s
      | None \<Rightarrow>
          (case prepare_cache env req workspace of
             Inl er \<Rightarrow> load_fail emit vs er ''package_materialization_failed'' s
           | Inr directory \<Rightarrow>
               (case (if lr_cache_dir req = [] then writeCacheIgnore (le_fs env) (le_sfx env) s else (Inr (), s)) of
                  (Inl er, s1) \<Rightarrow> load_fail emit vs er ''package_materialization_failed'' s1
                | (Inr _, s1) \<Rightarrow>
                    (case load_bundles env req directory 0 (zip vs bundles) s1 of
                       (Inl (True, er), s2) \<Rightarrow> \<lparr>lo_result = Inl er, lo_events = [], lo_state = s2\<rparr>
                     | (Inl (False, er), s2) \<Rightarrow> load_fail emit vs er ''package_materialization_failed'' s2
                     | (Inr (ps, rec), s2) \<Rightarrow>
                         (let ev = loaded_event vs
                          in \<lparr>lo_result = (case emit (fst ev) (snd ev) of
                                            Some er \<Rightarrow> Inl er
                                          | None \<Rightarrow> Inr (packages_digest vs rec, ps)),
                              lo_events = [ev], lo_state = s2\<rparr>)))))"

definition Load :: "load_env \<Rightarrow> load_request \<Rightarrow> string \<Rightarrow> string \<Rightarrow> rstate \<Rightarrow> load_outcome" where
  "Load env req provider workspace s =
     (let quiet = (\<lambda>r. \<lparr>lo_result = r, lo_events = [], lo_state = s\<rparr>)
      in case lr_snapshot req of
           None \<Rightarrow> quiet (Inr ([], []))
         | Some value \<Rightarrow>
             (case Decode value provider of
                Inl er \<Rightarrow> quiet (Inl er)
              | Inr (sn, bundles) \<Rightarrow>
                  if bundles = [] then quiet (Inr ([], []))
                  else if \<not> lr_trusted req \<or> \<not> uuid_match (lr_agent req)
                  then quiet (Inl (ErrNew ''skill package execution requires trusted Runtime authority''))
                  else
                    (case le_emit env of
                       None \<Rightarrow> quiet (Inl (ErrNew ''skill package loading requires a durable event channel''))
                     | Some emit \<Rightarrow> load_trusted env req emit workspace (sn_bundles sn) bundles s)))"

section \<open>The policy on commands\<close>

text \<open>\<open>commandVisible\<close>, over the answers of \<open>EvalSymlinks\<close>.\<close>

definition under_root :: "string \<Rightarrow> string \<Rightarrow> bool" where
  "under_root root path = (path = root \<or> has_prefix path (root @ ''/''))"

definition commandVisible :: "(string \<Rightarrow> string option) \<Rightarrow> string list \<Rightarrow> string \<Rightarrow> bool" where
  "commandVisible eval roots name =
     (case (eval name, eval (filepath_dir name)) of
        (Some target, Some parent) \<Rightarrow>
          list_ex (\<lambda>root. target = root \<and> filepath_join [parent, filepath_base name] = target) roots
          \<or> list_ex (\<lambda>root. under_root root target) roots \<and> list_ex (\<lambda>root. under_root root parent) roots
      | _ \<Rightarrow> False)"

section \<open>Frames\<close>

lemma preserves_try_recovered [frame]: "preserves Q (try_recovered e sfx pre files entries)"
proof (induction e sfx pre files entries rule: try_recovered.induct)
  case (2 e sfx pre files name isdir entries)
  have "preserves Q (case r of Inr _ \<Rightarrow> rreturn (Some name) | Inl _ \<Rightarrow> try_recovered e sfx pre files entries)"
    if "\<not> (\<not> isdir \<or> \<not> has_prefix name pre \<or> length name \<noteq> length pre + 32)" for r :: "unit result"
    using "2.IH"(2) [OF that] by (cases r) (simp_all add: preserves_return)
  then show ?case
    unfolding try_recovered.simps by (intro preserves_if preserves_try preserves_materialize(2) "2.IH"(1))
qed (simp add: preserves_return)

lemma preserves_recover [frame]: "preserves Q (recoverPrivatePackage e sfx listing agentID digest files)"
proof -
  have fresh: "preserves Q (\<lambda>s. fresh_recovery e sfx (pre @ sfx (calls s)) files s)" for pre
    unfolding fresh_recovery_def by (rule preserves_state) (intro frame)
  show ?thesis
    unfolding recoverPrivatePackage_def Let_def [of "recovery_prefix agentID digest"]
    by (split sum.split, intro conjI allI impI frame, split option.split) (intro conjI allI impI frame fresh)
qed

lemma preserves_unless_missing [frame]: "preserves Q m \<Longrightarrow> preserves Q (unless_missing m)"
  unfolding unless_missing_def by (intro frame) (auto split: sum.splits intro!: frame)

lemma preserves_link_ignore [frame]: "preserves Q (link_ignore e q)"
  unfolding link_ignore_def by (intro frame) (auto split: sum.splits intro!: frame)

lemma preserves_replace_ignore [frame]: "gitignore \<in> Q \<Longrightarrow> preserves Q (replace_ignore e q)"
  unfolding replace_ignore_def
  by (intro frame, split sum.split, intro conjI allI impI frame, split rnode.split) (intro conjI allI impI frame)

lemma preserves_write_ignore [frame]: "gitignore \<in> Q \<Longrightarrow> q \<in> Q \<Longrightarrow> preserves Q (write_ignore e q)"
  unfolding write_ignore_def
  by (intro frame, assumption, split option.split) (intro conjI allI impI frame)

lemma preserves_install_ignore: "preserves {gitignore} (install_ignore e q)"
  unfolding install_ignore_def
  by (rule preserves_fresh, rule preserves_try, rule preserves_write_ignore, simp, simp, rule preserves_try,
      rule preserves_remove, simp, split sum.split) (intro conjI allI impI frame)

lemma preserves_cache_ignore: "preserves {gitignore} (writeCacheIgnore e sfx)"
  unfolding writeCacheIgnore_def
  by (rule preserves_try, rule preserves_read, rule preserves_if, rule preserves_return, rule preserves_state)
    (rule preserves_install_ignore)

lemma preserves_place_package: "preserves Q (place_package env req v b)"
proof -
  have rec: "preserves Q (\<lambda>s. rbind (recoverPrivatePackage (le_fs env) (le_sfx env) (le_listing env (calls s))
                                  (lr_agent req) (v_digest v) (c_files b)) (\<lambda>name. rreturn (name, True)) s)"
    by (rule preserves_state) (intro frame)
  show ?thesis
    unfolding place_package_def Let_def
    by (intro frame, split sum.split) (intro conjI allI impI frame rec)
qed

lemma load_bundles_kept:
  "load_bundles env req directory i vbs s = (r, s') \<Longrightarrow> node_kept (tree s p) (tree s' p)"
proof (induction env req directory i vbs s arbitrary: r s' rule: load_bundles.induct)
  case (2 env req directory i v b rest s)
  obtain x s1 where x: "place_package env req v b s = (x, s1)" by fastforce
  have k1: "node_kept (tree s p) (tree s1 p)" by (rule preservesD [OF preserves_place_package [of "{}"] x]) simp
  show ?case
  proof (cases "le_ctx env i")
    case None
    show ?thesis
    proof (cases x)
      case (Inl er)
      then show ?thesis using "2.prems" None x k1 by simp
    next
      case (Inr y)
      obtain rel rec where y: "y = (rel, rec)" by fastforce
      obtain r2 s2 where r2: "load_bundles env req directory (Suc i) rest s1 = (r2, s2)" by fastforce
      have "node_kept (tree s1 p) (tree s2 p)" using "2.IH" [OF None] x Inr y r2 by fastforce
      moreover have "s' = s2" using "2.prems" None x Inr y r2 by (auto split: sum.splits prod.splits)
      ultimately show ?thesis using k1 node_kept_trans by blast
    qed
  qed (use "2.prems" in simp)
qed simp

section \<open>The repository only gains a rule\<close>

definition node_grows :: "rnode option \<Rightarrow> rnode option \<Rightarrow> bool" where
  "node_grows old new = (node_kept old new \<or> (\<exists>m b d. old = Some (RFile m b) \<and> new = Some (RFile m (b @ d))))"

definition grows :: "rpath \<Rightarrow> 'a rop \<Rightarrow> bool" where
  "grows q m = (\<forall>s p. let t = tree s; t' = tree (snd (m s))
                      in (p \<noteq> q \<longrightarrow> node_kept (t p) (t' p)) \<and> node_grows (t q) (t' q))"

lemma node_grows_trans: "node_grows a b \<Longrightarrow> node_grows b c \<Longrightarrow> node_grows a c"
  by (auto simp: node_grows_def node_kept_file dest: node_kept_trans)
    (auto simp: node_kept_def split: option.splits rnode.splits)

lemma grows_preserves: "preserves {} m \<Longrightarrow> grows q m"
  by (simp add: grows_def preserves_def node_grows_def Let_def)

lemma growsD: "grows q m \<Longrightarrow> m s = (r, s') \<Longrightarrow> (p \<noteq> q \<longrightarrow> node_kept (tree s p) (tree s' p)) \<and> node_grows (tree s q) (tree s' q)"
  unfolding grows_def Let_def by (metis snd_conv)

lemma grows_try:
  assumes "grows q m" and "\<And>r. grows q (f r)"
  shows "grows q (rtry m f)"
  unfolding grows_def Let_def
proof (intro allI)
  fix s p
  obtain r s1 where m: "m s = (r, s1)" by fastforce
  obtain x s2 where f: "f r s1 = (x, s2)" by fastforce
  show "(p \<noteq> q \<longrightarrow> node_kept (tree s p) (tree (snd (rtry m f s)) p)) \<and> node_grows (tree s q) (tree (snd (rtry m f s)) q)"
    using growsD [OF assms(1) m, of p] growsD [OF assms(2) f, of p] m f
    by (auto simp: rtry_def intro: node_kept_trans node_grows_trans)
qed

lemma rbind_try: "rbind m f = rtry m (\<lambda>r. case r of Inl er \<Rightarrow> rfail er | Inr x \<Rightarrow> f x)"
  by (auto simp: fun_eq_iff rbind_def rtry_def rfail_def split: prod.splits sum.splits)

lemma grows_bind: "grows q m \<Longrightarrow> (\<And>x. grows q (f x)) \<Longrightarrow> grows q (rbind m f)"
  unfolding rbind_try by (rule grows_try) (auto intro: grows_preserves preserves_fail split: sum.splits)

lemma grows_write: "grows q (file_write e q d)"
  by (auto simp: grows_def file_write_def Let_def node_grows_def split: option.splits rnode.splits)

lemma preserves_open_append [frame]: "preserves Q (root_open_append e p mode)"
  unfolding root_open_append_def
  by (rule preserves_sys) (auto simp: preserves_def new_node_def put_node_def split: option.splits rnode.splits)

lemma preserves_mkdir_all [frame]: "preserves Q (root_mkdir_all e mode made cs)"
proof (induction cs arbitrary: made)
  case (Cons c cs)
  show ?case unfolding root_mkdir_all.simps by (rule preserves_state) (intro preserves_if preserves_bind preserves_mkdir Cons)
qed (simp add: preserves_return)

lemma grows_add_rule: "grows q (add_rule e q previous)"
proof -
  have fin: "grows q (case x of Some er \<Rightarrow> rfail er | None \<Rightarrow> rreturn ())" for x :: "go_error option"
    by (rule grows_preserves, split option.split) (intro conjI allI impI frame)
  show ?thesis unfolding add_rule_def
    using grows_preserves [OF preserves_return] fin
    by (auto intro!: grows_bind grows_try grows_write grows_preserves [OF preserves_open_append] grows_preserves [OF preserves_close])
qed

lemma grows_ensure_rule: "grows q (ensure_rule e q)"
proof -
  have prior: "grows q (rule_from e q)" unfolding rule_from_def
    by (rule grows_try, rule grows_preserves, rule preserves_read, split sum.split)
      (auto intro: grows_add_rule grows_preserves [OF preserves_fail])
  then show ?thesis unfolding ensure_rule_def
    by (intro grows_try grows_preserves [OF preserves_lstat], split sum.split)
      (auto intro: prior grows_preserves [OF preserves_fail] split: rnode.splits)
qed

text \<open>The part of \<open>protectSkillPackageCache\<close> after the repository was found, at an absolute workspace.\<close>

lemma exclude_cache_grows:
  assumes "is_abs workspace"
  shows "\<exists>q. list_all plain_comp q \<and> grows q (exclude_cache e pe workspace gitdir)"
proof (cases "git pe workspace gitdir [''rev-parse'', ''--git-path'', ''info/exclude'']")
  case (Inr excluded)
  define full where "full = (if is_abs (trim_space excluded) then trim_space excluded else filepath_join [workspace, trim_space excluded])"
  obtain rel inside where w: "workspaceRelative workspace full = (rel, inside)" by fastforce
  have ends: "grows q (rreturn ())" "grows q (rfail er :: unit rop)" for q er
    by (rule grows_preserves, intro frame)+
  show ?thesis
  proof (cases inside)
    case True
    then have "filepath_rel workspace full = Some rel" "rel \<noteq> ''.''" "rel \<noteq> ''..''" "\<not> has_prefix rel ''../''"
      using w by (auto simp: workspaceRelative_def split: option.splits)
    then have "list_all plain_comp (path_comps rel)" using filepath_rel_below [OF assms] by blast
    moreover have "grows (path_comps rel) (exclude_cache e pe workspace gitdir)"
      unfolding exclude_cache_def
      by (auto simp: Inr full_def [symmetric] w Let_def split: sum.splits
          intro!: ends grows_bind grows_ensure_rule grows_preserves [OF preserves_mkdir_all])
    ultimately show ?thesis by blast
  next
    case False
    then have "grows [] (exclude_cache e pe workspace gitdir)"
      unfolding exclude_cache_def by (auto simp: Inr full_def [symmetric] w Let_def intro: ends)
    then show ?thesis by (intro exI [of _ "[]"]) simp
  qed
qed (auto simp: exclude_cache_def intro!: exI [of _ "[]"] grows_preserves [OF preserves_fail])

section \<open>What is loaded is in place\<close>

lemma try_recovered_Inr:
  "try_recovered e sfx pre files entries s = (Inr (Some rel), s') \<Longrightarrow> (n, c) \<in> set files \<Longrightarrow>
   has_file (tree s') (path_comps (filepath_join [rel, n])) c"
proof (induction e sfx pre files entries arbitrary: s rule: try_recovered.induct)
  case (2 e sfx pre files name isdir entries)
  show ?case
  proof (cases "\<not> isdir \<or> \<not> has_prefix name pre \<or> length name \<noteq> length pre + 32")
    case True
    then show ?thesis using "2.IH"(1) "2.prems" by simp
  next
    case False
    obtain r s1 where r: "materialize e sfx name files False s = (r, s1)" by fastforce
    show ?thesis
      using "2.prems" False r "2.IH"(2) [OF False] materialize_Inr
      by (cases r) (auto simp: rtry_def rreturn_def)
  qed
qed (simp add: rreturn_def)

lemma recover_Inr:
  assumes run: "recoverPrivatePackage e sfx listing agentID digest files s = (Inr rel, s')" and n: "(n, c) \<in> set files"
  shows "has_file (tree s') (path_comps (filepath_join [rel, n])) c"
proof -
  let ?pre = "recovery_prefix agentID digest"
  obtain entries found s1 where t: "try_recovered e sfx ?pre files (take 1024 entries) s = (Inr found, s1)"
    and rest: "(case found of
                 Some name \<Rightarrow> rreturn name
               | None \<Rightarrow>
                   (\<lambda>s. fresh_recovery e sfx (?pre @ sfx (calls s)) files s)) s1 = (Inr rel, s')"
    using run by (auto simp: recoverPrivatePackage_def Let_def rbind_Inr rfail_def split: sum.splits)
  show ?thesis
  proof (cases found)
    case None
    then show ?thesis using rest materialize_Inr n by (auto simp: fresh_recovery_def rbind_Inr rreturn_def)
  next
    case (Some name)
    then show ?thesis using rest t try_recovered_Inr n by (auto simp: rreturn_def)
  qed
qed

lemma place_package_Inr:
  assumes run: "place_package env req v b s = (Inr (rel, rec), s')" and n: "(n, c) \<in> set (c_files b)"
  shows "has_file (tree s') (path_comps (filepath_join [rel, n])) c"
proof -
  let ?rel = "filepath_join [lr_agent req, v_digest v]"
  obtain r s1 where m: "materialize (le_fs env) (le_sfx env) ?rel (c_files b) (lr_group req \<noteq> 0) s = (r, s1)" by fastforce
  show ?thesis
  proof (cases r)
    case (Inl er)
    then show ?thesis using run m recover_Inr [OF _ n]
      by (auto simp: place_package_def Let_def rtry_def rfail_def rbind_Inr rreturn_def split: if_splits)
  next
    case (Inr u)
    then show ?thesis using run m materialize_Inr [OF _ n] by (auto simp: place_package_def Let_def rtry_def rreturn_def)
  qed
qed

definition placed :: "rtree \<Rightarrow> string \<Rightarrow> contents \<Rightarrow> package \<Rightarrow> bool" where
  "placed t directory b p =
     (\<exists>rel. p_directory p = filepath_join [directory, rel] \<and> p_name p = c_name b
        \<and> p_instructions p = file_of (c_files b) ''SKILL.md'' \<and> p_files p = map fst (c_files b)
        \<and> (\<forall>(n, c) \<in> set (c_files b). has_file t (path_comps (filepath_join [rel, n])) c))"

lemma load_bundles_Inr:
  "load_bundles env req directory i vbs s = (Inr (ps, rec), s') \<Longrightarrow>
   list_all2 (\<lambda>(v, b) p. placed (tree s') directory b p) vbs ps"
proof (induction env req directory i vbs s arbitrary: ps rec s' rule: load_bundles.induct)
  case (2 env req directory i v b rest s)
  have ctx: "le_ctx env i = None" using "2.prems" by (cases "le_ctx env i") auto
  obtain rel r1 s1 where p: "place_package env req v b s = (Inr (rel, r1), s1)"
    using "2.prems" ctx by (auto split: prod.splits sum.splits)
  obtain ps1 rec1 where l: "load_bundles env req directory (Suc i) rest s1 = (Inr (ps1, rec1), s')"
    using "2.prems" ctx p by (auto split: prod.splits sum.splits)
  let ?p = "\<lparr>p_name = c_name b, p_instructions = file_of (c_files b) ''SKILL.md'',
             p_directory = filepath_join [directory, rel], p_files = map fst (c_files b)\<rparr>"
  have ps: "ps = ?p # ps1" using "2.prems" ctx p l by simp
  have "has_file (tree s') (path_comps (filepath_join [rel, n])) c" if "(n, c) \<in> set (c_files b)" for n c
    using place_package_Inr [OF p that] load_bundles_kept [OF l] has_file_kept by blast
  then have "placed (tree s') directory b ?p" by (auto simp: placed_def)
  then show ?case using ps "2.IH" [OF ctx p [symmetric] refl refl l] by simp
qed simp

lemma protect_cases:
  assumes run: "protectSkillPackageCache e pe workspace s = (r, s')"
  shows "tree s' = tree s \<or> (\<exists>w g s1. pe_resolve pe workspace = Inr w \<and> tree s1 = tree s
           \<and> protect_repository e pe w g s1 = (r, s'))"
proof -
  consider er where "pe_resolve pe workspace = Inl er" | w er where "pe_resolve pe workspace = Inr w" "pe_open pe = Some er"
    | w where "pe_resolve pe workspace = Inr w" "pe_open pe = None" by (cases "pe_resolve pe workspace"; cases "pe_open pe") auto
  then show ?thesis
  proof cases
    case 3
    obtain i s1 where i: "root_lstat e [''.git''] s = (i, s1)" by fastforce
    obtain raw s2 where d: "root_read e [''.git''] s1 = (raw, s2)" by fastforce
    have t: "tree s1 = tree s" "tree s2 = tree s" using lstat_tree [OF i] read_tree [OF d] by simp_all
    show ?thesis
    proof (cases i)
      case (Inl er)
      then show ?thesis using run i t 3 by (auto simp: protectSkillPackageCache_def rtry_def rreturn_def rfail_def split: if_splits)
    next
      case (Inr n)
      then show ?thesis
        using run i d t 3
        by (cases n; cases raw)
          (auto simp: protectSkillPackageCache_def rtry_def rreturn_def rbind_def split: if_splits option.splits)
    qed
  qed (use run in \<open>auto simp: protectSkillPackageCache_def rfail_def\<close>)
qed

lemma protect_repository_grows:
  assumes p: "protect_repository e pe w g s = (r, s')" and "is_abs w"
  shows "tree s' = tree s \<or> (\<exists>q. list_all plain_comp q \<and> (\<forall>p. p \<noteq> q \<longrightarrow> node_kept (tree s p) (tree s' p))
           \<and> node_grows (tree s q) (tree s' q))"
proof (cases "\<exists>x. pe_eval pe g = Inr x \<and> snd (workspaceRelative w x)")
  case True
  then obtain x where x: "exclude_cache e pe w x s = (r, s')" using p by (auto simp: protect_repository_def)
  obtain q where "list_all plain_comp q" "grows q (exclude_cache e pe w x)" using exclude_cache_grows [OF assms(2)] by blast
  then show ?thesis using growsD x by blast
qed (use p in \<open>auto simp: protect_repository_def rreturn_def split: sum.splits if_splits\<close>)

lemma load_fail_simps [simp]:
  "lo_state (load_fail emit vs er code s) = s" "lo_events (load_fail emit vs er code s) = [failed_event vs code]"
  "lo_result (load_fail emit vs er code s) \<noteq> Inr x"
  by (auto simp: load_fail_def Let_def)

lemma load_trusted_kept:
  assumes "p \<noteq> gitignore"
  shows "node_kept (tree s p) (tree (lo_state (load_trusted env req emit ws vs bs s)) p)"
proof -
  obtain r1 s1 where i: "(if lr_cache_dir req = [] then writeCacheIgnore (le_fs env) (le_sfx env) s else (Inr (), s)) = (r1, s1)"
    by fastforce
  have k1: "node_kept (tree s p) (tree s1 p)"
    using i preservesD [OF preserves_cache_ignore, of "le_fs env" "le_sfx env" s r1 s1 p] assms by (auto split: if_splits)
  have k2: "node_kept (tree s p) (tree s2 p)" if "load_bundles env req d 0 (zip vs bs) s1 = (r2, s2)" for d r2 s2
    using load_bundles_kept [OF that, of p] k1 node_kept_trans by blast
  show ?thesis
    unfolding load_trusted_def i using k1 k2
    by (auto simp: Let_def split: option.splits sum.splits prod.splits bool.splits)
qed

lemma load_trusted_Inr:
  assumes ok: "lo_result (load_trusted env req emit ws vs bs s) = Inr (digest, ps)" and len: "length vs = length bs"
  shows "lo_events (load_trusted env req emit ws vs bs s) = [loaded_event vs]
     \<and> (\<exists>directory. list_all2 (placed (tree (lo_state (load_trusted env req emit ws vs bs s))) directory) bs ps)"
proof -
  let ?out = "load_trusted env req emit ws vs bs s"
  obtain d s1 rec s2 where l: "load_bundles env req d 0 (zip vs bs) s1 = (Inr (ps, rec), s2)"
    and out: "lo_events ?out = [loaded_event vs]" "lo_state ?out = s2"
    using ok by (auto simp: load_trusted_def Let_def split: option.splits sum.splits prod.splits bool.splits)
  have "list_all2 (\<lambda>(v, b) p. placed (tree s2) d b p) (zip vs bs) ps" by (rule load_bundles_Inr [OF l])
  then have "list_all2 (placed (tree s2) d) bs ps"
    using len by (auto simp: list_all2_conv_all_nth)
  then show ?thesis using out by auto
qed

lemma load_trusted_events: "length (lo_events (load_trusted env req emit ws vs bs s)) \<le> 1"
  by (auto simp: load_trusted_def Let_def split: option.splits sum.splits prod.splits bool.splits)

lemma Decode_lengths: "Decode value provider = Inr (sn, bs) \<Longrightarrow> length (sn_bundles sn) = length bs"
  by (auto simp: Decode_def Let_def split: if_splits option.splits sum.splits dest!: decode_bundles_sound)

section \<open>Properties\<close>

text \<open>
  Protecting the cache of a workspace changes nothing of the user's repository but one file
  below the workspace, the one Git names as its exclude file, and that file only grows: whatever
  fails, every other file is unchanged.
\<close>

theorem protect_only_appends:
  assumes run: "protectSkillPackageCache e pe workspace s = (r, s')"
    and abs: "\<forall>w. pe_resolve pe workspace = Inr w \<longrightarrow> is_abs w"
  shows "\<exists>q. list_all plain_comp q \<and> (\<forall>p. p \<noteq> q \<longrightarrow> node_kept (tree s p) (tree s' p))
     \<and> (node_kept (tree s q) (tree s' q)
        \<or> (\<exists>m b d. tree s q = Some (RFile m b) \<and> tree s' q = Some (RFile m (b @ d))))"
proof -
  have quiet: ?thesis if "tree s' = tree s" using that by (intro exI [of _ "[]"]) simp
  show ?thesis using protect_cases [OF run]
  proof (elim disjE exE conjE)
    fix w g s1 assume w: "pe_resolve pe workspace = Inr w" "tree s1 = tree s" "protect_repository e pe w g s1 = (r, s')"
    then show ?thesis using protect_repository_grows [OF w(3)] abs quiet by (auto simp: node_grows_def)
  qed (rule quiet)
qed

definition demo_protect :: protect_env where
  "demo_protect = \<lparr>pe_resolve = Inr, pe_open = None, pe_eval = Inr, pe_environ = [''PATH=/bin'', ''git_dir=/x''],
     pe_git = (\<lambda>_ args. Inr (if ''rev-parse'' \<in> set args then ''.git/info/exclude'' else []))\<rparr>"

definition demo_workspace :: rstate where
  "demo_workspace = \<lparr>tree = [[''.git''] \<mapsto> RDir 448, [''.git'', ''info''] \<mapsto> RDir 448,
                            [''.git'', ''info'', ''exclude''] \<mapsto> RFile 420 ''*.o''], calls = []\<rparr>"

theorem protect_only_appends_witness:
  "let s' = snd (protectSkillPackageCache demo_renv demo_protect ''/w'' demo_workspace)
   in fst (protectSkillPackageCache demo_renv demo_protect ''/w'' demo_workspace) = Inr ()
      \<and> (\<exists>q. list_all plain_comp q \<and> (\<forall>p. p \<noteq> q \<longrightarrow> node_kept (tree demo_workspace p) (tree s' p)))
      \<and> (\<exists>d. tree s' [''.git'', ''info'', ''exclude''] = Some (RFile 420 (''*.o'' @ d)) \<and> d \<noteq> [])"
proof -
  let ?run = "protectSkillPackageCache demo_renv demo_protect ''/w'' demo_workspace"
  have abs: "\<forall>w. pe_resolve demo_protect ''/w'' = Inr w \<longrightarrow> is_abs w" by (simp add: demo_protect_def is_abs_def slash_def)
  have ok: "fst ?run = Inr ()" by code_simp
  have entry: "tree (snd ?run) [''.git'', ''info'', ''exclude''] =
    Some (RFile 420 (''*.o'' @ newline # ''# OpenLinker generated skill package cache'' @ newline # ignore_rule @ [newline]))"
    by code_simp
  have "protectSkillPackageCache demo_renv demo_protect ''/w'' demo_workspace = (fst ?run, snd ?run)" by simp
  from protect_only_appends [OF this abs] show ?thesis using ok entry by (auto simp: Let_def)
qed

text \<open>
  C13: Packages are loaded only for a Run with trusted authority and a valid Agent, with exactly one
  durable event that names what was loaded, and then every file of every package is in the cache
  with its pinned content below the directory the Run is told, with the instructions taken from
  the verified SKILL.md; in every other case at most one event is emitted and nothing is returned;
  and whatever happens, no file of the cache other than its ignore marker is changed.
\<close>

theorem load_verified:
  assumes out: "out = Load env req provider workspace s"
  shows "(\<forall>p. p \<noteq> gitignore \<longrightarrow> node_kept (tree s p) (tree (lo_state out) p))
    \<and> length (lo_events out) \<le> 1
    \<and> (\<forall>digest ps. lo_result out = Inr (digest, ps) \<and> ps \<noteq> [] \<longrightarrow>
         lr_trusted req \<and> uuid_match (lr_agent req)
         \<and> (\<exists>value sn bs directory. lr_snapshot req = Some value \<and> Decode value provider = Inr (sn, bs)
              \<and> lo_events out = [loaded_event (sn_bundles sn)]
              \<and> list_all2 (placed (tree (lo_state out)) directory) bs ps))"
proof (cases "lo_state out = s \<and> lo_events out = [] \<and> (\<forall>x. lo_result out = Inr x \<longrightarrow> snd x = [])")
  case True
  then show ?thesis by auto
next
  case False
  then obtain v sn bs emit where c: "lr_snapshot req = Some v" "Decode v provider = Inr (sn, bs)"
      "lr_trusted req" "uuid_match (lr_agent req)"
    and l: "out = load_trusted env req emit workspace (sn_bundles sn) bs s"
    using out by (auto simp: Load_def Let_def split: option.splits sum.splits if_splits)
  note len = Decode_lengths [OF c(2)]
  have "lo_result out = Inr (digest, ps) \<Longrightarrow> lo_events out = [loaded_event (sn_bundles sn)]
     \<and> (\<exists>directory. list_all2 (placed (tree (lo_state out)) directory) bs ps)" for digest ps
    unfolding l by (rule load_trusted_Inr [OF _ len])
  then show ?thesis using c l load_trusted_kept load_trusted_events by auto
qed

text \<open>A cache that already holds the demonstration package.\<close>

definition demo_cache :: rstate where
  "demo_cache = \<lparr>tree = (\<lambda>p. if p = gitignore then Some (RFile 384 ignore_contents)
                            else if p = [] then None
                            else if List.last p = ''SKILL.md'' then Some (RFile 256 ''Do it.'')
                            else if length p \<le> 2 then Some (RDir 448) else None), calls = []\<rparr>"

definition demo_load_env :: load_env where
  "demo_load_env = \<lparr>le_emit = Some (\<lambda>_ _. None), le_check = None, le_ctx = (\<lambda>_. None), le_getwd = Inr ''/w'',
     le_protect = (\<lambda>_. None), le_make = (\<lambda>_. None), le_abs = Inr, le_real = (\<lambda>_. True), le_shared = (\<lambda>_ _. None),
     le_open = (\<lambda>_. None), le_listing = (\<lambda>_. Inr []), le_fs = demo_renv, le_sfx = (\<lambda>_. ''00'')\<rparr>"

definition demo_load_request :: load_request where
  "demo_load_request = \<lparr>lr_snapshot = Some demo_packages, lr_agent = demo_bundle_id, lr_trusted = True,
     lr_cache_dir = [], lr_group = 0\<rparr>"

lemma demo_dirs:
  assumes "plain_path (xs @ ys)" and "\<And>k. k < length ys \<Longrightarrow> tree s (xs @ take (Suc k) ys) = Some (RDir 448)"
  shows "\<exists>cs. package_dirs demo_renv 448 (str_join [slash] xs) ys s = (Inr (), s\<lparr>calls := cs\<rparr>)"
  using assms
proof (induction ys arbitrary: xs s)
  case Nil
  then show ?case by (auto simp: rreturn_def intro!: exI [of _ "calls s"])
next
  case (Cons c ys)
  have pp: "plain_path (xs @ [c])" and c: "plain_comp c" using Cons.prems(1) by (auto simp: plain_path_def)
  have j: "filepath_join [str_join [slash] xs, c] = str_join [slash] (xs @ [c])"
  proof (cases "xs = []")
    case True
    then show ?thesis using c plain_path_text [of "[c]"] by (simp add: filepath_join_def plain_path_def plain_comp_def)
  next
    case False
    then have "plain_path xs" using Cons.prems(1) by (simp add: plain_path_def)
    then show ?thesis using plain_path_join(1) c by simp
  qed
  have here: "tree s (xs @ [c]) = Some (RDir 448)" using Cons.prems(2) [of 0] by simp
  have upd: "(tree s)(xs @ [c] \<mapsto> RDir 448) = tree s" using here by auto
  define s1 where "s1 = s\<lparr>calls := calls s @ [CMkdir (xs @ [c]), CLstat (xs @ [c]), CChmod (xs @ [c])]\<rparr>"
  have "plain_path ((xs @ [c]) @ ys)" using Cons.prems(1) by simp
  moreover have "tree s1 ((xs @ [c]) @ take (Suc k) ys) = Some (RDir 448)" if "k < length ys" for k
    using Cons.prems(2) [of "Suc k"] that by (simp add: s1_def)
  ultimately obtain cs where ih: "package_dirs demo_renv 448 (str_join [slash] (xs @ [c])) ys s1 = (Inr (), s1\<lparr>calls := cs\<rparr>)"
    using Cons.IH by blast
  have "package_dirs demo_renv 448 (str_join [slash] xs) (c # ys) s = package_dirs demo_renv 448 (str_join [slash] (xs @ [c])) ys s1"
    using here plain_path_text(1) [OF pp]
    by (simp add: j Let_def rtry_def rbind_def real_dir_def root_mkdir_def root_lstat_def root_chmod_def rsys_def demo_renv_def
        new_node_def put_node_def upd s1_def)
  then show ?case using ih by (auto simp: s1_def)
qed

lemma demo_place:
  assumes st: "tree s = tree demo_cache"
  shows "\<exists>rel s'. place_package demo_load_env demo_load_request demo_version demo_contents s = (Inr (rel, False), s')"
proof -
  let ?d = "v_digest demo_version" let ?x = "[demo_bundle_id, ?d]" let ?n = "''SKILL.md''"
  have hex: "list_all is_lower_hex ?d" "length ?d = 64"
    using hex_encode_hex by (simp_all add: demo_version_def list_all_iff)
  have "slash \<notin> set ?d" using hex(1) by (auto simp: list_all_iff is_lower_hex_def is_digit_def slash_def)
  then have d: "plain_comp ?d" using hex(2) by (auto simp: plain_comp_def)
  have b: "plain_comp demo_bundle_id" "plain_comp ?n" by code_simp+
  have px: "plain_path ?x" "plain_path (?x @ [?n])" "plain_path [demo_bundle_id]" using d b by (simp_all add: plain_path_def)
  have rel: "filepath_join [demo_bundle_id, ?d] = str_join [slash] ?x" using plain_path_join(1) [OF px(3) d] by simp
  have tgt: "filepath_join [str_join [slash] ?x, ?n] = str_join [slash] (?x @ [?n])"
    "filepath_dir (str_join [slash] (?x @ [?n])) = str_join [slash] ?x"
    by (rule plain_path_join [OF px(1) b(2)])+
  have ne: "demo_bundle_id \<noteq> ?n" "?d \<noteq> ?n" "demo_bundle_id \<noteq> ''.gitignore''"
    using hex(2) by (auto simp: demo_bundle_id_def)
  have t: "tree s [demo_bundle_id] = Some (RDir 448)" "tree s ?x = Some (RDir 448)" "tree s (?x @ [?n]) = Some (RFile 256 ''Do it.'')"
    if "tree s = tree demo_cache" for s using that ne by (simp_all add: demo_cache_def gitignore_def)
  have dirs: "\<exists>cs. package_dirs demo_renv 448 [] ?x s = (Inr (), s\<lparr>calls := cs\<rparr>)" if "tree s = tree demo_cache" for s
  proof -
    have "tree s ([] @ take (Suc k) ?x) = Some (RDir 448)" if "k < length ?x" for k
      using that t(1,2) [OF \<open>tree s = tree demo_cache\<close>] by (cases k) auto
    then show ?thesis using demo_dirs [of "[]" ?x s] px(1) by (simp del: package_dirs.simps)
  qed
  obtain c1 where c1: "package_dirs demo_renv 448 [] ?x s = (Inr (), s\<lparr>calls := c1\<rparr>)" using dirs [OF st] by blast
  obtain c2 where c2: "package_dirs demo_renv 448 [] ?x (s\<lparr>calls := c1\<rparr>) = (Inr (), s\<lparr>calls := c2\<rparr>)"
    using dirs [of "s\<lparr>calls := c1\<rparr>"] st by auto
  define J where "J = str_join [slash] ?x"
  define T where "T = str_join [slash] (?x @ [?n])"
  have "filepath_join [J, ?n] = T" "filepath_dir T = J" "str_split slash J = ?x" "path_comps T = ?x @ [?n]"
    unfolding J_def T_def by (rule tgt plain_path_text(2) [OF px(1)] plain_path_text(1) [OF px(2)])+
  then have "\<exists>cs. materialize demo_renv (\<lambda>_. ''00'') J [(?n, ''Do it.'')] False s = (Inr (), s\<lparr>calls := cs\<rparr>)"
    using c1 c2 t(3) [OF st]
    by (simp del: package_dirs.simps add: materialize_def packageDirectories_def dir_mode_def rbind_def materialize_file_def
        Let_def rtry_def root_lstat_def rsys_def demo_renv_def existing_matches_def root_read_def rreturn_def) blast
  then show ?thesis
    by (auto simp: place_package_def Let_def demo_load_request_def demo_load_env_def rel J_def [symmetric] demo_contents_def rtry_def rreturn_def
        simp del: str_join.simps)
qed

theorem load_verified_witness:
  "\<exists>out digest ps directory. out = Load demo_load_env demo_load_request ''codex'' ''/w'' demo_cache
     \<and> lo_result out = Inr (digest, ps) \<and> lo_events out = [loaded_event [demo_version]]
     \<and> list_all2 (placed (tree (lo_state out)) directory) [demo_contents] ps"
proof -
  let ?out = "Load demo_load_env demo_load_request ''codex'' ''/w'' demo_cache"
  define s1 where "s1 = demo_cache\<lparr>calls := [CRead gitignore]\<rparr>"
  have ign: "writeCacheIgnore demo_renv (\<lambda>_. ''00'') demo_cache = (Inr (), s1)"
    by (simp add: writeCacheIgnore_def rtry_def root_read_def rsys_def demo_renv_def demo_cache_def s1_def rreturn_def)
  obtain rel s2 where place: "place_package demo_load_env demo_load_request demo_version demo_contents s1 = (Inr (rel, False), s2)"
    using demo_place [of s1] by (auto simp: s1_def)
  have id: "uuid_match demo_bundle_id" by code_simp
  have load: "\<exists>digest p. lo_result ?out = Inr (digest, [p]) \<and> lo_events ?out = [loaded_event [demo_version]]"
    using ign place id
    by (simp add: Load_def Let_def demo_load_request_def demo_Decode demo_load_env_def load_trusted_def check_required_def
        demo_contents_def zero_contents_def prepare_cache_def workspace_cache_def)
  then obtain digest p where ok: "lo_result ?out = Inr (digest, [p])" by blast
  have "\<exists>directory. list_all2 (placed (tree (lo_state ?out)) directory) [demo_contents] [p]"
    using load_verified [of ?out demo_load_env demo_load_request "''codex''" "''/w''" demo_cache] ok demo_Decode
    by (auto simp: demo_load_request_def)
  then show ?thesis using load ok by auto
qed

end
