(* ===== verification/Go_Http.thy ===== *)
theory Go_Http
  imports Go_Json
begin

text \<open>
  The parts of \<open>net/http\<close> and \<open>net\<close> the local servers use: header maps with canonical names,
  requests, what a handler does to its \<open>ResponseWriter\<close>, and IP literals. The locale
  \<open>guarded_server\<close> states what both servers promise: a request that is not authorized reaches
  nothing behind the server.
\<close>

section \<open>Headers\<close>

type_synonym headers = "(string \<times> string list) list"

definition token_byte :: "char \<Rightarrow> bool" where
  "token_byte c = (is_digit c \<or> is_alpha c \<or> c \<in> set (CHR 0x27 # CHR 0x60 # ''!#$%&*+-.^_|~''))"

fun canonical_from :: "bool \<Rightarrow> string \<Rightarrow> string" where
  "canonical_from up [] = []"
| "canonical_from up (c # s) = (if up then upper_char c else lower_char c) # canonical_from (c = CHR ''-'') s"

text \<open>\<open>textproto.CanonicalMIMEHeaderKey\<close>; a name with a byte that is no token byte stays as it is.\<close>

definition canonical_key :: "string \<Rightarrow> string" where
  "canonical_key s = (if list_all token_byte s then canonical_from True s else s)"

definition header_values :: "string \<Rightarrow> headers \<Rightarrow> string list" where
  "header_values name h = (case map_of h (canonical_key name) of None \<Rightarrow> [] | Some vs \<Rightarrow> vs)"

definition header_get :: "string \<Rightarrow> headers \<Rightarrow> string" where
  "header_get name h = (case header_values name h of [] \<Rightarrow> [] | v # _ \<Rightarrow> v)"

definition header_del :: "string \<Rightarrow> headers \<Rightarrow> headers" where
  "header_del name h = assoc_del (canonical_key name) h"

lemma map_of_header_dels:
  "map_of (foldl (\<lambda>h n. header_del n h) h ns) k = (if k \<in> canonical_key ` set ns then None else map_of h k)"
  by (induction ns arbitrary: h) (auto simp: header_del_def)

section \<open>Requests and responses\<close>

datatype request_body = NoBody | BodyError | BodyBytes string

record http_request =
  rq_method :: string
  rq_path :: string
  rq_headers :: headers
  rq_body :: request_body

text \<open>What a handler does to its response: headers, the status line, body bytes, flushes.\<close>

datatype response_act = SetHeader string string | DelHeader string | Status nat | Body string | Flush

fun statuses :: "response_act list \<Rightarrow> nat list" where
  "statuses [] = []"
| "statuses (Status n # as) = n # statuses as"
| "statuses (_ # as) = statuses as"

fun body_text :: "response_act list \<Rightarrow> string" where
  "body_text [] = []"
| "body_text (Body b # as) = b @ body_text as"
| "body_text (_ # as) = body_text as"

lemma statuses_append [simp]: "statuses (as @ bs) = statuses as @ statuses bs"
  by (induction as rule: statuses.induct) auto

lemma body_text_append [simp]: "body_text (as @ bs) = body_text as @ body_text bs"
  by (induction as rule: body_text.induct) auto

text \<open>\<open>json.NewEncoder(w).Encode(v)\<close>: the value and a newline.\<close>

definition json_response :: "string \<Rightarrow> nat \<Rightarrow> json \<Rightarrow> response_act list" where
  "json_response content_type status v =
     [SetHeader ''Content-Type'' content_type, Status status, Body (json_marshal v @ [CHR 0x0A])]"

section \<open>Guarded servers\<close>

locale guarded_server =
  fixes allowed :: "'s \<Rightarrow> 'r \<Rightarrow> bool"
    and reached :: "'s \<Rightarrow> 'r \<Rightarrow> 'c list"
  assumes denied: "\<not> allowed s r \<Longrightarrow> reached s r = []"
begin

definition all_reached :: "'s \<Rightarrow> 'r list \<Rightarrow> 'c list" where
  "all_reached s rs = concat (map (reached s) rs)"

lemma only_allowed_reach: "all_reached s rs = all_reached s (filter (allowed s) rs)"
  unfolding all_reached_def by (induction rs) (auto simp: denied)

lemma reached_allowed: "c \<in> set (reached s r) \<Longrightarrow> allowed s r"
  using denied by (cases "allowed s r") auto

end

section \<open>IP literals\<close>

definition trim_set :: "string \<Rightarrow> string \<Rightarrow> string" where
  "trim_set cs s = rev (dropWhile (\<lambda>c. c \<in> set cs) (rev (dropWhile (\<lambda>c. c \<in> set cs) s)))"

definition parse_octet :: "string \<Rightarrow> nat option" where
  "parse_octet s =
     (if s = [] \<or> \<not> list_all is_digit s \<or> (1 < length s \<and> hd s = CHR ''0'') then None
      else Option.bind (digits_value 0 s) (\<lambda>n. if n \<le> 255 then Some n else None))"

definition parse_ipv4 :: "string \<Rightarrow> nat list option" where
  "parse_ipv4 s =
     (case map parse_octet (str_split CHR ''.'' s) of
        [Some a, Some b, Some c, Some d] \<Rightarrow> Some [a, b, c, d]
      | _ \<Rightarrow> None)"

definition hex_number :: "string \<Rightarrow> nat" where
  "hex_number s = foldl (\<lambda>n c. 16 * n + (case hex_val c of None \<Rightarrow> 0 | Some d \<Rightarrow> d)) 0 s"

text \<open>
  The groups of an IPv6 literal: what is left to read, the bytes so far and the place of the
  \<open>::\<close>. At most eight groups are read.
\<close>

fun ipv6_groups :: "nat \<Rightarrow> string \<Rightarrow> nat list \<Rightarrow> nat option \<Rightarrow> (string \<times> nat list \<times> nat option) option" where
  "ipv6_groups 0 s ip ell = Some (s, ip, ell)"
| "ipv6_groups (Suc k) s ip ell =
     (let hs = takeWhile (\<lambda>c. hex_val c \<noteq> None) s; rest = drop (length hs) s
      in if hs = [] \<or> 4 < length hs then None
         else if has_prefix rest ''.'' then
           (if ell = None \<and> length ip \<noteq> 12 \<or> 12 < length ip then None
            else map_option (\<lambda>b. ([], ip @ b, ell)) (parse_ipv4 s))
         else
           (let ip1 = ip @ [hex_number hs div 256, hex_number hs mod 256]
            in case rest of
                 [] \<Rightarrow> Some ([], ip1, ell)
               | c # t \<Rightarrow>
                   if c \<noteq> CHR '':'' \<or> t = [] then None
                   else if hd t \<noteq> CHR '':'' then ipv6_groups k t ip1 ell
                   else if ell \<noteq> None then None
                   else if tl t = [] then Some ([], ip1, Some (length ip1))
                   else ipv6_groups k (tl t) ip1 (Some (length ip1))))"

definition parse_ipv6 :: "string \<Rightarrow> nat list option" where
  "parse_ipv6 s =
     (let (t, e0) = (if has_prefix s ''::'' then (drop 2 s, Some 0) else (s, None))
      in if e0 \<noteq> None \<and> t = [] then Some (replicate 16 0)
         else
           (case ipv6_groups 8 t [] e0 of
              None \<Rightarrow> None
            | Some (rest, ip, ell) \<Rightarrow>
                if rest \<noteq> [] then None
                else if length ip < 16
                then map_option (\<lambda>e. take e ip @ replicate (16 - length ip) 0 @ drop e ip) ell
                else if ell \<noteq> None then None else Some ip))"

text \<open>\<open>net.ParseIP\<close> as sixteen bytes; a literal with a zone is rejected.\<close>

definition parse_ip :: "string \<Rightarrow> nat list option" where
  "parse_ip s =
     (case find (\<lambda>c. c \<in> set ''.:%'') s of
        None \<Rightarrow> None
      | Some c \<Rightarrow>
          if c = CHR ''.'' then map_option (\<lambda>b. replicate 10 0 @ [255, 255] @ b) (parse_ipv4 s)
          else if c = CHR '':'' \<and> CHR ''%'' \<notin> set s then parse_ipv6 s else None)"

definition ip_is_loopback :: "nat list \<Rightarrow> bool" where
  "ip_is_loopback ip =
     (if take 12 ip = replicate 10 0 @ [255, 255] then ip ! 12 = 127
      else ip = replicate 15 0 @ [1])"

lemma length_parse_ipv4: "parse_ipv4 s = Some b \<Longrightarrow> length b = 4"
  by (auto simp: parse_ipv4_def split: list.splits option.splits)

end
