(* ===== verification/Public_A2A.thy ===== *)
theory Public_A2A
  imports Go_Http
begin

text \<open>
  The public A2A listener: \<open>internal/agentnode/public_a2a_server.go\<close>. The handlers are functions
  from a request to what they do to the response and the requests they forward to Core; the
  proxy of the SDK is a parameter, a function from the forwarded request to what it writes. The
  response writer between them is a state machine, and starting, stopping and cancelling the
  listener are the steps of another one.
\<close>

section \<open>Configuration and the Agent Card\<close>

record a2a_config =
  ac_host :: string
  ac_slug :: string
  ac_name :: string
  ac_description :: string
  ac_token :: string
  ac_base_url :: string

definition maxPublicA2ARequestBodyBytes :: nat where
  "maxPublicA2ARequestBodyBytes = 1024 * 1024"

definition maxPublicA2AProxyErrorBodyBytes :: nat where
  "maxPublicA2AProxyErrorBodyBytes = 64 * 1024"

definition publicA2AHopByHopHeaders :: "string list" where
  "publicA2AHopByHopHeaders =
     [''Connection'', ''Proxy-Connection'', ''Keep-Alive'', ''Proxy-Authenticate'', ''Proxy-Authorization'',
      ''Te'', ''Trailer'', ''Transfer-Encoding'', ''Upgrade'']"

definition agentCard :: "a2a_config \<Rightarrow> bool \<Rightarrow> json" where
  "agentCard c extended =
     (let url = JStr (ac_base_url c)
      in JObj
        [(''additionalInterfaces'',
            JArr [JObj [(''transport'', JStr ''JSONRPC''), (''url'', url)],
                  JObj [(''transport'', JStr ''HTTP+JSON''), (''url'', url)]]),
         (''capabilities'',
            JObj [(''extendedAgentCard'', JBool True), (''pushNotifications'', JBool True), (''streaming'', JBool True)]),
         (''defaultInputModes'', JArr [JStr ''text/plain'', JStr ''application/json'']),
         (''defaultOutputModes'', JArr [JStr ''application/json'', JStr ''text/plain'']),
         (''description'', JStr (ac_description c)),
         (''name'', JStr (ac_name c)),
         (''openlinker'', JObj [(''agent_node'', JBool True), (''extended'', JBool extended)]),
         (''preferredTransport'', JStr ''JSONRPC''),
         (''protocolVersion'', JStr ''1.0''),
         (''protocolVersions'', JArr [JStr ''1.0'']),
         (''skills'',
            JArr [JObj [(''description'', JStr (ac_description c)), (''id'', JStr (ac_slug c)), (''name'', JStr (ac_name c))]]),
         (''supportedInterfaces'',
            JArr [JObj [(''protocolBinding'', JStr ''JSONRPC''), (''protocolVersion'', JStr ''1.0''), (''url'', url)],
                  JObj [(''protocolBinding'', JStr ''HTTP+JSON''), (''protocolVersion'', JStr ''1.0''), (''url'', url)]]),
         (''supportsAuthenticatedExtendedCard'', JBool True),
         (''url'', url),
         (''version'', JStr ''v1'')])"

section \<open>Authorization\<close>

definition authorized :: "a2a_config \<Rightarrow> http_request \<Rightarrow> bool" where
  "authorized c r =
     (let token = trim_space (ac_token c); expected = ''Bearer '' @ token;
          actual = trim_space (header_get ''Authorization'' (rq_headers r))
      in token = [] \<or> (length actual = length expected \<and> actual = expected))"

definition publicA2AHostIsLoopback :: "string \<Rightarrow> bool" where
  "publicA2AHostIsLoopback host =
     (equal_fold (trim_space host) ''localhost''
      \<or> (case parse_ip (trim_set ''[]'' (trim_space host)) of None \<Rightarrow> False | Some ip \<Rightarrow> ip_is_loopback ip))"

section \<open>Responses of the listener itself\<close>

definition writeA2AJSON :: "nat \<Rightarrow> json \<Rightarrow> response_act list" where
  "writeA2AJSON status v = json_response ''application/a2a+json'' status v"

definition writeA2AError :: "nat \<Rightarrow> string \<Rightarrow> string \<Rightarrow> response_act list" where
  "writeA2AError status code message =
     writeA2AJSON status (JObj [(''error'', JObj [(''code'', JStr code), (''message'', JStr message)])])"

definition jsonRPCID :: "json option \<Rightarrow> bool \<Rightarrow> json" where
  "jsonRPCID ident valid = (case ident of Some v \<Rightarrow> if valid then v else JNull | None \<Rightarrow> JNull)"

definition writePublicA2AJSONRPCResult :: "json option \<Rightarrow> json \<Rightarrow> response_act list" where
  "writePublicA2AJSONRPCResult ident v =
     writeA2AJSON 200 (JObj [(''jsonrpc'', JStr ''2.0''), (''id'', jsonRPCID ident True), (''result'', v)])"

definition writePublicA2AJSONRPCError :: "json option \<Rightarrow> int \<Rightarrow> string \<Rightarrow> json option \<Rightarrow> response_act list" where
  "writePublicA2AJSONRPCError ident code message data =
     writeA2AJSON 200
       (JObj [(''jsonrpc'', JStr ''2.0''), (''id'', jsonRPCID ident True),
              (''error'', JObj ([(''code'', JNum (itoa code)), (''message'', JStr message)]
                                @ (case data of None \<Rightarrow> [] | Some d \<Rightarrow> [(''data'', d)])))])"

section \<open>The request that is forwarded\<close>

definition connection_tokens :: "headers \<Rightarrow> string list" where
  "connection_tokens h =
     filter (\<lambda>n. n \<noteq> []) (map trim_space (concat (map (str_split CHR '','') (header_values ''Connection'' h))))"

definition removePublicA2AHopByHopHeaders :: "headers \<Rightarrow> headers" where
  "removePublicA2AHopByHopHeaders h =
     foldl (\<lambda>h n. header_del n h) (foldl (\<lambda>h n. header_del n h) h (connection_tokens h)) publicA2AHopByHopHeaders"

text \<open>The body and the forwarded request, or the error response.\<close>

definition preparePublicA2AProxyRequest :: "http_request \<Rightarrow> response_act list + (string \<times> http_request)" where
  "preparePublicA2AProxyRequest r =
     (let fwd = (\<lambda>b. r\<lparr>rq_headers := removePublicA2AHopByHopHeaders (rq_headers r), rq_body := b\<rparr>)
      in case rq_body r of
           NoBody \<Rightarrow> Inr ([], fwd NoBody)
         | BodyError \<Rightarrow> Inl (writeA2AError 400 ''InvalidRequestBodyError'' ''request body could not be read'')
         | BodyBytes b \<Rightarrow>
             if maxPublicA2ARequestBodyBytes < length b
             then Inl (writeA2AError 413 ''RequestBodyTooLargeError'' ''request body exceeds 1 MiB'')
             else Inr (b, fwd (if b = [] then NoBody else BodyBytes b)))"

record jsonrpc_request =
  jr_version :: string
  jr_id :: "json option"
  jr_method :: string

definition jsonrpc_fields :: "jsonrpc_request field list" where
  "jsonrpc_fields =
     [(''jsonrpc'', f_string (\<lambda>x r. r\<lparr>jr_version := x\<rparr>)), (''id'', f_raw (\<lambda>x r. r\<lparr>jr_id := x\<rparr>)),
      (''method'', f_string (\<lambda>x r. r\<lparr>jr_method := x\<rparr>))]"

definition empty_jsonrpc :: jsonrpc_request where
  "empty_jsonrpc = \<lparr>jr_version = [], jr_id = None, jr_method = []\<rparr>"

definition decodePublicA2AJSONRPCRequest :: "string \<Rightarrow> jsonrpc_request \<times> bool" where
  "decodePublicA2AJSONRPCRequest body =
     (case Option.bind (json_parse body) (decode_struct False jsonrpc_fields empty_jsonrpc) of
        Some r \<Rightarrow> if jr_version r \<noteq> ''2.0'' \<or> trim_space (jr_method r) = [] then (empty_jsonrpc, False) else (r, True)
      | None \<Rightarrow> (empty_jsonrpc, False))"

definition publicA2AExtendedCardMethod :: "string \<Rightarrow> bool" where
  "publicA2AExtendedCardMethod m = (trim_space m \<in> {''GetExtendedAgentCard'', ''agent/getExtendedCard''})"

section \<open>The response writer\<close>

text \<open>
  What the SDK proxy calls, and the state of \<open>publicA2AProxyResponseWriter\<close> with what it did to
  its target so far. \<open>fails\<close> says whether the target's \<open>Write\<close> fails after a prefix of actions.
\<close>

datatype proxy_op = PHeader nat | PWrite string | PFlush

record proxy_writer =
  pw_status :: nat
  pw_wrote :: bool
  pw_hold :: bool
  pw_body :: string
  pw_out :: "response_act list"

definition new_writer :: proxy_writer where
  "new_writer = \<lparr>pw_status = 0, pw_wrote = False, pw_hold = False, pw_body = [], pw_out = []\<rparr>"

definition emit :: "response_act \<Rightarrow> proxy_writer \<Rightarrow> proxy_writer" where
  "emit a w = w\<lparr>pw_out := pw_out w @ [a]\<rparr>"

definition WriteHeader :: "nat \<Rightarrow> proxy_writer \<Rightarrow> proxy_writer" where
  "WriteHeader status w =
     (if pw_wrote w then w
      else
        (let w1 = w\<lparr>pw_wrote := True, pw_status := status\<rparr>
         in if status = 502 then w1\<lparr>pw_hold := True\<rparr> else emit (Status status) w1))"

definition flushHeldError :: "(response_act list \<Rightarrow> bool) \<Rightarrow> proxy_writer \<Rightarrow> bool \<times> proxy_writer" where
  "flushHeldError fails w =
     (if \<not> pw_hold w then (True, w)
      else
        (let w1 = emit (Status (pw_status w)) (w\<lparr>pw_hold := False\<rparr>)
         in if pw_body w1 = [] then (True, w1)
            else (\<not> fails (pw_out w1), (emit (Body (pw_body w1)) w1)\<lparr>pw_body := []\<rparr>)))"

definition Write :: "(response_act list \<Rightarrow> bool) \<Rightarrow> string \<Rightarrow> proxy_writer \<Rightarrow> proxy_writer" where
  "Write fails b w =
     (let w1 = (if pw_wrote w then w else WriteHeader 200 w)
      in if \<not> pw_hold w1 then emit (Body b) w1
         else if length (pw_body w1) + length b \<le> maxPublicA2AProxyErrorBodyBytes then w1\<lparr>pw_body := pw_body w1 @ b\<rparr>
         else (case flushHeldError fails w1 of (ok, w2) \<Rightarrow> if ok then emit (Body b) w2 else w2))"

definition Flush_writer :: "proxy_writer \<Rightarrow> proxy_writer" where
  "Flush_writer w =
     (let w1 = (if pw_wrote w then w else WriteHeader 200 w)
      in if pw_hold w1 then w1 else emit Flush w1)"

fun proxy_step :: "(response_act list \<Rightarrow> bool) \<Rightarrow> proxy_writer \<Rightarrow> proxy_op \<Rightarrow> proxy_writer" where
  "proxy_step fails w (PHeader n) = WriteHeader n w"
| "proxy_step fails w (PWrite b) = Write fails b w"
| "proxy_step fails w PFlush = Flush_writer w"

definition error_code_fields :: "string field list" where
  "error_code_fields = [(''code'', f_string (\<lambda>x r. x))]"

definition runtimeA2AProxyUnavailable :: "string \<Rightarrow> bool" where
  "runtimeA2AProxyUnavailable body =
     (Option.bind (json_parse body) (decode_struct False [(''error'', decode_struct False error_code_fields)] [])
      = Some ''A2A_PROXY_UNAVAILABLE'')"

definition finish_with :: "response_act list \<Rightarrow> (response_act list \<Rightarrow> bool) \<Rightarrow> proxy_writer \<Rightarrow> proxy_writer" where
  "finish_with envelope fails w =
     (if \<not> pw_hold w then (if pw_wrote w then w else emit (Status 200) w)
      else if \<not> runtimeA2AProxyUnavailable (pw_body w) then snd (flushHeldError fails w)
      else w\<lparr>pw_hold := False, pw_out := pw_out w @ [DelHeader ''Content-Length''] @ envelope\<rparr>)"

definition unavailable_rpc :: "json \<Rightarrow> response_act list" where
  "unavailable_rpc ident =
     writePublicA2AJSONRPCError (Some ident) (-32013) ''Core A2A service is unavailable''
       (Some (JObj [(''code'', JStr ''A2A_PROXY_UNAVAILABLE''), (''http_status'', JNum ''502'')]))"

definition unavailable_http :: "response_act list" where
  "unavailable_http = writeA2AError 502 ''A2A_PROXY_UNAVAILABLE'' ''Core A2A service is unavailable''"

definition finishJSONRPC :: "json \<Rightarrow> (response_act list \<Rightarrow> bool) \<Rightarrow> proxy_writer \<Rightarrow> proxy_writer" where
  "finishJSONRPC ident = finish_with (unavailable_rpc ident)"

definition finishHTTP :: "(response_act list \<Rightarrow> bool) \<Rightarrow> proxy_writer \<Rightarrow> proxy_writer" where
  "finishHTTP = finish_with unavailable_http"

section \<open>Handlers\<close>

text \<open>
  A handler gives what it does to the response and the requests it hands to the SDK proxy.
  \<open>proxy\<close> is \<open>None\<close> when the listener has none.
\<close>

type_synonym handled = "response_act list \<times> http_request list"

definition method_not_allowed :: handled where
  "method_not_allowed = (writeA2AError 405 ''UnsupportedOperationError'' ''method not allowed'', [])"

definition handleAgentCard :: "a2a_config \<Rightarrow> http_request \<Rightarrow> handled" where
  "handleAgentCard c r =
     (if rq_method r \<noteq> ''GET'' then method_not_allowed else (writeA2AJSON 200 (agentCard c False), []))"

definition handleExtendedAgentCard :: "a2a_config \<Rightarrow> http_request \<Rightarrow> handled" where
  "handleExtendedAgentCard c r =
     (if rq_method r \<noteq> ''GET'' then method_not_allowed
      else if \<not> authorized c r then (writeA2AError 401 ''AuthRequiredError'' ''authorization required'', [])
      else (writeA2AJSON 200 (agentCard c True), []))"

definition run_proxy ::
  "(http_request \<Rightarrow> proxy_op list) \<Rightarrow> (response_act list \<Rightarrow> bool) \<Rightarrow> bool \<Rightarrow> json \<Rightarrow> http_request \<Rightarrow> handled" where
  "run_proxy proxy fails root ident r =
     (let w = foldl (proxy_step fails) new_writer (proxy r);
          w1 = (if root then finishJSONRPC ident fails w else finishHTTP fails w)
      in (pw_out w1, [r]))"

definition handleProxy ::
  "(http_request \<Rightarrow> proxy_op list) option \<Rightarrow> (response_act list \<Rightarrow> bool) \<Rightarrow> a2a_config \<Rightarrow> http_request \<Rightarrow> handled" where
  "handleProxy proxy fails c r =
     (let root = (rq_path r = ''/'')
      in if root \<and> rq_method r \<noteq> ''POST'' then method_not_allowed
         else if \<not> authorized c r then
           (if root then writePublicA2AJSONRPCError (Some JNull) (-32010) ''authorization required'' None
            else writeA2AError 401 ''AuthRequiredError'' ''authorization required'', [])
         else
           (case preparePublicA2AProxyRequest r of
              Inl err \<Rightarrow> (err, [])
            | Inr (body, fwd) \<Rightarrow>
                (let (rpc, valid) = (if root then decodePublicA2AJSONRPCRequest body else (empty_jsonrpc, False))
                 in if valid \<and> publicA2AExtendedCardMethod (jr_method rpc)
                    then (writePublicA2AJSONRPCResult (jr_id rpc) (agentCard c True), [])
                    else
                      (case proxy of
                         None \<Rightarrow> (writeA2AError 503 ''A2AProxyUnavailableError'' ''Core A2A proxy is unavailable'', [])
                       | Some p \<Rightarrow> run_proxy p fails root (jsonRPCID (jr_id rpc) valid) fwd))))"

text \<open>The mux of \<open>Start\<close>, on a path in canonical form.\<close>

definition serve_a2a ::
  "(http_request \<Rightarrow> proxy_op list) option \<Rightarrow> (response_act list \<Rightarrow> bool) \<Rightarrow> a2a_config \<Rightarrow> http_request \<Rightarrow> handled" where
  "serve_a2a proxy fails c r =
     (if rq_path r \<in> {''/.well-known/agent-card.json'', ''/agent-card.json''} then handleAgentCard c r
      else if rq_path r = ''/extendedAgentCard'' then handleExtendedAgentCard c r
      else handleProxy proxy fails c r)"

section \<open>The life of the listener\<close>

text \<open>
  \<open>ls_proxy\<close> and \<open>ls_server\<close> are the proxy and the generation of the server in place,
  \<open>ls_listening\<close> the generations whose listener is open, \<open>ls_closed\<close> the proxies that were closed,
  in order; \<open>ls_next\<close> numbers the generations.
\<close>

record life =
  ls_config :: a2a_config
  ls_proxy :: "nat option"
  ls_server :: "nat option"
  ls_listening :: "nat list"
  ls_closed :: "nat list"
  ls_next :: nat

definition setProxy :: "nat \<Rightarrow> life \<Rightarrow> go_error option \<times> life" where
  "setProxy p s =
     (if ls_server s \<noteq> None then (Some (ErrNew ''public A2A server is already started''), s)
      else if ls_proxy s \<noteq> None
      then (Some (ErrNew ''public A2A server already has an SDK Runtime A2A proxy''), s)
      else (None, s\<lparr>ls_proxy := Some p\<rparr>))"

definition close_proxy :: "nat option \<Rightarrow> life \<Rightarrow> life" where
  "close_proxy p s = (case p of None \<Rightarrow> s | Some i \<Rightarrow> s\<lparr>ls_closed := ls_closed s @ [i]\<rparr>)"

definition failStartLocked :: "go_error \<Rightarrow> life \<Rightarrow> go_error option \<times> life" where
  "failStartLocked er s = (Some er, close_proxy (ls_proxy s) (s\<lparr>ls_proxy := None\<rparr>))"

definition default_config :: "a2a_config \<Rightarrow> a2a_config" where
  "default_config c =
     (let host = (if ac_host c = [] then ''127.0.0.1'' else ac_host c);
          slug = trim_space (ac_slug c);
          slug = (if slug = [] then ''agent-node'' else slug);
          name = (if ac_name c = [] then slug else ac_name c)
      in c\<lparr>ac_host := host, ac_slug := slug, ac_name := name\<rparr>)"

text \<open>\<open>listen\<close> is the result of \<open>net.Listen\<close>: an error, or the address (\<open>None\<close> when it is no TCP address).\<close>

definition Start :: "string option result \<Rightarrow> life \<Rightarrow> go_error option \<times> life" where
  "Start listen s =
     (if ls_server s \<noteq> None then (Some (ErrNew ''public A2A server is already started''), s)
      else
        (let s1 = s\<lparr>ls_config := default_config (ls_config s)\<rparr>; c = ls_config s1
         in if \<not> publicA2AHostIsLoopback (ac_host c) \<and> trim_space (ac_token c) = []
            then failStartLocked (ErrNew ''public A2A token is required when binding to non-loopback host'') s1
            else if ls_proxy s1 = None then (Some (ErrNew ''public A2A server requires SDK Runtime A2A proxy''), s1)
            else
              (case listen of
                 Inl er \<Rightarrow> failStartLocked er s1
               | Inr None \<Rightarrow> failStartLocked (ErrNew ''public A2A listener did not return a TCP address'') s1
               | Inr (Some address) \<Rightarrow>
                   (None, s1\<lparr>ls_config := c\<lparr>ac_base_url := ''http://'' @ address\<rparr>, ls_server := Some (ls_next s1),
                             ls_listening := ls_listening s1 @ [ls_next s1], ls_next := Suc (ls_next s1)\<rparr>))))"

definition stopGeneration :: "nat option \<Rightarrow> life \<Rightarrow> life" where
  "stopGeneration expected s =
     (if expected \<noteq> None \<and> ls_server s \<noteq> expected then s
      else
        close_proxy (ls_proxy s)
          (s\<lparr>ls_server := None, ls_proxy := None,
             ls_listening := (case ls_server s of None \<Rightarrow> ls_listening s | Some g \<Rightarrow> removeAll g (ls_listening s))\<rparr>))"

text \<open>
  The steps: handing over a fresh proxy, \<open>Start\<close>, \<open>Stop\<close>, and the goroutine of a generation whose
  context was cancelled, at any time after its start.
\<close>

inductive life_step :: "life \<Rightarrow> life \<Rightarrow> bool" where
  set_proxy: "p \<notin> set (ls_closed s) \<Longrightarrow> life_step s (snd (setProxy p s))"
| start: "life_step s (snd (Start listen s))"
| stop: "life_step s (stopGeneration None s)"
| cancelled: "g < ls_next s \<Longrightarrow> life_step s (stopGeneration (Some g) s)"

definition init_life :: "a2a_config \<Rightarrow> life" where
  "init_life c = \<lparr>ls_config = c, ls_proxy = None, ls_server = None, ls_listening = [], ls_closed = [], ls_next = 0\<rparr>"

section \<open>The response writer delivers what the proxy wrote\<close>

text \<open>The reference: the first status counts, a write or flush without one is 200, bodies append.\<close>

fun spec_step :: "nat option \<times> string \<Rightarrow> proxy_op \<Rightarrow> nat option \<times> string" where
  "spec_step (st, b) (PHeader n) = ((case st of None \<Rightarrow> Some n | Some m \<Rightarrow> Some m), b)"
| "spec_step (st, b) (PWrite d) = ((case st of None \<Rightarrow> Some 200 | Some m \<Rightarrow> Some m), b @ d)"
| "spec_step (st, b) PFlush = ((case st of None \<Rightarrow> Some 200 | Some m \<Rightarrow> Some m), b)"

definition proxy_status :: "proxy_op list \<Rightarrow> nat" where
  "proxy_status ops = (case fst (foldl spec_step (None, []) ops) of None \<Rightarrow> 200 | Some n \<Rightarrow> n)"

definition proxy_body :: "proxy_op list \<Rightarrow> string" where
  "proxy_body ops = snd (foldl spec_step (None, []) ops)"

definition simulates :: "proxy_writer \<Rightarrow> nat option \<times> string \<Rightarrow> bool" where
  "simulates w sb =
     (case sb of
        (None, b) \<Rightarrow> w = new_writer \<and> b = []
      | (Some n, b) \<Rightarrow>
          pw_wrote w \<and> pw_status w = n
          \<and> (if pw_hold w then n = 502 \<and> pw_body w = b \<and> length b \<le> maxPublicA2AProxyErrorBodyBytes \<and> pw_out w = []
             else statuses (pw_out w) = [n] \<and> body_text (pw_out w) = b
                  \<and> (n = 502 \<longrightarrow> maxPublicA2AProxyErrorBodyBytes < length b)))"

lemmas writer_defs = WriteHeader_def Write_def Flush_writer_def flushHeldError_def emit_def Let_def

lemma new_writer_simps [simp]:
  "pw_status new_writer = 0" "\<not> pw_wrote new_writer" "\<not> pw_hold new_writer" "pw_body new_writer = []" "pw_out new_writer = []"
  by (simp_all add: new_writer_def)

lemma proxy_step_simulates:
  assumes "simulates w (st, b)" and ok: "\<And>as. \<not> fails as"
  shows "simulates (proxy_step fails w op) (spec_step (st, b) op)"
proof (cases st)
  case None
  then have w: "w = new_writer" "b = []" using assms(1) by (auto simp: simulates_def)
  show ?thesis
    by (cases op) (auto simp: w None simulates_def writer_defs maxPublicA2AProxyErrorBodyBytes_def)
next
  case (Some n)
  then show ?thesis using assms
    by (cases op) (auto simp: simulates_def writer_defs split: if_splits)
qed

lemma proxy_run_simulates:
  assumes "\<And>as. \<not> fails as"
  shows "simulates w sb \<Longrightarrow> simulates (foldl (proxy_step fails) w ops) (foldl spec_step sb ops)"
proof (induction ops arbitrary: w sb)
  case (Cons op ops)
  then show ?case using proxy_step_simulates [OF _ assms] by (cases sb) auto
qed simp

lemma finish_delivers:
  assumes ok: "\<And>as. \<not> fails as" and w: "w = foldl (proxy_step fails) new_writer ops"
  shows "let out = pw_out (finish_with envelope fails w)
         in if proxy_status ops = 502 \<and> length (proxy_body ops) \<le> maxPublicA2AProxyErrorBodyBytes
               \<and> runtimeA2AProxyUnavailable (proxy_body ops)
            then out = DelHeader ''Content-Length'' # envelope
            else statuses out = [proxy_status ops] \<and> body_text out = proxy_body ops"
proof -
  obtain st b where sb: "foldl spec_step (None, []) ops = (st, b)" by fastforce
  have sim: "simulates w (st, b)"
    unfolding w sb [symmetric] by (rule proxy_run_simulates [OF ok]) (simp add: simulates_def)
  show ?thesis
  proof (cases st)
    case None
    then show ?thesis using sim sb ok
      by (auto simp: simulates_def finish_with_def proxy_status_def proxy_body_def emit_def Let_def)
  next
    case (Some n)
    then show ?thesis using sim sb ok
      by (auto simp: simulates_def finish_with_def proxy_status_def proxy_body_def flushHeldError_def emit_def Let_def
          split: if_splits)
  qed
qed

section \<open>Requests behind the guard\<close>

lemma map_of_removed:
  "map_of (removePublicA2AHopByHopHeaders h) k =
   (if k \<in> canonical_key ` (set publicA2AHopByHopHeaders \<union> set (connection_tokens h)) then None else map_of h k)"
  unfolding removePublicA2AHopByHopHeaders_def by (auto simp: map_of_header_dels)

lemma prepare_Inr:
  assumes "preparePublicA2AProxyRequest r = Inr (b, f)"
  shows "f = r\<lparr>rq_headers := removePublicA2AHopByHopHeaders (rq_headers r), rq_body := if b = [] then NoBody else BodyBytes b\<rparr>
    \<and> length b \<le> maxPublicA2ARequestBodyBytes \<and> rq_body r = BodyBytes b \<or>
    f = r\<lparr>rq_headers := removePublicA2AHopByHopHeaders (rq_headers r), rq_body := NoBody\<rparr> \<and> b = [] \<and> rq_body r = NoBody"
  using assms by (auto simp: preparePublicA2AProxyRequest_def Let_def split: request_body.splits if_splits)

lemma forwarded_cases:
  assumes "f \<in> set (snd (serve_a2a proxy fails c r))"
  shows "authorized c r \<and> (\<exists>b. preparePublicA2AProxyRequest r = Inr (b, f))"
proof -
  have "f \<in> set (snd (handleProxy proxy fails c r))"
    using assms by (auto simp: serve_a2a_def handleAgentCard_def handleExtendedAgentCard_def method_not_allowed_def split: if_splits)
  then show ?thesis
    by (auto simp: handleProxy_def Let_def method_not_allowed_def run_proxy_def
        split: if_splits sum.splits prod.splits option.splits)
qed

interpretation a2a: guarded_server
  "\<lambda>(proxy, fails, c). authorized c"
  "\<lambda>(proxy, fails, c) r. snd (serve_a2a proxy fails c r)"
proof (unfold_locales, clarsimp)
  fix proxy fails c r assume denied: "\<not> authorized c r"
  show "snd (serve_a2a proxy fails c r) = []"
    using forwarded_cases [of _ proxy fails c r] denied by (cases "snd (serve_a2a proxy fails c r)") auto
qed

section \<open>The life cycle\<close>

definition life_inv :: "life \<Rightarrow> bool" where
  "life_inv s =
     (distinct (ls_closed s) \<and> (case ls_proxy s of None \<Rightarrow> True | Some p \<Rightarrow> p \<notin> set (ls_closed s))
      \<and> (case ls_server s of
           None \<Rightarrow> ls_listening s = []
         | Some g \<Rightarrow> ls_listening s = [g] \<and> g < ls_next s \<and> ls_proxy s \<noteq> None
                     \<and> (publicA2AHostIsLoopback (ac_host (ls_config s)) \<or> trim_space (ac_token (ls_config s)) \<noteq> [])))"

lemmas life_defs = setProxy_def Start_def stopGeneration_def failStartLocked_def close_proxy_def Let_def

lemma life_inv_start:
  assumes "life_inv s"
  shows "life_inv (snd (Start listen s))"
proof (cases listen)
  case (Inl er)
  then show ?thesis using assms by (auto simp: life_inv_def life_defs split: option.splits)
next
  case (Inr a)
  then show ?thesis using assms by (cases a) (auto simp: life_inv_def life_defs split: option.splits)
qed

lemma life_inv_stop: "life_inv s \<Longrightarrow> life_inv (stopGeneration e s)"
  by (auto simp: life_inv_def life_defs split: option.splits)

lemma life_step_inv: "life_step s s' \<Longrightarrow> life_inv s \<Longrightarrow> life_inv s'"
proof (induction rule: life_step.induct)
  case (set_proxy p s)
  then show ?case by (auto simp: life_inv_def setProxy_def split: option.splits)
qed (auto intro: life_inv_start life_inv_stop)

section \<open>Properties\<close>

text \<open>
  C15: The response writer is transparent: whatever the SDK proxy writes, in whatever pieces, the
  caller gets exactly its first status and the concatenation of its bodies; only a 502 whose
  whole body of at most 64 KiB is the SDK's unavailability envelope is replaced, completely, by
  the listener's own error (JSON-RPC with the request's id at the root, A2A JSON elsewhere).
\<close>

theorem proxy_response_refines:
  assumes ok: "\<forall>as. \<not> fails as" and out: "out = fst (run_proxy proxy fails root ident r)" and ops: "ops = proxy r"
  shows "if proxy_status ops = 502 \<and> length (proxy_body ops) \<le> maxPublicA2AProxyErrorBodyBytes
            \<and> runtimeA2AProxyUnavailable (proxy_body ops)
         then out = DelHeader ''Content-Length'' # (if root then unavailable_rpc ident else unavailable_http)
         else statuses out = [proxy_status ops] \<and> body_text out = proxy_body ops"
  using finish_delivers [of fails "foldl (proxy_step fails) new_writer ops" ops "if root then unavailable_rpc ident else unavailable_http"] ok
  by (auto simp: out ops run_proxy_def finishJSONRPC_def finishHTTP_def Let_def)

definition demo_unavailable :: string where
  "demo_unavailable = json_marshal (JObj [(''error'', JObj [(''code'', JStr ''A2A_PROXY_UNAVAILABLE'')])])"

definition demo_a2a_request :: http_request where
  "demo_a2a_request =
     \<lparr>rq_method = ''POST'', rq_path = ''/'',
      rq_headers = [(''Authorization'', [''Bearer key'']), (''Connection'', [''close, X-Trace'']), (''X-Trace'', [''1'']), (''X-Other'', [''2''])],
      rq_body = BodyBytes ''hello''\<rparr>"

theorem proxy_response_refines_witness:
  "fst (run_proxy (\<lambda>_. [PHeader 502, PFlush, PWrite demo_unavailable]) (\<lambda>_. False) True (JNum ''7'') demo_a2a_request)
     = DelHeader ''Content-Length'' # unavailable_rpc (JNum ''7'')
   \<and> (let out = fst (run_proxy (\<lambda>_. [PWrite ''ab'', PHeader 500, PWrite ''c'']) (\<lambda>_. False) False JNull demo_a2a_request)
      in statuses out = [200] \<and> body_text out = ''abc'')"
proof -
  have small: "length demo_unavailable \<le> 100" by code_simp
  have un: "runtimeA2AProxyUnavailable demo_unavailable" by code_simp
  have "length demo_unavailable \<le> maxPublicA2AProxyErrorBodyBytes" using small by (simp add: maxPublicA2AProxyErrorBodyBytes_def)
  then show ?thesis
    using un proxy_response_refines [OF _ refl refl, where fails = "\<lambda>_. False" and root = True and ident = "JNum ''7''"
          and r = demo_a2a_request and proxy = "\<lambda>_. [PHeader 502, PFlush, PWrite demo_unavailable]"]
      proxy_response_refines [OF _ refl refl, where fails = "\<lambda>_. False" and root = False and ident = JNull
          and r = demo_a2a_request and proxy = "\<lambda>_. [PWrite ''ab'', PHeader 500, PWrite ''c'']"]
    by (simp add: proxy_status_def proxy_body_def Let_def)
qed

text \<open>
  C16: What reaches Core is authorized and cleaned: over any sequence of requests the forwarded ones
  are those of the authorized requests alone; each has its method, path and body unchanged, a
  body of at most 1 MiB, and exactly the headers of the original except the hop-by-hop ones and
  those its Connection header names.
\<close>

theorem a2a_requests_guarded:
  assumes "f \<in> set (concat (map (\<lambda>r. snd (serve_a2a proxy fails c r)) rs))"
  shows "\<exists>r b. r \<in> set rs \<and> authorized c r \<and> rq_method f = rq_method r \<and> rq_path f = rq_path r
     \<and> rq_body r \<in> {NoBody, BodyBytes b} \<and> rq_body f = (if b = [] then NoBody else BodyBytes b)
     \<and> length b \<le> maxPublicA2ARequestBodyBytes
     \<and> (\<forall>k. map_of (rq_headers f) k =
            (if k \<in> canonical_key ` (set publicA2AHopByHopHeaders \<union> set (connection_tokens (rq_headers r)))
             then None else map_of (rq_headers r) k))"
proof -
  obtain r where r: "r \<in> set rs" "authorized c r" "f \<in> set (snd (serve_a2a proxy fails c r))"
    using assms a2a.reached_allowed [of f "(proxy, fails, c)"] by auto
  obtain b where "preparePublicA2AProxyRequest r = Inr (b, f)" using forwarded_cases [OF r(3)] by blast
  then show ?thesis using prepare_Inr [of r b f] r(1,2) by (intro exI [of _ r] exI [of _ b]) (auto simp: map_of_removed)
qed

definition demo_a2a :: a2a_config where
  "demo_a2a = \<lparr>ac_host = ''127.0.0.1'', ac_slug = ''demo'', ac_name = ''Demo'', ac_description = [], ac_token = ''key'',
              ac_base_url = ''http://127.0.0.1:80''\<rparr>"

theorem a2a_requests_guarded_witness:
  "let f = demo_a2a_request\<lparr>rq_headers := [(''Authorization'', [''Bearer key'']), (''X-Other'', [''2''])]\<rparr>
   in f \<in> set (concat (map (\<lambda>r. snd (serve_a2a (Some (\<lambda>_. [])) (\<lambda>_. False) demo_a2a r)) [demo_a2a_request]))
      \<and> authorized demo_a2a demo_a2a_request \<and> map_of (rq_headers f) ''X-Trace'' = None"
proof -
  let ?f = "demo_a2a_request\<lparr>rq_headers := [(''Authorization'', [''Bearer key'']), (''X-Other'', [''2''])]\<rparr>"
  have h: "removePublicA2AHopByHopHeaders (rq_headers demo_a2a_request) = rq_headers ?f" by code_simp
  have auth: "authorized demo_a2a demo_a2a_request" by code_simp
  have rpc: "decodePublicA2AJSONRPCRequest ''hello'' = (empty_jsonrpc, False)" by code_simp
  have "?f \<in> set (snd (serve_a2a (Some (\<lambda>_. [])) (\<lambda>_. False) demo_a2a demo_a2a_request))"
    using h auth rpc
    by (simp add: serve_a2a_def handleProxy_def demo_a2a_request_def preparePublicA2AProxyRequest_def Let_def
        maxPublicA2ARequestBodyBytes_def run_proxy_def)
  then have f: "?f \<in> set (concat (map (\<lambda>r. snd (serve_a2a (Some (\<lambda>_. [])) (\<lambda>_. False) demo_a2a r)) [demo_a2a_request]))" by simp
  show ?thesis using f a2a_requests_guarded [OF f] by (auto simp: Let_def)
qed

text \<open>
  C17: In every history of hand-overs, starts, stops and cancelled contexts the listener closes each
  proxy it accepted at most once and never one still in use, has a listener open exactly while it
  is started, serves without a token only on a loopback address, and a cancelled context of an
  earlier generation changes nothing.
\<close>

theorem a2a_life_safe:
  assumes "life_step\<^sup>*\<^sup>* (init_life c) s"
  shows "distinct (ls_closed s) \<and> (\<forall>p. ls_proxy s = Some p \<longrightarrow> p \<notin> set (ls_closed s))
    \<and> ls_listening s = (case ls_server s of None \<Rightarrow> [] | Some g \<Rightarrow> [g])
    \<and> (ls_server s \<noteq> None \<longrightarrow> ls_proxy s \<noteq> None
         \<and> (publicA2AHostIsLoopback (ac_host (ls_config s)) \<or> trim_space (ac_token (ls_config s)) \<noteq> []))
    \<and> (\<forall>g. ls_server s \<noteq> Some g \<longrightarrow> stopGeneration (Some g) s = s)
    \<and> (let s' = stopGeneration None s in ls_listening s' = [] \<and> ls_proxy s' = None
         \<and> (\<forall>p. ls_proxy s = Some p \<longrightarrow> List.last (ls_closed s') = p))"
proof -
  have "life_inv s"
    using assms
  proof (induction rule: rtranclp_induct)
    case base
    show ?case by (simp add: life_inv_def init_life_def)
  next
    case (step y z)
    then show ?case by (blast intro: life_step_inv)
  qed
  then show ?thesis by (auto simp: life_inv_def stopGeneration_def close_proxy_def Let_def split: option.splits)
qed

theorem a2a_life_safe_witness:
  "\<exists>s. life_step\<^sup>*\<^sup>* (init_life demo_a2a) s \<and> ls_server s = Some 0 \<and> ls_listening s = [0]
     \<and> publicA2AHostIsLoopback (ac_host (ls_config s))"
proof -
  let ?s1 = "snd (setProxy 5 (init_life demo_a2a))"
  let ?s2 = "snd (Start (Inr (Some ''127.0.0.1:80'')) ?s1)"
  have "life_step (init_life demo_a2a) ?s1" by (rule life_step.set_proxy) (simp add: init_life_def)
  then have steps: "life_step\<^sup>*\<^sup>* (init_life demo_a2a) ?s2" using life_step.start by (blast intro: rtranclp.rtrancl_into_rtrancl)
  have loop: "publicA2AHostIsLoopback ''127.0.0.1''" by code_simp
  have "ls_server ?s2 = Some 0" "ac_host (ls_config ?s2) = ''127.0.0.1''"
    using loop by (simp_all add: setProxy_def Start_def init_life_def demo_a2a_def default_config_def Let_def)
  then show ?thesis using steps loop a2a_life_safe [OF steps] by (intro exI [of _ ?s2]) simp
qed

end
