(* ===== verification/Go_Url.thy ===== *)
theory Go_Url
  imports Go_Http
begin

text \<open>
  \<open>net/url\<close> as the configuration uses it: \<open>Parse\<close>, \<open>URL.Port\<close>, \<open>URL.Hostname\<close> and \<open>URL.String\<close>.
  A failing parse is \<open>None\<close>; its text is never shown by the callers. Hosts in brackets are IPv6
  literals, other hosts have at most one colon; the exception of database schemes is left out,
  every caller refuses those schemes.
\<close>

section \<open>Cutting at the last occurrence\<close>

text \<open>The part before and the part from the last \<open>c\<close>, as \<open>strings.LastIndex\<close> and slices give them.\<close>

definition cut_last :: "char \<Rightarrow> string \<Rightarrow> (string \<times> string) option" where
  "cut_last c s =
     (if c \<in> set s
      then (let k = length (takeWhile (\<lambda>x. x \<noteq> c) (rev s)); i = length s - Suc k in Some (take i s, drop i s))
      else None)"

lemma cut_last_append [simp]: "c \<notin> set b \<Longrightarrow> cut_last c (a @ c # b) = Some (a, c # b)"
proof -
  assume b: "c \<notin> set b"
  have "takeWhile (\<lambda>x. x \<noteq> c) (rev b @ c # rev a) = rev b"
    using b by (subst takeWhile_append2) auto
  then show ?thesis by (simp add: cut_last_def Let_def)
qed

lemma cut_last_Some:
  assumes "cut_last c s = Some (a, d)"
  obtains b where "s = a @ c # b" "d = c # b" "c \<notin> set b"
proof -
  have "c \<in> set s" using assms by (simp add: cut_last_def split: if_splits)
  then obtain a' b where s: "s = a' @ c # b" "c \<notin> set b" by (meson split_list_last)
  then have "a = a'" "d = c # b" using assms by auto
  then show thesis using s that by blast
qed

lemma cut_last_None: "cut_last c s = None \<longleftrightarrow> c \<notin> set s"
  by (simp add: cut_last_def Let_def)

section \<open>Escapes\<close>

datatype url_part = UHost | UZone | UPath | UUser | UFragment

definition unreserved :: "char \<Rightarrow> bool" where
  "unreserved c = (is_alpha c \<or> is_digit c \<or> c \<in> set ''-_.~'')"

definition shouldEscape :: "url_part \<Rightarrow> char \<Rightarrow> bool" where
  "shouldEscape m c =
     (if unreserved c then False
      else
        (case m of
           UHost \<Rightarrow> c \<notin> set (CHR 0x22 # CHR 0x27 # ''!$&()*+,;=:[]<>'')
         | UZone \<Rightarrow> c \<notin> set (CHR 0x22 # CHR 0x27 # ''!$&()*+,;=:[]<>'')
         | UPath \<Rightarrow> c \<notin> set ''$&+,/:;=@''
         | UUser \<Rightarrow> c \<notin> set ''$&+,;=''
         | UFragment \<Rightarrow> c \<notin> set ''$&+,/:;=?@!()*''))"

definition escape_allowed :: "url_part \<Rightarrow> nat \<Rightarrow> bool" where
  "escape_allowed m v =
     (case m of
        UHost \<Rightarrow> 128 \<le> v \<or> v = 0x25
      | UZone \<Rightarrow> v = 0x25 \<or> v = 32 \<or> \<not> shouldEscape UHost (char_of v)
      | _ \<Rightarrow> True)"

definition plain_allowed :: "url_part \<Rightarrow> char \<Rightarrow> bool" where
  "plain_allowed m c = (m \<in> {UHost, UZone} \<and> byte c < 128 \<longrightarrow> \<not> shouldEscape m c)"

fun unescape :: "url_part \<Rightarrow> string \<Rightarrow> string option" where
  "unescape m [] = Some []"
| "unescape m (c # s) =
     (if c = CHR ''%'' then
        (case s of
           h # l # t \<Rightarrow>
             (case (hex_val h, hex_val l) of
                (Some a, Some b) \<Rightarrow>
                  if escape_allowed m (16 * a + b)
                  then map_option ((#) (char_of (16 * a + b))) (unescape m t) else None
              | _ \<Rightarrow> None)
         | _ \<Rightarrow> None)
      else if plain_allowed m c then map_option ((#) c) (unescape m s) else None)"

definition upper_hex :: "nat \<Rightarrow> char" where
  "upper_hex d = char_of (if d < 10 then 48 + d else 55 + d)"

definition escape_char :: "url_part \<Rightarrow> char \<Rightarrow> string" where
  "escape_char m c =
     (if shouldEscape m c then [CHR ''%'', upper_hex (byte c div 16), upper_hex (byte c mod 16)] else [c])"

definition escape :: "url_part \<Rightarrow> string \<Rightarrow> string" where
  "escape m s = concat (map (escape_char m) s)"

lemma unescape_plain: "CHR ''%'' \<notin> set s \<Longrightarrow> unescape m s = (if list_all (plain_allowed m) s then Some s else None)"
  by (induction s) auto

lemma unescape_plain_Some: "CHR ''%'' \<notin> set s \<Longrightarrow> unescape m s = Some t \<Longrightarrow> t = s"
  by (simp add: unescape_plain split: if_splits)

section \<open>URLs\<close>

record url =
  ul_scheme :: string
  ul_opaque :: string
  ul_user :: "string option"
  ul_host :: string
  ul_path :: string
  ul_raw_path :: string
  ul_omit_host :: bool
  ul_force_query :: bool
  ul_raw_query :: string
  ul_fragment :: string

definition empty_url :: url where
  "empty_url = \<lparr>ul_scheme = [], ul_opaque = [], ul_user = None, ul_host = [], ul_path = [], ul_raw_path = [],
     ul_omit_host = False, ul_force_query = False, ul_raw_query = [], ul_fragment = []\<rparr>"

definition ctl_byte :: "char \<Rightarrow> bool" where
  "ctl_byte c = (byte c < 32 \<or> byte c = 127)"

definition scheme_char :: "char \<Rightarrow> bool" where
  "scheme_char c = (is_alpha c \<or> is_digit c \<or> c \<in> set ''+-.'')"

text \<open>The scheme and the rest; no scheme when the text does not start like one.\<close>

definition getScheme :: "string \<Rightarrow> (string \<times> string) option" where
  "getScheme s =
     (let p = takeWhile scheme_char s; rest = drop (length p) s
      in if s = [] then Some ([], [])
         else if p = [] then (if hd s = CHR '':'' then None else Some ([], s))
         else if \<not> is_alpha (hd p) then Some ([], s)
         else if rest \<noteq> [] \<and> hd rest = CHR '':'' then Some (p, tl rest) else Some ([], s))"

definition validOptionalPort :: "string \<Rightarrow> bool" where
  "validOptionalPort p = (p = [] \<or> (hd p = CHR '':'' \<and> list_all is_digit (tl p)))"

definition valid_user_char :: "char \<Rightarrow> bool" where
  "valid_user_char c = (is_alpha c \<or> is_digit c \<or> c \<in> set (CHR 0x27 # ''-._:~!$&()*+,;=%@''))"

definition parse_zone :: "string \<Rightarrow> string option" where
  "parse_zone name =
     (if str_contains name ''%25''
      then (let a = takeWhile (\<lambda>c. c \<noteq> CHR ''%'') name; b = drop (length a) name
            in if has_prefix b ''%25''
               then Option.bind (unescape UHost a) (\<lambda>x. map_option ((@) x) (unescape UZone b))
               else None)
      else unescape UHost name)"

definition ip_literal :: "string \<Rightarrow> bool" where
  "ip_literal s =
     (case str_cut CHR ''%'' s of (a, z, found) \<Rightarrow>
        CHR '':'' \<in> set a \<and> parse_ipv6 a \<noteq> None \<and> (found \<longrightarrow> z \<noteq> []))"

definition parse_bracketed :: "string \<Rightarrow> string option" where
  "parse_bracketed host =
     (case cut_last CHR '']'' host of
        None \<Rightarrow> None
      | Some (a, d) \<Rightarrow>
          if \<not> validOptionalPort (tl d) then None
          else
            Option.bind (parse_zone (tl a)) (\<lambda>name.
              if ip_literal name then Some (''['' @ name @ '']'' @ tl d) else None))"

definition parseHost :: "string \<Rightarrow> string option" where
  "parseHost host =
     (case cut_last CHR ''['' host of
        Some (a, _) \<Rightarrow> if a = [] then parse_bracketed host else None
      | None \<Rightarrow>
          (case cut_last CHR '':'' host of
             Some (a, d) \<Rightarrow> if CHR '':'' \<in> set a \<or> \<not> validOptionalPort d then None else unescape UHost host
           | None \<Rightarrow> unescape UHost host))"

definition parseAuthority :: "string \<Rightarrow> (string option \<times> string) option" where
  "parseAuthority auth =
     (case cut_last CHR ''@'' auth of
        None \<Rightarrow> map_option (Pair None) (parseHost auth)
      | Some (user, d) \<Rightarrow>
          Option.bind (parseHost (tl d)) (\<lambda>host.
            if list_all valid_user_char user then map_option (\<lambda>u. (Some u, host)) (unescape UUser user) else None))"

definition setPath :: "string \<Rightarrow> url \<Rightarrow> url option" where
  "setPath p u =
     map_option (\<lambda>path. u\<lparr>ul_path := path, ul_raw_path := if p = escape UPath path then [] else p\<rparr>) (unescape UPath p)"

definition cut_query :: "string \<Rightarrow> url \<Rightarrow> string \<times> url" where
  "cut_query rest u =
     (if rest \<noteq> [] \<and> List.last rest = CHR ''?'' \<and> CHR ''?'' \<notin> set (butlast rest)
      then (butlast rest, u\<lparr>ul_force_query := True\<rparr>)
      else (case str_cut CHR ''?'' rest of (a, q, _) \<Rightarrow> (a, u\<lparr>ul_raw_query := q\<rparr>)))"

definition parse_hier :: "string \<Rightarrow> url \<Rightarrow> url option" where
  "parse_hier rest u =
     (if (ul_scheme u \<noteq> [] \<or> \<not> has_prefix rest ''///'') \<and> has_prefix rest ''//''
      then (let auth = takeWhile (\<lambda>c. c \<noteq> CHR ''/'') (drop 2 rest)
            in Option.bind (parseAuthority auth) (\<lambda>(user, host).
                 setPath (drop (2 + length auth) rest) (u\<lparr>ul_user := user, ul_host := host\<rparr>)))
      else setPath rest (u\<lparr>ul_omit_host := ul_scheme u \<noteq> [] \<and> has_prefix rest ''/''\<rparr>))"

definition parse_rest :: "string \<Rightarrow> url \<Rightarrow> url option" where
  "parse_rest rest u =
     (if has_prefix rest ''/'' then parse_hier rest u
      else if ul_scheme u \<noteq> [] then Some (u\<lparr>ul_opaque := rest\<rparr>)
      else if CHR '':'' \<in> set (takeWhile (\<lambda>c. c \<noteq> CHR ''/'') rest) then None
      else parse_hier rest u)"

definition url_parse_main :: "string \<Rightarrow> url option" where
  "url_parse_main s =
     (if list_ex ctl_byte s then None
      else if s = ''*'' then Some (empty_url\<lparr>ul_path := ''*''\<rparr>)
      else
        Option.bind (getScheme s) (\<lambda>(scheme, rest).
          case cut_query rest (empty_url\<lparr>ul_scheme := to_lower scheme\<rparr>) of (rest1, u) \<Rightarrow> parse_rest rest1 u))"

definition url_Parse :: "string \<Rightarrow> url option" where
  "url_Parse s =
     (case str_cut CHR ''#'' s of (a, frag, _) \<Rightarrow>
        Option.bind (url_parse_main a) (\<lambda>u.
          if frag = [] then Some u else map_option (\<lambda>f. u\<lparr>ul_fragment := f\<rparr>) (unescape UFragment frag)))"

definition split_host_port :: "string \<Rightarrow> string \<times> string" where
  "split_host_port hp =
     (let (h, p) = (case cut_last CHR '':'' hp of
                      Some (a, d) \<Rightarrow> if validOptionalPort d then (a, tl d) else (hp, [])
                    | None \<Rightarrow> (hp, []))
      in (if has_prefix h ''['' \<and> has_suffix h '']'' then butlast (tl h) else h, p))"

definition url_Port :: "url \<Rightarrow> string" where
  "url_Port u = snd (split_host_port (ul_host u))"

definition url_Hostname :: "url \<Rightarrow> string" where
  "url_Hostname u = fst (split_host_port (ul_host u))"

definition valid_encoded_char :: "char \<Rightarrow> bool" where
  "valid_encoded_char c =
     (c \<in> set (CHR 0x27 # ''!$&()*+,;=:@[]%'') \<or> \<not> shouldEscape UPath c)"

definition EscapedPath :: "url \<Rightarrow> string" where
  "EscapedPath u =
     (if ul_raw_path u \<noteq> [] \<and> list_all valid_encoded_char (ul_raw_path u)
         \<and> unescape UPath (ul_raw_path u) = Some (ul_path u) then ul_raw_path u
      else if ul_path u = ''*'' then ''*'' else escape UPath (ul_path u))"

text \<open>\<open>URL.String\<close> of a URL without user information and fragment, which the caller has checked.\<close>

definition url_String :: "url \<Rightarrow> string" where
  "url_String u =
     (let pre = (if ul_scheme u = [] then [] else ul_scheme u @ '':'');
          host = (if ul_scheme u = [] \<and> ul_host u = [] then []
                  else if ul_omit_host u \<and> ul_host u = [] then []
                  else (if ul_host u \<noteq> [] \<or> ul_path u \<noteq> [] then ''//'' else []) @ escape UHost (ul_host u));
          path = EscapedPath u;
          body = (if ul_opaque u \<noteq> [] then ul_opaque u
                  else host @ (if path \<noteq> [] \<and> hd path \<noteq> CHR ''/'' \<and> ul_host u \<noteq> [] then ''/'' else []) @ path);
          query = (if ul_force_query u \<or> ul_raw_query u \<noteq> [] then ''?'' @ ul_raw_query u else [])
      in pre @ body @ query)"

section \<open>What a plain URL is made of\<close>

lemma parseHost_plain:
  assumes "CHR ''%'' \<notin> set h" "CHR ''['' \<notin> set h" "parseHost h = Some host"
  shows "host = h"
proof -
  have "cut_last CHR ''['' h = None" using assms(2) by (simp add: cut_last_None)
  then show ?thesis
    using assms(1,3) by (auto simp: parseHost_def split: option.splits if_splits prod.splits dest: unescape_plain_Some)
qed

lemma getScheme_Some:
  assumes "getScheme s = Some (p, rest)" "p \<noteq> []"
  shows "s = p @ CHR '':'' # rest \<and> list_all scheme_char p"
proof -
  let ?p = "takeWhile scheme_char s"
  have d: "s = ?p @ drop (length ?p) s" by (metis takeWhile_eq_take append_take_drop_id)
  have p: "p = ?p" and ne: "drop (length ?p) s \<noteq> []" "hd (drop (length ?p) s) = CHR '':''"
      and rest: "rest = tl (drop (length ?p) s)"
    using assms by (auto simp: getScheme_def Let_def split: if_splits)
  have "drop (length ?p) s = CHR '':'' # rest" using hd_Cons_tl [OF ne(1)] ne(2) rest by simp
  note p this
  moreover have "list_all scheme_char ?p" by (auto simp: list_all_iff dest: set_takeWhileD)
  ultimately show ?thesis using d by metis
qed

lemma setPath_Some:
  "setPath x v = Some u \<Longrightarrow> ul_scheme u = ul_scheme v \<and> ul_host u = ul_host v \<and> ul_user u = ul_user v
     \<and> unescape UPath x = Some (ul_path u)"
  by (auto simp: setPath_def)

definition authority :: "string \<Rightarrow> string" where
  "authority rest = takeWhile (\<lambda>c. c \<noteq> CHR ''/'') (drop 2 rest)"

lemma parse_hier_host:
  assumes "parse_hier rest v = Some u" "ul_host v = []" "ul_host u \<noteq> []"
  shows "has_prefix rest ''//'' \<and> ul_scheme u = ul_scheme v
     \<and> parseAuthority (authority rest) = Some (ul_user u, ul_host u)
     \<and> unescape UPath (drop (2 + length (authority rest)) rest) = Some (ul_path u)"
proof (cases "has_prefix rest ''//'' \<and> (ul_scheme v \<noteq> [] \<or> \<not> has_prefix rest ''///'')")
  case True
  obtain us h where a: "parseAuthority (authority rest) = Some (us, h)"
      "setPath (drop (2 + length (authority rest)) rest) (v\<lparr>ul_user := us, ul_host := h\<rparr>) = Some u"
  proof -
    have "Option.bind (parseAuthority (authority rest)) (\<lambda>(user, host).
        setPath (drop (2 + length (authority rest)) rest) (v\<lparr>ul_user := user, ul_host := host\<rparr>)) = Some u"
      using assms(1) True by (simp add: parse_hier_def authority_def Let_def del: has_prefix.simps)
    then show thesis using that by (cases "parseAuthority (authority rest)") auto
  qed
  show ?thesis using a(1) setPath_Some [OF a(2)] True by simp
next
  case False
  then have "setPath rest (v\<lparr>ul_omit_host := ul_scheme v \<noteq> [] \<and> has_prefix rest ''/''\<rparr>) = Some u"
    using assms(1) by (auto simp: parse_hier_def simp del: has_prefix.simps)
  from setPath_Some [OF this] show ?thesis using assms(2,3) by simp
qed

lemma authority_split:
  assumes "has_prefix rest ''//''"
  shows "rest = ''//'' @ authority rest @ drop (2 + length (authority rest)) rest"
    and "CHR ''/'' \<notin> set (authority rest)"
    and "drop (2 + length (authority rest)) rest = [] \<or> has_prefix (drop (2 + length (authority rest)) rest) ''/''"
proof -
  obtain t where t: "rest = ''//'' @ t" using assms has_prefix_iff by blast
  then have "drop (2 + length (authority rest)) rest = dropWhile (\<lambda>c. c \<noteq> CHR ''/'') t"
    by (simp add: authority_def dropWhile_eq_drop)
  moreover have "authority rest = takeWhile (\<lambda>c. c \<noteq> CHR ''/'') t" by (simp add: t authority_def)
  ultimately show "rest = ''//'' @ authority rest @ drop (2 + length (authority rest)) rest"
    "drop (2 + length (authority rest)) rest = [] \<or> has_prefix (drop (2 + length (authority rest)) rest) ''/''"
    using t hd_dropWhile [of "\<lambda>c. c \<noteq> CHR ''/''" t]
    by (simp_all, cases "dropWhile (\<lambda>c. c \<noteq> CHR ''/'') t", auto)
  show "CHR ''/'' \<notin> set (authority rest)" by (auto simp: authority_def dest: set_takeWhileD)
qed

text \<open>
  A URL that parses with a host and without user information, query and fragment, and whose text has
  no escape and none of the characters of a query or a fragment, is written exactly as its parts.
\<close>

lemma url_Parse_parts:
  assumes parse: "url_Parse s = Some u" and scheme: "ul_scheme u \<noteq> []" and opq: "ul_opaque u = []"
    and host: "ul_host u \<noteq> []" and user: "ul_user u = None"
    and chars: "CHR ''%'' \<notin> set s" "CHR ''?'' \<notin> set s" "CHR ''#'' \<notin> set s"
  obtains p auth where "s = p @ ''://'' @ auth @ ul_path u" "ul_scheme u = to_lower p" "list_all scheme_char p"
    "CHR ''/'' \<notin> set auth" "CHR ''@'' \<notin> set auth" "parseHost auth = Some (ul_host u)"
    "ul_path u = [] \<or> has_prefix (ul_path u) ''/''"
proof -
  have cut: "str_cut CHR ''#'' s = (s, [], False)" using chars by (simp add: str_cut_not_found)
  then have main: "url_parse_main s = Some u" using parse by (cases "url_parse_main s") (auto simp: url_Parse_def)
  have nostar: "s \<noteq> ''*''" using main scheme by (auto simp: url_parse_main_def empty_url_def split: if_splits)
  obtain p rest where g: "getScheme s = Some (p, rest)"
      and r: "(case cut_query rest (empty_url\<lparr>ul_scheme := to_lower p\<rparr>) of (rest1, u) \<Rightarrow> parse_rest rest1 u) = Some u"
    using main nostar by (cases "getScheme s") (auto simp: url_parse_main_def split: if_splits)
  have restset: "set rest \<subseteq> set s"
  proof (cases "p = []")
    case True
    then show ?thesis using g by (auto simp: getScheme_def Let_def split: if_splits)
  next
    case False
    then show ?thesis using getScheme_Some [OF g] by auto
  qed
  have nq: "CHR ''?'' \<notin> set rest" using restset chars by auto
  then have "str_cut CHR ''?'' rest = (rest, [], False)" by (simp add: str_cut_not_found)
  then have q: "cut_query rest (empty_url\<lparr>ul_scheme := to_lower p\<rparr>) = (rest, empty_url\<lparr>ul_scheme := to_lower p\<rparr>)"
    using nq by (auto simp: cut_query_def empty_url_def) (metis last_in_set)
  let ?u = "empty_url\<lparr>ul_scheme := to_lower p\<rparr>"
  have pr: "parse_rest rest ?u = Some u" using r q by simp
  have hier: "parse_hier rest ?u = Some u"
    using pr opq host by (auto simp: parse_rest_def empty_url_def simp del: has_prefix.simps split: if_splits)
  have h: "has_prefix rest ''//''" "ul_scheme u = to_lower p" "parseAuthority (authority rest) = Some (None, ul_host u)"
      "unescape UPath (drop (2 + length (authority rest)) rest) = Some (ul_path u)"
    using parse_hier_host [OF hier _ host] user by (simp_all add: empty_url_def del: has_prefix.simps)
  have "p \<noteq> []" using h(2) scheme by auto
  then have scheme_text: "s = p @ CHR '':'' # rest" "list_all scheme_char p" using getScheme_Some [OF g] by auto
  have path: "ul_path u = drop (2 + length (authority rest)) rest"
    using unescape_plain_Some [OF _ h(4)] restset chars(1) by (metis in_set_dropD subsetD)
  have "CHR ''@'' \<notin> set (authority rest)" "parseHost (authority rest) = Some (ul_host u)"
    using h(3) by (auto simp: parseAuthority_def cut_last_None [symmetric] split: option.splits bind_splits if_splits)
  then show thesis
    using scheme_text h(2) path authority_split [OF h(1)] that [of p "authority rest"] by simp
qed

end
