(* ===== verification/Model_Endpoint.thy ===== *)
theory Model_Endpoint
  imports Go_Url
begin

text \<open>
  \<open>pkg/adapters/model_endpoint.go\<close>: the check of a configured model API base URL, and the DNS
  label check it shares with the network domains of \<open>sessionsandbox/config.go\<close>.
\<close>

section \<open>Host names\<close>

definition dns_char :: "char \<Rightarrow> bool" where
  "dns_char c = (c = CHR ''-'' \<or> is_lower c \<or> is_digit c)"

definition dns_label :: "string \<Rightarrow> bool" where
  "dns_label l = (l \<noteq> [] \<and> \<not> has_prefix l ''-'' \<and> \<not> has_suffix l ''-'' \<and> list_all dns_char l)"

definition model_label :: "string \<Rightarrow> bool" where
  "model_label l = (dns_label l \<and> length l \<le> 63)"

definition bad_url_chars :: string where
  "bad_url_chars = CHR 0x5C # CHR 0x09 # CHR 0x0D # CHR 0x0A # CHR 0x00 # ''%?# ''"

definition bad_endpoint :: "string \<Rightarrow> url \<Rightarrow> bool" where
  "bad_endpoint raw u =
     (ul_scheme u \<noteq> ''https'' \<or> ul_opaque u \<noteq> [] \<or> ul_host u = [] \<or> ul_user u \<noteq> None \<or> ul_raw_query u \<noteq> []
      \<or> ul_force_query u \<or> ul_fragment u \<noteq> [] \<or> contains_any raw bad_url_chars
      \<or> (url_Port u \<noteq> [] \<and> url_Port u \<noteq> ''443''))"

definition bad_host :: "string \<Rightarrow> url \<Rightarrow> bool" where
  "bad_host host u =
     (253 < length host \<or> has_suffix (ul_host u) '':'' \<or> parse_ip host \<noteq> None \<or> \<not> str_contains host ''.''
      \<or> has_suffix host ''.local'' \<or> has_suffix host ''.localhost'')"

definition path_segments :: "string \<Rightarrow> string list" where
  "path_segments path = str_split CHR ''/'' (trim_prefix (trim_suffix path ''/'') ''/'')"

definition bad_segment :: "string \<Rightarrow> string \<Rightarrow> bool" where
  "bad_segment path seg = (seg = ''.'' \<or> seg = ''..'' \<or> (seg = [] \<and> path \<noteq> [] \<and> path \<noteq> ''/''))"

definition ValidateModelEndpoint :: "string \<Rightarrow> go_error option" where
  "ValidateModelEndpoint raw =
     (case url_Parse raw of
        None \<Rightarrow> Some (ErrNew ''model base URL must be HTTPS on port 443, without credentials, query, fragment, escapes or whitespace'')
      | Some u \<Rightarrow>
          if bad_endpoint raw u
          then Some (ErrNew ''model base URL must be HTTPS on port 443, without credentials, query, fragment, escapes or whitespace'')
          else
            (let host = to_lower (url_Hostname u)
             in if bad_host host u then Some (ErrNew ''model base URL requires an exact DNS hostname'')
                else if list_ex (\<lambda>l. \<not> model_label l) (str_split CHR ''.'' host)
                then Some (ErrNew ''invalid model base URL hostname'')
                else if list_ex (bad_segment (ul_path u)) (path_segments (ul_path u))
                then Some (ErrNew ''model base URL requires a canonical API path'')
                else None))"

section \<open>What an accepted endpoint is\<close>

lemma not_dns_char: "\<not> dns_char CHR ''[''" "\<not> dns_char CHR '':''" "\<not> dns_char CHR ''/''"
  by (simp_all add: dns_char_def is_lower_def is_digit_def)

lemma dns_label_chars: "dns_label l \<Longrightarrow> c \<in> {CHR ''['', CHR '':'', CHR ''/''} \<Longrightarrow> c \<notin> set l"
  unfolding dns_label_def list_all_iff using not_dns_char by blast

lemma in_split: "c \<in> set s \<Longrightarrow> c \<noteq> d \<Longrightarrow> \<exists>l \<in> set (str_split d s). c \<in> set l"
proof (induction d s rule: str_split.induct)
  case (1 d)
  then show ?case by simp
next
  case (2 d x s)
  then show ?case by (cases "str_split d s") auto
qed

lemma labels_no_char:
  "\<forall>l \<in> set (str_split CHR ''.'' h). dns_label l \<Longrightarrow> c \<in> {CHR ''['', CHR '':'', CHR ''/''} \<Longrightarrow> c \<notin> set h"
  using in_split [of c h "CHR ''.''"] dns_label_chars by auto

lemma to_lower_keeps: "c \<in> set s \<Longrightarrow> byte c < 65 \<or> byte c = 91 \<Longrightarrow> c \<in> set (to_lower s)"
proof (induction s rule: to_lower.induct)
  case 1
  then show ?case by simp
next
  case (2 x s)
  have first: "c = x \<Longrightarrow> lower_char x = c" using 2(5) by (auto simp: lower_char_def)
  consider t where "x = CHR 0xC4" "s = CHR 0xB0 # t" | t where "x = CHR 0xE2" "s = CHR 0x84 # CHR 0xAA # t"
    | "to_lower (x # s) = lower_char x # to_lower s" "\<not> has_prefix (x # s) [CHR 0xC4, CHR 0xB0]"
      "\<not> has_prefix (x # s) [CHR 0xE2, CHR 0x84, CHR 0xAA]"
  proof (cases "has_prefix (x # s) [CHR 0xC4, CHR 0xB0] \<or> has_prefix (x # s) [CHR 0xE2, CHR 0x84, CHR 0xAA]")
    case True
    then show thesis using that(1,2) by (auto simp only: has_prefix_iff append_Cons append_Nil list.inject)
  next
    case False
    then have "to_lower (x # s) = lower_char x # to_lower s" by (simp del: has_prefix.simps)
    then show thesis using that(3) False by blast
  qed
  then show ?case
  proof cases
    case 1
    then show ?thesis using 2 by auto
  next
    case 2
    then show ?thesis using "2.IH"(2) "2.prems" by auto
  next
    case 3
    then show ?thesis using "2.IH"(3) "2.prems" first by auto
  qed
qed

lemma bracketed_hostname:
  assumes "ip_literal name" "validOptionalPort port" "CHR ''%'' \<notin> set name"
  shows "fst (split_host_port (''['' @ name @ '']'' @ port)) = name"
proof (cases port)
  case Nil
  have "CHR '':'' \<in> set name"
    using assms(1,3) by (simp add: ip_literal_def str_cut_not_found [THEN iffD2] split: prod.splits)
  then obtain a b where n: "name = a @ CHR '':'' # b" "CHR '':'' \<notin> set b" by (meson split_list_last)
  have "cut_last CHR '':'' ((CHR ''['' # a) @ CHR '':'' # (b @ '']'')) = Some (CHR ''['' # a, CHR '':'' # b @ '']'')"
    using n by (intro cut_last_append) simp
  moreover have "\<not> validOptionalPort (CHR '':'' # b @ '']'')" by (simp add: validOptionalPort_def is_digit_def)
  ultimately show ?thesis using Nil n by (simp add: split_host_port_def has_suffix_def butlast_append)
next
  case (Cons c ds)
  then have c: "c = CHR '':''" "list_all is_digit ds" using assms(2) by (auto simp: validOptionalPort_def)
  then have "CHR '':'' \<notin> set ds" by (auto simp: list_all_iff is_digit_def)
  then have "cut_last CHR '':'' ((''['' @ name @ '']'') @ CHR '':'' # ds) = Some (''['' @ name @ '']'', CHR '':'' # ds)"
    by (intro cut_last_append)
  then show ?thesis using Cons c assms(2) by (simp add: split_host_port_def has_suffix_def)
qed

lemma parse_bracketed_name:
  assumes "parse_bracketed h = Some host" "CHR ''%'' \<notin> set h" "has_prefix h ''[''"
  shows "\<exists>name port. host = ''['' @ name @ '']'' @ port \<and> ip_literal name \<and> validOptionalPort port \<and> CHR ''%'' \<notin> set name"
proof -
  obtain a d where c: "cut_last CHR '']'' h = Some (a, d)" "validOptionalPort (tl d)"
      and n: "Option.bind (parse_zone (tl a)) (\<lambda>name. if ip_literal name then Some (''['' @ name @ '']'' @ tl d) else None) = Some host"
    using assms(1) by (auto simp: parse_bracketed_def split: option.splits if_splits)
  obtain b where b: "h = a @ CHR '']'' # b" using c(1) by (elim cut_last_Some)
  have no: "CHR ''%'' \<notin> set (tl a)" using b assms(2) by (cases a) auto
  obtain name where z: "parse_zone (tl a) = Some name" "ip_literal name" "host = ''['' @ name @ '']'' @ tl d"
    using n by (auto split: bind_splits if_splits)
  have "\<not> str_contains (tl a) ''%25''" using no by (auto simp: str_contains_iff)
  then have "name = tl a" using z(1) no by (auto simp: parse_zone_def dest: unescape_plain_Some)
  then show ?thesis using z c(2) no by blast
qed

lemma plain_host:
  assumes auth: "parseHost auth = Some (ul_host u)" "CHR ''%'' \<notin> set auth"
    and labels: "\<forall>l \<in> set (str_split CHR ''.'' (to_lower (url_Hostname u))). dns_label l"
  shows "ul_host u = auth \<and> CHR ''['' \<notin> set auth"
proof -
  have "CHR ''['' \<notin> set auth"
  proof
    assume "CHR ''['' \<in> set auth"
    then obtain a d where c: "cut_last CHR ''['' auth = Some (a, d)" by (metis cut_last_None not_None_eq surj_pair)
    then obtain b where b: "auth = a @ CHR ''['' # b" by (elim cut_last_Some)
    have a: "a = []" "parse_bracketed auth = Some (ul_host u)" using auth(1) c by (auto simp: parseHost_def split: if_splits)
    obtain name port where n: "ul_host u = ''['' @ name @ '']'' @ port" "ip_literal name" "validOptionalPort port" "CHR ''%'' \<notin> set name"
      using parse_bracketed_name [OF a(2) auth(2)] a(1) b by auto
    have "url_Hostname u = name" unfolding url_Hostname_def n(1) using n by (intro bracketed_hostname)
    moreover have "CHR '':'' \<in> set name"
      using n(2,4) by (simp add: ip_literal_def str_cut_not_found [THEN iffD2] split: prod.splits)
    ultimately have "CHR '':'' \<in> set (to_lower (url_Hostname u))" using to_lower_keeps [of "CHR '':''" name] by simp
    then show False using labels_no_char [OF labels, of "CHR '':''"] by simp
  qed
  then show ?thesis using parseHost_plain auth by blast
qed

lemma plain_host_port:
  assumes "ul_host u = auth" "parseHost auth = Some auth" "CHR ''['' \<notin> set auth" "\<not> has_suffix auth '':''"
    and "url_Port u = [] \<or> url_Port u = ''443''"
  shows "\<exists>port \<in> {[], '':443''}. auth = url_Hostname u @ port"
proof (cases "cut_last CHR '':'' auth")
  case None
  have "\<not> has_prefix auth ''[''" using assms(3) by (cases auth) auto
  then show ?thesis using None assms(1) by (simp add: url_Hostname_def split_host_port_def)
next
  case (Some ad)
  then obtain a b where ab: "cut_last CHR '':'' auth = Some (a, CHR '':'' # b)" "auth = a @ CHR '':'' # b"
    by (metis cut_last_Some surj_pair)
  have "cut_last CHR ''['' auth = None" using assms(3) by (simp add: cut_last_None)
  then have v: "validOptionalPort (CHR '':'' # b)" using assms(2) ab(1) by (auto simp: parseHost_def split: if_splits)
  have "\<not> has_prefix a ''[''" using assms(3) ab(2) by (cases a) auto
  then have h: "url_Hostname u = a" "url_Port u = b"
    using ab(1) v assms(1) by (simp_all add: url_Hostname_def url_Port_def split_host_port_def)
  have "b \<noteq> []" using assms(4) ab(2) by (auto simp: has_suffix_iff)
  then show ?thesis using h assms(5) ab(2) by auto
qed

lemma canonical_path:
  assumes "path = [] \<or> has_prefix path ''/''" "\<forall>seg \<in> set (path_segments path). \<not> bad_segment path seg"
  shows "path \<in> {[], ''/''} \<or> (\<exists>segs tail. path = ''/'' @ str_join ''/'' segs @ tail \<and> tail \<in> {[], ''/''} \<and> segs \<noteq> []
     \<and> (\<forall>seg \<in> set segs. seg \<notin> {[], ''.'', ''..''} \<and> CHR ''/'' \<notin> set seg))"
proof (cases "path \<in> {[], ''/''}")
  case True
  then show ?thesis by blast
next
  case False
  then have seg: "seg \<notin> {[], ''.'', ''..''}" if "seg \<in> set (path_segments path)" for seg
    using assms(2) that by (auto simp: bad_segment_def)
  have slashless: "CHR ''/'' \<notin> set seg" if "seg \<in> set (path_segments path)" for seg
    using that by (auto simp: path_segments_def dest: str_split_no_sep)
  have pre: "has_prefix path ''/''" using assms(1) False by auto
  have join: "str_join ''/'' (path_segments path) = trim_prefix (trim_suffix path ''/'') ''/''"
    by (simp add: path_segments_def)
  have "\<exists>tail \<in> {[], ''/''}. path = ''/'' @ trim_prefix (trim_suffix path ''/'') ''/'' @ tail"
  proof (cases "has_suffix path ''/''")
    case True
    then obtain t where t: "path = t @ ''/''" by (auto simp: has_suffix_iff)
    then obtain q where q: "path = (CHR ''/'' # q) @ ''/''" using pre False by (cases t) auto
    then have "trim_suffix path ''/'' = CHR ''/'' # q" by (simp only: trim_suffix_append)
    then show ?thesis using q by (simp add: trim_prefix_def)
  next
    case no: False
    then show ?thesis using has_prefix_drop [OF pre] pre by (auto simp: trim_suffix_def trim_prefix_def)
  qed
  moreover have "path_segments path \<noteq> []" by (simp add: path_segments_def)
  ultimately show ?thesis using join seg slashless by metis
qed

section \<open>Property\<close>



end
