(* ===== verification/Path_Walk.thy ===== *)
theory Path_Walk
  imports Go_Path
begin

text \<open>
  Walking up a path with \<open>dir = filepath.Dir(dir)\<close> until it is its own parent: why the walk ends,
  and which directories it visits.
\<close>

section \<open>The parent of a cleaned path\<close>

lemma upto_append_slash: "slash \<notin> set c \<Longrightarrow> upto_last_slash (a @ slash # c) = a @ [slash]"
proof (induction a)
  case Nil
  then have "upto_last_slash c = []" by (cases c) auto
  then show ?case by simp
qed simp

lemma upto_none: "slash \<notin> set c \<Longrightarrow> upto_last_slash c = []"
  by (cases c) auto

lemma str_join_snoc: "xs \<noteq> [] \<Longrightarrow> str_join sep (xs @ [c]) = str_join sep xs @ sep @ c"
proof (induction xs)
  case (Cons x xs)
  then show ?case by (cases xs) (auto simp: str_join_Cons)
qed simp

lemma clean_stack_butlast: "clean_stack r (c # stack) \<Longrightarrow> clean_stack r stack"
proof -
  assume "clean_stack r (c # stack)"
  then obtain plain n where s: "c # stack = plain @ replicate n ''..''" "list_all plain_comp plain" "r \<longrightarrow> n = 0"
    by (auto simp: clean_stack_def)
  show ?thesis
  proof (cases plain)
    case Nil
    then obtain m where "n = Suc m" "stack = replicate m ''..''" using s(1) by (cases n) auto
    then show ?thesis using s(3) unfolding clean_stack_def by (intro exI [of _ "[]"] exI [of _ m]) simp
  next
    case (Cons p ps)
    then show ?thesis using s unfolding clean_stack_def by (intro exI [of _ ps] exI [of _ n]) simp
  qed
qed

lemma clean_trailing_slash: "p \<noteq> [] \<Longrightarrow> filepath_clean (p @ [slash]) = filepath_clean p"
proof -
  assume p: "p \<noteq> []"
  have "is_abs (p @ [slash]) = is_abs p" using p by (cases p) (auto simp: is_abs_def)
  then show ?thesis
    using split_append_slash [of p "[]"] by (simp add: filepath_clean_eq_iff path_comps_def clean_comps_def)
qed

lemma clean_text: "clean_stack r (rev xs) \<Longrightarrow> filepath_clean (path_text r xs) = path_text r xs"
  by (simp add: filepath_clean_def path_text_comps)

lemma dir_text:
  assumes "clean_stack r (rev (xs @ [c]))"
  shows "filepath_dir (path_text r (xs @ [c])) = path_text r xs"
proof -
  have c: "slash \<notin> set c" using clean_stack_no_slash [OF assms] by simp
  have xs: "clean_stack r (rev xs)" using assms clean_stack_butlast by simp
  have clean: "filepath_clean (path_text r xs) = path_text r xs" by (rule clean_text [OF xs])
  show ?thesis
  proof (cases "xs = []")
    case True
    then show ?thesis
      using c clean upto_append_slash [OF c, of "[]"]
      by (cases r) (simp_all add: path_text_def filepath_dir_def upto_none,
          simp_all add: filepath_clean_def path_comps_def clean_comps_def is_abs_def path_text_def)
  next
    case False
    have "path_text r (xs @ [c]) = path_text r xs @ slash # c" using False by (simp add: path_text_def str_join_snoc)
    moreover have "path_text r xs \<noteq> []"
      using False clean_stack_no_slash [OF xs] by (cases xs; cases "tl xs") (auto simp: path_text_def)
    ultimately show ?thesis using upto_append_slash [OF c] clean clean_trailing_slash by (simp add: filepath_dir_def)
  qed
qed

lemma dir_top: "filepath_dir (path_text r []) = path_text r []"
  by (cases r) (simp_all add: path_text_def filepath_dir_def filepath_clean_def path_comps_def clean_comps_def is_abs_def slash_def)

section \<open>Termination of the walk\<close>

definition depth :: "string \<Rightarrow> nat" where
  "depth p = (if filepath_clean p = p then length (path_comps p) else Suc (length (path_comps (filepath_dir p))))"

lemma dir_clean: "filepath_clean (filepath_dir p) = filepath_dir p"
  by (simp add: filepath_dir_def)

lemma depth_dir: "filepath_dir p \<noteq> p \<Longrightarrow> depth (filepath_dir p) < depth p"
proof (cases "filepath_clean p = p")
  case True
  assume ne: "filepath_dir p \<noteq> p"
  have p: "p = path_text (is_abs p) (path_comps p)" using True by (simp add: filepath_clean_def)
  show ?thesis
  proof (cases "path_comps p" rule: rev_cases)
    case Nil
    then show ?thesis using ne p dir_top by metis
  next
    case (snoc xs c)
    have st: "clean_stack (is_abs p) (rev (xs @ [c]))" using path_comps_stack [of p] snoc by simp
    then have "filepath_dir p = path_text (is_abs p) xs" using dir_text p snoc by metis
    moreover have "clean_stack (is_abs p) (rev xs)" using st clean_stack_butlast by simp
    ultimately have "path_comps (filepath_dir p) = xs" by (simp add: path_text_comps)
    then show ?thesis using True snoc by (simp add: depth_def dir_clean)
  qed
next
  case False
  then show ?thesis by (simp add: depth_def dir_clean)
qed

section \<open>The directories a walk visits\<close>

function walk_up :: "string \<Rightarrow> string list" where
  "walk_up dir = dir # (if filepath_dir dir = dir then [] else walk_up (filepath_dir dir))"
  by pat_completeness auto
termination
  by (relation "measure depth") (simp_all add: depth_dir)

declare walk_up.simps [simp del]

definition ancestors :: "string list \<Rightarrow> string list" where
  "ancestors cs = map (\<lambda>n. path_text True (take n cs)) (rev [0..<Suc (length cs)])"

lemma walk_up_text:
  assumes "list_all plain_comp cs"
  shows "walk_up (path_text True cs) = ancestors cs"
  using assms
proof (induction cs rule: rev_induct)
  case Nil
  then show ?case by (simp add: walk_up.simps dir_top ancestors_def)
next
  case (snoc c cs)
  have st: "clean_stack True (rev (cs @ [c]))"
    using snoc.prems unfolding clean_stack_def by (intro exI [of _ "rev (cs @ [c])"] exI [of _ 0]) (simp add: list_all_iff)
  have d: "filepath_dir (path_text True (cs @ [c])) = path_text True cs" by (rule dir_text [OF st])
  have "path_comps (path_text True (cs @ [c])) \<noteq> path_comps (path_text True cs)"
    using path_text_comps(2) [OF st] path_text_comps(2) [of True cs] clean_stack_butlast st by simp
  then have ne: "path_text True cs \<noteq> path_text True (cs @ [c])" by auto
  have "ancestors (cs @ [c]) = path_text True (cs @ [c]) # ancestors cs"
    by (simp add: ancestors_def)
  moreover have "walk_up (path_text True (cs @ [c])) = path_text True (cs @ [c]) # walk_up (path_text True cs)"
    using d ne by (simp add: walk_up.simps [of "path_text True (cs @ [c])"])
  ultimately show ?case using snoc by simp
qed

lemma walk_up_clean: "is_abs p \<Longrightarrow> walk_up (filepath_clean p) = ancestors (path_comps p)"
  unfolding filepath_clean_def using walk_up_text [OF path_comps_rooted] by simp

lemma walk_up_dir:
  assumes "is_abs p" "filepath_clean p = p" "path_comps p \<noteq> []"
  shows "walk_up (filepath_dir p) = ancestors (butlast (path_comps p))"
proof -
  obtain xs c where xc: "path_comps p = xs @ [c]" using assms(3) by (cases "path_comps p" rule: rev_cases) auto
  have st: "clean_stack True (rev (xs @ [c]))" using path_comps_stack [of p] xc assms(1) by simp
  have "filepath_dir p = path_text True xs"
    using dir_text [OF st] assms(1,2) xc by (metis filepath_clean_def)
  moreover have "list_all plain_comp xs" using path_comps_rooted [OF assms(1)] xc by simp
  ultimately show ?thesis using walk_up_text xc by simp
qed

lemma walk_up_neq_Nil [simp]: "walk_up p \<noteq> []"
  by (simp add: walk_up.simps)

end
