(* ===== verification/Sandbox_Config.thy ===== *)
theory Sandbox_Config
  imports Model_Endpoint Path_Walk
begin

text \<open>
  \<open>pkg/adapters/sessionsandbox/config.go\<close>: the configuration of native session isolation and its
  validation. The host (operating system, architecture, effective user) is a record of the answers
  the checks read.
\<close>

record sandbox_config =
  sc_mode :: string
  sc_root :: string
  sc_namespace :: string
  sc_runtime_bin :: string
  sc_temp_root :: string
  sc_read_paths :: "string list"
  sc_domains :: "string list"

definition empty_sandbox :: sandbox_config where
  "empty_sandbox = \<lparr>sc_mode = [], sc_root = [], sc_namespace = [], sc_runtime_bin = [], sc_temp_root = [],
     sc_read_paths = [], sc_domains = []\<rparr>"

record host =
  ho_goos :: string
  ho_goarch :: string
  ho_euid :: int

definition Enabled :: "sandbox_config \<Rightarrow> bool" where
  "Enabled c = (sc_mode c = ''native'')"

definition unsafe_path_chars :: string where
  "unsafe_path_chars = CHR 0x00 # CHR 0x0D # CHR 0x0A # CHR 0x09 # ''*?[]{}''"

definition safePath :: "string \<Rightarrow> bool" where
  "safePath p = (is_abs p \<and> \<not> contains_any p unsafe_path_chars)"

definition path_contains :: "string \<Rightarrow> string \<Rightarrow> bool" where
  "path_contains parent child =
     (case filepath_rel parent child of None \<Rightarrow> False | Some r \<Rightarrow> r \<noteq> ''..'' \<and> \<not> has_prefix r ''../'')"

definition bad_domain_chars :: string where
  "bad_domain_chars = CHR 0x5C # CHR 0x09 # CHR 0x0D # CHR 0x0A # CHR 0x00 # '':/*?@[] ''"

definition domain_host :: "string \<Rightarrow> string" where
  "domain_host d = trim_suffix d '':443''"

definition bad_domain :: "string \<Rightarrow> bool" where
  "bad_domain d =
     (let host = domain_host d
      in d = [] \<or> host \<noteq> to_lower host \<or> \<not> str_contains host ''.'' \<or> contains_any host bad_domain_chars
         \<or> parse_ip host \<noteq> None \<or> has_suffix host ''.localhost'' \<or> has_suffix host ''.local'')"

fun check_domains :: "string list \<Rightarrow> go_error option" where
  "check_domains [] = None"
| "check_domains (d # ds) =
     (if bad_domain d then Some (ErrNew ''SESSION_NETWORK_DOMAINS must contain exact public DNS names (HTTPS port 443 only)'')
      else if list_ex (\<lambda>l. \<not> dns_label l) (str_split CHR ''.'' (domain_host d))
      then Some (ErrNew ''invalid SESSION_NETWORK_DOMAINS DNS name'')
      else check_domains ds)"

definition no_options :: "sandbox_config \<Rightarrow> bool" where
  "no_options c =
     (sc_root c = [] \<and> sc_temp_root c = [] \<and> sc_runtime_bin c = [] \<and> sc_read_paths c = [] \<and> sc_domains c = [])"

definition Validate :: "host \<Rightarrow> sandbox_config \<Rightarrow> go_error option" where
  "Validate h c =
     (if sc_mode c = [] \<or> sc_mode c = ''off''
      then (if no_options c then None else Some (ErrNew ''session options require SESSION_ISOLATION=native''))
      else if \<not> Enabled c then Some (ErrNew ''SESSION_ISOLATION must be off or native'')
      else if ho_goos h \<noteq> ''darwin'' \<and> ho_goos h \<noteq> ''linux''
      then Some (ErrNew ''native session isolation requires macOS or Linux; no unsandboxed fallback is available'')
      else if ho_goarch h \<noteq> ''amd64'' \<and> ho_goarch h \<noteq> ''arm64''
      then Some (ErrNew ''native session isolation currently requires amd64 or arm64'')
      else if ho_euid h \<le> 0 then Some (ErrNew ''native session isolation requires a non-root Node user'')
      else if \<not> safePath (sc_root c) \<or> filepath_clean (sc_root c) = ''/'' \<or> trim_space (sc_namespace c) = []
      then Some (ErrNew ''native isolation requires an absolute private SESSION_ROOT and stable Core namespace'')
      else if sc_temp_root c \<noteq> [] \<and> (\<not> safePath (sc_temp_root c) \<or> filepath_clean (sc_temp_root c) = ''/'')
      then Some (ErrNew ''SESSION_TEMP_ROOT must be an absolute private directory'')
      else if list_ex (\<lambda>p. \<not> safePath p) (sc_read_paths c)
      then Some (ErrNew ''SESSION_READ_PATHS must contain absolute paths without glob or control characters'')
      else check_domains (sc_domains c))"

section \<open>What a validated configuration promises\<close>

definition public_domain :: "string \<Rightarrow> bool" where
  "public_domain d =
     (\<exists>host port. d = host @ port \<and> port \<in> {[], '':443''} \<and> list_all dns_label (str_split CHR ''.'' host)
        \<and> CHR ''.'' \<in> set host \<and> parse_ip host = None
        \<and> \<not> has_suffix host ''.localhost'' \<and> \<not> has_suffix host ''.local'')"

lemma trim_suffix_cases: "s = trim_suffix s p \<or> s = trim_suffix s p @ p"
  by (auto simp: trim_suffix_def has_suffix_iff)

lemma checked_domains: "check_domains ds = None \<Longrightarrow> list_all public_domain ds"
proof (induction ds)
  case (Cons d ds)
  have ok: "\<not> bad_domain d" "list_all dns_label (str_split CHR ''.'' (domain_host d))"
    using Cons.prems by (auto simp: list_ex_iff list_all_iff split: if_splits)
  have "CHR ''.'' \<in> set (domain_host d)" "parse_ip (domain_host d) = None"
      "\<not> has_suffix (domain_host d) ''.localhost''" "\<not> has_suffix (domain_host d) ''.local''"
    using ok(1) by (auto simp: bad_domain_def Let_def str_contains_iff)
  moreover have "\<exists>port \<in> {[], '':443''}. d = domain_host d @ port"
    using trim_suffix_cases [of d "'':443''"] by (auto simp: domain_host_def)
  ultimately have "public_domain d" using ok(2) unfolding public_domain_def by blast
  then show ?case using Cons by (simp split: if_splits)
qed simp

lemma validated_native:
  assumes "Validate h c = None" "Enabled c"
  shows "ho_euid h > 0 \<and> ho_goos h \<in> {''darwin'', ''linux''} \<and> safePath (sc_root c) \<and> filepath_clean (sc_root c) \<noteq> ''/''
     \<and> trim_space (sc_namespace c) \<noteq> [] \<and> list_all safePath (sc_read_paths c) \<and> list_all public_domain (sc_domains c)
     \<and> (sc_temp_root c = [] \<or> safePath (sc_temp_root c))"
  using assms checked_domains [of "sc_domains c"]
  by (auto simp: Validate_def Enabled_def list_ex_iff list_all_iff split: if_splits)

lemma validated_off: "Validate h c = None \<Longrightarrow> \<not> Enabled c \<Longrightarrow> sc_mode c \<in> {[], ''off''} \<and> no_options c"
  by (auto simp: Validate_def split: if_splits)

lemma path_contains_comps: "path_contains parent child \<Longrightarrow> is_abs parent = is_abs child \<and> (\<exists>ts. path_comps child = path_comps parent @ ts)"
  by (auto simp: path_contains_def split: option.splits dest: filepath_rel_inside)

end
