(* ===== verification/Sandbox_Session.thy ===== *)
theory Sandbox_Session
  imports Sandbox_Config Session_Store
begin

text \<open>
  \<open>pkg/adapters/sessionsandbox/session.go\<close> with the lock of \<open>pkg/adapters/appfiles/lock_unix.go\<close>:
  private session storage. The operating system is a record of its answers to each call on a path,
  fixed during one operation; what the program holds (locks, policy files, temporary directories)
  is an explicit list, so that a lock that is held is refused to everyone else.
\<close>

section \<open>The operating system\<close>

record dir_info =
  di_dir :: bool
  di_regular :: bool
  di_perm :: nat
  di_sticky :: bool
  di_owned :: bool

record sandbox_os = host +
  so_mkdir_all :: "string \<Rightarrow> go_error option"
  so_mkdir :: "string \<Rightarrow> go_error option"
  so_lstat :: "string \<Rightarrow> dir_info option"
  so_eval :: "string \<Rightarrow> string option"
  so_open_lock :: "string \<Rightarrow> dir_info option result"
  so_flock :: "string \<Rightarrow> go_error option"
  so_unlock :: "string \<Rightarrow> go_error option"
  so_create_temp :: "string \<Rightarrow> string option"
  so_mkdir_temp :: "string \<Rightarrow> string option"
  so_write :: "string \<Rightarrow> go_error option"
  so_remove :: "string \<Rightarrow> go_error option"
  so_remove_all :: "string \<Rightarrow> go_error option"
  so_look_path :: "string \<Rightarrow> string option"
  so_read_file :: "string \<Rightarrow> string option"
  so_home :: string

text \<open>\<open>os.ErrExist\<close> and \<open>os.ErrNotExist\<close>.\<close>

definition err_exist :: go_error where
  "err_exist = ErrSentinel ''file already exists''"

definition err_not_exist :: go_error where
  "err_not_exist = ErrSentinel ''file does not exist''"

text \<open>\<open>Perm() \& 0o022\<close>: writable by the group or by others.\<close>

definition shared_writable :: "nat \<Rightarrow> bool" where
  "shared_writable perm = (odd (perm div 16) \<or> odd (perm div 2))"

section \<open>Git worktrees\<close>

function gitWorktree :: "(string \<Rightarrow> dir_info option) \<Rightarrow> string \<Rightarrow> bool" where
  "gitWorktree lstat dir =
     (if lstat (filepath_join [dir, ''.git'']) \<noteq> None then True
      else let parent = filepath_dir dir in if parent = dir then False else gitWorktree lstat parent)"
  by pat_completeness auto
termination
  by (relation "measure (\<lambda>(_, dir). depth dir)") (simp_all add: depth_dir)

declare gitWorktree.simps [simp del]

function canonicalize_from :: "(string \<Rightarrow> string option) \<Rightarrow> string \<Rightarrow> string \<Rightarrow> string" where
  "canonicalize_from eval p dir =
     (case eval dir of
        Some resolved \<Rightarrow> filepath_join [resolved, case filepath_rel dir p of None \<Rightarrow> [] | Some r \<Rightarrow> r]
      | None \<Rightarrow> if dir = filepath_dir dir then p else canonicalize_from eval p (filepath_dir dir))"
  by pat_completeness auto
termination
  by (relation "measure (\<lambda>(_, _, dir). depth dir)") (simp_all, metis depth_dir)

declare canonicalize_from.simps [simp del]

definition canonicalExisting :: "(string \<Rightarrow> string option) \<Rightarrow> string \<Rightarrow> string" where
  "canonicalExisting eval p = canonicalize_from eval p p"

definition ErrGitWorktree :: go_error where
  "ErrGitWorktree = ErrNew (''session root must be outside any git worktree; the client would expose '' @
     ''that repository's status, history and project instructions'')"

definition CheckOutsideGitWorktree :: "('a) sandbox_os_scheme \<Rightarrow> string \<Rightarrow> go_error option" where
  "CheckOutsideGitWorktree os p =
     (if \<not> safePath p then Some (ErrNew ''session root must be an absolute path'')
      else if gitWorktree (so_lstat os) (canonicalExisting (so_eval os) (filepath_clean p)) then Some ErrGitWorktree
      else None)"

section \<open>Private directories\<close>

definition private_dir :: "dir_info option \<Rightarrow> bool" where
  "private_dir i = (case i of None \<Rightarrow> False | Some d \<Rightarrow> di_dir d \<and> \<not> group_or_other (di_perm d) \<and> di_owned d)"

definition privateDirectory :: "('a) sandbox_os_scheme \<Rightarrow> string \<Rightarrow> string \<Rightarrow> string result" where
  "privateDirectory os parent name =
     (let p = filepath_join [parent, name]
      in if (case so_mkdir os p of None \<Rightarrow> False | Some er \<Rightarrow> \<not> errors_is er err_exist)
         then Inl (ErrNew ''cannot create private session directory'')
         else if \<not> private_dir (so_lstat os p)
         then Inl (ErrNew ''session directory must be owner-only, owned by Node and not a symlink'')
         else Inr p)"

text \<open>\<open>shared\<close> of the loop in \<open>privateRoot\<close>: no directory, or writable by others without the sticky bit.\<close>

definition bad_ancestor :: "dir_info option \<Rightarrow> bool" where
  "bad_ancestor i =
     (case i of None \<Rightarrow> True | Some d \<Rightarrow> \<not> di_dir d \<or> (shared_writable (di_perm d) \<and> \<not> di_sticky d))"

function shared_ancestor :: "(string \<Rightarrow> dir_info option) \<Rightarrow> string \<Rightarrow> bool" where
  "shared_ancestor lstat dir =
     (if bad_ancestor (lstat dir) then True
      else if dir = filepath_dir dir then False else shared_ancestor lstat (filepath_dir dir))"
  by pat_completeness auto
termination
  by (relation "measure (\<lambda>(_, dir). depth dir)") (simp_all, metis depth_dir)

declare shared_ancestor.simps [simp del]

definition privateRoot :: "('a) sandbox_os_scheme \<Rightarrow> string \<Rightarrow> string result" where
  "privateRoot os p =
     (let clean = filepath_clean p
      in if so_mkdir_all os (filepath_dir clean) \<noteq> None then Inl (ErrNew ''cannot create private session root parent'')
         else
           (case privateDirectory os (filepath_dir clean) (filepath_base clean) of
              Inl er \<Rightarrow> Inl er
            | Inr _ \<Rightarrow>
                (case so_eval os clean of
                   None \<Rightarrow> Inl (ErrNew ''cannot resolve private session root'')
                 | Some resolved \<Rightarrow>
                     if \<not> safePath resolved then Inl (ErrNew ''cannot resolve private session root'')
                     else if shared_ancestor (so_lstat os) (filepath_dir resolved)
                     then Inl (ErrNew ''session root has a shared writable ancestor'')
                     else if gitWorktree (so_lstat os) resolved then Inl ErrGitWorktree
                     else Inr resolved)))"

section \<open>The lock\<close>

datatype held = HeldLock string | PolicyFile string | TempTree string

definition ErrLockBusy :: go_error where
  "ErrLockBusy = ErrNew ''Agent state is already serving another Runtime Worker''"

definition AcquireLock :: "('a) sandbox_os_scheme \<Rightarrow> string \<Rightarrow> held list \<Rightarrow> string result \<times> held list" where
  "AcquireLock os path rs =
     (case so_open_lock os path of
        Inl er \<Rightarrow> (Inl (ErrWrap ''open Agent mode ownership lock: '' er []), rs)
      | Inr info \<Rightarrow>
          if (case info of None \<Rightarrow> True | Some i \<Rightarrow> \<not> di_regular i \<or> group_or_other (di_perm i) \<or> \<not> di_owned i)
          then (Inl (ErrNew ''Agent mode ownership lock must be an owner-only regular file''), rs)
          else if HeldLock path \<in> set rs then (Inl ErrLockBusy, rs)
          else
            (case so_flock os path of
               Some er \<Rightarrow> (Inl (ErrWrap ''lock Agent mode ownership: '' er []), rs)
             | None \<Rightarrow> (Inr path, HeldLock path # rs)))"

definition release_held :: "held \<Rightarrow> held list \<Rightarrow> held list" where
  "release_held r rs = filter (\<lambda>x. x \<noteq> r) rs"

text \<open>\<open>Release\<close> closes the file also when unlocking failed, which gives the lock up.\<close>

definition Release :: "('a) sandbox_os_scheme \<Rightarrow> string \<Rightarrow> held list \<Rightarrow> go_error option \<times> held list" where
  "Release os path rs = (so_unlock os path, release_held (HeldLock path) rs)"

text \<open>\<open>os.Remove\<close> and \<open>os.RemoveAll\<close>: a failure leaves what was there.\<close>

definition remove_file :: "('a) sandbox_os_scheme \<Rightarrow> string \<Rightarrow> held list \<Rightarrow> go_error option \<times> held list" where
  "remove_file os p rs =
     (case so_remove os p of None \<Rightarrow> (None, release_held (PolicyFile p) rs) | Some er \<Rightarrow> (Some er, rs))"

definition remove_tree :: "('a) sandbox_os_scheme \<Rightarrow> string \<Rightarrow> held list \<Rightarrow> go_error option \<times> held list" where
  "remove_tree os p rs =
     (case so_remove_all os p of None \<Rightarrow> (None, release_held (TempTree p) rs) | Some er \<Rightarrow> (Some er, rs))"

section \<open>Opening and closing\<close>

record session =
  sn_config :: sandbox_config
  sn_control :: string
  sn_data :: string
  sn_policy :: string
  sn_bin :: string
  sn_temp :: string
  sn_locked :: bool

definition lock_path :: "string \<Rightarrow> string" where
  "lock_path control = filepath_join [control, ''session.lock'']"

definition RuntimeVersion :: string where
  "RuntimeVersion = ''0.0.76''"

record runtime_manifest =
  mf_name :: string
  mf_version :: string

definition manifest_fields :: "runtime_manifest field list" where
  "manifest_fields = [(''Name'', f_string (\<lambda>x r. r\<lparr>mf_name := x\<rparr>)), (''Version'', f_string (\<lambda>x r. r\<lparr>mf_version := x\<rparr>))]"

definition pinned_manifest :: "string \<Rightarrow> bool" where
  "pinned_manifest raw =
     (case Option.bind (json_parse raw) (decode_struct False manifest_fields \<lparr>mf_name = [], mf_version = []\<rparr>) of
        None \<Rightarrow> False
      | Some m \<Rightarrow> mf_name m = ''@anthropic-ai/sandbox-runtime'' \<and> mf_version m = RuntimeVersion)"

definition resolveRuntime :: "('a) sandbox_os_scheme \<Rightarrow> string \<Rightarrow> string result" where
  "resolveRuntime os bin =
     (case so_look_path os (if bin = [] then ''srt'' else bin) of
        None \<Rightarrow> Inl (ErrNew (''native isolation requires installed @anthropic-ai/sandbox-runtime@'' @ RuntimeVersion @ '' (srt)''))
      | Some p0 \<Rightarrow>
          (case so_eval os p0 of
             None \<Rightarrow> Inl (ErrNew ''cannot resolve sandbox runtime'')
           | Some p \<Rightarrow>
               (case so_read_file os (filepath_join [filepath_dir p, ''..'', ''package.json'']) of
                  None \<Rightarrow> Inl (ErrNew (''native isolation requires the pinned sandbox-runtime package version '' @ RuntimeVersion))
                | Some raw \<Rightarrow>
                    if \<not> pinned_manifest raw \<or> filepath_base p \<noteq> ''cli.js''
                    then Inl (ErrNew (''native isolation requires the pinned sandbox-runtime package version '' @ RuntimeVersion))
                    else Inr p)))"

text \<open>The roots: the resolved session root, and the directory for temporary files.\<close>

definition resolve_temp_root :: "('a) sandbox_os_scheme \<Rightarrow> sandbox_config \<Rightarrow> (string \<times> sandbox_config) result" where
  "resolve_temp_root os c =
     (if sc_temp_root c = [] then Inr (''/tmp'', c)
      else
        (case privateRoot os (sc_temp_root c) of
           Inl er \<Rightarrow> Inl (ErrWrap ''invalid SESSION_TEMP_ROOT: '' er [])
         | Inr t \<Rightarrow>
             if 40 < length t then Inl (ErrNew ''resolved SESSION_TEMP_ROOT must be at most 40 bytes for sandbox sockets'')
             else Inr (t, c\<lparr>sc_temp_root := t\<rparr>)))"

definition session_names :: "string list" where
  "session_names = [''workspace'', ''home'', ''codex'', ''claude'', ''tmp'']"

fun make_dirs :: "('a) sandbox_os_scheme \<Rightarrow> string \<Rightarrow> string list \<Rightarrow> go_error option" where
  "make_dirs os data [] = None"
| "make_dirs os data (n # ns) =
     (case privateDirectory os data n of Inl er \<Rightarrow> Some er | Inr _ \<Rightarrow> make_dirs os data ns)"

text \<open>What happens before the lock: the runtime, the roots and the control directory.\<close>

definition prepare_control ::
  "('a) sandbox_os_scheme \<Rightarrow> go_error option \<Rightarrow> sandbox_config \<Rightarrow> string \<Rightarrow> bool \<Rightarrow> (sandbox_config \<times> string \<times> string \<times> string) result"
where
  "prepare_control os cancelled c scope outer =
     (case cancelled of
        Some er \<Rightarrow> Inl er
      | None \<Rightarrow>
     (case Validate (host.truncate os) c of
        Some er \<Rightarrow> Inl er
      | None \<Rightarrow>
          if \<not> Enabled c \<or> scope = [] then Inl (ErrNew ''native sandbox and trusted scope are required'')
          else
            (case (if outer then resolveRuntime os (sc_runtime_bin c) else Inr []) of
               Inl er \<Rightarrow> Inl er
             | Inr bin \<Rightarrow>
                 (case privateRoot os (sc_root c) of
                    Inl er \<Rightarrow> Inl er
                  | Inr root \<Rightarrow>
                      (case resolve_temp_root os (c\<lparr>sc_root := root\<rparr>) of
                         Inl er \<Rightarrow> Inl er
                       | Inr (tmp, c1) \<Rightarrow>
                           (case privateDirectory os root (Scope [sc_namespace c1, scope]) of
                              Inl er \<Rightarrow> Inl er
                            | Inr control \<Rightarrow> Inr (c1, bin, tmp, control)))))))"

text \<open>The temporary directory of an invocation, after the policy file; each failure cleans up.\<close>

definition open_temp ::
  "('a) sandbox_os_scheme \<Rightarrow> string \<Rightarrow> string \<Rightarrow> held list \<Rightarrow> string result \<times> held list" where
  "open_temp os tmp policy rs =
     (case so_mkdir_temp os tmp of
        None \<Rightarrow> (Inl (ErrNew ''cannot create private sandbox temporary directory''), snd (remove_file os policy rs))
      | Some created \<Rightarrow>
          (case so_eval os created of
             None \<Rightarrow> (Inl (ErrNew ''cannot resolve sandbox temporary directory''),
                      snd (remove_tree os created (snd (remove_file os policy (TempTree created # rs)))))
           | Some t \<Rightarrow> (Inr t, TempTree t # rs)))"

definition open_data ::
  "('a) sandbox_os_scheme \<Rightarrow> sandbox_config \<Rightarrow> string \<Rightarrow> string \<Rightarrow> string \<Rightarrow> bool \<Rightarrow> held list \<Rightarrow> session result \<times> held list"
where
  "open_data os c bin tmp control outer rs =
     (case privateDirectory os control ''data'' of
        Inl er \<Rightarrow> (Inl er, rs)
      | Inr data \<Rightarrow>
          (case make_dirs os data session_names of
             Some er \<Rightarrow> (Inl er, rs)
           | None \<Rightarrow>
               (case so_create_temp os control of
                  None \<Rightarrow> (Inl (ErrNew ''cannot prepare sandbox policy''), rs)
                | Some policy \<Rightarrow>
                    (let rs1 = PolicyFile policy # rs
                     in if outer \<and> so_write os (filepath_join [control, ''runner.mjs'']) \<noteq> None
                        then (Inl (ErrNew ''cannot prepare native sandbox runner''), snd (remove_file os policy rs1))
                        else
                          (case open_temp os tmp policy rs1 of
                             (Inl er, rs2) \<Rightarrow> (Inl er, rs2)
                           | (Inr temp, rs2) \<Rightarrow>
                               (Inr \<lparr>sn_config = c, sn_control = control, sn_data = data, sn_policy = policy, sn_bin = bin,
                                     sn_temp = temp, sn_locked = True\<rparr>, rs2))))))"

definition openSession ::
  "('a) sandbox_os_scheme \<Rightarrow> go_error option \<Rightarrow> sandbox_config \<Rightarrow> string \<Rightarrow> bool \<Rightarrow> held list \<Rightarrow> session result \<times> held list"
where
  "openSession os cancelled c scope outer rs =
     (case prepare_control os cancelled c scope outer of
        Inl er \<Rightarrow> (Inl er, rs)
      | Inr (c1, bin, tmp, control) \<Rightarrow>
          (case AcquireLock os (lock_path control) rs of
             (Inl _, rs1) \<Rightarrow> (Inl (ErrNew ''native session is busy or its ownership lock is unsafe''), rs1)
           | (Inr lock, rs1) \<Rightarrow>
               (case open_data os c1 bin tmp control outer rs1 of
                  (Inl er, rs2) \<Rightarrow> (Inl er, snd (Release os lock rs2))
                | (Inr s, rs2) \<Rightarrow> (Inr s, rs2))))"

definition Open ::
  "('a) sandbox_os_scheme \<Rightarrow> go_error option \<Rightarrow> sandbox_config \<Rightarrow> string \<Rightarrow> held list \<Rightarrow> session result \<times> held list" where
  "Open os cancelled c scope rs = openSession os cancelled c scope True rs"

definition OpenClient ::
  "('a) sandbox_os_scheme \<Rightarrow> go_error option \<Rightarrow> sandbox_config \<Rightarrow> string \<Rightarrow> held list \<Rightarrow> session result \<times> held list" where
  "OpenClient os cancelled c scope rs = openSession os cancelled c (Scope [''host-client-v1'', scope]) False rs"

definition session_Close :: "('a) sandbox_os_scheme \<Rightarrow> session \<Rightarrow> held list \<Rightarrow> go_error option \<times> session \<times> held list" where
  "session_Close os s rs =
     (if \<not> sn_locked s then (None, s, rs)
      else
        (let (e1, rs1) = remove_file os (sn_policy s) rs;
             e1 = (case e1 of None \<Rightarrow> None | Some er \<Rightarrow> if errors_is er err_not_exist then None else Some er);
             (e2, rs2) = remove_tree os (sn_temp s) rs1;
             (e3, rs3) = Release os (lock_path (sn_control s)) rs2
         in (errors_join (errors_join e1 e2) e3, s\<lparr>sn_locked := False\<rparr>, rs3)))"

definition session_workspace :: "session \<Rightarrow> string" where
  "session_workspace s = filepath_join [sn_data s, ''workspace'']"

definition session_store :: "session \<Rightarrow> string" where
  "session_store s = filepath_join [sn_control s, ''native-session.json'']"

definition session_tool_home :: "session \<Rightarrow> string" where
  "session_tool_home s = filepath_join [sn_data s, ''home'']"

section \<open>The walks as quantifiers over ancestors\<close>

lemma gitWorktree_iff: "gitWorktree lstat dir \<longleftrightarrow> (\<exists>d \<in> set (walk_up dir). lstat (filepath_join [d, ''.git'']) \<noteq> None)"
proof (induction lstat dir rule: gitWorktree.induct)
  case (1 lstat dir)
  then show ?case by (subst gitWorktree.simps, subst walk_up.simps) (auto simp: Let_def)
qed

lemma shared_ancestor_iff: "shared_ancestor lstat dir \<longleftrightarrow> (\<exists>d \<in> set (walk_up dir). bad_ancestor (lstat d))"
proof (induction lstat dir rule: shared_ancestor.induct)
  case (1 lstat dir)
  then show ?case by (subst shared_ancestor.simps, subst walk_up.simps) auto
qed

lemma canonicalize_find:
  "canonicalize_from eval p dir =
     (case find (\<lambda>d. eval d \<noteq> None) (walk_up dir) of
        None \<Rightarrow> p
      | Some d \<Rightarrow> filepath_join [the (eval d), case filepath_rel d p of None \<Rightarrow> [] | Some r \<Rightarrow> r])"
proof (induction eval p dir rule: canonicalize_from.induct)
  case (1 eval p dir)
  then show ?case by (subst canonicalize_from.simps, subst walk_up.simps) (auto split: option.splits)
qed

lemma join_text: "list_all plain_comp xs \<Longrightarrow> plain_comp n \<Longrightarrow> filepath_join [path_text True xs, n] = path_text True (xs @ [n])"
proof -
  assume a: "list_all plain_comp xs" "plain_comp n"
  have st: "clean_stack True (rev xs)"
    using a(1) unfolding clean_stack_def by (intro exI [of _ "rev xs"] exI [of _ 0]) (simp add: list_all_iff)
  have t: "is_abs (path_text True xs)" "path_comps (path_text True xs) = xs" using path_text_comps [OF st] by simp_all
  have "filepath_join [path_text True xs, n] = filepath_clean (filepath_join [path_text True xs, n])"
    by (simp add: filepath_join_def path_text_def)
  then show ?thesis using path_comps_join_plain [OF t(1) a(2)] t(2) by (simp add: filepath_clean_def)
qed

lemma git_name [simp]: "plain_comp ''.git''"
  by (simp add: plain_comp_def slash_def)

definition git_free :: "(string \<Rightarrow> dir_info option) \<Rightarrow> string list \<Rightarrow> bool" where
  "git_free lstat cs = (\<forall>n \<le> length cs. lstat (path_text True (take n cs @ [''.git''])) = None)"

lemma set_ancestors: "set (ancestors cs) = (\<lambda>n. path_text True (take n cs)) ` {0..length cs}"
  by (simp only: ancestors_def set_map set_rev set_upt atLeastLessThanSuc_atLeastAtMost)

lemma gitWorktree_clean:
  assumes "is_abs p"
  shows "gitWorktree lstat (filepath_clean p) \<longleftrightarrow> \<not> git_free lstat (path_comps p)"
proof -
  have plain: "list_all plain_comp (take n (path_comps p))" for n
    using path_comps_rooted [OF assms] by (auto simp: list_all_iff dest: in_set_takeD)
  have "set (walk_up (filepath_clean p)) = (\<lambda>n. path_text True (take n (path_comps p))) ` {0..length (path_comps p)}"
    unfolding walk_up_clean [OF assms] by (rule set_ancestors)
  then show ?thesis unfolding gitWorktree_iff git_free_def using join_text [OF plain] by auto
qed

lemma shared_ancestor_clean:
  assumes "is_abs p" "filepath_clean p = p" "path_comps p \<noteq> []"
  shows "shared_ancestor lstat (filepath_dir p) \<longleftrightarrow>
    (\<exists>n < length (path_comps p). bad_ancestor (lstat (path_text True (take n (path_comps p)))))"
proof -
  obtain xs c where xc: "path_comps p = xs @ [c]" using assms(3) by (cases "path_comps p" rule: rev_cases) auto
  have "set (walk_up (filepath_dir p)) = (\<lambda>n. path_text True (take n xs)) ` {0..length xs}"
    unfolding walk_up_dir [OF assms] xc by (simp add: set_ancestors)
  then show ?thesis unfolding shared_ancestor_iff xc by (auto simp: less_Suc_eq_le)
qed

text \<open>
  The real location of a path that may not exist yet: the longest prefix that resolves, followed by
  the components below it; the path itself when nothing resolves.
\<close>

definition real_location :: "(string \<Rightarrow> string option) \<Rightarrow> string list \<Rightarrow> string list" where
  "real_location eval cs =
     (case find (\<lambda>n. eval (path_text True (take n cs)) \<noteq> None) (rev [0..<Suc (length cs)]) of
        None \<Rightarrow> cs
      | Some n \<Rightarrow> path_comps (the (eval (path_text True (take n cs)))) @ drop n cs)"

lemma find_map: "find P (map f xs) = map_option f (find (P \<circ> f) xs)"
  by (induction xs) auto

lemma strip_prefix: "strip_common xs (xs @ ts) = ([], ts)"
  by (induction xs) auto

lemma rel_ancestor:
  assumes "list_all plain_comp cs"
  shows "filepath_rel (path_text True (take n cs)) (path_text True cs) = Some (if drop n cs = [] then ''.'' else str_join [slash] (drop n cs))"
proof -
  have st: "clean_stack True (rev xs)" if "list_all plain_comp xs" for xs
    using that unfolding clean_stack_def by (intro exI [of _ "rev xs"] exI [of _ 0]) (simp add: list_all_iff)
  have pl: "list_all plain_comp (take n cs)" using assms by (auto simp: list_all_iff dest: in_set_takeD)
  have c: "path_comps (path_text True cs) = cs" "is_abs (path_text True cs)"
    "path_comps (path_text True (take n cs)) = take n cs" "is_abs (path_text True (take n cs))"
    using path_text_comps [OF st [OF assms]] path_text_comps [OF st [OF pl]] by simp_all
  have "strip_common (take n cs) cs = ([], drop n cs)"
    using strip_prefix [of "take n cs" "drop n cs"] by simp
  moreover have "take n cs = cs \<longleftrightarrow> drop n cs = []" by (metis append_take_drop_id append_self_conv)
  ultimately show ?thesis using c by (simp add: filepath_rel_def filepath_clean_eq_iff)
qed

lemma join_below:
  assumes "is_abs q" "list_all plain_comp ts"
  shows "path_comps (filepath_join [q, if ts = [] then ''.'' else str_join [slash] ts]) = path_comps q @ ts"
    and "is_abs (filepath_join [q, if ts = [] then ''.'' else str_join [slash] ts])"
    and "filepath_clean (filepath_join [q, if ts = [] then ''.'' else str_join [slash] ts]) = filepath_join [q, if ts = [] then ''.'' else str_join [slash] ts]"
proof -
  let ?t = "if ts = [] then ''.'' else str_join [slash] ts"
  have ne: "q \<noteq> []" "?t \<noteq> []"
    using assms plain_path_text(3) [of ts] by (auto simp: is_abs_def plain_path_def)
  have j: "filepath_join [q, ?t] = filepath_clean (q @ slash # ?t)" using ne by (simp add: filepath_join_def)
  have abs: "is_abs (q @ slash # ?t)" using assms(1) by (auto simp: is_abs_def split: list.splits)
  have sp: "str_split slash ?t = (if ts = [] then [''.''] else ts)"
    using plain_path_text(2) [of ts] assms(2) by (auto simp: plain_path_def slash_def str_split_none)
  show "is_abs (filepath_join [q, ?t])" using j abs by simp
  show "filepath_clean (filepath_join [q, ?t]) = filepath_join [q, ?t]" unfolding j by simp
  have "path_comps (q @ slash # ?t) = rev (foldl (clean_push True) (rev (path_comps q)) (if ts = [] then [''.''] else ts))"
    using assms(1) abs unfolding path_comps_def clean_comps_def split_append_slash sp by simp
  also have "\<dots> = path_comps q @ ts" using foldl_clean_plain [OF assms(2)] by simp
  finally show "path_comps (filepath_join [q, ?t]) = path_comps q @ ts" unfolding j by simp
qed

lemma canonicalExisting_location:
  assumes abs: "is_abs p" and eval: "\<And>d q. eval d = Some q \<Longrightarrow> is_abs q"
  shows "path_comps (canonicalExisting eval (filepath_clean p)) = real_location eval (path_comps p)"
    and "is_abs (canonicalExisting eval (filepath_clean p))"
    and "filepath_clean (canonicalExisting eval (filepath_clean p)) = canonicalExisting eval (filepath_clean p)"
proof -
  let ?cs = "path_comps p" and ?t = "\<lambda>n. path_text True (take n (path_comps p))"
  have plain: "list_all plain_comp ?cs" by (rule path_comps_rooted [OF abs])
  have p: "filepath_clean p = path_text True ?cs" using abs by (simp add: filepath_clean_def)
  have f: "find (\<lambda>d. eval d \<noteq> None) (walk_up (filepath_clean p)) =
      map_option ?t (find (\<lambda>n. eval (?t n) \<noteq> None) (rev [0..<Suc (length ?cs)]))"
    unfolding walk_up_clean [OF abs] ancestors_def find_map comp_def ..
  let ?goal = "\<lambda>x. path_comps x = real_location eval ?cs \<and> is_abs x \<and> filepath_clean x = x"
  have "?goal (canonicalExisting eval (filepath_clean p))"
  proof (cases "find (\<lambda>n. eval (?t n) \<noteq> None) (rev [0..<Suc (length ?cs)])")
    case None
    then show ?thesis
      using f abs unfolding canonicalExisting_def canonicalize_find real_location_def by simp
  next
    case (Some n)
    then have "eval (?t n) \<noteq> None" unfolding find_Some_iff by blast
    then obtain q where q: "eval (?t n) = Some q" by blast
    have pl: "list_all plain_comp (drop n ?cs)" using plain by (auto simp: list_all_iff dest: in_set_dropD)
    have "canonicalExisting eval (filepath_clean p) =
        filepath_join [q, if drop n ?cs = [] then ''.'' else str_join [slash] (drop n ?cs)]"
      unfolding canonicalExisting_def canonicalize_find f Some using rel_ancestor [OF plain, of n] q p by simp
    then show ?thesis using join_below [OF eval [OF q] pl] Some q unfolding real_location_def by simp
  qed
  then show "path_comps (canonicalExisting eval (filepath_clean p)) = real_location eval (path_comps p)"
    "is_abs (canonicalExisting eval (filepath_clean p))"
    "filepath_clean (canonicalExisting eval (filepath_clean p)) = canonicalExisting eval (filepath_clean p)" by blast+
qed

end
