(* ===== verification/Provider_Config.thy ===== *)
theory Provider_Config
  imports Sandbox_Session Delegation_Broker
begin

text \<open>
  The configuration of a native provider (\<open>ProviderConfig\<close> of \<open>pkg/adapters/types.go\<close>) and the
  validation of its isolation: \<open>pkg/adapters/isolation.go\<close>, \<open>host_auth_gate.go\<close> and the environment of
  the client in \<open>native_tool_policy.go\<close>.
\<close>

record provider_config =
  pc_bound_tools :: "bound_tool list"
  pc_bound_digest :: string
  pc_isolation :: sandbox_config
  pc_auth_concurrency :: string
  pc_session :: "session option"
  pc_targets :: "string list"
  pc_proxy_bin :: string
  pc_broker_root :: string
  pc_socket :: string
  pc_version :: string
  pc_provider :: string
  pc_bin :: string
  pc_workspace :: string
  pc_model :: string
  pc_sandbox :: string
  pc_permission :: string
  pc_allowed_tools :: "string list"
  pc_timeout :: int
  pc_reuse :: bool
  pc_store :: string
  pc_web_search :: bool
  pc_codex_approval :: string
  pc_codex_url :: string
  pc_claude_url :: string
  pc_env :: "string list option"
  pc_env_allowlist :: "string list"
  pc_profile :: string

definition empty_provider :: provider_config where
  "empty_provider = \<lparr>pc_bound_tools = [], pc_bound_digest = [], pc_isolation = empty_sandbox, pc_auth_concurrency = [],
     pc_session = None, pc_targets = [], pc_proxy_bin = [], pc_broker_root = [], pc_socket = [], pc_version = [],
     pc_provider = [], pc_bin = [], pc_workspace = [], pc_model = [], pc_sandbox = [], pc_permission = [], pc_allowed_tools = [],
     pc_timeout = 0, pc_reuse = False, pc_store = [], pc_web_search = False, pc_codex_approval = [], pc_codex_url = [],
     pc_claude_url = [], pc_env = None, pc_env_allowlist = [], pc_profile = []\<rparr>"

definition appendUniqueString :: "string list \<Rightarrow> string \<Rightarrow> string list" where
  "appendUniqueString xs x = (if x \<in> set xs then xs else xs @ [x])"

section \<open>Validation\<close>

definition validateHostAuthConcurrency :: "provider_config \<Rightarrow> go_error option" where
  "validateHostAuthConcurrency c =
     (if pc_auth_concurrency c = [] then None
      else if \<not> Enabled (pc_isolation c) then Some (ErrNew ''HOST_AUTH_CONCURRENCY requires SESSION_ISOLATION=native'')
      else if pc_auth_concurrency c \<noteq> ''serial'' \<and> pc_auth_concurrency c \<noteq> ''client-managed''
      then Some (ErrNew ''HOST_AUTH_CONCURRENCY must be serial or client-managed'')
      else None)"

definition validateIsolatedModelEndpoint :: "provider_config \<Rightarrow> go_error option" where
  "validateIsolatedModelEndpoint c =
     (let endpoint = (if pc_provider c = ''claude'' then pc_claude_url c else pc_codex_url c)
      in if endpoint = [] then None else ValidateModelEndpoint endpoint)"

definition native_tools :: "string list" where
  "native_tools = [''Read'', ''Edit'', ''Write'', ''Glob'', ''Grep'', ''Bash'']"

definition validateSessionIsolation :: "host \<Rightarrow> provider_config \<Rightarrow> go_error option" where
  "validateSessionIsolation h c =
     (case validateHostAuthConcurrency c of
        Some er \<Rightarrow> Some er
      | None \<Rightarrow>
          (case Validate h (pc_isolation c) of
             Some er \<Rightarrow> Some er
           | None \<Rightarrow>
               if \<not> Enabled (pc_isolation c) then None
               else
                 (case validateIsolatedModelEndpoint c of
                    Some er \<Rightarrow> Some er
                  | None \<Rightarrow>
                      if sc_runtime_bin (pc_isolation c) \<noteq> []
                      then Some (ErrNew ''host-auth native isolation uses the installed client sandbox; remove SESSION_SANDBOX_BIN'')
                      else if \<not> pc_reuse c then Some (ErrNew ''native session isolation requires SESSION_REUSE=true'')
                      else if pc_store c \<noteq> []
                      then Some (ErrNew ''native isolation owns per-session maps; remove the legacy SESSION_STORE override'')
                      else if pc_targets c \<noteq> [] \<or> pc_socket c \<noteq> []
                      then Some (ErrNew ''native isolation does not expose host delegation sockets'')
                      else if pc_env_allowlist c \<noteq> []
                      then Some (ErrNew ''native isolation uses a fixed host-client environment allowlist; remove ENV_ALLOWLIST'')
                      else if list_ex (\<lambda>t. t \<notin> set native_tools) (pc_allowed_tools c)
                      then Some (ErrNew ''native Claude ALLOWED_TOOLS must be Read/Edit/Write/Glob/Grep/Bash; use WEB_SEARCH for search'')
                      else None)))"

lemma validated_isolation:
  assumes "validateSessionIsolation h c = None" "Enabled (pc_isolation c)"
  shows "Validate h (pc_isolation c) = None \<and> pc_reuse c \<and> pc_store c = [] \<and> pc_targets c = [] \<and> pc_socket c = []
     \<and> pc_env_allowlist c = [] \<and> sc_runtime_bin (pc_isolation c) = [] \<and> set (pc_allowed_tools c) \<subseteq> set native_tools"
  using assms by (auto simp: validateSessionIsolation_def list_ex_iff split: option.splits if_splits)

section \<open>The environment of the client\<close>

definition client_names :: "string \<Rightarrow> string list" where
  "client_names provider =
     [''HOME'', ''PATH'', ''HTTP_PROXY'', ''HTTPS_PROXY'', ''NO_PROXY'', ''ALL_PROXY'', ''SSL_CERT_FILE''] @
     (if provider = ''claude''
      then [''CLAUDE_CONFIG_DIR'', ''ANTHROPIC_API_KEY'', ''ANTHROPIC_AUTH_TOKEN'', ''ANTHROPIC_BASE_URL'', ''NODE_EXTRA_CA_CERTS'']
      else [''CODEX_HOME'', ''CODEX_API_KEY'', ''OPENAI_API_KEY'', ''CODEX_CA_CERTIFICATE''])"

text \<open>A map of names to values, sorted by name; a missing name reads as the empty string.\<close>

type_synonym env_map = "(string \<times> string) list"

definition env_get :: "env_map \<Rightarrow> string \<Rightarrow> string" where
  "env_get m k = (case map_of m k of None \<Rightarrow> [] | Some v \<Rightarrow> v)"

fun collect_env :: "string list \<Rightarrow> string list \<Rightarrow> env_map \<Rightarrow> env_map option" where
  "collect_env names [] m = Some m"
| "collect_env names (item # items) m =
     (case str_cut CHR ''='' item of (k, v, ok) \<Rightarrow>
        if ok \<and> k \<in> set names
        then (if contains_any v [CHR 0x0D, CHR 0x0A, CHR 0x00] then None else collect_env names items (obj_put k v m))
        else collect_env names items m)"

text \<open>\<open>sort.Strings\<close> of the entries.\<close>

fun insert_str :: "string \<Rightarrow> string list \<Rightarrow> string list" where
  "insert_str x [] = [x]"
| "insert_str x (y # ys) = (if str_le x y then x # y # ys else y # insert_str x ys)"

definition environmentMap :: "env_map \<Rightarrow> string list" where
  "environmentMap m = foldr insert_str (map (\<lambda>(k, v). k @ ''='' @ v) m) []"

text \<open>\<open>ambient\<close> is \<open>os.Environ\<close>, read when the configuration has no environment of its own.\<close>

definition client_values :: "string list \<Rightarrow> provider_config \<Rightarrow> env_map result" where
  "client_values ambient c =
     (case collect_env (client_names (pc_provider c)) (case pc_env c of None \<Rightarrow> ambient | Some e \<Rightarrow> e) [] of
        None \<Rightarrow> Inl (ErrNew ''invalid native client environment'')
      | Some m \<Rightarrow>
          if \<not> is_abs (env_get m ''HOME'') then Inl (ErrNew ''host-auth isolation requires the existing client's absolute HOME'')
          else
            (let m1 = (if env_get m ''PATH'' = [] then obj_put ''PATH'' ''/usr/bin:/bin:/usr/sbin:/sbin'' m else m)
             in if list_ex (\<lambda>k. env_get m1 k \<noteq> [] \<and> \<not> is_abs (env_get m1 k)) [''CODEX_HOME'', ''CLAUDE_CONFIG_DIR'']
                then Inl (ErrNew ''native client configuration directories must be absolute'')
                else
                  (let m2 = (if pc_provider c = ''claude'' \<and> pc_claude_url c \<noteq> [] then obj_put ''ANTHROPIC_BASE_URL'' (pc_claude_url c) m1 else m1)
                   in Inr (obj_put ''LC_ALL'' ''C'' (obj_put ''LANG'' ''C'' m2)))))"

definition nativeClientEnvironment :: "string list \<Rightarrow> provider_config \<Rightarrow> string list result" where
  "nativeClientEnvironment ambient c =
     (case client_values ambient c of Inl er \<Rightarrow> Inl er | Inr m \<Rightarrow> Inr (environmentMap m))"

section \<open>What the client sees of the host\<close>

lemma set_obj_put: "set (obj_put k v m) \<subseteq> insert (k, v) (set m)"
  by (induction k v m rule: obj_put.induct) auto

lemma set_insert_str: "set (insert_str x xs) = insert x (set xs)"
  by (induction x xs rule: insert_str.induct) auto

lemma set_environmentMap: "set (environmentMap m) = (\<lambda>(k, v). k @ ''='' @ v) ` set m"
proof -
  have "set (foldr insert_str xs []) = set xs" for xs
    by (induction xs) (auto simp: set_insert_str)
  then show ?thesis by (simp add: environmentMap_def)
qed

lemma collect_env_from:
  assumes "collect_env names items m = Some m'" and "(k, v) \<in> set m'"
  shows "(k, v) \<in> set m \<or> (k \<in> set names \<and> k @ ''='' @ v \<in> set items)"
  using assms
proof (induction items arbitrary: m)
  case (Cons item items)
  obtain a b f where c: "str_cut CHR ''='' item = (a, b, f)" by (metis prod_cases3)
  show ?case
  proof (cases "f \<and> a \<in> set names")
    case True
    then have "item = a @ CHR ''='' # b" using c str_cut_found by fastforce
    then show ?thesis
      using Cons c True set_obj_put [of a b m] by (fastforce split: if_splits)
  next
    case False
    then show ?thesis using Cons.IH [of m] Cons.prems c by auto
  qed
qed simp

lemma client_environment_entries:
  assumes "nativeClientEnvironment ambient c = Inr env" and "e \<in> set env"
  shows "(\<exists>k \<in> set (client_names (pc_provider c)). has_prefix e (k @ ''='') \<and> e \<in> set (case pc_env c of None \<Rightarrow> ambient | Some x \<Rightarrow> x))
    \<or> e \<in> {''PATH=/usr/bin:/bin:/usr/sbin:/sbin'', ''LANG=C'', ''LC_ALL=C''} \<or> (pc_provider c = ''claude'' \<and> e = ''ANTHROPIC_BASE_URL='' @ pc_claude_url c)"
proof -
  obtain m where m: "client_values ambient c = Inr m" "env = environmentMap m"
    using assms(1) by (auto simp: nativeClientEnvironment_def split: sum.splits)
  obtain k v where kv: "(k, v) \<in> set m" "e = k @ ''='' @ v" using assms(2) m(2) set_environmentMap by auto
  obtain m0 where m0: "collect_env (client_names (pc_provider c)) (case pc_env c of None \<Rightarrow> ambient | Some x \<Rightarrow> x) [] = Some m0"
    using m(1) by (auto simp: client_values_def split: option.splits)
  have "(k, v) \<in> set m0 \<or> (k, v) \<in> {(''PATH'', ''/usr/bin:/bin:/usr/sbin:/sbin''), (''LANG'', ''C''), (''LC_ALL'', ''C'')}
      \<or> (pc_provider c = ''claude'' \<and> (k, v) = (''ANTHROPIC_BASE_URL'', pc_claude_url c))"
    using m(1) m0 kv(1)
    by (auto simp: client_values_def Let_def split: if_splits dest!: subsetD [OF set_obj_put])
  moreover have "has_prefix e (k @ ''='')" by (auto simp: kv(2) has_prefix_iff)
  ultimately show ?thesis using collect_env_from [OF m0, of k v] kv(2) by auto
qed

end
