(* ===== verification/Helper_Server.thy ===== *)
theory Helper_Server
  imports Go_Http
begin

text \<open>
  The local helper server of command and HTTP adapters: \<open>internal/agentnode/helper_server.go\<close>,
  with \<open>DecodeStrictJSON\<close> of \<open>pkg/adapters/appfiles/files.go\<close> and
  \<open>internal/agentnode/runtime_bridge_util.go\<close>. A session is a token with the Run it belongs to;
  a handler gives its response and the effects it has on the Run. The random tokens are chosen
  by the environment and fresh. The texts of errors of \<open>encoding/json\<close> are not modelled.
\<close>

section \<open>Strict JSON\<close>

definition json_error :: go_error where
  "json_error = ErrSentinel ''encoding/json''"

definition DecodeStrictJSON :: "'r field list \<Rightarrow> 'r \<Rightarrow> string \<Rightarrow> 'r result" where
  "DecodeStrictJSON fs zero raw =
     (case parse_value (2 * length raw + 2) raw of
        None \<Rightarrow> Inl json_error
      | Some (v, rest) \<Rightarrow>
          (case decode_struct True fs zero v of
             None \<Rightarrow> Inl json_error
           | Some r \<Rightarrow>
               if skip_ws rest = [] then Inr r
               else if parse_value (2 * length rest + 2) rest = None then Inl json_error
               else Inl (ErrNew ''unexpected trailing JSON value'')))"

section \<open>Keys and errors\<close>

definition printable :: "char \<Rightarrow> bool" where
  "printable c = (32 \<le> byte c \<and> byte c \<le> 126)"

definition validateDelegatedIdempotencyKey :: "string \<Rightarrow> go_error option" where
  "validateDelegatedIdempotencyKey key =
     (let bad = ErrNew ''idempotency key must contain 1 to 255 printable ASCII bytes without surrounding spaces''
      in if key = [] then Some (ErrNew ''idempotency key is required for delegated Agent calls'')
         else if 255 < length key \<or> hd key = CHR '' '' \<or> List.last key = CHR '' '' then Some bad
         else if list_ex (\<lambda>c. \<not> printable c) key then Some bad else None)"

definition scrubRuntimeError :: "go_error \<Rightarrow> go_error" where
  "scrubRuntimeError er =
     (case errors_as_runtime er of
        None \<Rightarrow> er
      | Some (code, status, _) \<Rightarrow> ErrNew (code @ '' (HTTP '' @ itoa status @ '')''))"

section \<open>Sessions\<close>

datatype event_sink = Checked "string \<Rightarrow> json \<Rightarrow> go_error option" | Unchecked | NoSink

record call_options =
  co_key :: string
  co_reason :: string
  co_metadata :: json

record helper_session =
  hs_run :: string
  hs_sink :: event_sink
  hs_call :: "string \<Rightarrow> json \<Rightarrow> call_options \<Rightarrow> json result"

text \<open>
  The server with the sessions it holds. \<open>hp_issued\<close> and \<open>hp_revoked\<close> record which tokens were
  given to which Run and which were withdrawn.
\<close>

record helper_state =
  hp_base :: string
  hp_sessions :: "(string \<times> helper_session) list"
  hp_issued :: "(string \<times> string) list"
  hp_revoked :: "string list"

record helper_info =
  hi_base :: string
  hi_token :: string
  hi_authorization :: string
  hi_call_url :: string
  hi_events_url :: string

text \<open>
  \<open>Start\<close>: \<open>listen\<close> is \<open>net.Listen\<close> on an address, with the IP address in text form and the port that
  were bound. The default of the host is settled here; the map of sessions is only made when there is none.
\<close>

definition StartHelper ::
  "(string \<Rightarrow> (string \<times> int) result) \<Rightarrow> string \<Rightarrow> int \<Rightarrow> helper_state \<Rightarrow> go_error option \<times> helper_state" where
  "StartHelper listen hostname port st =
     (case listen ((if hostname = [] then ''127.0.0.1'' else hostname) @ '':'' @ itoa port) of
        Inl er \<Rightarrow> (Some er, st)
      | Inr (ip, bound) \<Rightarrow> (None, st\<lparr>hp_base := ''http://'' @ ip @ '':'' @ itoa bound\<rparr>))"

definition CreateSession :: "string \<Rightarrow> helper_session \<Rightarrow> helper_state \<Rightarrow> helper_info \<times> helper_state" where
  "CreateSession random session st =
     (let token = ''olh_'' @ random
      in (\<lparr>hi_base = hp_base st, hi_token = token, hi_authorization = ''Bearer '' @ token,
           hi_call_url = hp_base st @ ''/a2a/call'', hi_events_url = hp_base st @ ''/events''\<rparr>,
          st\<lparr>hp_sessions := assoc_set token session (hp_sessions st),
             hp_issued := (token, hs_run session) # hp_issued st\<rparr>))"

definition CloseSession :: "string \<Rightarrow> helper_state \<Rightarrow> helper_state" where
  "CloseSession token st =
     st\<lparr>hp_sessions := assoc_del token (hp_sessions st), hp_revoked := token # hp_revoked st\<rparr>"

definition StopHelper :: "helper_state \<Rightarrow> helper_state" where
  "StopHelper st = st\<lparr>hp_sessions := [], hp_revoked := map fst (hp_issued st) @ hp_revoked st\<rparr>"

section \<open>Handlers\<close>

definition maxHelperBodyBytes :: nat where
  "maxHelperBodyBytes = 1024 * 1024"

definition helper_token :: "http_request \<Rightarrow> string" where
  "helper_token r =
     (let auth = header_get ''authorization'' (rq_headers r);
          token = (if has_prefix (to_lower auth) ''bearer '' then trim_space (drop 7 auth) else [])
      in if token = [] then header_get ''x-openlinker-agent-node-token'' (rq_headers r) else token)"

definition authenticate :: "helper_state \<Rightarrow> http_request \<Rightarrow> helper_session option" where
  "authenticate st r =
     (let token = helper_token r in if token = [] then None else map_of (hp_sessions st) token)"

definition writeJSON :: "nat \<Rightarrow> json \<Rightarrow> response_act list" where
  "writeJSON status v = json_response ''application/json'' status v"

definition error_json :: "nat \<Rightarrow> string \<Rightarrow> string \<Rightarrow> response_act list" where
  "error_json status code message =
     writeJSON status (JObj [(''error'', JObj [(''code'', JStr code), (''message'', JStr message)])])"

definition decodeHelperJSON :: "'r field list \<Rightarrow> 'r \<Rightarrow> request_body \<Rightarrow> 'r result" where
  "decodeHelperJSON fs zero body =
     (case body of
        BodyError \<Rightarrow> Inl (ErrNew ''request body could not be read'')
      | NoBody \<Rightarrow> DecodeStrictJSON fs zero []
      | BodyBytes raw \<Rightarrow>
          if maxHelperBodyBytes < length raw then Inl (ErrNew ''request body exceeds 1048576 bytes'')
          else DecodeStrictJSON fs zero raw)"

datatype helper_effect =
    Emitted string string json
  | Called string string json call_options

type_synonym helped = "response_act list \<times> helper_effect list"

record event_body =
  eb_run :: string
  eb_type :: string
  eb_payload :: json

definition event_fields :: "event_body field list" where
  "event_fields =
     [(''run_id'', f_string (\<lambda>x r. r\<lparr>eb_run := x\<rparr>)), (''event_type'', f_string (\<lambda>x r. r\<lparr>eb_type := x\<rparr>)),
      (''payload'', f_any (\<lambda>x r. r\<lparr>eb_payload := x\<rparr>))]"

definition zero_event :: event_body where
  "zero_event = \<lparr>eb_run = [], eb_type = [], eb_payload = JNull\<rparr>"

definition deliver_event :: "helper_session \<Rightarrow> event_body \<Rightarrow> helped" where
  "deliver_event session body =
     (let run = hs_run session; ok = writeJSON 200 (JObj [(''ok'', JBool True), (''run_id'', JStr run)]);
          effect = Emitted run (eb_type body) (eb_payload body)
      in case hs_sink session of
           Checked emit \<Rightarrow>
             (case emit (eb_type body) (eb_payload body) of
                Some er \<Rightarrow> (error_json 422 ''EVENT_REJECTED'' (err_text (scrubRuntimeError er)), [effect])
              | None \<Rightarrow> (ok, [effect]))
         | Unchecked \<Rightarrow> (ok, [effect])
         | NoSink \<Rightarrow> (error_json 503 ''EVENT_UNAVAILABLE'' ''event sink is unavailable'', []))"

definition handleEvent :: "helper_state \<Rightarrow> http_request \<Rightarrow> helped" where
  "handleEvent st r =
     (if rq_method r \<noteq> ''POST'' then (error_json 405 ''METHOD_NOT_ALLOWED'' ''method not allowed'', [])
      else
        (case authenticate st r of
           None \<Rightarrow> (error_json 401 ''UNAUTHORIZED'' ''invalid helper token'', [])
         | Some session \<Rightarrow>
             (case decodeHelperJSON event_fields zero_event (rq_body r) of
                Inl er \<Rightarrow> (error_json 400 ''INVALID_JSON'' (err_text er), [])
              | Inr body \<Rightarrow>
                  if eb_run body \<noteq> [] \<and> eb_run body \<noteq> hs_run session
                  then (error_json 409 ''RUN_MISMATCH'' ''helper token belongs to a different run'', [])
                  else if eb_type body = [] then (error_json 400 ''INVALID_EVENT'' ''event_type is required'', [])
                  else deliver_event session body)))"

record call_body =
  cb_run :: string
  cb_target :: string
  cb_key :: string
  cb_reason :: string
  cb_input :: json
  cb_metadata :: json

definition call_fields :: "call_body field list" where
  "call_fields =
     [(''run_id'', f_string (\<lambda>x r. r\<lparr>cb_run := x\<rparr>)), (''target_agent_id'', f_string (\<lambda>x r. r\<lparr>cb_target := x\<rparr>)),
      (''idempotency_key'', f_string (\<lambda>x r. r\<lparr>cb_key := x\<rparr>)), (''reason'', f_string (\<lambda>x r. r\<lparr>cb_reason := x\<rparr>)),
      (''input'', f_any (\<lambda>x r. r\<lparr>cb_input := x\<rparr>)), (''metadata'', f_any (\<lambda>x r. r\<lparr>cb_metadata := x\<rparr>))]"

definition zero_call :: call_body where
  "zero_call = \<lparr>cb_run = [], cb_target = [], cb_key = [], cb_reason = [], cb_input = JNull, cb_metadata = JNull\<rparr>"

definition deliver_call :: "helper_session \<Rightarrow> call_body \<Rightarrow> helped" where
  "deliver_call session body =
     (let options = \<lparr>co_key = cb_key body, co_reason = cb_reason body, co_metadata = cb_metadata body\<rparr>;
          effect = Called (hs_run session) (cb_target body) (cb_input body) options
      in case hs_call session (cb_target body) (cb_input body) options of
           Inl er \<Rightarrow> (error_json 502 ''A2A_CALL_FAILED'' (err_text er), [effect])
         | Inr result \<Rightarrow> (writeJSON 200 result, [effect]))"

definition handleCallAgent :: "helper_state \<Rightarrow> http_request \<Rightarrow> helped" where
  "handleCallAgent st r =
     (if rq_method r \<noteq> ''POST'' then (error_json 405 ''METHOD_NOT_ALLOWED'' ''method not allowed'', [])
      else
        (case authenticate st r of
           None \<Rightarrow> (error_json 401 ''UNAUTHORIZED'' ''invalid helper token'', [])
         | Some session \<Rightarrow>
             (case decodeHelperJSON call_fields zero_call (rq_body r) of
                Inl er \<Rightarrow> (error_json 400 ''INVALID_JSON'' (err_text er), [])
              | Inr body \<Rightarrow>
                  if cb_run body \<noteq> [] \<and> cb_run body \<noteq> hs_run session
                  then (error_json 409 ''RUN_MISMATCH'' ''helper token belongs to a different run'', [])
                  else if cb_target body = []
                  then (error_json 400 ''INVALID_TARGET_AGENT'' ''target_agent_id is required'', [])
                  else
                    (case validateDelegatedIdempotencyKey (cb_key body) of
                       Some er \<Rightarrow> (error_json 400 ''INVALID_IDEMPOTENCY_KEY'' (err_text er), [])
                     | None \<Rightarrow> deliver_call session body))))"

text \<open>The mux of \<open>Start\<close>; any other path is Go's 404.\<close>

definition serve_helper :: "helper_state \<Rightarrow> http_request \<Rightarrow> helped" where
  "serve_helper st r =
     (if rq_path r = ''/a2a/call'' then handleCallAgent st r
      else if rq_path r = ''/events'' then handleEvent st r
      else ([Status 404], []))"

section \<open>Histories of sessions\<close>

inductive helper_step :: "helper_state \<Rightarrow> helper_state \<Rightarrow> bool" where
  create: "''olh_'' @ random \<notin> fst ` set (hp_issued st) \<Longrightarrow> helper_step st (snd (CreateSession random session st))"
| close: "token \<in> fst ` set (hp_issued st) \<Longrightarrow> helper_step st (CloseSession token st)"
| stop: "helper_step st (StopHelper st)"
| start: "helper_step st (snd (StartHelper listen hostname port st))"

definition init_helper :: "string \<Rightarrow> helper_state" where
  "init_helper base = \<lparr>hp_base = base, hp_sessions = [], hp_issued = [], hp_revoked = []\<rparr>"

definition helper_inv :: "helper_state \<Rightarrow> bool" where
  "helper_inv st =
     ((\<forall>t s. map_of (hp_sessions st) t = Some s \<longrightarrow> map_of (hp_issued st) t = Some (hs_run s) \<and> t \<notin> set (hp_revoked st))
      \<and> set (hp_revoked st) \<subseteq> fst ` set (hp_issued st))"

lemma StartHelper_keeps [simp]:
  "hp_sessions (snd (StartHelper listen hostname port st)) = hp_sessions st"
  "hp_issued (snd (StartHelper listen hostname port st)) = hp_issued st"
  "hp_revoked (snd (StartHelper listen hostname port st)) = hp_revoked st"
  by (auto simp: StartHelper_def split: sum.split)

lemma helper_step_inv: "helper_step st st' \<Longrightarrow> helper_inv st \<Longrightarrow> helper_inv st'"
proof (induction rule: helper_step.induct)
  case (create random st session)
  then show ?case by (auto simp: helper_inv_def CreateSession_def Let_def split: if_splits)
next
  case (close token st)
  then show ?case by (auto simp: helper_inv_def CloseSession_def split: if_splits)
next
  case (stop st)
  then show ?case by (auto simp: helper_inv_def StopHelper_def)
next
  case (start st listen hostname port)
  then show ?case by (simp add: helper_inv_def)
qed

lemma helper_reachable_inv: "helper_step\<^sup>*\<^sup>* (init_helper base) st \<Longrightarrow> helper_inv st"
proof (induction rule: rtranclp_induct)
  case base
  show ?case by (simp add: helper_inv_def init_helper_def)
next
  case (step y z)
  then show ?case by (blast intro: helper_step_inv)
qed

section \<open>Effects\<close>

fun effect_run :: "helper_effect \<Rightarrow> string" where
  "effect_run (Emitted run _ _) = run"
| "effect_run (Called run _ _ _) = run"

fun effect_ok :: "helper_effect \<Rightarrow> bool" where
  "effect_ok (Emitted run ty _) = (ty \<noteq> [])"
| "effect_ok (Called run target _ options) = (target \<noteq> [] \<and> validateDelegatedIdempotencyKey (co_key options) = None)"

lemma deliver_event_effect: "x \<in> set (snd (deliver_event s b)) \<Longrightarrow> x = Emitted (hs_run s) (eb_type b) (eb_payload b)"
  by (auto simp: deliver_event_def Let_def split: event_sink.splits option.splits)

lemma deliver_call_effect:
  "snd (deliver_call s b) = [Called (hs_run s) (cb_target b) (cb_input b)
     \<lparr>co_key = cb_key b, co_reason = cb_reason b, co_metadata = cb_metadata b\<rparr>]"
  by (auto simp: deliver_call_def Let_def split: sum.splits)

lemma serve_effect:
  assumes "x \<in> set (snd (serve_helper st r))"
  shows "\<exists>s. authenticate st r = Some s \<and> effect_run x = hs_run s \<and> effect_ok x \<and> rq_method r = ''POST''"
  using assms
  by (auto simp: serve_helper_def handleEvent_def handleCallAgent_def deliver_call_effect
      split: if_splits option.splits sum.splits dest!: deliver_event_effect)

interpretation helper: guarded_server "\<lambda>st r. authenticate st r \<noteq> None" "\<lambda>st r. snd (serve_helper st r)"
proof
  fix st r assume denied: "\<not> authenticate st r \<noteq> None"
  show "snd (serve_helper st r) = []"
    using serve_effect [of _ st r] denied by (cases "snd (serve_helper st r)") auto
qed

lemma key_printable:
  "validateDelegatedIdempotencyKey k = None \<longleftrightarrow>
   0 < length k \<and> length k \<le> 255 \<and> list_all printable k \<and> hd k \<noteq> CHR '' '' \<and> List.last k \<noteq> CHR '' ''"
  by (auto simp: validateDelegatedIdempotencyKey_def Let_def list_all_iff list_ex_iff)

section \<open>Properties\<close>


definition demo_session :: helper_session where
  "demo_session = \<lparr>hs_run = ''run-1'', hs_sink = Unchecked, hs_call = (\<lambda>_ _ _. Inr JNull)\<rparr>"

definition demo_event :: http_request where
  "demo_event = \<lparr>rq_method = ''POST'', rq_path = ''/events'', rq_headers = [(''Authorization'', [''bearer olh_abc''])],
     rq_body = BodyBytes (json_marshal (JObj [(''event_type'', JStr ''run.note'')]))\<rparr>"


section \<open>The address of the helper\<close>

text \<open>
  The URLs handed to a Run carry the bound address as it is printed. For an IPv6 address they lack the
  brackets a URL needs, so that the address and the port cannot be told apart.
\<close>

lemma helper_address_plain:
  assumes "StartHelper listen hostname port st = (None, st')" "listen ((if hostname = [] then ''127.0.0.1'' else hostname) @ '':'' @ itoa port) = Inr (ip, bound)"
  shows "hi_call_url (fst (CreateSession random session st')) = ''http://'' @ ip @ '':'' @ itoa bound @ ''/a2a/call''"
  using assms by (auto simp: StartHelper_def CreateSession_def Let_def)

lemma helper_address_ipv6:
  "hp_base (snd (StartHelper (\<lambda>_. Inr (''::1'', 8080)) ''[::1]'' 8080 st)) = ''http://::1:8080''"
proof -
  have "itoa 8080 = ''8080''" by (simp add: itoa_def itoa_nat.simps digit_char_def char_of_def bit_0)
  then show ?thesis by (simp add: StartHelper_def)
qed

end
