(* ===== verification/Node_Config.thy ===== *)
theory Node_Config
  imports Provider_Config Helper_Server
begin

text \<open>
  The Node's configuration: \<open>internal/agentnode/config.go\<close>, \<open>session_isolation.go\<close>,
  \<open>configuration_report.go\<close> and the option parsers of \<open>util.go\<close>. The environment is a function from
  names to values; the defaults and normalisations of the Go SDK are a record of parameters.
\<close>

type_synonym env_lookup = "string \<Rightarrow> string"

record sdk =
  sdk_capacity :: int
  sdk_claim_wait :: int
  sdk_command_wait :: int
  sdk_heartbeat :: int
  sdk_retry_min :: int
  sdk_retry_max :: int
  sdk_transport_auto :: string
  sdk_method_send :: string
  sdk_method_for :: "string \<Rightarrow> string \<Rightarrow> string"
  sdk_dialect :: "string \<Rightarrow> string"

section \<open>Options\<close>

definition on_words :: "string list" where
  "on_words = [''1'', ''true'', ''yes'', ''on'']"

definition off_words :: "string list" where
  "off_words = [''0'', ''false'', ''no'', ''off'']"

definition boolOption :: "string \<Rightarrow> bool \<Rightarrow> bool" where
  "boolOption raw fallback =
     (if raw = [] then fallback
      else if to_lower raw \<in> set on_words then True
      else if to_lower raw \<in> set off_words then False else fallback)"

definition numberOption :: "string \<Rightarrow> int \<Rightarrow> string \<Rightarrow> int result" where
  "numberOption raw fallback label =
     (if raw = [] then Inr fallback
      else
        (case atoi raw of
           None \<Rightarrow> Inl (ErrNew (label @ '' must be a non-negative integer''))
         | Some v \<Rightarrow> if v < 0 then Inl (ErrNew (label @ '' must be a non-negative integer'')) else Inr v))"

definition defaultString :: "string \<Rightarrow> string \<Rightarrow> string" where
  "defaultString v fallback = (if v = [] then fallback else v)"

definition parseJSONStringArray :: "string \<Rightarrow> string \<Rightarrow> string list result" where
  "parseJSONStringArray raw label =
     (if raw = [] then Inr []
      else
        (case Option.bind (json_parse raw) (f_strings (\<lambda>x _. x) []) of
           None \<Rightarrow> Inl (ErrWrap (label @ '' must be valid JSON string array: '') json_error [])
         | Some xs \<Rightarrow> Inr xs))"

fun string_entries :: "(string \<times> json) list \<Rightarrow> (string \<times> string) list \<Rightarrow> (string \<times> string) list option" where
  "string_entries [] acc = Some acc"
| "string_entries ((k, v) # kvs) acc =
     (case v of
        JStr s \<Rightarrow> string_entries kvs (obj_put k s acc)
      | JNull \<Rightarrow> string_entries kvs (obj_put k [] acc)
      | _ \<Rightarrow> None)"

definition parseJSONMap :: "string \<Rightarrow> string \<Rightarrow> (string \<times> string) list result" where
  "parseJSONMap raw label =
     (if raw = [] then Inr []
      else
        (case Option.bind (json_parse raw) (\<lambda>v. case v of JNull \<Rightarrow> Some [] | JObj kvs \<Rightarrow> string_entries kvs [] | _ \<Rightarrow> None) of
           None \<Rightarrow> Inl (ErrWrap (label @ '' must be valid JSON object: '') json_error [])
         | Some m \<Rightarrow> Inr m))"

definition parseCommaList :: "string \<Rightarrow> string list" where
  "parseCommaList raw = filter (\<lambda>x. x \<noteq> []) (map trim_space (str_split CHR '','' raw))"

text \<open>\<open>time.Duration(v) * unit\<close> on 64 bits, in nanoseconds.\<close>

definition duration :: "int \<Rightarrow> int \<Rightarrow> int" where
  "duration v unit = sint (of_int v * of_int unit :: 64 word)"

definition second_ns :: int where
  "second_ns = 1000000000"

definition millisecond_ns :: int where
  "millisecond_ns = 1000000"

section \<open>Session isolation\<close>

definition node_prefix :: string where
  "node_prefix = ''OPENLINKER_AGENT_NODE_''"

definition nativeIsolationHint :: string where
  "nativeIsolationHint = ''; native session isolation is the default for Codex/Claude, set '' @
     ''OPENLINKER_AGENT_NODE_SESSION_ISOLATION=off to run without it''"

definition defaultSessionRoot :: "env_lookup \<Rightarrow> string result" where
  "defaultSessionRoot get =
     (let home = trim_space (get ''HOME'')
      in if \<not> is_abs home
         then Inl (ErrNew (''native isolation needs an absolute HOME for the default SESSION_ROOT; '' @
                ''set OPENLINKER_AGENT_NODE_SESSION_ROOT''))
         else Inr (filepath_join [home, ''.local'', ''state'', ''openlinker-agent-node-sessions'']))"

definition isolation_mode :: "env_lookup \<Rightarrow> string" where
  "isolation_mode get = to_lower (trim_space (get (node_prefix @ ''SESSION_ISOLATION'')))"

definition native_only_names :: "string list" where
  "native_only_names = [node_prefix @ ''SESSION_READ_PATHS'', node_prefix @ ''SESSION_NETWORK_DOMAINS'']"

definition stable_core_url :: "string \<Rightarrow> string option" where
  "stable_core_url raw =
     (case url_Parse (trim_space raw) of
        None \<Rightarrow> None
      | Some u \<Rightarrow>
          if ul_host u = [] \<or> (ul_scheme u \<noteq> ''https'' \<and> ul_scheme u \<noteq> ''http'') \<or> ul_user u \<noteq> None
             \<or> ul_raw_query u \<noteq> [] \<or> ul_fragment u \<noteq> [] then None
          else Some (rev (dropWhile (\<lambda>c. c = CHR ''/'') (rev (url_String u)))))"

text \<open>The checks on the file system of \<open>parseSessionIsolation\<close>.\<close>

definition check_roots :: "('a) sandbox_os_scheme \<Rightarrow> sandbox_config \<Rightarrow> go_error option" where
  "check_roots os c =
     (case (if sc_root c = [] then None else CheckOutsideGitWorktree os (sc_root c)) of
        Some er \<Rightarrow> Some er
      | None \<Rightarrow> if sc_temp_root c = [] then None else CheckOutsideGitWorktree os (sc_temp_root c))"

text \<open>What is common to both modes after the root is known: the lists, the namespace, the validation.\<close>

definition finish_isolation :: "('a) sandbox_os_scheme \<Rightarrow> env_lookup \<Rightarrow> sandbox_config \<Rightarrow> sandbox_config result" where
  "finish_isolation os get c =
     (case parseJSONStringArray (get (node_prefix @ ''SESSION_READ_PATHS'')) (node_prefix @ ''SESSION_READ_PATHS'') of
        Inl er \<Rightarrow> Inl er
      | Inr paths \<Rightarrow>
          (case parseJSONStringArray (get (node_prefix @ ''SESSION_NETWORK_DOMAINS'')) (node_prefix @ ''SESSION_NETWORK_DOMAINS'') of
             Inl er \<Rightarrow> Inl er
           | Inr domains \<Rightarrow>
               (let c1 = c\<lparr>sc_read_paths := paths, sc_domains := domains\<rparr>
                in case (if Enabled c1 then stable_core_url (get ''OPENLINKER_URL'') else Some []) of
                     None \<Rightarrow> Inl (ErrNew (''native isolation requires OPENLINKER_URL with a stable Core URL and '' @
                               ''no credentials/query/fragment''))
                   | Some ns \<Rightarrow>
                       (let c2 = c1\<lparr>sc_namespace := ns\<rparr>
                        in case Validate (host.truncate os) c2 of
                             Some er \<Rightarrow> Inl er
                           | None \<Rightarrow>
                               (case (if Enabled c2 then check_roots os c2 else None) of Some er \<Rightarrow> Inl er | None \<Rightarrow> Inr c2)))))"

definition parseSessionIsolation ::
  "('a) sandbox_os_scheme \<Rightarrow> env_lookup \<Rightarrow> bool \<Rightarrow> bool \<times> sandbox_config result" where
  "parseSessionIsolation os get defaultNative =
     (let mode = isolation_mode get; defaulted = (mode = [] \<and> defaultNative);
          c = empty_sandbox\<lparr>sc_mode := if defaulted then ''native'' else mode, sc_root := get (node_prefix @ ''SESSION_ROOT''),
                sc_runtime_bin := get (node_prefix @ ''SESSION_SANDBOX_BIN''), sc_temp_root := get (node_prefix @ ''SESSION_TEMP_ROOT'')\<rparr>
      in (defaulted,
          case (if Enabled c \<and> sc_root c = [] then defaultSessionRoot get else Inr (sc_root c)) of
            Inl er \<Rightarrow> Inl er
          | Inr root \<Rightarrow>
              (let c1 = c\<lparr>sc_root := root\<rparr>
               in case (if sc_mode c1 = [] \<or> sc_mode c1 = ''off'' then find (\<lambda>n. trim_space (get n) \<noteq> []) native_only_names else None) of
                    Some n \<Rightarrow> Inl (ErrNew (n @ '' requires OPENLINKER_AGENT_NODE_SESSION_ISOLATION=native''))
                  | None \<Rightarrow> finish_isolation os get c1)))"

definition sessionIsolationFromEnv :: "('a) sandbox_os_scheme \<Rightarrow> env_lookup \<Rightarrow> bool \<Rightarrow> sandbox_config result" where
  "sessionIsolationFromEnv os get defaultNative =
     (case parseSessionIsolation os get defaultNative of
        (defaulted, Inl er) \<Rightarrow> Inl (if defaulted then ErrNew (err_text er @ nativeIsolationHint) else er)
      | (_, Inr c) \<Rightarrow> Inr c)"

definition unisolatedAdapterOptions :: "('a) sandbox_os_scheme \<Rightarrow> env_lookup \<Rightarrow> string \<Rightarrow> go_error option" where
  "unisolatedAdapterOptions os get authConcurrency =
     (case sessionIsolationFromEnv os get False of
        Inl er \<Rightarrow> Some er
      | Inr c \<Rightarrow>
          if Enabled c then Some (ErrNew ''native isolation is supported only by Codex and Claude adapters'')
          else if authConcurrency \<noteq> [] then Some (ErrNew ''HOST_AUTH_CONCURRENCY requires native Codex or Claude isolation'')
          else None)"

definition provider_prefix :: "string \<Rightarrow> string" where
  "provider_prefix provider = node_prefix @ to_upper provider @ ''_''"

definition nativeProviderOptions :: "env_lookup \<Rightarrow> string \<Rightarrow> go_error option" where
  "nativeProviderOptions get provider =
     (let pre = provider_prefix provider; v = get (pre @ ''SESSION_REUSE'')
      in if get (pre @ ''WORKSPACE'') \<noteq> []
         then Some (ErrNew (pre @ ''WORKSPACE is not used with native isolation, which runs each conversation in a private workspace; '' @
                ''remove it (set OPENLINKER_AGENT_NODE_ADAPTER='' @ provider @ '' if it selected the adapter)'' @ nativeIsolationHint))
         else if v \<noteq> [] \<and> \<not> boolOption v False
         then Some (ErrNew (''native isolation requires '' @ pre @ ''SESSION_REUSE=true'' @ nativeIsolationHint))
         else None)"

definition providerIsolationFromEnv :: "('a) sandbox_os_scheme \<Rightarrow> env_lookup \<Rightarrow> string \<Rightarrow> string \<Rightarrow> sandbox_config result" where
  "providerIsolationFromEnv os get provider authConcurrency =
     (let mock = (provider = ''codex'' \<and> get (node_prefix @ ''CODEX_MOCK_RESPONSE'') \<noteq> [])
      in case sessionIsolationFromEnv os get (\<not> mock) of
           Inl er \<Rightarrow> Inl er
         | Inr c \<Rightarrow>
             if Enabled c \<and> mock then Inl (ErrNew ''mock responses cannot be combined with native isolation'')
             else if \<not> Enabled c \<and> authConcurrency \<noteq> []
             then Inl (ErrNew ''HOST_AUTH_CONCURRENCY requires native Codex or Claude isolation'')
             else if \<not> Enabled c then Inr c
             else (case nativeProviderOptions get provider of Some er \<Rightarrow> Inl er | None \<Rightarrow> Inr c))"

definition nativeWebSearchFromEnv :: "env_lookup \<Rightarrow> string \<Rightarrow> bool result" where
  "nativeWebSearchFromEnv get provider =
     (let name = node_prefix @ to_upper provider @ ''_WEB_SEARCH''; v = to_lower (trim_space (get name))
      in if v \<in> set off_words then Inr False
         else if v = [] \<or> v \<in> set on_words then Inr True
         else Inl (ErrNew (name @ '' must be a boolean'')))"

section \<open>Adapters\<close>

record http_adapter =
  ha_url :: string
  ha_headers :: "(string \<times> string) list"
  ha_timeout :: int

record a2a_adapter =
  aa_base_url :: string
  aa_token :: string
  aa_headers :: "(string \<times> string) list"
  aa_method :: string
  aa_modes :: "string list"
  aa_version :: string
  aa_dialect :: string
  aa_timeout :: int

record command_adapter =
  ca_command :: string
  ca_args :: "string list"
  ca_cwd :: string
  ca_allowlist :: "string list"
  ca_timeout :: int

record codex_adapter =
  xa_isolation :: sandbox_config
  xa_auth_concurrency :: string
  xa_bin :: string
  xa_base_url :: string
  xa_workspace :: string
  xa_sandbox :: string
  xa_approval :: string
  xa_model :: string
  xa_web_search :: bool
  xa_timeout :: int
  xa_mock :: string
  xa_reuse :: bool
  xa_store :: string
  xa_env :: "string list option"
  xa_allowlist :: "string list"
  xa_targets :: "string list"
  xa_proxy_bin :: string
  xa_broker_root :: string

datatype adapter =
  HTTPAdapter http_adapter | A2AAdapter a2a_adapter | CommandAdapter command_adapter
| NativeAdapter provider_config | CodexAdapter codex_adapter

text \<open>The provider configuration that \<open>CodexAdapter.native\<close> builds.\<close>

definition codex_native :: "codex_adapter \<Rightarrow> provider_config" where
  "codex_native a =
     empty_provider\<lparr>pc_provider := ''codex'', pc_bin := xa_bin a, pc_workspace := xa_workspace a, pc_codex_url := xa_base_url a,
       pc_isolation := xa_isolation a, pc_auth_concurrency := xa_auth_concurrency a, pc_sandbox := xa_sandbox a,
       pc_codex_approval := xa_approval a, pc_model := xa_model a, pc_web_search := xa_web_search a, pc_timeout := xa_timeout a,
       pc_reuse := xa_reuse a, pc_store := xa_store a, pc_env := xa_env a, pc_env_allowlist := xa_allowlist a,
       pc_targets := xa_targets a, pc_proxy_bin := xa_proxy_bin a, pc_broker_root := xa_broker_root a\<rparr>"

definition mustGetwd :: "string option \<Rightarrow> string" where
  "mustGetwd wd = (case wd of None \<Rightarrow> ''.'' | Some d \<Rightarrow> d)"

definition bind_result :: "'a result \<Rightarrow> ('a \<Rightarrow> 'b result) \<Rightarrow> 'b result" where
  "bind_result r f = (case r of Inl er \<Rightarrow> Inl er | Inr x \<Rightarrow> f x)"

definition guard_error :: "go_error option \<Rightarrow> 'b result \<Rightarrow> 'b result" where
  "guard_error e r = (case e of Some er \<Rightarrow> Inl er | None \<Rightarrow> r)"

lemma bind_result_Inr [simp]: "bind_result r f = Inr y \<longleftrightarrow> (\<exists>x. r = Inr x \<and> f x = Inr y)"
  by (cases r) (auto simp: bind_result_def)

lemma guard_error_Inr [simp]: "guard_error e r = Inr y \<longleftrightarrow> e = None \<and> r = Inr y"
  by (cases e) (auto simp: guard_error_def)

definition node_var :: "env_lookup \<Rightarrow> string \<Rightarrow> string" where
  "node_var get name = get (node_prefix @ name)"

definition string_array_var :: "env_lookup \<Rightarrow> string \<Rightarrow> string list result" where
  "string_array_var get name = parseJSONStringArray (node_var get name) (node_prefix @ name)"

definition map_var :: "env_lookup \<Rightarrow> string \<Rightarrow> (string \<times> string) list result" where
  "map_var get name = parseJSONMap (node_var get name) (node_prefix @ name)"

definition number_var :: "env_lookup \<Rightarrow> string \<Rightarrow> int \<Rightarrow> int result" where
  "number_var get name fallback = numberOption (node_var get name) fallback (node_prefix @ name)"

definition check_base_url :: "string \<Rightarrow> go_error option" where
  "check_base_url baseURL = (if baseURL = [] then None else ValidateModelEndpoint baseURL)"

definition http_from_env ::
  "('a) sandbox_os_scheme \<Rightarrow> env_lookup \<Rightarrow> int \<Rightarrow> string \<Rightarrow> adapter result" where
  "http_from_env os get timeout auth =
     guard_error (unisolatedAdapterOptions os get auth)
       (bind_result (map_var get ''HTTP_HEADERS'') (\<lambda>headers.
          Inr (HTTPAdapter \<lparr>ha_url = node_var get ''HTTP_URL'', ha_headers = headers, ha_timeout = duration timeout millisecond_ns\<rparr>)))"

definition a2a_from_env ::
  "sdk \<Rightarrow> ('a) sandbox_os_scheme \<Rightarrow> env_lookup \<Rightarrow> int \<Rightarrow> string \<Rightarrow> adapter result" where
  "a2a_from_env k os get timeout auth =
     guard_error (unisolatedAdapterOptions os get auth)
       (bind_result (map_var get ''A2A_HEADERS'') (\<lambda>headers.
        bind_result (string_array_var get ''A2A_ACCEPTED_OUTPUT_MODES'') (\<lambda>modes.
          let dialect = defaultString (node_var get ''A2A_DIALECT'') (node_var get ''A2A_METHOD_DIALECT'')
          in Inr (A2AAdapter \<lparr>aa_base_url = node_var get ''A2A_BASE_URL'', aa_token = get ''OPENLINKER_UPSTREAM_A2A_TOKEN'',
               aa_headers = headers, aa_method = sdk_method_for k (defaultString (node_var get ''A2A_METHOD'') (sdk_method_send k)) dialect,
               aa_modes = modes, aa_version = node_var get ''A2A_PROTOCOL_VERSION'', aa_dialect = sdk_dialect k dialect,
               aa_timeout = duration timeout millisecond_ns\<rparr>))))"

definition command_from_env ::
  "('a) sandbox_os_scheme \<Rightarrow> env_lookup \<Rightarrow> string option \<Rightarrow> int \<Rightarrow> string \<Rightarrow> string list \<Rightarrow> adapter result" where
  "command_from_env os get wd timeout auth allowlist =
     guard_error (unisolatedAdapterOptions os get auth)
       (bind_result (string_array_var get ''ARGS'') (\<lambda>args.
          Inr (CommandAdapter \<lparr>ca_command = node_var get ''COMMAND'', ca_args = args,
                 ca_cwd = defaultString (node_var get ''CWD'') (case wd of None \<Rightarrow> [] | Some d \<Rightarrow> d),
                 ca_allowlist = allowlist, ca_timeout = duration timeout millisecond_ns\<rparr>)))"

definition claude_from_env ::
  "('a) sandbox_os_scheme \<Rightarrow> env_lookup \<Rightarrow> string option \<Rightarrow> string \<Rightarrow> string list \<Rightarrow> adapter result" where
  "claude_from_env os get wd auth allowlist =
     bind_result (providerIsolationFromEnv os get ''claude'' auth) (\<lambda>isolation.
     guard_error (check_base_url (node_var get ''CLAUDE_BASE_URL''))
     (bind_result (number_var get ''TIMEOUT_MS'' 1800000) (\<lambda>timeout.
      bind_result (nativeWebSearchFromEnv get ''claude'') (\<lambda>webSearch.
      bind_result (string_array_var get ''CLAUDE_ALLOWED_TOOLS'') (\<lambda>allowed.
      bind_result (string_array_var get ''DELEGATION_TARGETS'') (\<lambda>targets.
        Inr (NativeAdapter (empty_provider\<lparr>pc_isolation := isolation, pc_auth_concurrency := auth, pc_provider := ''claude'',
          pc_bin := defaultString (node_var get ''CLAUDE_BIN'') ''claude'', pc_claude_url := node_var get ''CLAUDE_BASE_URL'',
          pc_workspace := defaultString (node_var get ''CLAUDE_WORKSPACE'') (mustGetwd wd), pc_model := node_var get ''CLAUDE_MODEL'',
          pc_permission := defaultString (node_var get ''CLAUDE_PERMISSION'') ''dontAsk'', pc_web_search := webSearch,
          pc_allowed_tools := allowed, pc_timeout := duration timeout millisecond_ns,
          pc_reuse := boolOption (node_var get ''CLAUDE_SESSION_REUSE'') (Enabled isolation), pc_store := node_var get ''CLAUDE_SESSION_STORE'',
          pc_env_allowlist := allowlist, pc_targets := targets, pc_proxy_bin := node_var get ''DELEGATION_PROXY_BIN'',
          pc_broker_root := node_var get ''DELEGATION_BROKER_ROOT''\<rparr>))))))))"

definition codex_from_env ::
  "('a) sandbox_os_scheme \<Rightarrow> env_lookup \<Rightarrow> string option \<Rightarrow> string \<Rightarrow> string list \<Rightarrow> adapter result" where
  "codex_from_env os get wd auth allowlist =
     bind_result (providerIsolationFromEnv os get ''codex'' auth) (\<lambda>isolation.
     bind_result (nativeWebSearchFromEnv get ''codex'') (\<lambda>webSearch.
     guard_error (check_base_url (node_var get ''CODEX_BASE_URL''))
     (bind_result (string_array_var get ''DELEGATION_TARGETS'') (\<lambda>targets.
      bind_result (number_var get ''TIMEOUT_MS'' 1800000) (\<lambda>timeout.
        Inr (CodexAdapter \<lparr>xa_isolation = isolation, xa_auth_concurrency = auth,
          xa_bin = defaultString (node_var get ''CODEX_BIN'') ''codex'', xa_base_url = node_var get ''CODEX_BASE_URL'',
          xa_workspace = defaultString (node_var get ''CODEX_WORKSPACE'') (mustGetwd wd),
          xa_sandbox = defaultString (node_var get ''CODEX_SANDBOX'') ''read-only'',
          xa_approval = defaultString (node_var get ''CODEX_APPROVAL'') ''never'', xa_model = node_var get ''CODEX_MODEL'',
          xa_web_search = webSearch, xa_timeout = duration timeout millisecond_ns, xa_mock = node_var get ''CODEX_MOCK_RESPONSE'',
          xa_reuse = boolOption (node_var get ''CODEX_SESSION_REUSE'') (Enabled isolation), xa_store = node_var get ''CODEX_SESSION_STORE'',
          xa_env = None, xa_allowlist = allowlist, xa_targets = targets, xa_proxy_bin = node_var get ''DELEGATION_PROXY_BIN'',
          xa_broker_root = node_var get ''DELEGATION_BROKER_ROOT''\<rparr>))))))"

definition adapterFromEnv ::
  "sdk \<Rightarrow> ('a) sandbox_os_scheme \<Rightarrow> env_lookup \<Rightarrow> string option \<Rightarrow> string \<Rightarrow> adapter result" where
  "adapterFromEnv k os get wd mode =
     bind_result (number_var get ''TIMEOUT_MS'' 900000) (\<lambda>timeout.
       let auth = node_var get ''HOST_AUTH_CONCURRENCY''; allowlist = parseCommaList (node_var get ''ENV_ALLOWLIST'')
       in if auth \<noteq> [] \<and> auth \<noteq> ''serial'' \<and> auth \<noteq> ''client-managed''
          then Inl (ErrNew ''HOST_AUTH_CONCURRENCY must be serial or client-managed'')
          else if mode = ''http'' \<or> mode = ''openclaw'' then http_from_env os get timeout auth
          else if mode = ''a2a'' then a2a_from_env k os get timeout auth
          else if mode = ''command'' then command_from_env os get wd timeout auth allowlist
          else if mode = ''claude'' then claude_from_env os get wd auth allowlist
          else if mode = ''codex'' then codex_from_env os get wd auth allowlist
          else if mode = ''module''
          then Inl (ErrNew (''module adapter is not supported by the Go agent node; use http, command, openclaw, a2a, codex, or claude''))
          else Inl (ErrNew (''unsupported OPENLINKER_AGENT_NODE_ADAPTER='' @ mode)))"

section \<open>The servers and the Node\<close>

record helper_config =
  hc_host :: string
  hc_port :: int

record public_config =
  pu_host :: string
  pu_port :: int
  pu_slug :: string
  pu_name :: string
  pu_description :: string
  pu_token :: string

record node =
  nd_url :: string
  nd_runtime_url :: string
  nd_transport :: string
  nd_node_id :: string
  nd_agent_id :: string
  nd_agent_token :: string
  nd_data_dir :: string
  nd_cert_file :: string
  nd_key_file :: string
  nd_ca_file :: string
  nd_server_name :: string
  nd_capacity :: int
  nd_claim_wait :: int
  nd_command_wait :: int
  nd_heartbeat :: int
  nd_retry_min :: int
  nd_retry_max :: int
  nd_adapter :: adapter
  nd_helper :: "helper_config option"
  nd_public :: "public_config option"

definition inferAdapterMode :: "env_lookup \<Rightarrow> string" where
  "inferAdapterMode get =
     (if node_var get ''HTTP_URL'' \<noteq> [] then ''http''
      else if node_var get ''A2A_BASE_URL'' \<noteq> [] then ''a2a''
      else if node_var get ''COMMAND'' \<noteq> [] then ''command''
      else if node_var get ''CODEX_WORKSPACE'' \<noteq> [] \<or> node_var get ''CODEX_BIN'' \<noteq> [] then ''codex''
      else ''http'')"

definition helper_enabled :: "string \<Rightarrow> string \<Rightarrow> bool result" where
  "helper_enabled mode adapterMode =
     (if mode = ''auto'' then Inr (adapterMode \<in> {''http'', ''openclaw'', ''command''})
      else if mode \<in> set on_words then Inr True
      else if mode \<in> set off_words then Inr False
      else Inl (ErrNew (''invalid OPENLINKER_AGENT_NODE_HELPER='' @ mode @ ''; use auto, true, or false'')))"

definition helperFromEnv :: "env_lookup \<Rightarrow> string \<Rightarrow> helper_config option result" where
  "helperFromEnv get adapterMode =
     bind_result (helper_enabled (to_lower (defaultString (node_var get ''HELPER'') ''auto'')) adapterMode) (\<lambda>enabled.
       if \<not> enabled then Inr None
       else bind_result (number_var get ''HELPER_PORT'' 0) (\<lambda>port.
              Inr (Some \<lparr>hc_host = defaultString (node_var get ''HELPER_HOST'') ''127.0.0.1'', hc_port = port\<rparr>)))"

definition publicA2AFromEnv :: "env_lookup \<Rightarrow> public_config option result" where
  "publicA2AFromEnv get =
     (if \<not> boolOption (node_var get ''PUBLIC_A2A'') False then Inr None
      else bind_result (number_var get ''PUBLIC_A2A_PORT'' 0) (\<lambda>port.
             Inr (Some \<lparr>pu_host = defaultString (node_var get ''PUBLIC_A2A_HOST'') ''127.0.0.1'', pu_port = port,
               pu_slug = defaultString (node_var get ''PUBLIC_A2A_SLUG'') ''agent-node'',
               pu_name = defaultString (node_var get ''PUBLIC_A2A_NAME'') ''OpenLinker Agent Node'',
               pu_description = node_var get ''PUBLIC_A2A_DESCRIPTION'', pu_token = get ''OPENLINKER_PUBLIC_A2A_TOKEN''\<rparr>)))"

definition adapter_mode :: "env_lookup \<Rightarrow> string" where
  "adapter_mode get = (if node_var get ''ADAPTER'' = [] then inferAdapterMode get else node_var get ''ADAPTER'')"

definition NewFromLookup :: "sdk \<Rightarrow> ('a) sandbox_os_scheme \<Rightarrow> string option \<Rightarrow> env_lookup \<Rightarrow> node result" where
  "NewFromLookup k os wd get =
     bind_result (adapterFromEnv k os get wd (adapter_mode get)) (\<lambda>ad.
     bind_result (helperFromEnv get (adapter_mode get)) (\<lambda>helper.
     bind_result (publicA2AFromEnv get) (\<lambda>public.
     bind_result (number_var get ''CAPACITY'' (sdk_capacity k)) (\<lambda>capacity.
     bind_result (number_var get ''CLAIM_WAIT_SECONDS'' (sdk_claim_wait k)) (\<lambda>claimWait.
     bind_result (number_var get ''COMMAND_WAIT_SECONDS'' (sdk_command_wait k)) (\<lambda>commandWait.
     bind_result (number_var get ''HEARTBEAT_SECONDS'' (sdk_heartbeat k)) (\<lambda>heartbeat.
     bind_result (number_var get ''RETRY_MIN_MS'' (sdk_retry_min k)) (\<lambda>retryMin.
     bind_result (number_var get ''RETRY_MAX_MS'' (sdk_retry_max k)) (\<lambda>retryMax.
       Inr \<lparr>nd_url = trim_space (get ''OPENLINKER_URL''), nd_runtime_url = trim_space (get ''OPENLINKER_RUNTIME_URL''),
            nd_transport = to_lower (trim_space (defaultString (node_var get ''TRANSPORT'') (sdk_transport_auto k))),
            nd_node_id = trim_space (get ''OPENLINKER_NODE_ID''), nd_agent_id = trim_space (get ''OPENLINKER_AGENT_ID''),
            nd_agent_token = trim_space (get ''OPENLINKER_AGENT_TOKEN''), nd_data_dir = trim_space (node_var get ''DATA_DIR''),
            nd_cert_file = trim_space (node_var get ''MTLS_CERT_FILE''), nd_key_file = trim_space (node_var get ''MTLS_KEY_FILE''),
            nd_ca_file = trim_space (node_var get ''MTLS_CA_FILE''), nd_server_name = trim_space (node_var get ''MTLS_SERVER_NAME''),
            nd_capacity = capacity, nd_claim_wait = duration claimWait second_ns, nd_command_wait = duration commandWait second_ns,
            nd_heartbeat = duration heartbeat second_ns, nd_retry_min = duration retryMin millisecond_ns,
            nd_retry_max = duration retryMax millisecond_ns, nd_adapter = ad, nd_helper = helper, nd_public = public\<rparr>)))))))))"

section \<open>The configuration report\<close>

record native_report =
  nr_provider :: string
  nr_web_search :: bool
  nr_isolation :: string
  nr_reuse :: bool
  nr_auth :: string
  nr_mock :: bool

record report =
  rp_version :: string
  rp_scope :: string
  rp_preflight :: string
  rp_capacity :: int
  rp_native :: "native_report option"
  rp_warnings :: "string list"

definition native_config :: "adapter \<Rightarrow> (provider_config \<times> bool) option" where
  "native_config a =
     (case a of CodexAdapter x \<Rightarrow> Some (codex_native x, xa_mock x \<noteq> []) | NativeAdapter c \<Rightarrow> Some (c, False) | _ \<Rightarrow> None)"

text \<open>\<open>version\<close> is \<open>AgentNodeVersion\<close>, which a release build injects.\<close>

definition ConfigurationReport :: "string \<Rightarrow> node \<Rightarrow> report" where
  "ConfigurationReport version n =
     (let none = \<lparr>rp_version = version, rp_scope = ''configured_policy'', rp_preflight = ''not_run'',
                  rp_capacity = nd_capacity n, rp_native = None, rp_warnings = []\<rparr>
      in case native_config (nd_adapter n) of
           None \<Rightarrow> none
         | Some (c, mock) \<Rightarrow>
             if pc_provider c \<noteq> ''codex'' \<and> pc_provider c \<noteq> ''claude'' then none
             else
               (let on = Enabled (pc_isolation c); auth = (if on then defaultString (pc_auth_concurrency c) ''serial'' else []);
                    w1 = (if on then (if auth = ''serial'' \<and> nd_capacity n > 1 then [''serial_host_auth_capacity_gt_one''] else [])
                          else [''native_isolation_disabled'']);
                    w2 = (if mock then [''mock_provider_enabled''] else [])
                in none\<lparr>rp_native := Some \<lparr>nr_provider = pc_provider c, nr_web_search = pc_web_search c,
                       nr_isolation = if on then ''native'' else ''off'', nr_reuse = pc_reuse c, nr_auth = auth, nr_mock = mock\<rparr>,
                     rp_warnings := w1 @ w2\<rparr>))"

section \<open>What an accepted configuration is\<close>

lemma finish_isolation_Inr:
  assumes "finish_isolation os get c = Inr c'"
  shows "Validate (host.truncate os) c' = None \<and> sc_mode c' = sc_mode c \<and> sc_root c' = sc_root c \<and> sc_temp_root c' = sc_temp_root c
     \<and> sc_runtime_bin c' = sc_runtime_bin c \<and> (Enabled c' \<longrightarrow> check_roots os c' = None)"
proof -
  obtain paths domains where p: "parseJSONStringArray (get (node_prefix @ ''SESSION_READ_PATHS'')) (node_prefix @ ''SESSION_READ_PATHS'') = Inr paths"
      "parseJSONStringArray (get (node_prefix @ ''SESSION_NETWORK_DOMAINS'')) (node_prefix @ ''SESSION_NETWORK_DOMAINS'') = Inr domains"
    using assms by (auto simp: finish_isolation_def split: sum.splits)
  then show ?thesis
    using assms by (auto simp: finish_isolation_def Let_def Enabled_def split: option.splits if_splits)
qed

lemma isolation_Inr:
  assumes "sessionIsolationFromEnv os get d = Inr c"
  shows "Validate (host.truncate os) c = None" and "sc_mode c = (if isolation_mode get = [] \<and> d then ''native'' else isolation_mode get)"
    and "Enabled c \<longrightarrow> check_roots os c = None"
    and "\<not> Enabled c \<longrightarrow> (\<forall>n \<in> {''SESSION_ROOT'', ''SESSION_TEMP_ROOT'', ''SESSION_SANDBOX_BIN''}. node_var get n = [])
       \<and> (\<forall>n \<in> {''SESSION_READ_PATHS'', ''SESSION_NETWORK_DOMAINS''}. trim_space (node_var get n) = [])"
proof -
  let ?m = "if isolation_mode get = [] \<and> d then ''native'' else isolation_mode get"
  let ?c = "empty_sandbox\<lparr>sc_mode := ?m, sc_root := get (node_prefix @ ''SESSION_ROOT''),
                sc_runtime_bin := get (node_prefix @ ''SESSION_SANDBOX_BIN''), sc_temp_root := get (node_prefix @ ''SESSION_TEMP_ROOT'')\<rparr>"
  obtain root where r: "(if Enabled ?c \<and> sc_root ?c = [] then defaultSessionRoot get else Inr (sc_root ?c)) = Inr root"
      and f: "finish_isolation os get (?c\<lparr>sc_root := root\<rparr>) = Inr c"
      and off: "?m = [] \<or> ?m = ''off'' \<Longrightarrow> find (\<lambda>n. trim_space (get n) \<noteq> []) native_only_names = None"
    using assms by (auto simp: sessionIsolationFromEnv_def parseSessionIsolation_def Let_def split: sum.splits option.splits if_splits prod.splits)
  note fin = finish_isolation_Inr [OF f]
  show "Validate (host.truncate os) c = None" "sc_mode c = ?m" "Enabled c \<longrightarrow> check_roots os c = None" using fin by simp_all
  show "\<not> Enabled c \<longrightarrow> (\<forall>n \<in> {''SESSION_ROOT'', ''SESSION_TEMP_ROOT'', ''SESSION_SANDBOX_BIN''}. node_var get n = [])
       \<and> (\<forall>n \<in> {''SESSION_READ_PATHS'', ''SESSION_NETWORK_DOMAINS''}. trim_space (node_var get n) = [])"
  proof
    assume no: "\<not> Enabled c"
    then have v: "?m \<in> {[], ''off''}" "no_options c" using validated_off [of "host.truncate os" c] no fin by auto
    have en: "\<not> Enabled ?c" using no fin by (simp add: Enabled_def)
    have "find (\<lambda>n. trim_space (get n) \<noteq> []) native_only_names = None" using off v(1) by blast
    then show "(\<forall>n \<in> {''SESSION_ROOT'', ''SESSION_TEMP_ROOT'', ''SESSION_SANDBOX_BIN''}. node_var get n = [])
       \<and> (\<forall>n \<in> {''SESSION_READ_PATHS'', ''SESSION_NETWORK_DOMAINS''}. trim_space (node_var get n) = [])"
      using v(2) fin r en by (auto simp: no_options_def node_var_def native_only_names_def empty_sandbox_def find_None_iff split: if_splits)
  qed
qed

lemma check_roots_None:
  "check_roots os c = None \<Longrightarrow> (sc_root c = [] \<or> CheckOutsideGitWorktree os (sc_root c) = None)
     \<and> (sc_temp_root c = [] \<or> CheckOutsideGitWorktree os (sc_temp_root c) = None)"
  by (auto simp: check_roots_def split: option.splits if_splits)

lemma provider_isolation_Inr:
  assumes "providerIsolationFromEnv os get provider auth = Inr c"
  shows "let mock = (provider = ''codex'' \<and> node_var get ''CODEX_MOCK_RESPONSE'' \<noteq> []) in
     sessionIsolationFromEnv os get (\<not> mock) = Inr c \<and> (Enabled c \<longrightarrow> \<not> mock \<and> nativeProviderOptions get provider = None)
     \<and> (\<not> Enabled c \<longrightarrow> auth = [])"
  using assms by (auto simp: providerIsolationFromEnv_def node_var_def Let_def split: sum.splits if_splits option.splits)

lemma unisolated_None:
  assumes "unisolatedAdapterOptions os get auth = None"
  shows "\<exists>c. sessionIsolationFromEnv os get False = Inr c \<and> \<not> Enabled c \<and> auth = []"
  using assms by (auto simp: unisolatedAdapterOptions_def split: sum.splits if_splits)

lemma native_options_None:
  assumes "nativeProviderOptions get provider = None"
  shows "get (provider_prefix provider @ ''WORKSPACE'') = [] \<and> boolOption (get (provider_prefix provider @ ''SESSION_REUSE'')) True"
  using assms by (auto simp: nativeProviderOptions_def Let_def boolOption_def split: if_splits)

lemma claude_Inr:
  assumes "claude_from_env os get wd auth allowlist = Inr a"
  shows "\<exists>c. a = NativeAdapter c \<and> pc_provider c = ''claude'' \<and> providerIsolationFromEnv os get ''claude'' auth = Inr (pc_isolation c)
     \<and> pc_auth_concurrency c = auth \<and> check_base_url (pc_claude_url c) = None
     \<and> pc_reuse c = boolOption (node_var get ''CLAUDE_SESSION_REUSE'') (Enabled (pc_isolation c))"
  using assms by (auto simp: claude_from_env_def)

lemma codex_Inr:
  assumes "codex_from_env os get wd auth allowlist = Inr a"
  shows "\<exists>x. a = CodexAdapter x \<and> providerIsolationFromEnv os get ''codex'' auth = Inr (xa_isolation x)
     \<and> xa_auth_concurrency x = auth \<and> check_base_url (xa_base_url x) = None \<and> xa_mock x = node_var get ''CODEX_MOCK_RESPONSE''
     \<and> xa_reuse x = boolOption (node_var get ''CODEX_SESSION_REUSE'') (Enabled (xa_isolation x))"
  using assms by (auto simp: codex_from_env_def)

lemma native_config_simps [simp]:
  "native_config (NativeAdapter c) = Some (c, False)" "native_config (HTTPAdapter h) = None" "native_config (A2AAdapter x) = None"
  "native_config (CommandAdapter m) = None" "native_config (CodexAdapter y) = Some (codex_native y, xa_mock y \<noteq> [])"
  by (simp_all add: native_config_def)

lemma other_adapter_None:
  "http_from_env os get t auth = Inr a \<Longrightarrow> native_config a = None \<and> unisolatedAdapterOptions os get auth = None"
  "a2a_from_env k os get t auth = Inr a \<Longrightarrow> native_config a = None \<and> unisolatedAdapterOptions os get auth = None"
  "command_from_env os get wd t auth al = Inr a \<Longrightarrow> native_config a = None \<and> unisolatedAdapterOptions os get auth = None"
  by (auto simp: http_from_env_def a2a_from_env_def command_from_env_def Let_def)

lemma codex_native_simps [simp]:
  "pc_provider (codex_native x) = ''codex''" "pc_isolation (codex_native x) = xa_isolation x" "pc_reuse (codex_native x) = xa_reuse x"
  by (simp_all add: codex_native_def)

text \<open>What every accepted adapter for a client has in common.\<close>

definition from_provider_env :: "('a) sandbox_os_scheme \<Rightarrow> env_lookup \<Rightarrow> provider_config \<Rightarrow> bool \<Rightarrow> bool" where
  "from_provider_env os get c mock =
     (mock = (pc_provider c = ''codex'' \<and> node_var get ''CODEX_MOCK_RESPONSE'' \<noteq> [])
      \<and> providerIsolationFromEnv os get (pc_provider c) (node_var get ''HOST_AUTH_CONCURRENCY'') = Inr (pc_isolation c)
      \<and> pc_reuse c = boolOption (get (provider_prefix (pc_provider c) @ ''SESSION_REUSE'')) (Enabled (pc_isolation c)))"

lemma claude_from_provider:
  assumes "claude_from_env os get wd (node_var get ''HOST_AUTH_CONCURRENCY'') allowlist = Inr a"
  shows "\<exists>c. native_config a = Some (c, False) \<and> pc_provider c = ''claude'' \<and> from_provider_env os get c False"
proof -
  have "provider_prefix ''claude'' = node_prefix @ ''CLAUDE_''" by code_simp
  then show ?thesis using claude_Inr [OF assms] by (auto simp: from_provider_env_def node_var_def)
qed

lemma codex_from_provider:
  assumes "codex_from_env os get wd (node_var get ''HOST_AUTH_CONCURRENCY'') allowlist = Inr a"
  shows "\<exists>c mock. native_config a = Some (c, mock) \<and> pc_provider c = ''codex'' \<and> from_provider_env os get c mock"
proof -
  have "provider_prefix ''codex'' = node_prefix @ ''CODEX_''" by code_simp
  then show ?thesis using codex_Inr [OF assms] by (auto simp: from_provider_env_def node_var_def)
qed

lemma adapter_cases:
  assumes "adapterFromEnv k os get wd mode = Inr a"
  shows "(mode \<in> {''http'', ''openclaw'', ''a2a'', ''command''} \<and> native_config a = None
       \<and> unisolatedAdapterOptions os get (node_var get ''HOST_AUTH_CONCURRENCY'') = None)
     \<or> (\<exists>c mock. mode = pc_provider c \<and> pc_provider c \<in> {''codex'', ''claude''} \<and> native_config a = Some (c, mock) \<and> from_provider_env os get c mock)"
proof -
  let ?auth = "node_var get ''HOST_AUTH_CONCURRENCY''" and ?allow = "parseCommaList (node_var get ''ENV_ALLOWLIST'')"
  obtain t where t: "number_var get ''TIMEOUT_MS'' 900000 = Inr t" using assms unfolding adapterFromEnv_def bind_result_Inr by blast
  note run = assms [unfolded adapterFromEnv_def t bind_result_def Let_def sum.case]
  show ?thesis
  proof (cases "mode = ''claude''")
    case True
    then have "claude_from_env os get wd ?auth ?allow = Inr a" using run by (simp split: if_split_asm)
    then show ?thesis using claude_from_provider [of os get wd ?allow a] True by (intro disjI2) auto
  next
    case nc: False
    show ?thesis
    proof (cases "mode = ''codex''")
      case True
      then have "codex_from_env os get wd ?auth ?allow = Inr a" using run by (simp split: if_split_asm)
      then show ?thesis using codex_from_provider [of os get wd ?allow a] True by (intro disjI2) auto
    next
      case False
      then have "mode \<in> {''http'', ''openclaw'', ''a2a'', ''command''} \<and> native_config a = None \<and> unisolatedAdapterOptions os get ?auth = None"
        using run nc other_adapter_None(1) [of os get t ?auth a] other_adapter_None(2) [of k os get t ?auth a]
          other_adapter_None(3) [of os get wd t ?auth ?allow a] by (simp split: if_split_asm) argo
      then show ?thesis by simp
    qed
  qed
qed

section \<open>Properties\<close>

text \<open>
  C23: Codex and Claude are isolated unless that was switched off explicitly, and never run unsandboxed by
  accident: an accepted adapter for them has native isolation exactly when the isolation setting reads
  \<open>native\<close>, or is unset and no Codex mock response replaces the client; otherwise the setting reads
  \<open>off\<close> or a Codex mock is used. With isolation the configuration has been validated, lies outside every
  git worktree, names no workspace, reuses sessions and has no mock. The other adapters are accepted
  only when no isolation setting at all is present.
\<close>

theorem native_isolation_default:
  assumes "adapterFromEnv k os get wd mode = Inr a"
  shows "case native_config a of
      None \<Rightarrow> mode \<in> {''http'', ''openclaw'', ''a2a'', ''command''} \<and> isolation_mode get \<in> {[], ''off''} \<and> node_var get ''HOST_AUTH_CONCURRENCY'' = []
        \<and> (\<forall>n \<in> {''SESSION_ROOT'', ''SESSION_TEMP_ROOT'', ''SESSION_SANDBOX_BIN''}. node_var get n = [])
        \<and> (\<forall>n \<in> {''SESSION_READ_PATHS'', ''SESSION_NETWORK_DOMAINS''}. trim_space (node_var get n) = [])
    | Some (c, mock) \<Rightarrow> mode = pc_provider c \<and> pc_provider c \<in> {''codex'', ''claude''} \<and> (mock \<longrightarrow> pc_provider c = ''codex'')
        \<and> (Enabled (pc_isolation c) \<longleftrightarrow> isolation_mode get = ''native'' \<or> (isolation_mode get = [] \<and> \<not> mock))
        \<and> (\<not> Enabled (pc_isolation c) \<longrightarrow> isolation_mode get = ''off'' \<or> (isolation_mode get = [] \<and> mock))
        \<and> (Enabled (pc_isolation c) \<longrightarrow> \<not> mock \<and> Validate (host.truncate os) (pc_isolation c) = None
             \<and> CheckOutsideGitWorktree os (sc_root (pc_isolation c)) = None \<and> get (provider_prefix mode @ ''WORKSPACE'') = [] \<and> pc_reuse c)"
proof (cases "native_config a")
  case None
  then have other: "mode \<in> {''http'', ''openclaw'', ''a2a'', ''command''}" "unisolatedAdapterOptions os get (node_var get ''HOST_AUTH_CONCURRENCY'') = None"
    using adapter_cases [OF assms] by (elim disjE exE conjE; simp)+
  obtain c where c: "sessionIsolationFromEnv os get False = Inr c" "\<not> Enabled c" "node_var get ''HOST_AUTH_CONCURRENCY'' = []"
    using unisolated_None [OF other(2)] by blast
  have "isolation_mode get \<in> {[], ''off''}"
    using validated_off [OF isolation_Inr(1) [OF c(1)] c(2)] isolation_Inr(2) [OF c(1)] by auto
  then show ?thesis using None other isolation_Inr(4) [OF c(1)] c by simp
next
  case (Some cm)
  then obtain c mock where native: "native_config a = Some (c, mock)" "mode = pc_provider c" "pc_provider c \<in> {''codex'', ''claude''}"
      "from_provider_env os get c mock"
    using adapter_cases [OF assms] by (elim disjE exE conjE) (simp, metis)
  let ?c = "pc_isolation c"
  have p: "sessionIsolationFromEnv os get (\<not> mock) = Inr ?c" "Enabled ?c \<longrightarrow> \<not> mock \<and> nativeProviderOptions get (pc_provider c) = None"
    using provider_isolation_Inr [of os get "pc_provider c"] native(4) by (auto simp: from_provider_env_def Let_def)
  note i = isolation_Inr [OF p(1)]
  have off: "\<not> Enabled ?c \<longrightarrow> sc_mode ?c \<in> {[], ''off''}" using validated_off [OF i(1)] by blast
  have on: "CheckOutsideGitWorktree os (sc_root ?c) = None" if "Enabled ?c"
  proof -
    have "sc_root ?c \<noteq> []" using validated_native [OF i(1) that] by (auto simp: safePath_def is_abs_def)
    then show ?thesis using check_roots_None i(3) that by blast
  qed
  have mode: "Enabled ?c \<longleftrightarrow> isolation_mode get = ''native'' \<or> (isolation_mode get = [] \<and> \<not> mock)"
    using i(2) by (auto simp: Enabled_def)
  show ?thesis
    using native mode off on i(1,2) p(2) native_options_None [of get "pc_provider c"]
    by (simp add: from_provider_env_def) argo
qed

definition demo_sdk :: sdk where
  "demo_sdk = \<lparr>sdk_capacity = 1, sdk_claim_wait = 20, sdk_command_wait = 20, sdk_heartbeat = 15, sdk_retry_min = 100, sdk_retry_max = 5000,
     sdk_transport_auto = ''auto'', sdk_method_send = ''message/send'', sdk_method_for = (\<lambda>m _. m), sdk_dialect = (\<lambda>d. d)\<rparr>"

text \<open>A Linux host without any of the files the checks look for.\<close>

definition demo_host :: sandbox_os where
  "demo_host = \<lparr>ho_goos = ''linux'', ho_goarch = ''amd64'', ho_euid = 1000, so_mkdir_all = (\<lambda>_. None), so_mkdir = (\<lambda>_. None),
     so_lstat = (\<lambda>_. None), so_eval = (\<lambda>_. None), so_open_lock = (\<lambda>_. Inr None), so_flock = (\<lambda>_. None), so_unlock = (\<lambda>_. None),
     so_create_temp = (\<lambda>_. None), so_mkdir_temp = (\<lambda>_. None), so_write = (\<lambda>_. None), so_remove = (\<lambda>_. None),
     so_remove_all = (\<lambda>_. None), so_look_path = (\<lambda>_. None), so_read_file = (\<lambda>_. None), so_home = ''/home/n''\<rparr>"

definition demo_get :: "string \<Rightarrow> env_lookup" where
  "demo_get isolation name =
     (if name = ''HOME'' then ''/home/n'' else if name = ''OPENLINKER_URL'' then ''https://core.example/''
      else if name = node_prefix @ ''SESSION_ISOLATION'' then isolation else [])"

definition accepted_native :: "adapter result \<Rightarrow> (string \<times> string) option" where
  "accepted_native r =
     (case r of Inl _ \<Rightarrow> None
      | Inr a \<Rightarrow> map_option (\<lambda>(c, _). (sc_mode (pc_isolation c), sc_root (pc_isolation c))) (native_config a))"

theorem native_isolation_default_witness:
  "accepted_native (adapterFromEnv demo_sdk demo_host (demo_get []) (Some ''/w'') ''codex'') =
     Some (''native'', ''/home/n/.local/state/openlinker-agent-node-sessions'')
   \<and> accepted_native (adapterFromEnv demo_sdk demo_host (demo_get ''off'') (Some ''/w'') ''claude'') = Some (''off'', [])
   \<and> (\<exists>c :: provider_config. CheckOutsideGitWorktree demo_host (sc_root (pc_isolation c)) = None \<and> pc_provider c = ''codex'' \<and> Enabled (pc_isolation c))"
proof -
  have on: "accepted_native (adapterFromEnv demo_sdk demo_host (demo_get []) (Some ''/w'') ''codex'') =
     Some (''native'', ''/home/n/.local/state/openlinker-agent-node-sessions'')" by code_simp
  have off: "accepted_native (adapterFromEnv demo_sdk demo_host (demo_get ''off'') (Some ''/w'') ''claude'') = Some (''off'', [])" by code_simp
  obtain a c mock where a: "adapterFromEnv demo_sdk demo_host (demo_get []) (Some ''/w'') ''codex'' = Inr a" "native_config a = Some (c, mock)"
      "sc_mode (pc_isolation c) = ''native''"
    using on by (auto simp: accepted_native_def split: sum.splits)
  have "Enabled (pc_isolation c)" using a(3) by (simp add: Enabled_def)
  then have "CheckOutsideGitWorktree demo_host (sc_root (pc_isolation c)) = None \<and> pc_provider c = ''codex''"
    using native_isolation_default [OF a(1)] a(2) by simp
  then show ?thesis using on off \<open>Enabled (pc_isolation c)\<close> by blast
qed

lemma duration_exact: "0 \<le> v \<Longrightarrow> 0 \<le> u \<Longrightarrow> v * u < 2 ^ 63 \<Longrightarrow> duration v u = v * u"
proof -
  assume a: "0 \<le> v" "0 \<le> u" "v * u < 2 ^ 63"
  have "- (2 ^ 63) \<le> v * u" using mult_nonneg_nonneg [OF a(1,2)] by simp
  then have "sint (of_int (v * u) :: 64 word) = v * u"
    using a by (simp add: signed_of_int signed_take_bit_int_eq_self del: of_int_mult)
  then show ?thesis by (simp add: duration_def)
qed

lemma number_var_range: "number_var get name d = Inr v \<Longrightarrow> 0 \<le> d \<Longrightarrow> d < 2 ^ 63 \<Longrightarrow> 0 \<le> v \<and> v < 2 ^ 63"
  by (auto simp: number_var_def numberOption_def split: if_splits option.splits dest: atoi_range)


definition long_wait :: env_lookup where
  "long_wait name = (if name = node_prefix @ ''CLAIM_WAIT_SECONDS'' then ''9223372037'' else [])"


end
