(* ===== verification/Sandbox_Safety.thy ===== *)
theory Sandbox_Safety
  imports Sandbox_Session
begin

text \<open>
  What the session storage of \<open>Sandbox_Session\<close> guarantees: where a session may lie, that two open
  sessions never share it, and that nothing is left behind.
\<close>

section \<open>What a successful open has checked\<close>

lemma privateDirectory_Inr: "privateDirectory os parent name = Inr p \<Longrightarrow> p = filepath_join [parent, name] \<and> private_dir (so_lstat os p)"
  by (auto simp: privateDirectory_def Let_def split: if_splits)

lemma privateRoot_Inr:
  assumes "privateRoot os p = Inr root"
  shows "so_eval os (filepath_clean p) = Some root \<and> safePath root \<and> \<not> shared_ancestor (so_lstat os) (filepath_dir root)
     \<and> \<not> gitWorktree (so_lstat os) root"
  using assms by (auto simp: privateRoot_def Let_def split: if_splits sum.splits option.splits)

lemma make_dirs_None: "make_dirs os data ns = None \<Longrightarrow> n \<in> set ns \<Longrightarrow> private_dir (so_lstat os (filepath_join [data, n]))"
  by (induction os data ns rule: make_dirs.induct) (auto split: sum.splits dest: privateDirectory_Inr)

lemma prepare_control_Inr:
  assumes "prepare_control os cancelled c scope outer = Inr (c1, bin, tmp, control)"
  shows "Validate (host.truncate os) c = None \<and> Enabled c \<and> scope \<noteq> [] \<and> privateRoot os (sc_root c) = Inr (sc_root c1)
     \<and> sc_namespace c1 = sc_namespace c \<and> control = filepath_join [sc_root c1, Scope [sc_namespace c, scope]]
     \<and> private_dir (so_lstat os control)
     \<and> (tmp = ''/tmp'' \<or> privateRoot os (sc_temp_root c) = Inr tmp \<and> length tmp \<le> 40)"
  using assms
  by (auto simp: prepare_control_def resolve_temp_root_def split: option.splits if_splits sum.splits dest!: privateDirectory_Inr)

lemma AcquireLock_Inr: "AcquireLock os path rs = (Inr l, rs1) \<Longrightarrow> l = path \<and> HeldLock path \<notin> set rs \<and> rs1 = HeldLock path # rs"
  by (auto simp: AcquireLock_def split: sum.splits if_splits option.splits)

lemma AcquireLock_Inl: "AcquireLock os path rs = (Inl er, rs1) \<Longrightarrow> rs1 = rs"
  by (auto simp: AcquireLock_def split: sum.splits if_splits option.splits)

lemma open_data_Inr:
  assumes "open_data os c bin tmp control outer rs = (Inr s, rs1)"
  shows "sn_config s = c \<and> sn_control s = control \<and> sn_data s = filepath_join [control, ''data''] \<and> sn_locked s
     \<and> private_dir (so_lstat os (sn_data s)) \<and> (\<forall>n \<in> set session_names. private_dir (so_lstat os (filepath_join [sn_data s, n])))
     \<and> rs1 = TempTree (sn_temp s) # PolicyFile (sn_policy s) # rs \<and> so_create_temp os control = Some (sn_policy s)
     \<and> (\<exists>t. so_mkdir_temp os tmp = Some t \<and> so_eval os t = Some (sn_temp s))"
  using assms
  by (auto simp: open_data_def Let_def open_temp_def split: sum.splits option.splits if_splits prod.splits
      dest!: privateDirectory_Inr dest: make_dirs_None)

lemma openSession_Inr:
  assumes "openSession os cancelled c scope outer rs = (Inr s, rs')"
  obtains c1 bin tmp where "prepare_control os cancelled c scope outer = Inr (c1, bin, tmp, sn_control s)"
    "HeldLock (lock_path (sn_control s)) \<notin> set rs"
    "open_data os c1 bin tmp (sn_control s) outer (HeldLock (lock_path (sn_control s)) # rs) = (Inr s, rs')"
proof -
  obtain c1 bin tmp control where p: "prepare_control os cancelled c scope outer = Inr (c1, bin, tmp, control)"
    using assms by (auto simp: openSession_def split: sum.splits)
  obtain l rs1 where a: "AcquireLock os (lock_path control) rs = (Inr l, rs1)"
      "open_data os c1 bin tmp control outer rs1 = (Inr s, rs')"
    using assms p by (auto simp: openSession_def split: sum.splits prod.splits)
  note lock = AcquireLock_Inr [OF a(1)] and data = open_data_Inr [OF a(2)]
  show thesis using that [of c1 bin tmp] p a(2) lock data by auto
qed

section \<open>Nothing is left behind\<close>

lemma release_fresh: "r \<notin> set rs \<Longrightarrow> release_held r (r # rs) = rs"
  by (auto simp: release_held_def filter_id_conv)

lemma release_other: "r \<noteq> x \<Longrightarrow> release_held r (x # rs) = x # release_held r rs"
  by (simp add: release_held_def)

definition removes :: "('a) sandbox_os_scheme \<Rightarrow> bool" where
  "removes os = ((\<forall>p. so_remove os p = None) \<and> (\<forall>p. so_remove_all os p = None))"

lemma open_data_Inl:
  assumes "removes os" "open_data os c bin tmp control outer rs = (Inl er, rs1)"
    and "\<And>p. so_create_temp os control = Some p \<Longrightarrow> PolicyFile p \<notin> set rs" and "\<And>t. so_mkdir_temp os tmp = Some t \<Longrightarrow> TempTree t \<notin> set rs"
  shows "rs1 = rs"
  using assms
  by (auto simp: open_data_def open_temp_def Let_def removes_def remove_file_def remove_tree_def release_fresh release_other
      split: sum.splits option.splits if_splits prod.splits)

lemma open_close_clean:
  assumes "removes os" and run: "openSession os cancelled c scope outer rs = (r, rs')"
    and fresh: "\<And>d p. so_create_temp os d = Some p \<Longrightarrow> PolicyFile p \<notin> set rs"
      "\<And>d t u. so_mkdir_temp os d = Some t \<Longrightarrow> TempTree t \<notin> set rs \<and> (so_eval os t = Some u \<longrightarrow> TempTree u \<notin> set rs)"
  shows "case r of Inl _ \<Rightarrow> rs' = rs | Inr s \<Rightarrow> snd (snd (session_Close os s rs')) = rs"
proof (cases r)
  case (Inr s)
  then obtain c1 bin tmp where o: "prepare_control os cancelled c scope outer = Inr (c1, bin, tmp, sn_control s)"
      "HeldLock (lock_path (sn_control s)) \<notin> set rs"
      "open_data os c1 bin tmp (sn_control s) outer (HeldLock (lock_path (sn_control s)) # rs) = (Inr s, rs')"
    using run openSession_Inr by metis
  note d = open_data_Inr [OF o(3)]
  have f: "PolicyFile (sn_policy s) \<notin> set rs" "TempTree (sn_temp s) \<notin> set rs" using d fresh by blast+
  have "release_held (PolicyFile (sn_policy s)) rs' = TempTree (sn_temp s) # HeldLock (lock_path (sn_control s)) # rs"
    using d f by (auto simp: release_held_def filter_id_conv)
  then show ?thesis
    using Inr d f o(2) assms(1)
    by (simp add: session_Close_def removes_def remove_file_def remove_tree_def Release_def release_fresh)
next
  case (Inl er)
  then show ?thesis
  proof (cases "prepare_control os cancelled c scope outer")
    case (Inr p)
    then obtain c1 bin tmp control where p: "prepare_control os cancelled c scope outer = Inr (c1, bin, tmp, control)" by (metis prod_cases4)
    show ?thesis
    proof (cases "AcquireLock os (lock_path control) rs")
      case (Pair l rs1)
      show ?thesis
      proof (cases l)
        case (Inl e2)
        then show ?thesis using run p Pair \<open>r = Inl er\<close> AcquireLock_Inl by (fastforce simp: openSession_def)
      next
        case (Inr lock)
        then have a: "lock = lock_path control" "HeldLock (lock_path control) \<notin> set rs" "rs1 = HeldLock (lock_path control) # rs"
          using Pair AcquireLock_Inr by metis+
        obtain e2 rs2 where o: "open_data os c1 bin tmp control outer rs1 = (Inl e2, rs2)" "rs' = release_held (HeldLock lock) rs2"
          using run p Pair Inr \<open>r = Inl er\<close> by (auto simp: openSession_def Release_def split: sum.splits prod.splits)
        have "rs2 = rs1" by (rule open_data_Inl [OF assms(1) o(1)]) (use fresh a in auto)
        then show ?thesis using o(2) a \<open>r = Inl er\<close> by (simp add: release_fresh)
      qed
    qed
  qed (use run in \<open>simp add: openSession_def\<close>)
qed

section \<open>Histories of sessions\<close>

record sandbox_state =
  sb_sessions :: "session list"
  sb_held :: "held list"

text \<open>Every step may meet another operating system answer.\<close>

inductive sandbox_step :: "sandbox_state \<Rightarrow> sandbox_state \<Rightarrow> bool" where
  opened: "openSession (os :: sandbox_os) cancelled c scope outer (sb_held st) = (Inr s, rs) \<Longrightarrow>
    sandbox_step st (st\<lparr>sb_sessions := s # sb_sessions st, sb_held := rs\<rparr>)"
| refused: "openSession (os :: sandbox_os) cancelled c scope outer (sb_held st) = (Inl er, rs) \<Longrightarrow>
    sandbox_step st (st\<lparr>sb_held := rs\<rparr>)"
| closed: "s \<in> set (sb_sessions st) \<Longrightarrow> session_Close (os :: sandbox_os) s (sb_held st) = (er, s', rs) \<Longrightarrow>
    sandbox_step st (st\<lparr>sb_sessions := remove1 s (sb_sessions st), sb_held := rs\<rparr>)"

definition init_sandbox :: sandbox_state where
  "init_sandbox = \<lparr>sb_sessions = [], sb_held = []\<rparr>"

definition sandbox_inv :: "sandbox_state \<Rightarrow> bool" where
  "sandbox_inv st =
     (distinct (map (lock_path \<circ> sn_control) (sb_sessions st))
      \<and> (\<forall>s \<in> set (sb_sessions st). sn_locked s \<and> HeldLock (lock_path (sn_control s)) \<in> set (sb_held st)))"

lemma held_remove_file: "HeldLock l \<in> set (snd (remove_file os p rs)) \<longleftrightarrow> HeldLock l \<in> set rs"
  by (auto simp: remove_file_def release_held_def split: option.splits)

lemma held_remove_tree: "HeldLock l \<in> set (snd (remove_tree os p rs)) \<longleftrightarrow> HeldLock l \<in> set rs"
  by (auto simp: remove_tree_def release_held_def split: option.splits)

lemma held_open_data:
  "open_data os c bin tmp control outer rs = (r, rs1) \<Longrightarrow> HeldLock l \<in> set rs1 \<longleftrightarrow> HeldLock l \<in> set rs"
  by (auto simp: open_data_def open_temp_def Let_def held_remove_file held_remove_tree
      split: sum.splits option.splits if_splits prod.splits)

lemma held_refused:
  assumes "openSession os cancelled c scope outer rs = (Inl er, rs')" and "HeldLock l \<in> set rs"
  shows "HeldLock l \<in> set rs'"
proof (cases "prepare_control os cancelled c scope outer")
  case (Inr p)
  then obtain c1 bin tmp control where p: "prepare_control os cancelled c scope outer = Inr (c1, bin, tmp, control)" by (metis prod_cases4)
  obtain a rs1 where a: "AcquireLock os (lock_path control) rs = (a, rs1)" by (meson surj_pair)
  show ?thesis
  proof (cases a)
    case (Inl e2)
    then show ?thesis using assms p a AcquireLock_Inl by (fastforce simp: openSession_def)
  next
    case (Inr lock)
    then have l: "lock = lock_path control" "HeldLock (lock_path control) \<notin> set rs" "rs1 = HeldLock (lock_path control) # rs"
      using a AcquireLock_Inr by metis+
    obtain e2 rs2 where o: "open_data os c1 bin tmp control outer rs1 = (Inl e2, rs2)" "rs' = release_held (HeldLock lock) rs2"
      using assms(1) p a Inr by (auto simp: openSession_def Release_def split: sum.splits prod.splits)
    then show ?thesis using held_open_data [OF o(1)] l assms(2) by (auto simp: release_held_def)
  qed
qed (use assms in \<open>simp add: openSession_def\<close>)

lemma held_closed:
  assumes "session_Close os s rs = (er, s', rs')" and "sn_locked s" and "HeldLock l \<in> set rs" and "l \<noteq> lock_path (sn_control s)"
  shows "HeldLock l \<in> set rs'"
proof -
  have "rs' = release_held (HeldLock (lock_path (sn_control s))) (snd (remove_tree os (sn_temp s) (snd (remove_file os (sn_policy s) rs))))"
    using assms(1,2) by (simp add: session_Close_def Let_def Release_def split: prod.splits)
  then show ?thesis using assms(3,4) by (simp add: release_held_def held_remove_file held_remove_tree)
qed

lemma held_opened:
  assumes "openSession os cancelled c scope outer rs = (Inr s, rs')"
  shows "sn_locked s" "HeldLock (lock_path (sn_control s)) \<notin> set rs" "HeldLock (lock_path (sn_control s)) \<in> set rs'"
    "HeldLock l \<in> set rs \<Longrightarrow> HeldLock l \<in> set rs'"
  using openSession_Inr [OF assms] open_data_Inr held_open_data by (metis list.set_intros)+

lemma sandbox_step_inv: "sandbox_step st st' \<Longrightarrow> sandbox_inv st \<Longrightarrow> sandbox_inv st'"
proof (induction rule: sandbox_step.induct)
  case (opened os cancelled c scope outer st s rs)
  note o = held_opened [OF opened.hyps]
  have "lock_path (sn_control s) \<notin> (lock_path \<circ> sn_control) ` set (sb_sessions st)"
    using opened.prems o(2) by (auto simp: sandbox_inv_def)
  then show ?case using opened.prems o by (simp add: sandbox_inv_def)
next
  case (refused os cancelled c scope outer st er rs)
  then show ?case using held_refused [OF refused.hyps] by (auto simp: sandbox_inv_def)
next
  case (closed s st os er s' rs)
  have d: "distinct (map (lock_path \<circ> sn_control) (sb_sessions st))" using closed.prems by (simp add: sandbox_inv_def)
  then have ds: "distinct (sb_sessions st)" by (simp add: distinct_map)
  have other: "lock_path (sn_control x) \<noteq> lock_path (sn_control s)" if "x \<in> set (remove1 s (sb_sessions st))" for x
    using that d ds closed.hyps(1) by (auto simp: distinct_map inj_on_def)
  have "distinct (map (lock_path \<circ> sn_control) (remove1 s (sb_sessions st)))"
    using d by (auto simp: distinct_map inj_on_def dest: in_set_remove1 [THEN iffD1, rotated] notin_set_remove1)
  moreover have "HeldLock (lock_path (sn_control x)) \<in> set rs" "sn_locked x" if "x \<in> set (remove1 s (sb_sessions st))" for x
  proof -
    have x: "x \<in> set (sb_sessions st)" using that notin_set_remove1 by metis
    have "sn_locked s" using closed.prems closed.hyps(1) by (simp add: sandbox_inv_def)
    then show "HeldLock (lock_path (sn_control x)) \<in> set rs"
      using held_closed [OF closed.hyps(2)] x closed.prems other [OF that] by (auto simp: sandbox_inv_def)
    show "sn_locked x" using x closed.prems by (simp add: sandbox_inv_def)
  qed
  ultimately show ?case by (simp add: sandbox_inv_def)
qed

lemma sandbox_reachable_inv: "sandbox_step\<^sup>*\<^sup>* init_sandbox st \<Longrightarrow> sandbox_inv st"
proof (induction rule: rtranclp_induct)
  case base
  show ?case by (simp add: sandbox_inv_def init_sandbox_def)
next
  case (step y z)
  then show ?case by (blast intro: sandbox_step_inv)
qed

section \<open>Properties\<close>

text \<open>
  C19: A session lies only in a place that is private to the Node: when opening succeeds, its root is the
  resolved configured root, every directory above the root exists and is writable by others only with
  the sticky bit, neither the root nor any directory above it has a \<open>.git\<close> entry, the session's own
  directory below the root is named by the hash of the Core namespace and the trusted scope, and that
  directory, its data directory and the five directories in it are directories, no symbolic links,
  owned by the Node's user and closed to everyone else.
\<close>

theorem session_location_private:
  assumes run: "openSession os cancelled c scope outer rs = (Inr s, rs')"
    and eval_clean: "\<forall>p q. so_eval os p = Some q \<longrightarrow> filepath_clean q = q"
  shows "let root = sc_root (sn_config s); cs = path_comps root in
     so_eval os (filepath_clean (sc_root c)) = Some root \<and> is_abs root
     \<and> (\<forall>n < length cs. \<exists>i. so_lstat os (path_text True (take n cs)) = Some i \<and> di_dir i \<and> (shared_writable (di_perm i) \<longrightarrow> di_sticky i))
     \<and> (\<forall>n \<le> length cs. so_lstat os (path_text True (take n cs @ [''.git''])) = None)
     \<and> sn_control s = filepath_join [root, Scope [sc_namespace c, scope]] \<and> sn_data s = filepath_join [sn_control s, ''data'']
     \<and> (\<forall>d \<in> {sn_control s, sn_data s} \<union> (\<lambda>n. filepath_join [sn_data s, n]) ` {''workspace'', ''home'', ''codex'', ''claude'', ''tmp''}.
          \<exists>i. so_lstat os d = Some i \<and> di_dir i \<and> di_perm i mod 64 = 0 \<and> di_owned i)"
proof -
  obtain c1 bin tmp where o: "prepare_control os cancelled c scope outer = Inr (c1, bin, tmp, sn_control s)"
      "open_data os c1 bin tmp (sn_control s) outer (HeldLock (lock_path (sn_control s)) # rs) = (Inr s, rs')"
    using openSession_Inr [OF run] by metis
  note p = prepare_control_Inr [OF o(1)] and d = open_data_Inr [OF o(2)]
  let ?root = "sc_root (sn_config s)"
  have root: "privateRoot os (sc_root c) = Inr ?root" using p d by simp
  note r = privateRoot_Inr [OF root]
  have abs: "is_abs ?root" "filepath_clean ?root = ?root" using r eval_clean by (auto simp: safePath_def)
  have dirs: "\<exists>i. so_lstat os (path_text True (take n (path_comps ?root))) = Some i \<and> di_dir i \<and> (shared_writable (di_perm i) \<longrightarrow> di_sticky i)"
    if "n < length (path_comps ?root)" for n
  proof -
    have "path_comps ?root \<noteq> []" using that by auto
    then have "\<not> bad_ancestor (so_lstat os (path_text True (take n (path_comps ?root))))"
      using shared_ancestor_clean [OF abs] r that by blast
    then show ?thesis by (auto simp: bad_ancestor_def split: option.splits)
  qed
  have git: "git_free (so_lstat os) (path_comps ?root)" using gitWorktree_clean [OF abs(1)] abs(2) r by simp
  have priv: "\<exists>i. so_lstat os x = Some i \<and> di_dir i \<and> di_perm i mod 64 = 0 \<and> di_owned i" if "private_dir (so_lstat os x)" for x
    using that by (auto simp: private_dir_def group_or_other_def split: option.splits)
  show ?thesis
    unfolding Let_def using r abs dirs git p d by (auto simp: git_free_def session_names_def intro!: priv)
qed

text \<open>
  The read-only worktree check of the configuration is exact: it accepts a path if and only if the
  path is absolute without control or glob characters and no directory from the root of the file system
  down to the path's real location has a \<open>.git\<close> entry, where the real location of a path that does not
  exist yet is its longest prefix that resolves, resolved, with the rest of the path below it. In
  particular the walks up the directories end on every path.
\<close>

theorem git_check_exact:
  assumes eval_abs: "\<forall>d q. so_eval os d = Some q \<longrightarrow> is_abs q"
  shows "CheckOutsideGitWorktree os p = None \<longleftrightarrow>
    safePath p \<and> (let cs = real_location (so_eval os) (path_comps p)
      in \<forall>n \<le> length cs. so_lstat os (path_text True (take n cs @ [''.git''])) = None)"
proof (cases "safePath p")
  case True
  then have abs: "is_abs p" by (simp add: safePath_def)
  note l = canonicalExisting_location [OF abs, of "so_eval os", OF eval_abs [rule_format]]
  have "gitWorktree (so_lstat os) (canonicalExisting (so_eval os) (filepath_clean p)) \<longleftrightarrow>
      \<not> git_free (so_lstat os) (real_location (so_eval os) (path_comps p))"
    using gitWorktree_clean [OF l(2)] l(1,3) by simp
  then show ?thesis using True by (simp add: CheckOutsideGitWorktree_def git_free_def Let_def)
qed (simp add: CheckOutsideGitWorktree_def)

text \<open>
  C20: Two sessions that are open at the same time never share their storage: in every history of opens,
  refused opens and closes, under any answers of the operating system, the sessions that are open have
  pairwise different directories and each holds the lock of its own; and no further open succeeds on the
  directory of an open session.
\<close>

theorem sessions_exclusive:
  assumes reach: "sandbox_step\<^sup>*\<^sup>* init_sandbox st" and s: "i < j" "j < length (sb_sessions st)"
  shows "sn_control (sb_sessions st ! i) \<noteq> sn_control (sb_sessions st ! j)
    \<and> HeldLock (lock_path (sn_control (sb_sessions st ! i))) \<in> set (sb_held st)
    \<and> (\<forall>(os :: sandbox_os) cancelled c scope outer s' rs.
         openSession os cancelled c scope outer (sb_held st) = (Inr s', rs) \<longrightarrow> sn_control s' \<noteq> sn_control (sb_sessions st ! i))"
proof -
  have inv: "sandbox_inv st" by (rule sandbox_reachable_inv [OF reach])
  then have "distinct (map (lock_path \<circ> sn_control) (sb_sessions st))" by (simp add: sandbox_inv_def)
  then have "map (lock_path \<circ> sn_control) (sb_sessions st) ! i \<noteq> map (lock_path \<circ> sn_control) (sb_sessions st) ! j"
    using s nth_eq_iff_index_eq [of "map (lock_path \<circ> sn_control) (sb_sessions st)" i j] by simp
  moreover have held: "HeldLock (lock_path (sn_control (sb_sessions st ! i))) \<in> set (sb_held st)"
    using inv s by (auto simp: sandbox_inv_def)
  moreover have "sn_control s' \<noteq> sn_control (sb_sessions st ! i)"
    if "openSession os cancelled c scope outer (sb_held st) = (Inr s', rs)"
    for os :: sandbox_os and cancelled c scope outer s' rs
    using held_opened(2) [OF that] held by auto
  ultimately show ?thesis using s by auto
qed

section \<open>Witnesses\<close>

text \<open>A host whose directories are all private and free of repositories, except \<open>/r\<close>.\<close>

definition demo_dir :: dir_info where
  "demo_dir = \<lparr>di_dir = True, di_regular = False, di_perm = 448, di_sticky = False, di_owned = True\<rparr>"

definition demo_os :: sandbox_os where
  "demo_os = \<lparr>ho_goos = ''linux'', ho_goarch = ''amd64'', ho_euid = 1000, so_mkdir_all = (\<lambda>_. None), so_mkdir = (\<lambda>_. None),
     so_lstat = (\<lambda>p. if p \<in> {''/.git'', ''/s/.git'', ''/q/.git'', ''/s/new/.git'', ''/r/new/.git''} then None else Some demo_dir),
     so_eval = (\<lambda>p. if p \<in> {''/s'', ''/q'', ''/r'', ''/t''} then Some p else None),
     so_open_lock = (\<lambda>_. Inr (Some (demo_dir\<lparr>di_regular := True\<rparr>))), so_flock = (\<lambda>_. None), so_unlock = (\<lambda>_. None),
     so_create_temp = (\<lambda>_. Some ''p''), so_mkdir_temp = (\<lambda>_. Some ''/t''), so_write = (\<lambda>_. None), so_remove = (\<lambda>_. None),
     so_remove_all = (\<lambda>_. None), so_look_path = (\<lambda>_. None), so_read_file = (\<lambda>_. None), so_home = ''/h''\<rparr>"

lemma demo_answers [simp]:
  "so_mkdir demo_os p = None" "so_flock demo_os p = None" "so_create_temp demo_os p = Some ''p''"
  "so_mkdir_temp demo_os p = Some ''/t''" "so_eval demo_os ''/t'' = Some ''/t''"
  "so_open_lock demo_os p = Inr (Some (demo_dir\<lparr>di_regular := True\<rparr>))"
  by (simp_all add: demo_os_def)

lemma demo_eval: "so_eval demo_os p = Some q \<Longrightarrow> is_abs q \<and> filepath_clean q = q"
proof -
  have "is_abs ''/s'' \<and> filepath_clean ''/s'' = ''/s''" "is_abs ''/q'' \<and> filepath_clean ''/q'' = ''/q''"
    "is_abs ''/r'' \<and> filepath_clean ''/r'' = ''/r''" "is_abs ''/t'' \<and> filepath_clean ''/t'' = ''/t''" by code_simp+
  then show "so_eval demo_os p = Some q \<Longrightarrow> ?thesis" by (auto simp: demo_os_def split: if_splits)
qed

definition demo_sandbox :: "char \<Rightarrow> sandbox_config" where
  "demo_sandbox r = empty_sandbox\<lparr>sc_mode := ''native'', sc_root := [CHR ''/'', r], sc_namespace := ''https://core''\<rparr>"

lemma Scope_plain: "plain_comp (Scope ps)" "length (Scope ps) = 64"
proof -
  show l: "length (Scope ps) = 64" by (simp add: Scope_def)
  have "slash \<notin> set (Scope ps)"
    using hex_encode_hex [of slash] by (auto simp: Scope_def is_lower_hex_def is_digit_def slash_def)
  then show "plain_comp (Scope ps)" using l by (auto simp: plain_comp_def)
qed

abbreviation demo_scope :: string where
  "demo_scope \<equiv> Scope [''https://core'', ''x'']"

lemma demo_private: "16 < length p \<Longrightarrow> private_dir (so_lstat demo_os p)"
  by (auto simp: demo_os_def private_dir_def demo_dir_def group_or_other_def)

lemma demo_directory:
  assumes "list_all plain_comp xs" "plain_comp n" "16 < length (path_text True (xs @ [n]))"
  shows "privateDirectory demo_os (path_text True xs) n = Inr (path_text True (xs @ [n]))"
  using demo_private [OF assms(3)] by (simp add: privateDirectory_def Let_def join_text [OF assms(1,2)])

lemma demo_names: "plain_comp ''s''" "plain_comp ''q''" "plain_comp ''data''" "list_all plain_comp session_names" "plain_comp demo_scope"
  using Scope_plain(1) by (simp_all add: plain_comp_def slash_def session_names_def)

lemma demo_length: "16 < length (path_text True ([r] # demo_scope # xs))"
  using Scope_plain(2) by (cases xs) (simp_all add: path_text_def str_join_Cons)

lemma demo_prepare:
  assumes "r \<in> {CHR ''s'', CHR ''q''}"
  shows "prepare_control demo_os None (demo_sandbox r) ''x'' False =
    Inr (demo_sandbox r, [], ''/tmp'', path_text True [ [r], demo_scope])"
proof -
  have "Validate (host.truncate demo_os) (demo_sandbox CHR ''s'') = None" "Validate (host.truncate demo_os) (demo_sandbox CHR ''q'') = None"
    "privateRoot demo_os ''/s'' = Inr ''/s''" "privateRoot demo_os ''/q'' = Inr ''/q''" by code_simp+
  then have v: "Validate (host.truncate demo_os) (demo_sandbox r) = None" "privateRoot demo_os [CHR ''/'', r] = Inr [CHR ''/'', r]"
    using assms by auto
  have "privateDirectory demo_os [CHR ''/'', r] demo_scope = Inr (path_text True [ [r], demo_scope])"
    using demo_directory [of "[ [r] ]" demo_scope] demo_names demo_length [of r "[]"] assms by (auto simp: path_text_def slash_def)
  then show ?thesis
    using v by (simp add: prepare_control_def resolve_temp_root_def demo_sandbox_def empty_sandbox_def Enabled_def)
qed

definition demo_session :: "char \<Rightarrow> session" where
  "demo_session r = \<lparr>sn_config = demo_sandbox r, sn_control = path_text True [ [r], demo_scope],
     sn_data = path_text True [ [r], demo_scope, ''data''], sn_policy = ''p'', sn_bin = [], sn_temp = ''/t'', sn_locked = True\<rparr>"

lemma demo_open:
  assumes r: "r \<in> {CHR ''s'', CHR ''q''}" and free: "HeldLock (lock_path (sn_control (demo_session r))) \<notin> set rs"
  shows "openSession demo_os None (demo_sandbox r) ''x'' False rs =
     (Inr (demo_session r), TempTree ''/t'' # PolicyFile ''p'' # HeldLock (lock_path (sn_control (demo_session r))) # rs)"
proof -
  let ?data = "path_text True [ [r], demo_scope, ''data'']"
  have rn: "plain_comp [r]" using demo_names r by auto
  have d: "privateDirectory demo_os (path_text True [ [r], demo_scope]) ''data'' = Inr ?data"
    using demo_directory [of "[ [r], demo_scope]" "''data''"] rn demo_names demo_length [of r "[''data'']"] by simp
  have n: "\<exists>p. privateDirectory demo_os ?data n = Inr p" if "plain_comp n" for n
    using demo_directory [of "[ [r], demo_scope, ''data'']" n] that rn demo_names demo_length [of r "[''data'', n]"] by simp
  have "make_dirs demo_os ?data ns = None" if "list_all plain_comp ns" for ns
    using that n by (induction ns) (auto split: sum.splits, metis Inl_not_Inr)
  then have m: "make_dirs demo_os ?data session_names = None" using demo_names by blast
  show ?thesis
    using d m free
    by (simp add: openSession_def demo_prepare [OF r] AcquireLock_def open_data_def open_temp_def demo_session_def)
      (simp add: demo_dir_def group_or_other_def)
qed

theorem session_location_private_witness:
  "\<exists>s rs. openSession demo_os None (demo_sandbox CHR ''s'') ''x'' False [] = (Inr s, rs)
     \<and> sc_root (sn_config s) = ''/s'' \<and> so_lstat demo_os (path_text True ([''s''] @ [''.git''])) = None
     \<and> sn_control s = filepath_join [''/s'', demo_scope]"
proof -
  have run: "openSession demo_os None (demo_sandbox CHR ''s'') ''x'' False [] =
      (Inr (demo_session CHR ''s''), [TempTree ''/t'', PolicyFile ''p'', HeldLock (lock_path (sn_control (demo_session CHR ''s'')))])"
    by (rule demo_open) simp_all
  have root: "sc_root (sn_config (demo_session CHR ''s'')) = ''/s''" "sc_namespace (demo_sandbox CHR ''s'') = ''https://core''" "path_comps ''/s'' = [''s'']"
    by (simp_all add: demo_session_def demo_sandbox_def empty_sandbox_def path_comps_def clean_comps_def is_abs_def slash_def)
  have clean: "\<forall>p q. so_eval demo_os p = Some q \<longrightarrow> filepath_clean q = q" using demo_eval by blast
  have "\<forall>n \<le> length [''s'']. so_lstat demo_os (path_text True (take n [''s''] @ [''.git''])) = None"
    "sn_control (demo_session CHR ''s'') = filepath_join [''/s'', demo_scope]"
    using session_location_private [OF run clean] unfolding Let_def root by blast+
  then have "so_lstat demo_os (path_text True ([''s''] @ [''.git''])) = None"
    "sn_control (demo_session CHR ''s'') = filepath_join [''/s'', demo_scope]" by force+
  then show ?thesis using run root by blast
qed

theorem git_check_exact_witness:
  "CheckOutsideGitWorktree demo_os ''/s/new'' = None \<and> CheckOutsideGitWorktree demo_os ''/r/new'' \<noteq> None
   \<and> so_lstat demo_os (path_text True [''.git'']) = None \<and> so_lstat demo_os (path_text True [''s'', ''.git'']) = None
   \<and> so_lstat demo_os (path_text True [''s'', ''new'', ''.git'']) = None"
proof -
  have ok: "CheckOutsideGitWorktree demo_os ''/s/new'' = None" by code_simp
  have bad: "CheckOutsideGitWorktree demo_os ''/r/new'' \<noteq> None" by code_simp
  have loc: "real_location (so_eval demo_os) (path_comps ''/s/new'') = [''s'', ''new'']" by code_simp
  have abs: "\<forall>d q. so_eval demo_os d = Some q \<longrightarrow> is_abs q" using demo_eval by blast
  have free: "so_lstat demo_os (path_text True (take n [''s'', ''new''] @ [''.git''])) = None" if "n \<le> 2" for n
    using ok git_check_exact [of demo_os "''/s/new''", OF abs] loc that by (simp add: Let_def numeral_2_eq_2)
  show ?thesis using ok bad free [of 0] free [of 1] free [of 2] by simp
qed

theorem sessions_exclusive_witness:
  "\<exists>st. sandbox_step\<^sup>*\<^sup>* init_sandbox st \<and> length (sb_sessions st) = 2
     \<and> sn_control (sb_sessions st ! 0) \<noteq> sn_control (sb_sessions st ! 1)
     \<and> HeldLock (lock_path (sn_control (sb_sessions st ! 0))) \<in> set (sb_held st)"
proof -
  let ?p = "\<lambda>r. lock_path (sn_control (demo_session r))"
  have lp: "?p r = path_text True [ [r], demo_scope, ''session.lock'']" if "plain_comp [r]" for r
    using join_text [of "[ [r], demo_scope]" "''session.lock''"] that demo_names
    by (simp add: lock_path_def demo_session_def plain_comp_def slash_def)
  have ne: "?p CHR ''q'' \<noteq> ?p CHR ''s''" using lp demo_names by (simp add: path_text_def)
  let ?rs1 = "TempTree ''/t'' # PolicyFile ''p'' # HeldLock (?p CHR ''s'') # []"
  let ?rs2 = "TempTree ''/t'' # PolicyFile ''p'' # HeldLock (?p CHR ''q'') # ?rs1"
  let ?st1 = "init_sandbox\<lparr>sb_sessions := [demo_session CHR ''s''], sb_held := ?rs1\<rparr>"
  let ?st2 = "init_sandbox\<lparr>sb_sessions := [demo_session CHR ''q'', demo_session CHR ''s''], sb_held := ?rs2\<rparr>"
  have s1: "sandbox_step init_sandbox ?st1"
    using sandbox_step.opened [of demo_os None "demo_sandbox CHR ''s''" "''x''" False init_sandbox] demo_open [of "CHR ''s''" "[]"]
    by (simp add: init_sandbox_def)
  have s2: "sandbox_step ?st1 ?st2"
    using sandbox_step.opened [of demo_os None "demo_sandbox CHR ''q''" "''x''" False ?st1] demo_open [of "CHR ''q''" ?rs1] ne
    by (simp add: init_sandbox_def)
  have reach: "sandbox_step\<^sup>*\<^sup>* init_sandbox ?st2" using s1 s2 by (meson converse_rtranclp_into_rtranclp rtranclp.rtrancl_refl)
  show ?thesis using reach sessions_exclusive [OF reach, of 0 1] by (intro exI [of _ ?st2]) simp
qed

end
