(* ===== verification/Sandbox_Command.thy ===== *)
theory Sandbox_Command
  imports Sandbox_Session "HOL-Library.Multiset"
begin

text \<open>
  \<open>pkg/adapters/sessionsandbox/command.go\<close> and \<open>Session.Environment\<close>: the policy and the process of
  the historical whole-client sandbox. Go visits the overrides of the environment in an unspecified
  order, which is the argument \<open>order\<close>.
\<close>

section \<open>The environment\<close>

definition allowed_names :: "string list" where
  "allowed_names = [''PATH'', ''CODEX_API_KEY'', ''ANTHROPIC_API_KEY'', ''ANTHROPIC_BASE_URL'']"

definition allowed_entry :: "string \<Rightarrow> bool" where
  "allowed_entry entry = (case str_cut CHR ''='' entry of (name, _, found) \<Rightarrow> found \<and> name \<in> set allowed_names)"

definition session_overrides :: "session \<Rightarrow> (string \<times> string) list" where
  "session_overrides s =
     [(''HOME'', filepath_join [sn_data s, ''home'']), (''CODEX_HOME'', filepath_join [sn_data s, ''codex'']),
      (''CLAUDE_CONFIG_DIR'', filepath_join [sn_data s, ''claude'']), (''TMPDIR'', sn_temp s), (''TMP'', sn_temp s), (''TEMP'', sn_temp s),
      (''XDG_CONFIG_HOME'', filepath_join [sn_data s, ''home/.config'']), (''XDG_CACHE_HOME'', filepath_join [sn_data s, ''home/.cache'']),
      (''XDG_DATA_HOME'', filepath_join [sn_data s, ''home/.local/share'']), (''LANG'', ''C''), (''LC_ALL'', ''C'')]"

definition override :: "string list \<Rightarrow> string \<times> string \<Rightarrow> string list" where
  "override entries kv =
     (case kv of (key, v) \<Rightarrow> filter (\<lambda>e. \<not> has_prefix e (key @ ''='')) entries @ [key @ ''='' @ v])"

definition Environment :: "(string \<times> string) list \<Rightarrow> string list \<Rightarrow> string list" where
  "Environment order vals = foldl override (filter allowed_entry vals) order"

section \<open>The policy\<close>

definition system_paths :: "string \<Rightarrow> string list" where
  "system_paths goos =
     [''/bin'', ''/sbin'', ''/usr/bin'', ''/usr/sbin'', ''/usr/lib'', ''/usr/libexec'', ''/lib'', ''/lib64'', ''/etc/ssl/certs'',
      ''/etc/ssl/openssl.cnf'', ''/etc/hosts'', ''/etc/resolv.conf'', ''/etc/nsswitch.conf'', ''/etc/ld.so.cache'', ''/etc/localtime'',
      ''/dev/null'', ''/dev/urandom'', ''/dev/random''] @
     (if goos = ''darwin'' then [''/System/Library'', ''/usr/share/icu'', ''/private/var/select/sh'', ''/private/etc/ssl/cert.pem'']
      else [''/usr/share/nodejs'', ''/usr/share/icu''])"

definition with_resolved :: "('a) sandbox_os_scheme \<Rightarrow> string \<Rightarrow> string list" where
  "with_resolved os p = p # (case so_eval os p of None \<Rightarrow> [] | Some r \<Rightarrow> [r])"

definition seccomp_helper :: "('a) sandbox_os_scheme \<Rightarrow> string \<Rightarrow> string" where
  "seccomp_helper os bin =
     filepath_clean (filepath_join [filepath_dir bin, ''..'', ''vendor'', ''seccomp'',
       if ho_goarch os = ''amd64'' then ''x64'' else ho_goarch os, ''apply-seccomp''])"

text \<open>\<open>stat\<close> is \<open>os.Stat\<close>; \<open>0o111\<close> are the three execute bits.\<close>

definition executable_file :: "dir_info option \<Rightarrow> bool" where
  "executable_file i =
     (case i of None \<Rightarrow> False | Some d \<Rightarrow> di_regular d \<and> (odd (di_perm d div 64) \<or> odd (di_perm d div 8) \<or> odd (di_perm d)))"

definition helper_paths :: "('a) sandbox_os_scheme \<Rightarrow> (string \<Rightarrow> dir_info option) \<Rightarrow> string \<Rightarrow> string list result" where
  "helper_paths os stat bin =
     (if ho_goos os \<noteq> ''linux'' then Inr []
      else if executable_file (stat (seccomp_helper os bin)) then Inr [seccomp_helper os bin]
      else Inl (ErrNew ''pinned Linux seccomp helper is missing or not executable''))"

definition real_home :: "('a) sandbox_os_scheme \<Rightarrow> string" where
  "real_home os = (case so_eval os (so_home os) of None \<Rightarrow> so_home os | Some p \<Rightarrow> p)"

definition exposes :: "('a) sandbox_os_scheme \<Rightarrow> sandbox_config \<Rightarrow> string \<Rightarrow> bool" where
  "exposes os c resolved =
     (\<not> safePath resolved \<or> path_contains resolved (sc_root c) \<or> path_contains (sc_root c) resolved
      \<or> path_contains resolved (real_home os)
      \<or> (sc_temp_root c \<noteq> [] \<and> (path_contains resolved (sc_temp_root c) \<or> path_contains (sc_temp_root c) resolved)))"

fun read_paths :: "('a) sandbox_os_scheme \<Rightarrow> sandbox_config \<Rightarrow> string list \<Rightarrow> string list result" where
  "read_paths os c [] = Inr []"
| "read_paths os c (p # ps) =
     (case so_eval os p of
        None \<Rightarrow> Inl (ErrNew ''SESSION_READ_PATHS must exist and cannot expose HOME, session/control state or their ancestors'')
      | Some resolved \<Rightarrow>
          if exposes os c resolved
          then Inl (ErrNew ''SESSION_READ_PATHS must exist and cannot expose HOME, session/control state or their ancestors'')
          else (case read_paths os c ps of Inl er \<Rightarrow> Inl er | Inr rs \<Rightarrow> Inr (resolved # rs)))"

definition policy_domains :: "sandbox_config \<Rightarrow> string list" where
  "policy_domains c = map (\<lambda>d. trim_suffix d '':443'' @ '':443'') (sc_domains c)"

definition denied_addresses :: "string list" where
  "denied_addresses =
     [''0.0.0.0/8'', ''127.0.0.0/8'', ''169.254.0.0/16'', ''::/128'', ''::1/128'', ''fe80::/10'', ''10.0.0.0/8'', ''172.16.0.0/12'',
      ''192.168.0.0/16'', ''100.64.0.0/10'', ''fc00::/7'', ''224.0.0.0/4'', ''255.255.255.255/32'', ''ff00::/8'', ''168.63.129.16/32'',
      ''192.0.0.192/32'']"

record policy =
  po_deny_read :: "string list"
  po_allow_read :: "string list"
  po_allow_write :: "string list"
  po_domains :: "string list"

definition settings :: "('a) sandbox_os_scheme \<Rightarrow> (string \<Rightarrow> dir_info option) \<Rightarrow> session \<Rightarrow> string \<Rightarrow> policy result" where
  "settings os stat s bin =
     (case helper_paths os stat (sn_bin s) of
        Inl er \<Rightarrow> Inl er
      | Inr helper \<Rightarrow>
          (case read_paths os (sn_config s) (sc_read_paths (sn_config s)) of
             Inl er \<Rightarrow> Inl er
           | Inr extra \<Rightarrow>
               Inr \<lparr>po_deny_read = [''/''],
                    po_allow_read = [sn_data s, sn_temp s, bin] @ helper @ concat (map (with_resolved os) (system_paths (ho_goos os))) @ extra,
                    po_allow_write = [sn_data s, sn_temp s], po_domains = policy_domains (sn_config s)\<rparr>))"

definition strs :: "string list \<Rightarrow> json" where
  "strs xs = JArr (map JStr xs)"

definition policy_json :: "policy \<Rightarrow> json" where
  "policy_json p =
     JObj (obj_of
       [(''filesystem'', JObj (obj_of [(''denyRead'', strs (po_deny_read p)), (''allowRead'', strs (po_allow_read p)),
           (''allowWrite'', strs (po_allow_write p)),
           (''denyWrite'', strs [''/tmp/claude'', ''/private/tmp/claude'', ''/dev/tty'', ''/dev/dtracehelper'', ''/dev/autofs_nowait''])])),
        (''network'', JObj (obj_of [(''allowedDomains'', strs (po_domains p)), (''deniedDomains'', strs []), (''strictAllowlist'', JBool True),
           (''allowLocalBinding'', JBool False), (''allowAllUnixSockets'', JBool False), (''allowUnixSockets'', strs []),
           (''deniedResolvedAddresses'', strs denied_addresses)])),
        (''enableWeakerNestedSandbox'', JBool False), (''enableWeakerNetworkIsolation'', JBool False), (''allowAppleEvents'', JBool False)])"

section \<open>The command\<close>

record sandbox_command =
  cm_path :: string
  cm_args :: "string list"
  cm_dir :: string
  cm_env :: "string list"

text \<open>The result has the policy text that was written to the session's policy file.\<close>

definition Command ::
  "('a) sandbox_os_scheme \<Rightarrow> (string \<Rightarrow> dir_info option) \<Rightarrow> (string \<times> string) list \<Rightarrow> go_error option \<Rightarrow> session \<Rightarrow> string
     \<Rightarrow> string list \<Rightarrow> string list \<Rightarrow> (sandbox_command \<times> policy) result" where
  "Command os stat order cancelled s bin args environment =
     (case cancelled of
        Some er \<Rightarrow> Inl er
      | None \<Rightarrow>
          if sn_bin s = []
          then Inl (ErrNew ''host-client storage requires an explicit client tool sandbox, not the legacy SRT command'')
          else if \<not> sn_locked s then Inl (ErrNew ''native session sandbox is closed'')
          else
            (case so_look_path os bin of
               None \<Rightarrow> Inl (ErrNew ''native provider executable is unavailable'')
             | Some p0 \<Rightarrow>
                 (case so_eval os p0 of
                    None \<Rightarrow> Inl (ErrNew ''cannot resolve native provider executable'')
                  | Some p \<Rightarrow>
                      if \<not> safePath p then Inl (ErrNew ''cannot resolve native provider executable'')
                      else
                        (case settings os stat s p of
                           Inl er \<Rightarrow> Inl er
                         | Inr po \<Rightarrow>
                             if so_write os (sn_policy s) \<noteq> None then Inl (ErrNew ''cannot write native sandbox policy'')
                             else
                               (case so_look_path os ''node'' of
                                  None \<Rightarrow> Inl (ErrNew ''native sandbox runtime requires Node.js 20.11 or newer'')
                                | Some node \<Rightarrow>
                                    Inr (\<lparr>cm_path = node,
                                          cm_args = [filepath_join [sn_control s, ''runner.mjs''], sn_bin s, sn_policy s, p] @ args,
                                          cm_dir = session_workspace s, cm_env = Environment order environment\<rparr>, po))))))"

text \<open>
  The startup probe: a denied read and a permitted write under the real sandbox. \<open>run\<close> says whether
  the process succeeded, \<open>path\<close> is the Node's own \<open>PATH\<close>.
\<close>

definition probe_script :: string where
  "probe_script = ''if cat '' @ [CHR 0x22] @ ''$1'' @ [CHR 0x22] @ '' >/dev/null 2>&1; then exit 91; fi; echo verified > '' @ [CHR 0x22] @ ''$2'' @
     [CHR 0x22] @ ''; test '' @ [CHR 0x22] @ ''$(cat '' @ [CHR 0x22] @ ''$2'' @ [CHR 0x22] @ '')'' @ [CHR 0x22] @ '' = verified''"

definition Probe ::
  "('a) sandbox_os_scheme \<Rightarrow> (string \<Rightarrow> dir_info option) \<Rightarrow> (session \<Rightarrow> (string \<times> string) list) \<Rightarrow> (sandbox_command \<Rightarrow> bool)
     \<Rightarrow> go_error option \<Rightarrow> string \<Rightarrow> sandbox_config \<Rightarrow> held list \<Rightarrow> go_error option \<times> held list" where
  "Probe os stat order run cancelled path c rs =
     (case Open os cancelled c (Scope [''startup-probe'']) rs of
        (Inl er, rs1) \<Rightarrow> (Some er, rs1)
      | (Inr s, rs1) \<Rightarrow>
          (case Command os stat (order s) cancelled s ''/bin/sh''
                  [''-c'', probe_script, ''probe'', sn_policy s, filepath_join [session_workspace s, ''probe'']] [''PATH='' @ path] of
             Inl er \<Rightarrow> Some er
           | Inr (cmd, _) \<Rightarrow>
               if run cmd then None
               else Some (ErrNew (''native sandbox enforcement probe failed; check runtime/OS dependencies and '' @
                      ''kernel sandbox support (no fallback)'')),
           snd (snd (session_Close os s rs1))))"

section \<open>What the process may see\<close>

lemma override_set: "e \<in> set (override es (k, v)) \<longleftrightarrow> (e \<in> set es \<and> \<not> has_prefix e (k @ ''='')) \<or> e = k @ ''='' @ v"
  by (auto simp: override_def)

lemma foldl_override:
  assumes "e \<in> set (foldl override es order)"
  shows "(e \<in> set es \<and> (\<forall>(k, v) \<in> set order. \<not> has_prefix e (k @ ''=''))) \<or> (\<exists>(k, v) \<in> set order. e = k @ ''='' @ v)"
  using assms
proof (induction order arbitrary: es)
  case (Cons kv order)
  obtain k v where kv: "kv = (k, v)" by (cases kv)
  show ?case using Cons.IH [of "override es kv"] Cons.prems by (auto simp: kv override_set)
qed simp

lemma foldl_override_keeps:
  assumes "(k, v) \<in> set order" "distinct (map fst order)" "\<forall>k \<in> fst ` set order. CHR ''='' \<notin> set k"
  shows "k @ ''='' @ v \<in> set (foldl override es order)"
  using assms
proof (induction order arbitrary: es rule: rev_induct)
  case (snoc kv order)
  obtain k' v' where kv: "kv = (k', v')" by (cases kv)
  show ?case
  proof (cases "(k, v) = (k', v')")
    case True
    then show ?thesis by (simp add: kv override_set)
  next
    case False
    then have "(k, v) \<in> set order" and ne: "k \<noteq> k'" using snoc.prems kv by force+
    then have old: "k @ ''='' @ v \<in> set (foldl override es order)" using snoc by auto
    have "\<not> has_prefix (k @ ''='' @ v) (k' @ ''='')"
    proof
      assume "has_prefix (k @ ''='' @ v) (k' @ ''='')"
      then obtain t where "k @ CHR ''='' # v = k' @ CHR ''='' # t" by (auto simp: has_prefix_iff)
      moreover have "CHR ''='' \<notin> set k" "CHR ''='' \<notin> set k'" using snoc.prems kv by force+
      ultimately show False using ne str_cut_append by (metis prod.inject)
    qed
    then show ?thesis using old by (simp add: kv override_set)
  qed
qed simp

lemma overrides_wf: "distinct (map fst (session_overrides s))" "\<forall>k \<in> fst ` set (session_overrides s). CHR ''='' \<notin> set k"
  by (simp_all add: session_overrides_def)

lemma read_paths_safe: "read_paths os c ps = Inr rs \<Longrightarrow> r \<in> set rs \<Longrightarrow> \<not> exposes os c r \<and> (\<exists>p \<in> set ps. so_eval os p = Some r)"
proof (induction ps arbitrary: rs)
  case (Cons p ps)
  then show ?case by (auto split: option.splits if_splits sum.splits)
qed simp

definition readable :: "('a) sandbox_os_scheme \<Rightarrow> session \<Rightarrow> string \<Rightarrow> string \<Rightarrow> bool" where
  "readable os s client p =
     (p \<in> {sn_data s, sn_temp s, seccomp_helper os (sn_bin s), client}
      \<or> (\<exists>q \<in> set (system_paths (ho_goos os)). p = q \<or> so_eval os q = Some p)
      \<or> ((\<exists>q \<in> set (sc_read_paths (sn_config s)). so_eval os q = Some p) \<and> safePath p
         \<and> \<not> path_contains p (sc_root (sn_config s)) \<and> \<not> path_contains (sc_root (sn_config s)) p \<and> \<not> path_contains p (real_home os)))"

lemma settings_reads:
  assumes "settings os stat s client = Inr po"
  shows "po_deny_read po = [''/''] \<and> po_allow_write po = [sn_data s, sn_temp s] \<and> (\<forall>p \<in> set (po_allow_read po). readable os s client p)"
proof -
  obtain helper extra where h: "helper_paths os stat (sn_bin s) = Inr helper" "read_paths os (sn_config s) (sc_read_paths (sn_config s)) = Inr extra"
      and po: "po = \<lparr>po_deny_read = [''/''], po_allow_read = [sn_data s, sn_temp s, client] @ helper @ concat (map (with_resolved os) (system_paths (ho_goos os))) @ extra,
        po_allow_write = [sn_data s, sn_temp s], po_domains = policy_domains (sn_config s)\<rparr>"
    using assms by (auto simp: settings_def split: sum.splits)
  have helper: "set helper \<subseteq> {seccomp_helper os (sn_bin s)}" using h(1) by (auto simp: helper_paths_def split: if_splits)
  have "readable os s client x" if "x \<in> set (po_allow_read po)" for x
  proof -
    from that consider "x \<in> {sn_data s, sn_temp s, client}" | "x \<in> set helper" | "x \<in> set (concat (map (with_resolved os) (system_paths (ho_goos os))))" | "x \<in> set extra"
      unfolding po by auto
    then show ?thesis
    proof cases
      case 3
      then show ?thesis by (auto simp: readable_def with_resolved_def split: option.splits)
    next
      case 4
      then show ?thesis using read_paths_safe [OF h(2)] by (auto simp: readable_def exposes_def)
    qed (use helper in \<open>auto simp: readable_def\<close>)
  qed
  then show ?thesis by (simp add: po)
qed

lemma allowed_entry_name: "allowed_entry e \<Longrightarrow> \<exists>n \<in> set allowed_names. has_prefix e (n @ ''='')"
proof -
  assume a: "allowed_entry e"
  obtain n b f where c: "str_cut CHR ''='' e = (n, b, f)" by (metis prod_cases3)
  then have "f" "n \<in> set allowed_names" using a by (auto simp: allowed_entry_def)
  then show ?thesis using c str_cut_found [of "CHR ''=''" e n b] by (intro bexI [of _ n]) (auto simp: has_prefix_iff)
qed

lemma Environment_entries:
  assumes "mset order = mset (session_overrides s)"
  shows "e \<in> set (Environment order vals) \<Longrightarrow>
      (e \<in> set vals \<and> (\<exists>n \<in> set allowed_names. has_prefix e (n @ ''=''))) \<or> (\<exists>(k, v) \<in> set (session_overrides s). e = k @ ''='' @ v)"
    and "(k, v) \<in> set (session_overrides s) \<Longrightarrow> k @ ''='' @ v \<in> set (Environment order vals)"
proof -
  have o: "set order = set (session_overrides s)" "distinct (map fst order)"
    using assms overrides_wf(1) by (metis mset_eq_setD, metis mset_eq_imp_distinct_iff mset_map)
  show "(e \<in> set vals \<and> (\<exists>n \<in> set allowed_names. has_prefix e (n @ ''=''))) \<or> (\<exists>(k, v) \<in> set (session_overrides s). e = k @ ''='' @ v)"
    if "e \<in> set (Environment order vals)"
    using that foldl_override [of e "filter allowed_entry vals" order] allowed_entry_name [of e] o(1)
    unfolding Environment_def by auto
  show "k @ ''='' @ v \<in> set (Environment order vals)" if "(k, v) \<in> set (session_overrides s)"
    unfolding Environment_def by (rule foldl_override_keeps) (use that o overrides_wf(2) in auto)
qed

section \<open>Property\<close>


definition demo_mac :: sandbox_os where
  "demo_mac = \<lparr>ho_goos = ''darwin'', ho_goarch = ''arm64'', ho_euid = 501, so_mkdir_all = (\<lambda>_. None), so_mkdir = (\<lambda>_. None),
     so_lstat = (\<lambda>_. None), so_eval = Some, so_open_lock = (\<lambda>_. Inr None), so_flock = (\<lambda>_. None), so_unlock = (\<lambda>_. None),
     so_create_temp = (\<lambda>_. None), so_mkdir_temp = (\<lambda>_. None), so_write = (\<lambda>_. None), so_remove = (\<lambda>_. None),
     so_remove_all = (\<lambda>_. None), so_look_path = (\<lambda>n. Some (''/opt/'' @ n)), so_read_file = (\<lambda>_. None), so_home = ''/Users/n''\<rparr>"

definition demo_outer :: session where
  "demo_outer = \<lparr>sn_config = empty_sandbox\<lparr>sc_root := ''/s'', sc_read_paths := [''/ro'']\<rparr>, sn_control = ''/s/c'', sn_data = ''/s/c/data'',
     sn_policy = ''/s/c/policy-1.json'', sn_bin = ''/opt/srt/dist/cli.js'', sn_temp = ''/tmp/olns-1'', sn_locked = True\<rparr>"


end
