(* ===== verification/Provider_Stream.thy ===== *)
theory Provider_Stream
  imports Provider_Output Go_Json
begin

text \<open>
  The readers of provider output: \<open>pkg/adapters/providerstream\<close> (progress observers for the
  Codex and Claude event streams) and \<open>pkg/adapters/claude_output.go\<close> (the stream that finds
  the result of a Claude run). A stream arrives in writes of arbitrary size. The events an
  observer hands to \<open>emit\<close> are the list \<open>ob_sent\<close>; their errors are ignored by the code.
\<close>

section \<open>Writers that do not see how a stream is cut\<close>

locale chunked_writer =
  fixes put :: "'s \<Rightarrow> string \<Rightarrow> 's"
  assumes put_Nil: "put s [] = s"
    and put_put: "put (put s a) b = put s (a @ b)"
begin

lemma put_all: "foldl put s ws = put s (concat ws)"
  by (induction ws arbitrary: s) (simp_all add: put_Nil put_put)

lemma recut: "concat vs = concat ws \<Longrightarrow> foldl put s vs = foldl put s ws"
  by (simp add: put_all)

end

abbreviation newline :: char where
  "newline \<equiv> CHR 0x0A"

lemma split_append:
  "str_split c (a @ b) = butlast (str_split c a) @ str_split c (List.last (str_split c a) @ b)"
proof (induction a)
  case Nil
  then show ?case by simp
next
  case (Cons x a)
  obtain y ys where y: "str_split c a = y # ys" by (cases "str_split c a") auto
  with Cons show ?case by (cases ys) auto
qed

section \<open>Values\<close>

definition stringValue :: "json \<Rightarrow> string" where
  "stringValue v = (case v of JStr s \<Rightarrow> s | _ \<Rightarrow> [])"

text \<open>\<open>v, _ := x.(map[string]any)\<close>: the nil map, which has no key, when \<open>x\<close> is no map.\<close>

definition map_value :: "json \<Rightarrow> (string \<times> json) list" where
  "map_value v = (case v of JObj kvs \<Rightarrow> kvs | _ \<Rightarrow> [])"

section \<open>Progress of Codex\<close>

definition normalizedCodexToolKind :: "json \<Rightarrow> string" where
  "normalizedCodexToolKind v =
     (let k = to_lower (trim_space (stringValue v))
      in if k = ''web_search'' then ''web_search''
         else if k = ''command_execution'' then ''command''
         else if k = ''mcp_tool_call'' then ''mcp_tool'' else [])"

definition tool_payload :: "string \<Rightarrow> string \<Rightarrow> string \<Rightarrow> json" where
  "tool_payload provider phase kind =
     JObj (obj_of [(''status'', JStr (''provider_tool_'' @ phase)), (''provider'', JStr provider),
                   (''phase'', JStr phase), (''tool_kind'', JStr kind)])"

definition codexProgressPayload :: "(string \<times> json) list \<Rightarrow> json option" where
  "codexProgressPayload event =
     (let eventType = stringValue (obj_get event ''type'')
      in if eventType \<noteq> ''item.started'' \<and> eventType \<noteq> ''item.completed'' then None
         else
           (case obj_get event ''item'' of
              JObj item \<Rightarrow>
                (let toolKind = normalizedCodexToolKind (obj_get item ''type'');
                     phase = (if eventType = ''item.completed''
                              then if equal_fold (trim_space (stringValue (obj_get item ''status''))) ''failed''
                                   then ''failed'' else ''completed''
                              else ''started'')
                 in if toolKind = [] then None else Some (tool_payload ''codex'' phase toolKind))
            | _ \<Rightarrow> None))"

text \<open>
  A progress function has a state of its own (the tools that are active) and answers one event
  with the payloads to report. \<open>suppressItem\<close> is \<open>None\<close> for a nil hook.
\<close>

definition codex_progress ::
  "((string \<times> json) list \<Rightarrow> bool) option \<Rightarrow> 'a \<Rightarrow> (string \<times> json) list \<Rightarrow> 'a \<times> json list" where
  "codex_progress suppressItem st event =
     (let hidden = (case (obj_get event ''item'', suppressItem) of (JObj item, Some f) \<Rightarrow> f item | _ \<Rightarrow> False)
      in (st, if hidden then []
              else case codexProgressPayload event of Some p \<Rightarrow> [p] | None \<Rightarrow> []))"

section \<open>Progress of Claude\<close>

definition claude_kind :: "(string \<Rightarrow> bool) option \<Rightarrow> string \<Rightarrow> string" where
  "claude_kind suppressTool name =
     (let kind = (if name = ''Bash'' then ''command''
                  else if name = ''WebSearch'' \<or> name = ''WebFetch'' then ''web_search''
                  else if has_prefix name ''mcp__'' then ''mcp_tool'' else ''tool'')
      in case suppressTool of Some f \<Rightarrow> if f name then ''suppressed'' else kind | None \<Rightarrow> kind)"

type_synonym active = "(string \<times> string) list"

definition active_kind :: "active \<Rightarrow> string \<Rightarrow> string" where
  "active_kind a ident = (case map_of a ident of Some k \<Rightarrow> k | None \<Rightarrow> [])"

definition tool_started :: "(string \<Rightarrow> bool) option \<Rightarrow> active \<Rightarrow> (string \<times> json) list \<Rightarrow> active \<times> json list" where
  "tool_started suppressTool a content =
     (let ident = stringValue (obj_get content ''id''); kind = claude_kind suppressTool (stringValue (obj_get content ''name''))
      in if ident = [] \<or> active_kind a ident \<noteq> [] \<or> 512 \<le> length a then (a, [])
         else (assoc_set ident kind a, if kind = ''suppressed'' then [] else [tool_payload ''claude'' ''started'' kind]))"

definition tool_finished :: "active \<Rightarrow> (string \<times> json) list \<Rightarrow> active \<times> json list" where
  "tool_finished a content =
     (let ident = stringValue (obj_get content ''tool_use_id''); kind = active_kind a ident;
          phase = (if obj_get content ''is_error'' = JBool True then ''failed'' else ''completed'')
      in if kind = [] then (a, [])
         else (assoc_del ident a, if kind = ''suppressed'' then [] else [tool_payload ''claude'' phase kind]))"

definition claude_block :: "(string \<Rightarrow> bool) option \<Rightarrow> active \<Rightarrow> (string \<times> json) list \<Rightarrow> active \<times> json list" where
  "claude_block suppressTool a content =
     (let ty = stringValue (obj_get content ''type'')
      in if ty = ''tool_use'' then tool_started suppressTool a content
         else if ty = ''tool_result'' then tool_finished a content
         else (a, []))"

fun claude_blocks :: "(string \<Rightarrow> bool) option \<Rightarrow> active \<Rightarrow> json list \<Rightarrow> active \<times> json list" where
  "claude_blocks suppressTool a [] = (a, [])"
| "claude_blocks suppressTool a (c # cs) =
     (let (a1, ps) = claude_block suppressTool a (map_value c); (a2, qs) = claude_blocks suppressTool a1 cs
      in (a2, ps @ qs))"

definition status_payload :: "string \<Rightarrow> string \<Rightarrow> json" where
  "status_payload status phase =
     JObj (obj_of [(''provider'', JStr ''claude''), (''status'', JStr status), (''phase'', JStr phase)])"

definition claude_progress ::
  "(string \<Rightarrow> bool) option \<Rightarrow> active \<Rightarrow> (string \<times> json) list \<Rightarrow> active \<times> json list" where
  "claude_progress suppressTool a event =
     (let ty = stringValue (obj_get event ''type'')
      in if ty = ''stream_event'' then
           (let nested = map_value (obj_get event ''event''); nty = stringValue (obj_get nested ''type'')
            in if nty = ''message_start'' then (a, [status_payload ''provider_processing'' ''started''])
               else if nty = ''content_block_start''
               then claude_block suppressTool a (map_value (obj_get nested ''content_block''))
               else (a, []))
         else if ty = ''assistant'' \<or> ty = ''user'' then
           (case obj_get (map_value (obj_get event ''message'')) ''content'' of
              JArr contents \<Rightarrow> claude_blocks suppressTool a contents
            | _ \<Rightarrow> (a, []))
         else if ty = ''system'' then
           (a, if obj_get event ''subtype'' = JStr ''api_retry'' then [status_payload ''provider_retrying'' ''retrying''] else [])
         else (a, []))"

section \<open>Observers\<close>

type_synonym 'a progress = "'a \<Rightarrow> (string \<times> json) list \<Rightarrow> 'a \<times> json list"

record 'a observer =
  ob_emits :: bool
  ob_pending :: string
  ob_state :: 'a
  ob_sent :: "(string \<times> json) list"

definition observeLine :: "'a progress \<Rightarrow> 'a observer \<Rightarrow> string \<Rightarrow> 'a observer" where
  "observeLine prog ob raw =
     (let line = trim_space raw
      in if \<not> ob_emits ob \<or> line = [] \<or> hd line \<noteq> CHR 0x7B then ob
         else
           (case map_option json_any (json_parse line) of
              Some (JObj event) \<Rightarrow>
                (let (st, payloads) = prog (ob_state ob) event
                 in ob\<lparr>ob_state := st, ob_sent := ob_sent ob @ map (Pair ''run.status.changed'') payloads\<rparr>)
            | _ \<Rightarrow> ob))"

lemma ob_pending_observeLine [simp]: "ob_pending (observeLine prog ob l) = ob_pending ob"
  by (simp add: observeLine_def Let_def split: option.split json.split prod.split)

function drainLines :: "'a progress \<Rightarrow> bool \<Rightarrow> 'a observer \<Rightarrow> 'a observer" where
  "drainLines prog flush ob =
     (let (line, rest, found) = str_cut newline (ob_pending ob)
      in if \<not> found
         then if flush \<and> ob_pending ob \<noteq> [] then (observeLine prog ob (ob_pending ob))\<lparr>ob_pending := []\<rparr> else ob
         else drainLines prog flush (observeLine prog (ob\<lparr>ob_pending := rest\<rparr>) line))"
  by pat_completeness auto
termination
proof (relation "measure (\<lambda>(_, _, ob). length (ob_pending ob))", goal_cases)
  case (2 prog flush ob x line y rest found)
  then have "str_cut newline (ob_pending ob) = (line, rest, True)" by auto
  then show ?case by (simp add: str_cut_found)
qed simp

definition observer_Write :: "'a progress \<Rightarrow> 'a observer option \<Rightarrow> string \<Rightarrow> 'a observer option \<times> nat" where
  "observer_Write prog observer v =
     (case observer of
        None \<Rightarrow> (None, length v)
      | Some ob \<Rightarrow>
          if v = [] then (Some ob, 0)
          else (Some (drainLines prog False (ob\<lparr>ob_pending := ob_pending ob @ v\<rparr>)), length v))"

definition observer_Flush :: "'a progress \<Rightarrow> 'a observer option \<Rightarrow> 'a observer option" where
  "observer_Flush prog observer = map_option (drainLines prog True) observer"

definition ObserveLine :: "'a progress \<Rightarrow> 'a observer option \<Rightarrow> string \<Rightarrow> 'a observer option" where
  "ObserveLine prog observer line = map_option (\<lambda>ob. observeLine prog ob line) observer"

definition NewCodexObserver :: "bool \<Rightarrow> unit observer" where
  "NewCodexObserver emits = \<lparr>ob_emits = emits, ob_pending = [], ob_state = (), ob_sent = []\<rparr>"

definition NewClaudeObserver :: "bool \<Rightarrow> active observer" where
  "NewClaudeObserver emits = \<lparr>ob_emits = emits, ob_pending = [], ob_state = [], ob_sent = []\<rparr>"

section \<open>The result of a Claude run\<close>

record claude_response =
  cr_type :: string
  cr_subtype :: string
  cr_is_error :: bool
  cr_result :: string
  cr_errors :: "string list"
  cr_session :: string

definition zero_response :: claude_response where
  "zero_response = \<lparr>cr_type = [], cr_subtype = [], cr_is_error = False, cr_result = [], cr_errors = [], cr_session = []\<rparr>"

definition response_fields :: "claude_response field list" where
  "response_fields =
     [(''type'', f_string (\<lambda>x r. r\<lparr>cr_type := x\<rparr>)), (''subtype'', f_string (\<lambda>x r. r\<lparr>cr_subtype := x\<rparr>)),
      (''is_error'', f_bool (\<lambda>x r. r\<lparr>cr_is_error := x\<rparr>)), (''result'', f_string (\<lambda>x r. r\<lparr>cr_result := x\<rparr>)),
      (''errors'', f_strings (\<lambda>x r. r\<lparr>cr_errors := x\<rparr>)), (''session_id'', f_string (\<lambda>x r. r\<lparr>cr_session := x\<rparr>))]"

definition failureMessage :: "claude_response \<Rightarrow> string" where
  "failureMessage r =
     (if \<not> cr_is_error r \<and> \<not> has_prefix (cr_subtype r) ''error'' then []
      else cr_result r @ [newline] @ str_join [newline] (cr_errors r))"

text \<open>\<open>cs_cancelled\<close> records that \<open>cancel\<close> was called; the observer is nil or reads the other events.\<close>

record claude_stream =
  cs_pending :: string
  cs_result :: claude_response
  cs_found :: bool
  cs_err :: "go_error option"
  cs_cancelled :: bool
  cs_observer :: "active observer option"

definition newClaudeResultStream :: "active observer option \<Rightarrow> claude_stream" where
  "newClaudeResultStream observer =
     \<lparr>cs_pending = [], cs_result = zero_response, cs_found = False, cs_err = None, cs_cancelled = False,
      cs_observer = observer\<rparr>"

definition stream_fail :: "claude_stream \<Rightarrow> go_error \<Rightarrow> claude_stream \<times> go_error option" where
  "stream_fail s er = (s\<lparr>cs_err := Some er, cs_pending := [], cs_cancelled := True\<rparr>, Some er)"

definition too_long :: go_error where
  "too_long = ErrNew ''Claude JSONL record exceeds 4 MiB limit''"

definition invalid_output :: go_error where
  "invalid_output = ErrNew ''Claude returned invalid JSONL output''"

definition consume :: "active progress \<Rightarrow> claude_stream \<Rightarrow> claude_stream \<times> go_error option" where
  "consume prog s =
     (let line = trim_space (cs_pending s); s1 = s\<lparr>cs_pending := []\<rparr>
      in if line = [] then (s1, None)
         else
           (case Option.bind (json_parse line) (decode_struct False response_fields zero_response) of
              None \<Rightarrow> stream_fail s invalid_output
            | Some event \<Rightarrow>
                if cr_type event = ''result'' then (s1\<lparr>cs_result := event, cs_found := True\<rparr>, None)
                else (s1\<lparr>cs_observer := ObserveLine prog (cs_observer s) line\<rparr>, None)))"

function write_lines :: "active progress \<Rightarrow> claude_stream \<Rightarrow> string \<Rightarrow> claude_stream \<times> go_error option" where
  "write_lines prog s p =
     (if p = [] then (s, None)
      else
        (let (chunk, rest, found) = str_cut newline p
         in if MaxBytes < length (cs_pending s) + length chunk then stream_fail s too_long
            else
              (let s1 = s\<lparr>cs_pending := cs_pending s @ chunk\<rparr>
               in if \<not> found then (s1, None)
                  else
                    (case consume prog s1 of
                       (s2, Some er) \<Rightarrow> (s2, Some er)
                     | (s2, None) \<Rightarrow> write_lines prog s2 rest))))"
  by pat_completeness auto
termination
proof (relation "measure (\<lambda>(_, _, p). length p)", goal_cases)
  case (2 prog s p x chunk y rest found)
  then have "str_cut newline p = (chunk, rest, True)" by auto
  then show ?case by (simp add: str_cut_found)
qed simp

definition stream_Write :: "active progress \<Rightarrow> claude_stream \<Rightarrow> string \<Rightarrow> claude_stream \<times> (go_error + nat)" where
  "stream_Write prog s p =
     (case cs_err s of
        Some er \<Rightarrow> (s, Inl er)
      | None \<Rightarrow>
          (case write_lines prog s p of
             (s1, Some er) \<Rightarrow> (s1, Inl er)
           | (s1, None) \<Rightarrow> (s1, Inr (length p))))"

definition stream_Result :: "active progress \<Rightarrow> claude_stream \<Rightarrow> claude_stream \<times> claude_response \<times> go_error option" where
  "stream_Result prog s =
     (let s1 = (if cs_err s = None then fst (consume prog s) else s)
      in (s1, cs_result s1,
          case cs_err s1 of
            Some er \<Rightarrow> Some er
          | None \<Rightarrow> if cs_found s1 then None else Some (ErrNew ''Claude completed without a result event'')))"

declare drainLines.simps [simp del] write_lines.simps [simp del]

section \<open>Observers refine reading line by line\<close>

lemma drainLines_found:
  assumes "str_cut newline (ob_pending ob) = (line, rest, True)"
  shows "drainLines prog flush ob = drainLines prog flush (observeLine prog (ob\<lparr>ob_pending := rest\<rparr>) line)"
  using assms by (subst drainLines.simps) simp

lemma drainLines_missing:
  assumes "newline \<notin> set (ob_pending ob)"
  shows "drainLines prog flush ob =
    (if flush \<and> ob_pending ob \<noteq> [] then (observeLine prog ob (ob_pending ob))\<lparr>ob_pending := []\<rparr> else ob)"
proof -
  have "str_cut newline (ob_pending ob) = (ob_pending ob, [], False)" using assms by (simp add: str_cut_not_found)
  then show ?thesis by (subst drainLines.simps) simp
qed

lemma observeLine_pending: "observeLine prog (ob\<lparr>ob_pending := p\<rparr>) l = (observeLine prog ob l)\<lparr>ob_pending := p\<rparr>"
  by (simp add: observeLine_def Let_def split: option.split json.split prod.split)

lemma observeLine_Nil [simp]: "observeLine prog ob [] = ob"
  by (simp add: observeLine_def trim_space_def trim_left_def trim_right_def)

lemma foldl_observe_pending:
  "foldl (observeLine prog) (ob\<lparr>ob_pending := p\<rparr>) ls = (foldl (observeLine prog) ob ls)\<lparr>ob_pending := p\<rparr>"
  by (induction ls arbitrary: ob) (simp_all add: observeLine_pending)

lemma drainLines_split:
  "drainLines prog False ob =
     (let ls = str_split newline (ob_pending ob)
      in (foldl (observeLine prog) ob (butlast ls))\<lparr>ob_pending := List.last ls\<rparr>)"
proof (induction prog "False" ob rule: drainLines.induct)
  case (1 prog ob)
  show ?case
  proof (cases rule: str_cut_cases [of newline "ob_pending ob"])
    case (found a b)
    then have "drainLines prog False ob = drainLines prog False (observeLine prog (ob\<lparr>ob_pending := b\<rparr>) a)"
      by (simp add: drainLines_found)
    with found 1 [OF found(1) [symmetric] refl refl] show ?thesis
      by (simp add: str_split_append_sep observeLine_pending foldl_observe_pending Let_def)
  next
    case missing
    then show ?thesis by (simp add: drainLines_missing str_split_none)
  qed
qed

lemma drainLines_flush:
  "drainLines prog True ob = (foldl (observeLine prog) ob (str_split newline (ob_pending ob)))\<lparr>ob_pending := []\<rparr>"
proof (induction prog "True" ob rule: drainLines.induct)
  case (1 prog ob)
  show ?case
  proof (cases rule: str_cut_cases [of newline "ob_pending ob"])
    case (found a b)
    then have "drainLines prog True ob = drainLines prog True (observeLine prog (ob\<lparr>ob_pending := b\<rparr>) a)"
      by (simp add: drainLines_found)
    with found 1 [OF found(1) [symmetric] refl refl] show ?thesis
      by (simp add: str_split_append_sep observeLine_pending foldl_observe_pending)
  next
    case missing
    then show ?thesis by (cases ob) (auto simp: drainLines_missing str_split_none)
  qed
qed

definition observer_put :: "'a progress \<Rightarrow> 'a observer \<Rightarrow> string \<Rightarrow> 'a observer" where
  "observer_put prog ob v = the (fst (observer_Write prog (Some ob) v))"

lemma observer_put_cases:
  "observer_put prog ob v = (if v = [] then ob else drainLines prog False (ob\<lparr>ob_pending := ob_pending ob @ v\<rparr>))"
  by (simp add: observer_put_def observer_Write_def)

lemma observer_put_split:
  "observer_put prog ob v =
     (if v = [] then ob
      else let ls = str_split newline (ob_pending ob @ v)
           in (foldl (observeLine prog) ob (butlast ls))\<lparr>ob_pending := List.last ls\<rparr>)"
  by (simp add: observer_put_cases drainLines_split Let_def foldl_observe_pending)

lemma last_split_append:
  "List.last (str_split c (a @ b)) = List.last (str_split c (List.last (str_split c a) @ b))"
  "butlast (str_split c (a @ b)) = butlast (str_split c a) @ butlast (str_split c (List.last (str_split c a) @ b))"
  by (simp_all add: split_append [of c a b] butlast_append)

interpretation observer: chunked_writer "observer_put prog" for prog
proof
  fix s a b
  show "observer_put prog s [] = s" by (simp add: observer_put_cases)
  show "observer_put prog (observer_put prog s a) b = observer_put prog s (a @ b)"
  proof (cases "a = [] \<or> b = []")
    case True
    then show ?thesis by (auto simp: observer_put_cases)
  next
    case False
    then show ?thesis
      by (simp add: observer_put_split Let_def foldl_observe_pending
          last_split_append [of newline "ob_pending s @ a" b, simplified])
  qed
qed

lemma observer_flushed:
  assumes "ob_pending ob = []"
  shows "drainLines prog True (foldl (observer_put prog) ob ws) =
    foldl (observeLine prog) ob (str_split newline (concat ws))"
proof -
  let ?o = "foldl (observer_put prog) ob ws"
  have o: "?o = observer_put prog ob (concat ws)" by (rule observer.put_all)
  show ?thesis
  proof (cases "concat ws = []")
    case True
    then show ?thesis unfolding o True using assms by (cases ob) (simp add: observer_put_cases drainLines_flush)
  next
    case False
    let ?ls = "str_split newline (concat ws)"
    have "?o = (foldl (observeLine prog) ob (butlast ?ls))\<lparr>ob_pending := List.last ?ls\<rparr>"
      unfolding o using False assms by (simp add: observer_put_split Let_def del: concat_eq_Nil_conv)
    moreover have "str_split newline (List.last ?ls) = [List.last ?ls]"
      by (simp add: str_split_none str_split_no_sep [of "List.last ?ls" newline "concat ws"])
    moreover have "ob_pending (foldl (observeLine prog) ob xs) = []" for xs
      using assms by (induction xs rule: rev_induct) simp_all
    moreover have "foldl (observeLine prog) ob ?ls = foldl (observeLine prog) ob (butlast ?ls @ [List.last ?ls])"
      by simp
    ultimately show ?thesis
      by (simp add: drainLines_flush foldl_observe_pending observeLine_pending del: append_butlast_last_id)
  qed
qed

section \<open>What observers report\<close>

lemma observer_invariant:
  assumes step: "\<And>st sent ev. I st sent \<Longrightarrow>
      I (fst (prog st ev)) (sent @ map (Pair ''run.status.changed'') (snd (prog st ev)))"
    and init: "I (ob_state ob) (ob_sent ob)"
  shows "I (ob_state (foldl (observer_put prog) ob ws)) (ob_sent (foldl (observer_put prog) ob ws))"
proof -
  have line: "I (ob_state (observeLine prog o1 l)) (ob_sent (observeLine prog o1 l))"
    if "I (ob_state o1) (ob_sent o1)" for o1 l
    using step [OF that] that by (simp add: observeLine_def Let_def split_beta split: option.split json.split)
  have lines: "I (ob_state (foldl (observeLine prog) o1 ls)) (ob_sent (foldl (observeLine prog) o1 ls))"
    if "I (ob_state o1) (ob_sent o1)" for o1 ls
    using that by (induction ls arbitrary: o1) (simp_all add: line)
  show ?thesis
    using lines [OF init] init by (simp add: observer.put_all observer_put_split Let_def del: concat_eq_Nil_conv)
qed

definition tool_kinds :: "string list" where
  "tool_kinds = [''command'', ''web_search'', ''mcp_tool'', ''tool'']"

definition tool_payloads :: "string \<Rightarrow> json list" where
  "tool_payloads provider =
     concat (map (\<lambda>k. map (\<lambda>ph. tool_payload provider ph k) [''started'', ''completed'', ''failed'']) tool_kinds)"

definition status_payloads :: "json list" where
  "status_payloads =
     [status_payload ''provider_processing'' ''started'', status_payload ''provider_retrying'' ''retrying'']"

lemma tool_payload_inject:
  "tool_payload p ph k = tool_payload p' ph' k' \<longleftrightarrow> p = p' \<and> ph = ph' \<and> k = k'"
  by (auto simp: tool_payload_def obj_of_def)

lemma tool_payload_status: "tool_payload p ph k \<noteq> status_payload st ph'"
  by (simp add: tool_payload_def status_payload_def obj_of_def)

lemma tool_payload_known:
  "ph \<in> {''started'', ''completed'', ''failed''} \<Longrightarrow> k \<in> set tool_kinds \<Longrightarrow> tool_payload p ph k \<in> set (tool_payloads p)"
  by (auto simp: tool_payloads_def)

lemma codex_reports_known: "set (snd (codex_progress f st ev)) \<subseteq> set (tool_payloads ''codex'')"
proof -
  have "p \<in> set (tool_payloads ''codex'')" if "codexProgressPayload ev = Some p" for p
    using that
    by (auto simp: codexProgressPayload_def Let_def normalizedCodexToolKind_def tool_kinds_def
        split: if_splits json.splits intro!: tool_payload_known)
  then show ?thesis by (cases "codexProgressPayload ev") (auto simp: codex_progress_def Let_def)
qed

text \<open>The number of reports that a tool of a kind began or ended.\<close>

definition begun :: "string \<Rightarrow> (string \<times> json) list \<Rightarrow> nat" where
  "begun k evs = length (filter (\<lambda>e. snd e = tool_payload ''claude'' ''started'' k) evs)"

definition ended :: "string \<Rightarrow> (string \<times> json) list \<Rightarrow> nat" where
  "ended k evs = length (filter (\<lambda>e. snd e = tool_payload ''claude'' ''completed'' k
                                    \<or> snd e = tool_payload ''claude'' ''failed'' k) evs)"

definition open_tools :: "string \<Rightarrow> active \<Rightarrow> nat" where
  "open_tools k a = length (filter (\<lambda>p. snd p = k) a)"

definition claude_inv :: "active \<Rightarrow> (string \<times> json) list \<Rightarrow> bool" where
  "claude_inv a sent =
     (length a \<le> 512 \<and> distinct (map fst a) \<and> snd ` set a \<subseteq> insert ''suppressed'' (set tool_kinds)
      \<and> snd ` set sent \<subseteq> set (tool_payloads ''claude'' @ status_payloads)
      \<and> (\<forall>k \<in> set tool_kinds. begun k sent = ended k sent + open_tools k a))"

lemma count_append [simp]:
  "begun k (xs @ ys) = begun k xs + begun k ys" "ended k (xs @ ys) = ended k xs + ended k ys"
  by (simp_all add: begun_def ended_def)

lemma count_Nil [simp]: "begun k [] = 0" "ended k [] = 0"
  by (simp_all add: begun_def ended_def)

lemma count_tool [simp]:
  "begun k [(t, tool_payload ''claude'' ph k')] = (if ph = ''started'' \<and> k' = k then 1 else 0)"
  "ended k [(t, tool_payload ''claude'' ph k')] = (if ph \<in> {''completed'', ''failed''} \<and> k' = k then 1 else 0)"
  by (auto simp: begun_def ended_def tool_payload_inject)

lemma count_status [simp]:
  "begun k [(t, status_payload st ph)] = 0" "ended k [(t, status_payload st ph)] = 0"
  by (simp_all add: begun_def ended_def tool_payload_status [symmetric])

lemma open_tools_set:
  "ident \<notin> fst ` set a \<Longrightarrow> open_tools k (assoc_set ident k' a) = open_tools k a + (if k' = k then 1 else 0)"
  by (simp add: open_tools_def assoc_set_fresh)

lemma open_tools_del:
  "distinct (map fst a) \<Longrightarrow> map_of a ident = Some k' \<Longrightarrow>
   open_tools k a = open_tools k (assoc_del ident a) + (if k' = k then 1 else 0)"
proof (induction a)
  case (Cons p a)
  obtain i v where p: "p = (i, v)" by (cases p)
  show ?case
  proof (cases "i = ident")
    case True
    have "assoc_del ident a = a"
      using Cons.prems p True by (auto simp: assoc_del_def filter_id_conv image_iff)
    with Cons.prems p True show ?thesis by (simp add: open_tools_def assoc_del_def)
  next
    case False
    with Cons p show ?thesis by (simp add: open_tools_def assoc_del_def)
  qed
qed simp

lemma claude_kind_known: "claude_kind f name \<in> insert ''suppressed'' (set tool_kinds)"
  by (simp add: claude_kind_def tool_kinds_def Let_def split: option.split)

lemma claude_inv_status:
  "claude_inv a sent \<Longrightarrow> p \<in> set status_payloads \<Longrightarrow> claude_inv a (sent @ [(''run.status.changed'', p)])"
  by (auto simp: claude_inv_def status_payloads_def)

lemma claude_inv_started:
  assumes inv: "claude_inv a sent" and st: "tool_started f a content = (a', ps)"
  shows "claude_inv a' (sent @ map (Pair ''run.status.changed'') ps)"
proof -
  let ?i = "stringValue (obj_get content ''id'')" and ?k = "claude_kind f (stringValue (obj_get content ''name''))"
  show ?thesis
  proof (cases "?i = [] \<or> active_kind a ?i \<noteq> [] \<or> 512 \<le> length a")
    case True
    with inv st show ?thesis by (auto simp: tool_started_def Let_def)
  next
    case False
    have vals: "k \<noteq> []" if "map_of a ?i = Some k" for k
    proof -
      have "k \<in> insert ''suppressed'' (set tool_kinds)" using inv map_of_SomeD [OF that] by (auto simp: claude_inv_def)
      then show ?thesis by (auto simp: tool_kinds_def)
    qed
    have fresh: "?i \<notin> fst ` set a" using False vals by (auto simp: active_kind_def map_of_eq_None_iff [symmetric] split: option.splits)
    have a': "a' = assoc_set ?i ?k a" and ps: "ps = (if ?k = ''suppressed'' then [] else [tool_payload ''claude'' ''started'' ?k])"
      using False st by (simp_all add: tool_started_def Let_def)
    have k: "?k \<in> insert ''suppressed'' (set tool_kinds)" by (rule claude_kind_known)
    have sup: "''suppressed'' \<notin> set tool_kinds" by (simp add: tool_kinds_def)
    have len: "length a' \<le> 512" using False fresh by (simp add: a' length_assoc_set)
    have vs: "snd ` set a' \<subseteq> insert ''suppressed'' (set tool_kinds)"
      using inv k by (auto simp: a' claude_inv_def set_assoc_set)
    have out: "set ps \<subseteq> set (tool_payloads ''claude'')"
      using k by (auto simp: ps intro!: tool_payload_known)
    have cnt: "begun k (sent @ map (Pair ''run.status.changed'') ps) =
        ended k (sent @ map (Pair ''run.status.changed'') ps) + open_tools k a'" if "k \<in> set tool_kinds" for k
      using inv that sup by (auto simp: claude_inv_def a' ps open_tools_set [OF fresh])
    show ?thesis using inv len vs out cnt by (auto simp: claude_inv_def a')
  qed
qed

lemma claude_inv_finished:
  assumes inv: "claude_inv a sent" and fi: "tool_finished a content = (a', ps)"
  shows "claude_inv a' (sent @ map (Pair ''run.status.changed'') ps)"
proof -
  let ?i = "stringValue (obj_get content ''tool_use_id'')"
  let ?ph = "if obj_get content ''is_error'' = JBool True then ''failed'' else ''completed''"
  show ?thesis
  proof (cases "active_kind a ?i = []")
    case True
    with inv fi show ?thesis by (simp add: tool_finished_def Let_def)
  next
    case False
    then obtain k' where k': "map_of a ?i = Some k'" "active_kind a ?i = k'"
      by (auto simp: active_kind_def split: option.splits)
    have a': "a' = assoc_del ?i a" and ps: "ps = (if k' = ''suppressed'' then [] else [tool_payload ''claude'' ?ph k'])"
      using False k' fi by (auto simp: tool_finished_def Let_def)
    have k: "k' \<in> insert ''suppressed'' (set tool_kinds)"
      using inv map_of_SomeD [OF k'(1)] by (auto simp: claude_inv_def)
    have sup: "''suppressed'' \<notin> set tool_kinds" by (simp add: tool_kinds_def)
    have d: "distinct (map fst a)" using inv by (simp add: claude_inv_def)
    have len: "length a' \<le> 512" using inv length_assoc_del_le [of ?i a] by (simp add: a' claude_inv_def)
    have vs: "snd ` set a' \<subseteq> insert ''suppressed'' (set tool_kinds)"
      using inv by (auto simp: a' claude_inv_def set_assoc_del)
    have out: "set ps \<subseteq> set (tool_payloads ''claude'')"
      using k by (auto simp: ps intro!: tool_payload_known)
    have cnt: "begun k (sent @ map (Pair ''run.status.changed'') ps) =
        ended k (sent @ map (Pair ''run.status.changed'') ps) + open_tools k a'" if "k \<in> set tool_kinds" for k
      using inv that sup open_tools_del [OF d k'(1), of k] by (auto simp: claude_inv_def a' ps)
    show ?thesis using inv len vs out cnt by (auto simp: claude_inv_def a')
  qed
qed

lemma claude_inv_block:
  "claude_inv a sent \<Longrightarrow> claude_block f a content = (a', ps) \<Longrightarrow>
   claude_inv a' (sent @ map (Pair ''run.status.changed'') ps)"
  by (auto simp: claude_block_def Let_def split: if_splits intro: claude_inv_started claude_inv_finished)

lemma claude_inv_blocks:
  "claude_inv a sent \<Longrightarrow> claude_blocks f a cs = (a', ps) \<Longrightarrow>
   claude_inv a' (sent @ map (Pair ''run.status.changed'') ps)"
proof (induction f a cs arbitrary: sent a' ps rule: claude_blocks.induct)
  case (2 f a c cs)
  obtain a1 ps1 where b: "claude_block f a (map_value c) = (a1, ps1)" by (cases "claude_block f a (map_value c)")
  obtain a2 qs where r: "claude_blocks f a1 cs = (a2, qs)" by (cases "claude_blocks f a1 cs")
  have "claude_inv a2 ((sent @ map (Pair ''run.status.changed'') ps1) @ map (Pair ''run.status.changed'') qs)"
    using "2.IH" [OF b [symmetric] refl claude_inv_block [OF "2.prems"(1) b] r] .
  with "2.prems"(2) b r show ?case by auto
qed simp

lemma claude_inv_progress:
  assumes "claude_inv a sent"
  shows "claude_inv (fst (claude_progress f a ev)) (sent @ map (Pair ''run.status.changed'') (snd (claude_progress f a ev)))"
proof -
  have block: "claude_inv (fst (claude_block f a c)) (sent @ map (Pair ''run.status.changed'') (snd (claude_block f a c)))" for c
    using claude_inv_block [OF assms, of f c] by (cases "claude_block f a c") simp
  have blocks: "claude_inv (fst (claude_blocks f a cs)) (sent @ map (Pair ''run.status.changed'') (snd (claude_blocks f a cs)))" for cs
    using claude_inv_blocks [OF assms, of f cs] by (cases "claude_blocks f a cs") simp
  show ?thesis
    using assms block blocks claude_inv_status [OF assms]
    by (simp add: claude_progress_def Let_def status_payloads_def split: json.split)
qed

section \<open>The Claude stream refines reading line by line\<close>

definition stream_put :: "active progress \<Rightarrow> claude_stream \<Rightarrow> string \<Rightarrow> claude_stream" where
  "stream_put prog s v = fst (stream_Write prog s v)"

lemma write_lines_Nil [simp]: "write_lines prog s [] = (s, None)"
  by (simp add: write_lines.simps)

lemma write_lines_found:
  "newline \<notin> set a \<Longrightarrow> write_lines prog s (a @ newline # b) =
     (if MaxBytes < length (cs_pending s) + length a then stream_fail s too_long
      else (case consume prog (s\<lparr>cs_pending := cs_pending s @ a\<rparr>) of
              (s2, Some er) \<Rightarrow> (s2, Some er) | (s2, None) \<Rightarrow> write_lines prog s2 b))"
  by (subst write_lines.simps) (simp add: Let_def)

lemma write_lines_missing:
  "newline \<notin> set a \<Longrightarrow> a \<noteq> [] \<Longrightarrow> write_lines prog s a =
     (if MaxBytes < length (cs_pending s) + length a then stream_fail s too_long
      else (s\<lparr>cs_pending := cs_pending s @ a\<rparr>, None))"
  by (subst write_lines.simps) (simp add: Let_def str_cut_not_found [THEN iffD2])

lemma write_lines_induct [case_names Nil found missing]:
  assumes "\<And>s. P s []"
    and "\<And>s a b. newline \<notin> set a \<Longrightarrow> (\<And>s2. P s2 b) \<Longrightarrow> P s (a @ newline # b)"
    and "\<And>s a. newline \<notin> set a \<Longrightarrow> a \<noteq> [] \<Longrightarrow> P s a"
  shows "P s v"
proof (induction v arbitrary: s rule: length_induct)
  case (1 v)
  show ?case
  proof (cases rule: str_cut_cases [of newline v])
    case (found a b)
    with 1 assms(2) [of a b s] show ?thesis by simp
  next
    case missing
    then show ?thesis using assms(1) [of s] assms(3) [of v s] by (cases "v = []") auto
  qed
qed

lemma stream_fail_pending [simp]: "stream_fail (s\<lparr>cs_pending := p\<rparr>) er = stream_fail s er"
  by (simp add: stream_fail_def)

lemma write_lines_append:
  "write_lines prog s (a @ b) =
     (case write_lines prog s a of (s1, Some er) \<Rightarrow> (s1, Some er) | (s1, None) \<Rightarrow> write_lines prog s1 b)"
proof (induction s a rule: write_lines_induct)
  case (found s a c)
  then show ?case by (simp add: write_lines_found stream_fail_def split: prod.split option.split)
next
  case (missing s a)
  show ?case
  proof (cases rule: str_cut_cases [of newline b])
    case (found c d)
    then show ?thesis
      using missing write_lines_found [of "a @ c" prog s d]
      by (auto simp: write_lines_missing write_lines_found stream_fail_def add.assoc)
  next
    case b: missing
    then show ?thesis
      using missing by (cases "b = []") (auto simp: write_lines_missing stream_fail_def add.assoc)
  qed
qed simp

lemma consume_cases:
  assumes "consume prog s = (s', r)"
  obtains (ok) "r = None" "cs_err s' = cs_err s" "cs_pending s' = []"
  | (bad) "r = Some invalid_output" "s' = s\<lparr>cs_err := Some invalid_output, cs_pending := [], cs_cancelled := True\<rparr>"
  using assms by (auto simp: consume_def Let_def stream_fail_def split: if_splits option.splits)

lemma write_lines_err:
  "write_lines prog s v = (s', r) \<Longrightarrow> cs_err s = None \<Longrightarrow> cs_err s' = r \<and> (r = None \<or> cs_pending s' = [])"
proof (induction s v arbitrary: s' r rule: write_lines_induct)
  case (found s a b)
  obtain s2 r2 where c: "consume prog (s\<lparr>cs_pending := cs_pending s @ a\<rparr>) = (s2, r2)"
    by (cases "consume prog (s\<lparr>cs_pending := cs_pending s @ a\<rparr>)")
  from c show ?case
  proof (cases rule: consume_cases)
    case ok
    with found c show ?thesis by (auto simp: write_lines_found stream_fail_def split: if_splits)
  next
    case bad
    with found c show ?thesis by (auto simp: write_lines_found stream_fail_def split: if_splits)
  qed
next
  case (missing s a)
  then show ?case by (auto simp: write_lines_missing stream_fail_def split: if_splits)
qed simp

lemma stream_put_cases:
  "stream_put prog s v = (if cs_err s = None then fst (write_lines prog s v) else s)"
  by (auto simp: stream_put_def stream_Write_def split: option.split prod.split)

interpretation stream: chunked_writer "stream_put prog" for prog
proof
  fix s a b
  show "stream_put prog s [] = s" by (simp add: stream_put_cases)
  obtain s1 r where w: "write_lines prog s a = (s1, r)" by (cases "write_lines prog s a")
  show "stream_put prog (stream_put prog s a) b = stream_put prog s (a @ b)"
    using write_lines_err [OF w] w by (cases r) (auto simp: stream_put_cases write_lines_append)
qed

text \<open>
  What the stream should find, written over its lines: the last \<open>result\<close> event, unless a line is
  too long or is not a JSON object of the expected shape, which ends the reading.
\<close>

fun claude_spec :: "claude_response \<Rightarrow> bool \<Rightarrow> string list \<Rightarrow> claude_response \<times> go_error option" where
  "claude_spec r found [] = (r, if found then None else Some (ErrNew ''Claude completed without a result event''))"
| "claude_spec r found (l # ls) =
     (if MaxBytes < length l then (r, Some too_long)
      else if trim_space l = [] then claude_spec r found ls
      else
        (case Option.bind (json_parse (trim_space l)) (decode_struct False response_fields zero_response) of
           None \<Rightarrow> (r, Some invalid_output)
         | Some event \<Rightarrow> if cr_type event = ''result'' then claude_spec event True ls else claude_spec r found ls))"

lemma consume_pending: "cs_pending s = [] \<Longrightarrow> consume prog s = (s, None)"
  by (cases s) (simp add: consume_def Let_def trim_space_def trim_left_def trim_right_def)

lemma result_spec:
  assumes "cs_pending s = []" "cs_err s = None"
  shows "snd (stream_Result prog (fst (write_lines prog s v))) = claude_spec (cs_result s) (cs_found s) (str_split newline v)"
  using assms
proof (induction s v rule: write_lines_induct)
  case (Nil s)
  then show ?case
    by (simp add: stream_Result_def Let_def consume_pending trim_space_def trim_left_def trim_right_def)
next
  case (found s a b)
  show ?case
  proof (cases "MaxBytes < length a")
    case True
    with found show ?thesis
      by (simp add: write_lines_found str_split_append_sep stream_fail_def stream_Result_def)
  next
    case False
    obtain s2 r2 where c: "consume prog (s\<lparr>cs_pending := a\<rparr>) = (s2, r2)" by (cases "consume prog (s\<lparr>cs_pending := a\<rparr>)")
    from c show ?thesis
    proof (cases rule: consume_cases)
      case ok
      with found False c have "snd (stream_Result prog (fst (write_lines prog s (a @ newline # b)))) =
          claude_spec (cs_result s2) (cs_found s2) (str_split newline b)"
        by (simp add: write_lines_found)
      with found False c ok show ?thesis
        by (auto simp: str_split_append_sep consume_def Let_def stream_fail_def split: if_splits option.splits)
    next
      case bad
      with found False c have "snd (stream_Result prog (fst (write_lines prog s (a @ newline # b)))) =
          (cs_result s, Some invalid_output)"
        by (simp add: write_lines_found stream_Result_def)
      with found False c bad show ?thesis
        by (auto simp: str_split_append_sep consume_def Let_def split: if_splits option.splits)
    qed
  qed
next
  case (missing s a)
  then show ?case
    by (auto simp: write_lines_missing str_split_none stream_Result_def stream_fail_def consume_def Let_def
        split: option.split)
qed

lemma write_lines_bound:
  "length (cs_pending s) \<le> MaxBytes \<Longrightarrow> length (cs_pending (fst (write_lines prog s v))) \<le> MaxBytes"
proof (induction s v rule: write_lines_induct)
  case (found s a b)
  obtain s2 r2 where c: "consume prog (s\<lparr>cs_pending := cs_pending s @ a\<rparr>) = (s2, r2)"
    by (cases "consume prog (s\<lparr>cs_pending := cs_pending s @ a\<rparr>)")
  from c show ?case
    by (cases rule: consume_cases) (use found c in \<open>auto simp: write_lines_found stream_fail_def\<close>)
next
  case (missing s a)
  then show ?case by (auto simp: write_lines_missing stream_fail_def)
qed simp

section \<open>Properties\<close>

text \<open>
  C25: Reading a provider's event stream does not depend on how its bytes arrive: however the stream is
  cut into writes, the result of a Claude run is the one a line-by-line reading of the whole stream
  gives (the last \<open>result\<close> event, or the error of the first line that is over 4 MiB or malformed), no
  more than 4 MiB are ever held, and a progress observer that is flushed has reported exactly what it
  reports for the lines of the stream in order.
\<close>

theorem streams_read_by_line:
  "snd (stream_Result prog (foldl (stream_put prog) (newClaudeResultStream observer) ws)) =
     claude_spec zero_response False (str_split newline (concat ws))
   \<and> length (cs_pending (foldl (stream_put prog) (newClaudeResultStream observer) ws)) \<le> MaxBytes
   \<and> observer_Flush (codex_progress hidden) (Some (foldl (observer_put (codex_progress hidden)) (NewCodexObserver emits) ws)) =
     Some (foldl (observeLine (codex_progress hidden)) (NewCodexObserver emits) (str_split newline (concat ws)))
   \<and> observer_Flush (claude_progress muted) (Some (foldl (observer_put (claude_progress muted)) (NewClaudeObserver emits) ws)) =
     Some (foldl (observeLine (claude_progress muted)) (NewClaudeObserver emits) (str_split newline (concat ws)))"
proof -
  let ?s = "newClaudeResultStream observer"
  have s: "cs_pending ?s = []" "cs_err ?s = None" "cs_result ?s = zero_response" "cs_found ?s = False"
    by (simp_all add: newClaudeResultStream_def)
  have all: "foldl (stream_put prog) ?s ws = fst (write_lines prog ?s (concat ws))"
    using s by (simp add: stream.put_all stream_put_cases)
  show ?thesis
    using result_spec [OF s(1,2), of prog "concat ws"] write_lines_bound [of ?s prog "concat ws"] s
    by (simp add: all observer_Flush_def observer_flushed NewCodexObserver_def NewClaudeObserver_def)
qed

text \<open>
  C26: Progress reports reveal nothing of what the provider does but its kind: whatever the stream
  contains, every report of a Codex or Claude observer is one of a fixed set of payloads that name
  the provider, a phase and one of four kinds of tool; a Claude observer reports the end of a tool
  at most as often as the beginning of one of the same kind, and follows at most 512 tools.
\<close>

theorem progress_reports_closed:
  "set (ob_sent (foldl (observer_put (codex_progress hidden)) (NewCodexObserver emits) ws))
     \<subseteq> Pair ''run.status.changed'' ` set (tool_payloads ''codex'')
   \<and> (let ob = foldl (observer_put (claude_progress muted)) (NewClaudeObserver emits) ws
      in set (ob_sent ob) \<subseteq> Pair ''run.status.changed'' ` set (tool_payloads ''claude'' @ status_payloads)
         \<and> length (ob_state ob) \<le> 512 \<and> list_all (\<lambda>k. ended k (ob_sent ob) \<le> begun k (ob_sent ob)) tool_kinds)"
proof -
  let ?o = "foldl (observer_put (codex_progress hidden)) (NewCodexObserver emits) ws"
  let ?c = "foldl (observer_put (claude_progress muted)) (NewClaudeObserver emits) ws"
  have 1: "set (ob_sent ?o) \<subseteq> Pair ''run.status.changed'' ` set (tool_payloads ''codex'')"
    by (rule observer_invariant [of "\<lambda>st sent. set sent \<subseteq> Pair ''run.status.changed'' ` set (tool_payloads ''codex'')"])
       (use codex_reports_known in \<open>fastforce simp: NewCodexObserver_def\<close>)+
  have 2: "claude_inv (ob_state ?c) (ob_sent ?c) \<and> fst ` set (ob_sent ?c) \<subseteq> {''run.status.changed''}"
    by (rule observer_invariant [of "\<lambda>st sent. claude_inv st sent \<and> fst ` set sent \<subseteq> {''run.status.changed''}"])
       (auto simp: claude_inv_progress NewClaudeObserver_def claude_inv_def [of "[]"] open_tools_def)
  have 3: "set (ob_sent ?c) \<subseteq> Pair ''run.status.changed'' ` set (tool_payloads ''claude'' @ status_payloads)"
  proof
    fix e assume e: "e \<in> set (ob_sent ?c)"
    then have "fst e = ''run.status.changed''" "snd e \<in> set (tool_payloads ''claude'' @ status_payloads)"
      using 2 by (auto simp: claude_inv_def)
    then show "e \<in> Pair ''run.status.changed'' ` set (tool_payloads ''claude'' @ status_payloads)" by (cases e) auto
  qed
  show ?thesis using 1 2 3 by (simp add: Let_def claude_inv_def list_all_iff)
qed

end
