(* ===== verification/Node_Lifecycle.thy ===== *)
theory Node_Lifecycle
  imports Prelude
begin

text \<open>
  The life of a Node: \<open>Start\<close>, \<open>Stop\<close> and \<open>stopAdapters\<close> of \<open>internal/agentnode/node.go\<close> as
  concurrent threads. A critical section under \<open>node.mu\<close> is one step; every call that leaves the
  package (the adapter's preflight, the SDK worker and proxy, the two servers) is one step with any
  outcome. A Start gives its lifetime context and its \<open>done\<close> channel the next generation number.
  The goroutine that \<open>LocalHelperServer.Start\<close> leaves behind (\<open>helper_server.go\<close>) stops the
  helper when its lifetime ends.
\<close>

section \<open>States\<close>

datatype stage =
    Preflight | MakeWorker | StartHelper | MakeProxy | StartPublic | Publish | RunWorker
  | StoppingHelper | StoppingPublic | Finish

record start_thread =
  st_gen :: nat
  st_stage :: stage
  st_ret :: "go_error option"
  st_stop_err :: "go_error option"

datatype stop_stage = Cancelling | StopWorker | Waiting

record stop_thread =
  sp_gen :: nat
  sp_worker :: bool
  sp_cancel :: bool
  sp_stage :: stop_stage

text \<open>
  The Node's fields, the running threads, the channels that are closed, the lifetimes that are
  cancelled, the pending goroutines of the helper, and what the calls returned.
\<close>

record node_life =
  nl_started :: bool
  nl_worker :: bool
  nl_cancel :: bool
  nl_gen :: nat
  nl_closed :: "nat list"
  nl_cancelled :: "nat list"
  nl_helper :: bool
  nl_public :: bool
  nl_watchers :: "nat list"
  nl_starts :: "start_thread list"
  nl_stops :: "stop_thread list"
  nl_start_returns :: "(nat \<times> go_error option) list"
  nl_stop_returns :: "(nat \<times> go_error option) list"

text \<open>Whether the Node is configured with an adapter, a helper and a public A2A server.\<close>

record life_config =
  lc_adapter :: bool
  lc_helper :: bool
  lc_public :: bool

definition init_node :: node_life where
  "init_node =
     \<lparr>nl_started = False, nl_worker = False, nl_cancel = False, nl_gen = 0, nl_closed = [], nl_cancelled = [],
      nl_helper = False, nl_public = False, nl_watchers = [], nl_starts = [], nl_stops = [],
      nl_start_returns = [], nl_stop_returns = []\<rparr>"

definition already_started :: go_error where
  "already_started = ErrNew ''agent node is already started''"

section \<open>Start\<close>

text \<open>A Start without an adapter fails, a second Start too; otherwise a generation begins.\<close>

definition start_enter :: "life_config \<Rightarrow> node_life \<Rightarrow> node_life" where
  "start_enter c s =
     (if \<not> lc_adapter c then s\<lparr>nl_start_returns := (nl_gen s, Some (ErrNew ''adapter is required'')) # nl_start_returns s\<rparr>
      else if nl_started s then s\<lparr>nl_start_returns := (nl_gen s, Some already_started) # nl_start_returns s\<rparr>
      else
        (let g = Suc (nl_gen s)
         in s\<lparr>nl_started := True, nl_gen := g, nl_cancel := True,
              nl_starts := nl_starts s @ [\<lparr>st_gen = g, st_stage = Preflight, st_ret = None, st_stop_err = None\<rparr>]\<rparr>))"

text \<open>The deferred function begins: \<open>stopAdapters\<close> cancels the lifetime.\<close>

definition unwind :: "go_error option \<Rightarrow> start_thread \<Rightarrow> node_life \<Rightarrow> start_thread \<times> node_life" where
  "unwind ret t s =
     (t\<lparr>st_stage := StoppingHelper, st_ret := ret\<rparr>,
      if nl_cancel s then s\<lparr>nl_cancelled := st_gen t # nl_cancelled s\<rparr> else s)"

text \<open>One step of the body with the outcome \<open>r\<close> of the call it makes; \<open>None\<close> ends the thread.\<close>

definition start_step ::
  "life_config \<Rightarrow> go_error option \<Rightarrow> start_thread \<Rightarrow> node_life \<Rightarrow> start_thread option \<times> node_life" where
  "start_step c r t s =
     (let advance = (\<lambda>stage s'. if r = None then (Some (t\<lparr>st_stage := stage\<rparr>), s')
                                 else (case unwind r t s of (t', s'') \<Rightarrow> (Some t', s'')))
      in case st_stage t of
           Preflight \<Rightarrow> advance MakeWorker s
         | MakeWorker \<Rightarrow> advance (if lc_helper c then StartHelper else if lc_public c then MakeProxy else Publish) s
         | StartHelper \<Rightarrow> advance (if lc_public c then MakeProxy else Publish)
             (s\<lparr>nl_helper := True, nl_watchers := st_gen t # nl_watchers s\<rparr>)
         | MakeProxy \<Rightarrow> advance StartPublic s
         | StartPublic \<Rightarrow> advance Publish (s\<lparr>nl_public := True\<rparr>)
         | Publish \<Rightarrow> (Some (t\<lparr>st_stage := RunWorker\<rparr>), s\<lparr>nl_worker := True\<rparr>)
         | RunWorker \<Rightarrow> (case unwind r t s of (t', s') \<Rightarrow> (Some t', s'))
         | StoppingHelper \<Rightarrow>
             if lc_helper c then (Some (t\<lparr>st_stage := StoppingPublic, st_stop_err := r\<rparr>), s\<lparr>nl_helper := False\<rparr>)
             else (Some (t\<lparr>st_stage := StoppingPublic\<rparr>), s)
         | StoppingPublic \<Rightarrow>
             if lc_public c
             then (Some (t\<lparr>st_stage := Finish, st_stop_err := (if st_stop_err t = None then r else st_stop_err t)\<rparr>), s\<lparr>nl_public := False\<rparr>)
             else (Some (t\<lparr>st_stage := Finish\<rparr>), s)
         | Finish \<Rightarrow>
             (None,
              (if nl_started s then s\<lparr>nl_started := False, nl_closed := st_gen t # nl_closed s\<rparr> else s)
                \<lparr>nl_worker := False, nl_cancel := False,
                 nl_start_returns := (st_gen t, if st_ret t = None then st_stop_err t else st_ret t) # nl_start_returns s\<rparr>))"

definition start_thread_step :: "life_config \<Rightarrow> nat \<Rightarrow> go_error option \<Rightarrow> node_life \<Rightarrow> node_life" where
  "start_thread_step c i r s =
     (case start_step c r (nl_starts s ! i) s of
        (Some t, s') \<Rightarrow> s'\<lparr>nl_starts := (nl_starts s)[i := t]\<rparr>
      | (None, s') \<Rightarrow> s'\<lparr>nl_starts := take i (nl_starts s) @ drop (Suc i) (nl_starts s)\<rparr>)"

section \<open>Stop\<close>

definition stop_enter :: "node_life \<Rightarrow> node_life" where
  "stop_enter s =
     (if \<not> nl_started s then s\<lparr>nl_stop_returns := (nl_gen s, None) # nl_stop_returns s\<rparr>
      else s\<lparr>nl_stops := nl_stops s @ [\<lparr>sp_gen = nl_gen s, sp_worker = nl_worker s, sp_cancel = nl_cancel s, sp_stage = Cancelling\<rparr>]\<rparr>)"

definition stop_return :: "nat \<Rightarrow> go_error option \<Rightarrow> node_life \<Rightarrow> node_life" where
  "stop_return j r s =
     s\<lparr>nl_stops := take j (nl_stops s) @ drop (Suc j) (nl_stops s),
       nl_stop_returns := (sp_gen (nl_stops s ! j), r) # nl_stop_returns s\<rparr>"

text \<open>
  The step of a Stop call with the outcome \<open>r\<close> of \<open>worker.Stop\<close> or, while it waits, of its own
  context; waiting ends without an error only when the channel is closed.
\<close>

definition stop_thread_step :: "nat \<Rightarrow> go_error option \<Rightarrow> node_life \<Rightarrow> node_life" where
  "stop_thread_step j r s =
     (let t = nl_stops s ! j
      in case sp_stage t of
           Cancelling \<Rightarrow>
             s\<lparr>nl_cancelled := (if sp_cancel t then [sp_gen t] else []) @ nl_cancelled s,
               nl_stops := (nl_stops s)[j := t\<lparr>sp_stage := (if sp_worker t then StopWorker else Waiting)\<rparr>]\<rparr>
         | StopWorker \<Rightarrow>
             if r = None then s\<lparr>nl_stops := (nl_stops s)[j := t\<lparr>sp_stage := Waiting\<rparr>]\<rparr> else stop_return j r s
         | Waiting \<Rightarrow>
             if r \<noteq> None then stop_return j r s
             else if sp_gen t \<in> set (nl_closed s) then stop_return j None s else s)"

section \<open>The helper's goroutine\<close>

definition watcher_step :: "nat \<Rightarrow> node_life \<Rightarrow> node_life" where
  "watcher_step g s =
     (if g \<in> set (nl_watchers s) \<and> g \<in> set (nl_cancelled s)
      then s\<lparr>nl_helper := False, nl_watchers := removeAll g (nl_watchers s)\<rparr> else s)"

section \<open>Histories\<close>

inductive node_step :: "life_config \<Rightarrow> node_life \<Rightarrow> node_life \<Rightarrow> bool" for c where
  starts: "node_step c s (start_enter c s)"
| start: "i < length (nl_starts s) \<Longrightarrow> node_step c s (start_thread_step c i r s)"
| stops: "node_step c s (stop_enter s)"
| stop: "j < length (nl_stops s) \<Longrightarrow> node_step c s (stop_thread_step j r s)"
| watcher: "node_step c s (watcher_step g s)"
| cancelled: "g \<le> nl_gen s \<Longrightarrow> node_step c s (s\<lparr>nl_cancelled := g # nl_cancelled s\<rparr>)"

inductive_cases node_stepE: "node_step c s s'"

section \<open>Invariant\<close>

definition helper_stages :: "stage set" where
  "helper_stages = {MakeProxy, StartPublic, Publish, RunWorker, StoppingHelper}"

definition public_stages :: "stage set" where
  "public_stages = {Publish, RunWorker, StoppingHelper, StoppingPublic}"

text \<open>At most one Start is under way, and it owns the newest generation; when none is, all is shut down.\<close>

definition thread_inv :: "life_config \<Rightarrow> node_life \<Rightarrow> bool" where
  "thread_inv c s =
     (case nl_starts s of
        [] \<Rightarrow> \<not> nl_started s \<and> \<not> nl_worker s \<and> \<not> nl_cancel s \<and> \<not> nl_helper s \<and> \<not> nl_public s \<and> set (nl_closed s) = {1..nl_gen s}
      | [t] \<Rightarrow> nl_started s \<and> nl_cancel s \<and> st_gen t = nl_gen s \<and> 0 < nl_gen s \<and> set (nl_closed s) = {1..<nl_gen s}
          \<and> (st_stage t = StartHelper \<longrightarrow> lc_helper c) \<and> (st_stage t \<in> {MakeProxy, StartPublic} \<longrightarrow> lc_public c)
          \<and> (nl_helper s \<longrightarrow> lc_helper c \<and> st_stage t \<in> helper_stages)
          \<and> (nl_public s \<longrightarrow> lc_public c \<and> st_stage t \<in> public_stages)
          \<and> (st_stage t \<in> {StoppingHelper, StoppingPublic, Finish} \<longrightarrow> nl_gen s \<in> set (nl_cancelled s))
      | _ \<Rightarrow> False)"

definition node_inv :: "life_config \<Rightarrow> node_life \<Rightarrow> bool" where
  "node_inv c s =
     (thread_inv c s
      \<and> (\<forall>t \<in> set (nl_stops s). sp_gen t \<in> {1..nl_gen s} \<and> sp_cancel t \<and> (sp_stage t = Cancelling \<or> sp_gen t \<in> set (nl_cancelled s)))
      \<and> (\<forall>g. (g, None) \<in> set (nl_stop_returns s) \<longrightarrow> g = 0 \<or> g \<in> set (nl_closed s)))"

lemma node_inv_init: "node_inv c init_node"
  by (simp add: node_inv_def thread_inv_def init_node_def)

lemma thread_cases:
  assumes "thread_inv c s"
  obtains (idle) "nl_starts s = []" | (active) t where "nl_starts s = [t]"
  using assms by (cases "nl_starts s" rule: remdups_adj.cases) (auto simp: thread_inv_def)

lemma thread_inv_irrelevant:
  "thread_inv c (s\<lparr>nl_start_returns := z\<rparr>) = thread_inv c s"
  "thread_inv c (s\<lparr>nl_stops := x\<rparr>) = thread_inv c s" "thread_inv c (s\<lparr>nl_stop_returns := y\<rparr>) = thread_inv c s"
  by (simp_all add: thread_inv_def cong: list.case_cong)

lemma node_inv_start_enter:
  assumes inv: "node_inv c s"
  shows "node_inv c (start_enter c s)"
proof (cases "lc_adapter c \<and> \<not> nl_started s")
  case True
  have ti: "thread_inv c s" using inv by (simp add: node_inv_def)
  then have idle: "nl_starts s = []" using True
    by (cases rule: thread_cases [OF ti]) (auto simp: thread_inv_def)
  have closed: "set (nl_closed s) = {1..nl_gen s}" "\<not> nl_helper s" "\<not> nl_public s"
    using ti by (simp_all add: thread_inv_def idle)
  have "thread_inv c (start_enter c s)"
    using True closed by (simp add: thread_inv_def start_enter_def Let_def idle atLeastLessThanSuc_atLeastAtMost)
  moreover have "nl_gen s \<le> nl_gen (start_enter c s)" "nl_stops (start_enter c s) = nl_stops s"
    "nl_cancelled (start_enter c s) = nl_cancelled s" "nl_closed (start_enter c s) = nl_closed s"
    "nl_stop_returns (start_enter c s) = nl_stop_returns s"
    using True by (simp_all add: start_enter_def Let_def)
  ultimately show ?thesis using inv by (fastforce simp: node_inv_def)
next
  case False
  then show ?thesis using inv by (auto simp: node_inv_def start_enter_def thread_inv_irrelevant)
qed

lemma node_inv_frame:
  assumes "node_inv c s" "thread_inv c s'" "nl_stops s' = nl_stops s" "nl_gen s' = nl_gen s"
    "nl_stop_returns s' = nl_stop_returns s" "set (nl_cancelled s) \<subseteq> set (nl_cancelled s')" "set (nl_closed s) \<subseteq> set (nl_closed s')"
  shows "node_inv c s'"
  using assms by (auto simp: node_inv_def)

lemma start_step_frame:
  assumes "nl_starts s = [t]"
  shows "nl_stops (start_thread_step c 0 r s) = nl_stops s \<and> nl_gen (start_thread_step c 0 r s) = nl_gen s
    \<and> nl_stop_returns (start_thread_step c 0 r s) = nl_stop_returns s
    \<and> set (nl_cancelled s) \<subseteq> set (nl_cancelled (start_thread_step c 0 r s))
    \<and> set (nl_closed s) \<subseteq> set (nl_closed (start_thread_step c 0 r s))"
  by (cases "st_stage t") (auto simp: assms start_thread_step_def start_step_def unwind_def Let_def)

lemma start_step_thread:
  assumes "thread_inv c s" "nl_starts s = [t]"
  shows "thread_inv c (start_thread_step c 0 r s)"
proof -
  note defs = start_thread_step_def start_step_def unwind_def Let_def thread_inv_def helper_stages_def public_stages_def
  have f: "nl_started s" "nl_cancel s" "st_gen t = nl_gen s" "0 < nl_gen s" "set (nl_closed s) = {1..<nl_gen s}"
    using assms by (simp_all add: thread_inv_def)
  have i: "insert (nl_gen s) {Suc 0..<nl_gen s} = {Suc 0..nl_gen s}" using f(4) by auto
  show ?thesis
  proof (cases "st_stage t")
    case Finish
    then show ?thesis using assms f i by (simp add: defs)
  next
    case StoppingHelper
    then show ?thesis using assms f by (simp add: defs) blast
  next
    case StoppingPublic
    then show ?thesis using assms f by (simp add: defs) blast
  qed (use assms f in \<open>simp_all add: defs\<close>)
qed

lemma start_step_inv:
  assumes "node_inv c s" and "nl_starts s = [t]"
  shows "node_inv c (start_thread_step c 0 r s)"
proof -
  have "thread_inv c s" using assms(1) by (simp add: node_inv_def)
  then show ?thesis
    using node_inv_frame [OF assms(1) start_step_thread] start_step_frame [OF assms(2)] assms(2) by blast
qed

lemma thread_started: "thread_inv c s \<Longrightarrow> nl_started s \<longleftrightarrow> nl_starts s \<noteq> []"
  by (cases rule: thread_cases [of c s]) (auto simp: thread_inv_def)

lemma thread_closed: "thread_inv c s \<Longrightarrow> \<not> nl_started s \<Longrightarrow> set (nl_closed s) = {1..nl_gen s}"
  using thread_started [of c s] by (simp add: thread_inv_def)

lemma thread_running: "thread_inv c s \<Longrightarrow> nl_started s \<Longrightarrow> nl_cancel s \<and> 0 < nl_gen s"
  by (cases rule: thread_cases [of c s]) (auto simp: thread_inv_def)

lemma stop_enter_inv:
  assumes inv: "node_inv c s"
  shows "node_inv c (stop_enter s)"
proof -
  have ti: "thread_inv c s" using inv by (simp add: node_inv_def)
  show ?thesis
  proof (cases "nl_started s")
    case True
    then show ?thesis
      using inv thread_running [OF ti] by (auto simp: node_inv_def stop_enter_def thread_inv_irrelevant)
  next
    case False
    then have "nl_gen s = 0 \<or> nl_gen s \<in> set (nl_closed s)" using thread_closed [OF ti] by auto
    with False inv show ?thesis by (auto simp: node_inv_def stop_enter_def thread_inv_irrelevant)
  qed
qed

lemma thread_inv_cancelled: "thread_inv c s \<Longrightarrow> thread_inv c (s\<lparr>nl_cancelled := xs @ nl_cancelled s\<rparr>)"
  by (auto simp: thread_inv_def split: list.splits)

lemma stop_step_inv:
  assumes inv: "node_inv c s" and j: "j < length (nl_stops s)"
  shows "node_inv c (stop_thread_step j r s)"
proof -
  let ?t = "nl_stops s ! j"
  have t: "?t \<in> set (nl_stops s)" using j by simp
  have ret: "node_inv c (stop_return j r' s)" if "r' = None \<longrightarrow> sp_gen ?t \<in> set (nl_closed s)" for r'
    using inv that
    by (auto simp: node_inv_def stop_return_def thread_inv_irrelevant dest: in_set_takeD in_set_dropD)
  show ?thesis
  proof (cases "sp_stage ?t")
    case Cancelling
    have "thread_inv c (s\<lparr>nl_cancelled := (if sp_cancel ?t then [sp_gen ?t] else []) @ nl_cancelled s\<rparr>)"
      by (rule thread_inv_cancelled) (use inv in \<open>simp add: node_inv_def\<close>)
    then have ti: "thread_inv c (stop_thread_step j r s)"
      using Cancelling by (simp add: stop_thread_step_def Let_def thread_inv_irrelevant)
    show ?thesis
      using inv t Cancelling ti
      by (auto simp: node_inv_def stop_thread_step_def Let_def dest!: set_update_subset_insert [THEN subsetD])
  next
    case StopWorker
    then show ?thesis
      using inv t ret [of r]
      by (auto simp: node_inv_def stop_thread_step_def Let_def thread_inv_irrelevant dest!: set_update_subset_insert [THEN subsetD])
  next
    case Waiting
    then show ?thesis using inv ret [of r] ret [of None] by (auto simp: stop_thread_step_def Let_def)
  qed
qed

lemma watcher_inv: "node_inv c s \<Longrightarrow> node_inv c (watcher_step g s)"
  by (auto simp: node_inv_def thread_inv_def watcher_step_def split: list.splits)

lemma node_step_inv: "node_step c s s' \<Longrightarrow> node_inv c s \<Longrightarrow> node_inv c s'"
proof (induction rule: node_step.induct)
  case (start i s r)
  then have "thread_inv c s" by (simp add: node_inv_def)
  then show ?case
  proof (cases rule: thread_cases)
    case (active t)
    with start show ?thesis by (simp add: start_step_inv)
  qed (use start in simp)
next
  case (cancelled g s)
  then show ?case
    using thread_inv_cancelled [of c s "[g]"] by (auto simp: node_inv_def)
qed (simp_all add: node_inv_start_enter stop_enter_inv stop_step_inv watcher_inv)

lemma node_reachable_inv: "(node_step c)\<^sup>*\<^sup>* init_node s \<Longrightarrow> node_inv c s"
  by (induction rule: rtranclp_induct) (auto intro: node_inv_init node_step_inv)

section \<open>Progress\<close>

fun stage_rank :: "stage \<Rightarrow> nat" where
  "stage_rank Preflight = 10"
| "stage_rank MakeWorker = 9"
| "stage_rank StartHelper = 8"
| "stage_rank MakeProxy = 7"
| "stage_rank StartPublic = 6"
| "stage_rank Publish = 5"
| "stage_rank RunWorker = 4"
| "stage_rank StoppingHelper = 3"
| "stage_rank StoppingPublic = 2"
| "stage_rank Finish = 1"

text \<open>The steps that the Start calls under way still have to take.\<close>

definition remaining :: "node_life \<Rightarrow> nat" where
  "remaining s = sum_list (map (\<lambda>t. stage_rank (st_stage t)) (nl_starts s))"

lemma stage_rank_bounds: "0 < stage_rank g \<and> stage_rank g \<le> 10"
  by (cases g) auto

lemma remaining_start:
  "nl_starts s = [t] \<Longrightarrow> remaining (start_thread_step c 0 r s) < remaining s"
  by (cases "st_stage t") (auto simp: remaining_def start_thread_step_def start_step_def unwind_def Let_def)

lemma remaining_other:
  "remaining (stop_enter s) = remaining s" "remaining (stop_thread_step j r s) = remaining s"
  "remaining (watcher_step g s) = remaining s" "remaining (s\<lparr>nl_cancelled := xs\<rparr>) = remaining s"
  by (simp_all add: remaining_def stop_enter_def stop_thread_step_def watcher_step_def stop_return_def Let_def split: stop_stage.split)

section \<open>Properties\<close>

text \<open>
  C28: Stopping a Node completes. However Start calls, Stop calls, cancellations and the helper's
  goroutines interleave, at most one Start is under way; it takes at most ten more steps, each of
  which brings its end nearer and none of which another thread can undo; and once it is over the
  Node can be started again, its worker is gone, both servers are down and the channel every
  pending Stop call waits for is closed, so that call returns without an error. A Stop call that
  returned without an error found the Node stopped. (The calls of other packages that a step makes
  are taken to return; the SDK's worker does so when the lifetime it is given is cancelled.)
\<close>

theorem node_stop_completes:
  assumes reach: "(node_step c)\<^sup>*\<^sup>* init_node s"
  shows "length (nl_starts s) \<le> 1 \<and> remaining s \<le> 10
    \<and> (i < length (nl_starts s) \<longrightarrow> remaining (start_thread_step c i r s) < remaining s)
    \<and> (node_step c s s' \<longrightarrow> s' = start_enter c s \<or> remaining s' \<le> remaining s)
    \<and> (remaining s = 0 \<longrightarrow> \<not> nl_started s \<and> \<not> nl_worker s \<and> \<not> nl_helper s \<and> \<not> nl_public s
         \<and> list_all (\<lambda>t. sp_gen t \<in> set (nl_closed s)) (nl_stops s))
    \<and> (\<forall>g. (g, None) \<in> set (nl_stop_returns s) \<longrightarrow> g = 0 \<or> g \<in> set (nl_closed s))"
proof -
  have inv: "node_inv c s" by (rule node_reachable_inv [OF reach])
  then have ti: "thread_inv c s" by (simp add: node_inv_def)
  have one: "length (nl_starts s) \<le> 1" using ti by (cases rule: thread_cases) auto
  have bound: "remaining s \<le> 10" using ti stage_rank_bounds by (cases rule: thread_cases) (auto simp: remaining_def)
  have down: "remaining (start_thread_step c i r s) < remaining s" if "i < length (nl_starts s)" for i r
    using ti that by (cases rule: thread_cases) (auto simp: remaining_start)
  have mono: "s' = start_enter c s \<or> remaining s' \<le> remaining s" if "node_step c s s'"
    using that by cases (auto simp: remaining_other dest: down intro: less_imp_le)
  have zero: "\<not> nl_started s \<and> \<not> nl_worker s \<and> \<not> nl_helper s \<and> \<not> nl_public s
      \<and> list_all (\<lambda>t. sp_gen t \<in> set (nl_closed s)) (nl_stops s)" if z: "remaining s = 0"
    using ti
  proof (cases rule: thread_cases)
    case idle
    with inv show ?thesis by (auto simp: node_inv_def thread_inv_def list_all_iff)
  next
    case (active t)
    with z stage_rank_bounds [of "st_stage t"] show ?thesis by (simp add: remaining_def)
  qed
  show ?thesis using inv one bound down mono zero by (simp add: node_inv_def)
qed

section \<open>Witnesses\<close>

definition demo_life :: life_config where
  "demo_life = \<lparr>lc_adapter = True, lc_helper = True, lc_public = False\<rparr>"

fun run_start :: "nat \<Rightarrow> node_life \<Rightarrow> node_life" where
  "run_start 0 s = s"
| "run_start (Suc n) s = run_start n (start_thread_step demo_life 0 None s)"

lemma run_start_steps:
  "(\<And>k. k < n \<Longrightarrow> nl_starts (run_start k s) \<noteq> []) \<Longrightarrow> (node_step demo_life)\<^sup>*\<^sup>* s (run_start n s)"
proof (induction n arbitrary: s)
  case (Suc n)
  have "node_step demo_life s (start_thread_step demo_life 0 None s)"
    using Suc.prems [of 0] by (intro node_step.start) simp
  moreover have "(node_step demo_life)\<^sup>*\<^sup>* (start_thread_step demo_life 0 None s) (run_start n (start_thread_step demo_life 0 None s))"
    using Suc.prems [of "Suc _"] by (intro Suc.IH) auto
  ultimately show ?case by simp
qed simp

text \<open>A Node that runs its worker after one Start.\<close>

definition demo_running :: node_life where
  "demo_running = run_start 4 (start_enter demo_life init_node)"

lemma demo_running_reachable: "(node_step demo_life)\<^sup>*\<^sup>* init_node demo_running"
proof -
  have "(node_step demo_life)\<^sup>*\<^sup>* (start_enter demo_life init_node) demo_running"
    unfolding demo_running_def
  proof (rule run_start_steps)
    fix k :: nat assume "k < 4"
    then have "k \<in> {0, 1, 2, 3}" by auto
    moreover have "list_all (\<lambda>k. nl_starts (run_start k (start_enter demo_life init_node)) \<noteq> []) [0, 1, 2, 3]" by code_simp
    ultimately show "nl_starts (run_start k (start_enter demo_life init_node)) \<noteq> []" by (auto simp: list_all_iff)
  qed
  then show ?thesis using node_step.starts [of demo_life init_node] by (meson converse_rtranclp_into_rtranclp)
qed

theorem node_stop_completes_witness:
  "(node_step demo_life)\<^sup>*\<^sup>* init_node demo_running \<and> nl_helper demo_running \<and> remaining demo_running = 4
   \<and> remaining (start_thread_step demo_life 0 None demo_running) = 3"
proof -
  have v: "nl_helper demo_running" "remaining demo_running = 4" "length (nl_starts demo_running) = 1"
    "remaining (start_thread_step demo_life 0 None demo_running) = 3" by code_simp+
  show ?thesis
    using demo_running_reachable v node_stop_completes [OF demo_running_reachable, of 0 None "stop_enter demo_running"] by simp
qed

text \<open>
  The helper's goroutine does not know which generation it belongs to. A Node that is started again
  before the goroutine of its first life has run loses its helper: the worker runs, its lifetime is
  not cancelled, and the helper is down.
\<close>

definition demo_restarted :: node_life where
  "demo_restarted = watcher_step 1 (run_start 4 (start_enter demo_life (run_start 4 demo_running)))"

lemma late_watcher_stops_helper:
  "(node_step demo_life)\<^sup>*\<^sup>* init_node demo_restarted
   \<and> map st_stage (nl_starts demo_restarted) = [RunWorker] \<and> nl_gen demo_restarted = 2 \<and> 2 \<notin> set (nl_cancelled demo_restarted)
   \<and> \<not> nl_helper demo_restarted \<and> nl_helper (run_start 4 (start_enter demo_life (run_start 4 demo_running)))"
proof -
  have 1: "(node_step demo_life)\<^sup>*\<^sup>* demo_running (run_start 4 demo_running)"
  proof (rule run_start_steps)
    fix k :: nat assume "k < 4"
    then have "k \<in> {0, 1, 2, 3}" by auto
    moreover have "list_all (\<lambda>k. nl_starts (run_start k demo_running) \<noteq> []) [0, 1, 2, 3]" by code_simp
    ultimately show "nl_starts (run_start k demo_running) \<noteq> []" by (auto simp: list_all_iff)
  qed
  let ?s = "start_enter demo_life (run_start 4 demo_running)"
  have 2: "node_step demo_life (run_start 4 demo_running) ?s" by (rule node_step.starts)
  have 3: "(node_step demo_life)\<^sup>*\<^sup>* ?s (run_start 4 ?s)"
  proof (rule run_start_steps)
    fix k :: nat assume "k < 4"
    then have "k \<in> {0, 1, 2, 3}" by auto
    moreover have "list_all (\<lambda>k. nl_starts (run_start k ?s) \<noteq> []) [0, 1, 2, 3]" by code_simp
    ultimately show "nl_starts (run_start k ?s) \<noteq> []" by (auto simp: list_all_iff)
  qed
  have 4: "node_step demo_life (run_start 4 ?s) demo_restarted" unfolding demo_restarted_def by (rule node_step.watcher)
  have "(node_step demo_life)\<^sup>*\<^sup>* init_node demo_restarted"
    using demo_running_reachable 1 2 3 4 by (meson rtranclp.rtrancl_into_rtrancl rtranclp_trans)
  moreover have "map st_stage (nl_starts demo_restarted) = [RunWorker]" "nl_gen demo_restarted = 2"
    "2 \<notin> set (nl_cancelled demo_restarted)" "\<not> nl_helper demo_restarted" "nl_helper (run_start 4 ?s)"
    by code_simp+
  ultimately show ?thesis by simp
qed

end
