(* ===== verification/Host_Auth.thy ===== *)
theory Host_Auth
  imports Sandbox_Session Provider_Config
begin

text \<open>
  The serial admission of host-authenticated clients: \<open>pkg/adapters/host_auth_gate.go\<close> and
  \<open>host_auth_directory_unix.go\<close>. The lock file lies in a fixed directory below the client's HOME.
  The loop that waits for it asks the context three times per round; what the operating system,
  the other processes and the context answer is a function of the round.
\<close>

section \<open>The coordination directory\<close>

text \<open>Whether a path belongs to root comes beside the answers of \<open>Lstat\<close>, which say whether it belongs to Node.\<close>

record auth_os = sandbox_os +
  ao_root :: "string \<Rightarrow> bool"

definition unsafe_state :: go_error where
  "unsafe_state = ErrNew (''native host-auth state requires a safe HOME and private owned state directory; '' @
     ''no temporary-directory fallback'')"

text \<open>The value of the last \<open>HOME=\<close> entry.\<close>

definition home_of :: "string list \<Rightarrow> string" where
  "home_of env = foldl (\<lambda>h entry. case cut_prefix entry ''HOME='' of Some v \<Rightarrow> v | None \<Rightarrow> h) [] env"

definition safe_parent :: "auth_os \<Rightarrow> string \<Rightarrow> string \<Rightarrow> bool" where
  "safe_parent os home p =
     (case so_lstat os p of
        None \<Rightarrow> False
      | Some i \<Rightarrow>
          di_dir i \<and> (di_owned i \<or> ao_root os p) \<and> (p = home \<longrightarrow> di_owned i)
          \<and> \<not> (shared_writable (di_perm i) \<and> (p = home \<or> \<not> di_sticky i \<or> \<not> ao_root os p)))"

function safe_parents :: "auth_os \<Rightarrow> string \<Rightarrow> string \<Rightarrow> bool" where
  "safe_parents os home p =
     (if \<not> safe_parent os home p then False
      else if p = filepath_dir p then True else safe_parents os home (filepath_dir p))"
  by pat_completeness auto
termination
  by (relation "measure (\<lambda>(_, _, p). depth p)") (simp_all, metis depth_dir)

declare safe_parents.simps [simp del]

definition state_dir_ok :: "auth_os \<Rightarrow> string \<Rightarrow> string \<Rightarrow> bool" where
  "state_dir_ok os dir name =
     ((case so_mkdir os dir of None \<Rightarrow> True | Some er \<Rightarrow> errors_is er err_exist)
      \<and> (case so_lstat os dir of
           None \<Rightarrow> False
         | Some i \<Rightarrow> di_dir i \<and> di_owned i \<and> \<not> shared_writable (di_perm i)
             \<and> \<not> (name = ''openlinker-agent-node'' \<and> group_or_other (di_perm i))))"

fun state_dirs :: "auth_os \<Rightarrow> string \<Rightarrow> string list \<Rightarrow> string option" where
  "state_dirs os dir [] = Some dir"
| "state_dirs os dir (name # names) =
     (let dir1 = filepath_join [dir, name]
      in if state_dir_ok os dir1 name then state_dirs os dir1 names else None)"

definition prepareHostAuthLockPath :: "auth_os \<Rightarrow> string list \<Rightarrow> string \<Rightarrow> string result" where
  "prepareHostAuthLockPath os env provider =
     (case so_eval os (home_of env) of
        None \<Rightarrow> Inl unsafe_state
      | Some home \<Rightarrow>
          if \<not> is_abs home \<or> home = ''/'' \<or> \<not> safe_parents os home home then Inl unsafe_state
          else
            (case state_dirs os home [''.local'', ''state'', ''openlinker-agent-node''] of
               None \<Rightarrow> Inl unsafe_state
             | Some dir \<Rightarrow> Inr (filepath_join [dir, ''host-auth-'' @ provider @ ''.lock''])))"

definition hostAuthStatePath :: "string \<Rightarrow> string" where
  "hostAuthStatePath home = filepath_join [home, ''.local'', ''state'', ''openlinker-agent-node'']"

definition hostAuthLockPath :: "auth_os \<Rightarrow> string list \<Rightarrow> provider_config \<Rightarrow> string result" where
  "hostAuthLockPath os ambient c =
     (case nativeClientEnvironment ambient c of
        Inl er \<Rightarrow> Inl er
      | Inr env \<Rightarrow>
          if pc_provider c \<noteq> ''codex'' \<and> pc_provider c \<noteq> ''claude''
          then Inl (ErrNew ''host-auth admission requires Codex or Claude'')
          else prepareHostAuthLockPath os env (pc_provider c))"

section \<open>Waiting for the permit\<close>

text \<open>
  \<open>pm_ctx n\<close> is what the context says the \<open>n\<close>-th time, \<open>pm_os k\<close> and \<open>pm_held k\<close> are the system
  and the locks held by anyone in round \<open>k\<close>, \<open>pm_emit\<close> is the event sink, if there is one.
\<close>

record permit_env =
  pm_ctx :: "nat \<Rightarrow> go_error option"
  pm_os :: "nat \<Rightarrow> auth_os"
  pm_held :: "nat \<Rightarrow> held list"
  pm_emit :: "(string \<Rightarrow> json \<Rightarrow> go_error option) option"

text \<open>The round in which the lock was taken, with the locks then held; and how many events were sent.\<close>

type_synonym permit = "(nat \<times> held list) result \<times> nat"

definition waiting_event :: json where
  "waiting_event = JObj [(''text'', JStr (''Waiting for another Node client using this provider to finish '' @
     ''(host-auth serial policy).''))]"

definition announce :: "permit_env \<Rightarrow> bool \<Rightarrow> go_error option \<times> nat" where
  "announce e waiting =
     (case pm_emit e of
        Some emit \<Rightarrow> if waiting then (None, 0) else (emit ''run.message.delta'' waiting_event, 1)
      | None \<Rightarrow> (None, 0))"

partial_function (option) permit_loop :: "permit_env \<Rightarrow> string \<Rightarrow> nat \<Rightarrow> bool \<Rightarrow> nat \<Rightarrow> permit option" where
  "permit_loop e path k waiting sent =
     (case pm_ctx e (3 * k) of
        Some er \<Rightarrow> Some (Inl er, sent)
      | None \<Rightarrow>
          (case AcquireLock (pm_os e k) path (pm_held e k) of
             (Inr l, rs) \<Rightarrow>
               (case pm_ctx e (3 * k + 1) of
                  Some er \<Rightarrow> Some (Inl er, sent)
                | None \<Rightarrow> Some (Inr (k, rs), sent))
           | (Inl er, rs) \<Rightarrow>
               if \<not> errors_is er ErrLockBusy
               then Some (Inl (ErrNew ''native host-auth coordination lock is unavailable or unsafe''), sent)
               else
                 (case announce e waiting of
                    (Some er', n) \<Rightarrow> Some (Inl er', sent + n)
                  | (None, n) \<Rightarrow>
                      (case pm_ctx e (3 * k + 2) of
                         Some er' \<Rightarrow> Some (Inl er', sent + n)
                       | None \<Rightarrow> permit_loop e path (Suc k) True (sent + n)))))"

text \<open>
  The whole gate; a result \<open>Inr None\<close> needs no lock. The first look at the context, before the path
  is prepared, is \<open>first\<close>; the directory is prepared under the system of round 0.
\<close>

definition acquireHostAuthPermit ::
  "permit_env \<Rightarrow> go_error option \<Rightarrow> bool \<Rightarrow> string list \<Rightarrow> provider_config \<Rightarrow> ((nat \<times> held list) option result \<times> nat) option" where
  "acquireHostAuthPermit e first sandboxed ambient c =
     (if \<not> sandboxed \<or> pc_auth_concurrency c = ''client-managed''
      then Some (case first of Some er \<Rightarrow> Inl er | None \<Rightarrow> Inr None, 0)
      else
        (case first of
           Some er \<Rightarrow> Some (Inl er, 0)
         | None \<Rightarrow>
             (case hostAuthLockPath (pm_os e 0) ambient c of
                Inl er \<Rightarrow> Some (Inl er, 0)
              | Inr path \<Rightarrow>
                  map_option (\<lambda>(r, n). (case r of Inl er \<Rightarrow> Inl er | Inr p \<Rightarrow> Inr (Some p), n))
                    (permit_loop e path 0 False 0))))"

section \<open>Termination\<close>

lemma announce_count: "snd (announce e waiting) \<le> (if waiting then 0 else 1)"
  by (simp add: announce_def split: option.split)

lemma permit_loop_ends:
  assumes "pm_ctx e n \<noteq> None" "\<forall>i. pm_ctx e i \<noteq> None \<longrightarrow> pm_ctx e (Suc i) \<noteq> None"
  shows "\<exists>r m. permit_loop e path k waiting sent = Some (r, m) \<and> m \<le> sent + (if waiting then 0 else 1)
    \<and> (\<forall>j rs. r = Inr (j, rs) \<longrightarrow> k \<le> j \<and> AcquireLock (pm_os e j) path (pm_held e j) = (Inr path, rs) \<and> pm_ctx e (3 * j + 1) = None)"
proof (induction "n - 3 * k" arbitrary: k waiting sent rule: less_induct)
  case less
  have late: "pm_ctx e i \<noteq> None" if "n \<le> i" for i
    using that assms by (induction i rule: nat_induct_at_least) auto
  obtain q rs where lock: "AcquireLock (pm_os e k) path (pm_held e k) = (q, rs)"
    by (cases "AcquireLock (pm_os e k) path (pm_held e k)")
  have held: "l = path" if "q = Inr l" for l
    using lock that by (auto simp: AcquireLock_def split: sum.splits if_splits option.splits)
  show ?case
  proof (cases "pm_ctx e (3 * k) = None \<and> (\<exists>er. q = Inl er \<and> errors_is er ErrLockBusy)
      \<and> fst (announce e waiting) = None \<and> pm_ctx e (3 * k + 2) = None")
    case True
    then have step: "permit_loop e path k waiting sent = permit_loop e path (Suc k) True (sent + snd (announce e waiting))"
      using lock by (subst permit_loop.simps) (auto split: prod.split)
    have "3 * k < n" using late [of "3 * k"] True by (meson not_le)
    then have "n - 3 * Suc k < n - 3 * k" by simp
    from less.hyps [OF this, of True "sent + snd (announce e waiting)"] obtain r m where
      ih: "permit_loop e path (Suc k) True (sent + snd (announce e waiting)) = Some (r, m)"
        "m \<le> sent + snd (announce e waiting)"
        "\<forall>j rs. r = Inr (j, rs) \<longrightarrow> Suc k \<le> j \<and> AcquireLock (pm_os e j) path (pm_held e j) = (Inr path, rs) \<and> pm_ctx e (3 * j + 1) = None"
      by auto
    then show ?thesis using step announce_count [of e waiting] by (intro exI [of _ r] exI [of _ m]) auto
  next
    case False
    then show ?thesis
      using lock held announce_count [of e waiting]
      by (subst permit_loop.simps) (auto split: option.split sum.split prod.split)
  qed
qed

lemma permit_loop_granted:
  assumes alive: "\<forall>i \<le> 3 * j + 1. pm_ctx e i = None" and free: "AcquireLock (pm_os e j) path (pm_held e j) = (Inr path, rs)"
    and busy: "\<forall>i er rs'. AcquireLock (pm_os e i) path (pm_held e i) = (Inl er, rs') \<longrightarrow> errors_is er ErrLockBusy"
    and emits: "\<forall>emit ty v. pm_emit e = Some emit \<longrightarrow> emit ty v = None"
  shows "k \<le> j \<Longrightarrow> \<exists>i rs' m. permit_loop e path k waiting sent = Some (Inr (i, rs'), m) \<and> i \<le> j"
proof (induction "j - k" arbitrary: k waiting sent rule: less_induct)
  case less
  obtain q rs' where lock: "AcquireLock (pm_os e k) path (pm_held e k) = (q, rs')"
    by (cases "AcquireLock (pm_os e k) path (pm_held e k)")
  have ctx: "pm_ctx e (3 * k) = None" "pm_ctx e (3 * k + 1) = None" using alive less.prems by simp_all
  show ?case
  proof (cases q)
    case (Inr l)
    then show ?thesis using lock ctx less.prems by (subst permit_loop.simps) simp
  next
    case (Inl er)
    then have "k \<noteq> j" using lock free by auto
    then have kj: "k < j" using less.prems by simp
    then have ctx2: "pm_ctx e (3 * k + 2) = None" using alive by simp
    have ann: "fst (announce e waiting) = None" using emits by (auto simp: announce_def split: option.split)
    have "permit_loop e path k waiting sent = permit_loop e path (Suc k) True (sent + snd (announce e waiting))"
      using lock ctx ctx2 Inl ann busy [rule_format, of k er rs'] by (subst permit_loop.simps) (auto split: prod.split)
    then show ?thesis using less.hyps [of "Suc k" True "sent + snd (announce e waiting)"] kj by simp
  qed
qed

lemma lock_path_private:
  assumes "hostAuthLockPath os ambient c = Inr path"
  shows "\<exists>dir. path = filepath_join [dir, ''host-auth-'' @ pc_provider c @ ''.lock''] \<and> private_dir (so_lstat os dir)"
proof -
  obtain env home dir where d: "state_dirs os home [''.local'', ''state'', ''openlinker-agent-node''] = Some dir"
    "path = filepath_join [dir, ''host-auth-'' @ pc_provider c @ ''.lock'']"
    using assms by (auto simp: hostAuthLockPath_def prepareHostAuthLockPath_def split: sum.splits if_splits option.splits)
  then have "state_dir_ok os dir ''openlinker-agent-node''" by (auto simp: Let_def split: if_splits)
  then show ?thesis
    using d(2) by (auto simp: state_dir_ok_def private_dir_def split: option.splits)
qed

section \<open>Properties\<close>

text \<open>
  C29: The wait for the host-auth permit ends. Once the context is done, and it stays done, the gate
  returns, after at most one waiting message; a permit means that the lock file, which lies in a
  directory private to Node, was locked by nobody else in the round it was taken and the context was
  still alive; and if the lock is free in some round before the context ends, every earlier failure
  was contention and events can be sent, the permit is granted by that round.
\<close>

theorem host_auth_permit_ends:
  assumes ctx: "pm_ctx e n \<noteq> None" "\<forall>i. pm_ctx e i \<noteq> None \<longrightarrow> pm_ctx e (Suc i) \<noteq> None"
    and path: "hostAuthLockPath (pm_os e 0) ambient c = Inr path" "pc_auth_concurrency c \<noteq> ''client-managed''"
  shows "\<exists>r m. acquireHostAuthPermit e None True ambient c = Some (r, m) \<and> m \<le> 1
    \<and> (\<exists>dir. path = filepath_join [dir, ''host-auth-'' @ pc_provider c @ ''.lock''] \<and> private_dir (so_lstat (pm_os e 0) dir))
    \<and> (\<forall>p. r = Inr p \<longrightarrow> (\<exists>j. p = Some (j, HeldLock path # pm_held e j) \<and> HeldLock path \<notin> set (pm_held e j) \<and> pm_ctx e (3 * j + 1) = None))
    \<and> (\<forall>j rs. (\<forall>i \<le> 3 * j + 1. pm_ctx e i = None) \<and> AcquireLock (pm_os e j) path (pm_held e j) = (Inr path, rs)
         \<and> (\<forall>i er rs'. AcquireLock (pm_os e i) path (pm_held e i) = (Inl er, rs') \<longrightarrow> errors_is er ErrLockBusy)
         \<and> (\<forall>emit ty v. pm_emit e = Some emit \<longrightarrow> emit ty v = None)
         \<longrightarrow> (\<exists>i rs'. r = Inr (Some (i, rs')) \<and> i \<le> j))"
proof -
  obtain r m where l: "permit_loop e path 0 False 0 = Some (r, m)" "m \<le> 1"
    "\<forall>j rs. r = Inr (j, rs) \<longrightarrow> AcquireLock (pm_os e j) path (pm_held e j) = (Inr path, rs) \<and> pm_ctx e (3 * j + 1) = None"
    using permit_loop_ends [OF ctx, of path 0 False 0] by auto
  let ?r = "case r of Inl er \<Rightarrow> Inl er | Inr p \<Rightarrow> Inr (Some p)"
  have a: "acquireHostAuthPermit e None True ambient c = Some (?r, m)"
    using path l(1) by (simp add: acquireHostAuthPermit_def)
  have taken: "rs = HeldLock path # pm_held e j \<and> HeldLock path \<notin> set (pm_held e j)"
    if "AcquireLock (pm_os e j) path (pm_held e j) = (Inr path, rs)" for j rs
    using that by (auto simp: AcquireLock_def split: sum.splits if_splits option.splits)
  have permit: "\<exists>j. p = Some (j, HeldLock path # pm_held e j) \<and> HeldLock path \<notin> set (pm_held e j) \<and> pm_ctx e (3 * j + 1) = None"
    if "?r = Inr p" for p
    using that l(3) taken by (cases r) auto
  have granted: "\<exists>i rs'. ?r = Inr (Some (i, rs')) \<and> i \<le> j"
    if "(\<forall>i \<le> 3 * j + 1. pm_ctx e i = None) \<and> AcquireLock (pm_os e j) path (pm_held e j) = (Inr path, rs)
         \<and> (\<forall>i er rs'. AcquireLock (pm_os e i) path (pm_held e i) = (Inl er, rs') \<longrightarrow> errors_is er ErrLockBusy)
         \<and> (\<forall>emit ty v. pm_emit e = Some emit \<longrightarrow> emit ty v = None)" for j rs
    using permit_loop_granted [of j e path rs 0 False 0] that l(1) by auto
  show ?thesis
    using a l(2) permit granted lock_path_private [OF path(1)] by (intro exI [of _ ?r] exI [of _ m]) blast
qed

section \<open>Witnesses\<close>

text \<open>A host whose HOME is \<open>/h\<close>, all directories private; another client holds the lock in the first round.\<close>

definition demo_auth_dir :: dir_info where
  "demo_auth_dir = \<lparr>di_dir = True, di_regular = False, di_perm = 448, di_sticky = False, di_owned = True\<rparr>"

definition demo_auth_os :: auth_os where
  "demo_auth_os = \<lparr>ho_goos = ''linux'', ho_goarch = ''amd64'', ho_euid = 1000, so_mkdir_all = (\<lambda>_. None), so_mkdir = (\<lambda>_. None),
     so_lstat = (\<lambda>_. Some demo_auth_dir), so_eval = Some,
     so_open_lock = (\<lambda>_. Inr (Some (demo_auth_dir\<lparr>di_regular := True\<rparr>))), so_flock = (\<lambda>_. None), so_unlock = (\<lambda>_. None),
     so_create_temp = (\<lambda>_. None), so_mkdir_temp = (\<lambda>_. None), so_write = (\<lambda>_. None), so_remove = (\<lambda>_. None),
     so_remove_all = (\<lambda>_. None), so_look_path = (\<lambda>_. None), so_read_file = (\<lambda>_. None), so_home = ''/h'', ao_root = (\<lambda>_. False)\<rparr>"

definition demo_lock :: string where
  "demo_lock = ''/h/.local/state/openlinker-agent-node/host-auth-codex.lock''"

definition demo_permit :: permit_env where
  "demo_permit =
     \<lparr>pm_ctx = (\<lambda>n. if n < 9 then None else Some ErrDeadlineExceeded), pm_os = (\<lambda>_. demo_auth_os),
      pm_held = (\<lambda>k. if k = 0 then [HeldLock demo_lock] else []), pm_emit = Some (\<lambda>_ _. None)\<rparr>"

definition demo_client :: provider_config where
  "demo_client = empty_provider\<lparr>pc_provider := ''codex'', pc_env := Some [''HOME=/h'']\<rparr>"

lemma demo_path: "hostAuthLockPath demo_auth_os [] demo_client = Inr demo_lock"
  by code_simp

theorem host_auth_permit_ends_witness:
  "acquireHostAuthPermit demo_permit None True [] demo_client = Some (Inr (Some (1, [HeldLock demo_lock])), 1)"
proof -
  have ctx: "pm_ctx demo_permit 9 \<noteq> None" "\<forall>i. pm_ctx demo_permit i \<noteq> None \<longrightarrow> pm_ctx demo_permit (Suc i) \<noteq> None"
    by (auto simp: demo_permit_def)
  have path: "hostAuthLockPath (pm_os demo_permit 0) [] demo_client = Inr demo_lock"
    using demo_path by (simp add: demo_permit_def)
  have c: "pc_auth_concurrency demo_client \<noteq> ''client-managed''" by (simp add: demo_client_def empty_provider_def)
  have lock: "AcquireLock demo_auth_os demo_lock rs = (if HeldLock demo_lock \<in> set rs then (Inl ErrLockBusy, rs) else (Inr demo_lock, HeldLock demo_lock # rs))" for rs
    by (simp add: AcquireLock_def demo_auth_os_def demo_auth_dir_def group_or_other_def)
  have loop: "permit_loop demo_permit demo_lock 0 False 0 = Some (Inr (1, [HeldLock demo_lock]), 1)"
    by (subst permit_loop.simps, subst permit_loop.simps) (simp add: demo_permit_def lock announce_def)
  show ?thesis
    using host_auth_permit_ends [OF ctx path c] path c loop by (simp add: acquireHostAuthPermit_def)
qed

end
