(* ===== verification/Native_Policy.thy ===== *)
theory Native_Policy
  imports Host_Auth
begin

text \<open>
  The boundary of the tools that an isolated native client runs: \<open>pkg/adapters/native_tool_policy.go\<close>
  (with \<open>Settings\<close> and \<open>BuiltinTools\<close> of \<open>claudepolicy/mcp.go\<close> and \<open>codexCommandEnvironment\<close> of
  \<open>codex.go\<close>). Which paths tools may read and write is decided on canonical paths; the answers of
  the file system are those of the \<open>sandbox_os\<close> record, the listing of the root directory and
  \<open>os.TempDir\<close> are arguments.
\<close>

section \<open>Tools\<close>

definition nativeClaudeTools :: "provider_config \<Rightarrow> string list" where
  "nativeClaudeTools c =
     (let tools = (if pc_allowed_tools c = [] then [''Bash''] else pc_allowed_tools c)
      in if pc_web_search c then appendUniqueString tools ''WebSearch'' else tools)"

section \<open>Paths\<close>

text \<open>The values of an environment, the last entry of a name winning; an entry without \<open>=\<close> names itself.\<close>

definition env_values :: "string list \<Rightarrow> env_map" where
  "env_values env = foldl (\<lambda>m entry. case str_cut CHR ''='' entry of (k, v, _) \<Rightarrow> obj_put k v m) [] env"

definition nativeHostPaths :: "string list \<Rightarrow> string list" where
  "nativeHostPaths env =
     (let m = env_values env; home = env_get m ''HOME''
      in [hostAuthStatePath home, filepath_join [home, ''.codex''], filepath_join [home, ''.claude''],
          filepath_join [home, ''.claude.json''], filepath_join [home, ''Library/Keychains''],
          filepath_join [home, ''.ssh''], filepath_join [home, ''.aws'']]
         @ filter (\<lambda>v. v \<noteq> []) (map (env_get m) [''CODEX_HOME'', ''CLAUDE_CONFIG_DIR'']))"

function prospective_from :: "(string \<Rightarrow> string option) \<Rightarrow> string \<Rightarrow> string \<Rightarrow> string" where
  "prospective_from eval p parent =
     (case eval parent of
        Some resolved \<Rightarrow> filepath_join [resolved, case filepath_rel parent p of None \<Rightarrow> [] | Some r \<Rightarrow> r]
      | None \<Rightarrow> if filepath_dir parent = parent then filepath_clean p else prospective_from eval p (filepath_dir parent))"
  by pat_completeness auto
termination
  by (relation "measure (\<lambda>(_, _, parent). depth parent)") (simp_all add: depth_dir)

declare prospective_from.simps [simp del]

definition canonicalProspectivePath :: "(string \<Rightarrow> string option) \<Rightarrow> string \<Rightarrow> string" where
  "canonicalProspectivePath eval p = prospective_from eval p (filepath_clean p)"

definition rel_contains :: "string \<Rightarrow> string \<Rightarrow> bool" where
  "rel_contains a b =
     (case filepath_rel a b of None \<Rightarrow> False | Some r \<Rightarrow> r \<noteq> ''..'' \<and> \<not> has_prefix r (''..'' @ [slash]))"

definition pathsOverlap :: "string \<Rightarrow> string \<Rightarrow> bool" where
  "pathsOverlap a b = (rel_contains a b \<or> rel_contains b a)"

section \<open>The directories of the root\<close>

definition nativeLinuxReadDenies :: "(string \<Rightarrow> string option) \<Rightarrow> string list option \<Rightarrow> string list result" where
  "nativeLinuxReadDenies eval entries =
     (case entries of
        None \<Rightarrow> Inl (ErrNew ''cannot enumerate native tool filesystem boundary'')
      | Some names \<Rightarrow>
          if 1024 < length names then Inl (ErrNew ''cannot enumerate native tool filesystem boundary'')
          else
            (let paths = foldl (\<lambda>ps n. appendUniqueString ps (canonicalProspectivePath eval (''/'' @ n))) []
                           (filter (\<lambda>n. n \<notin> {''proc'', ''dev'', ''sys''}) names)
             in Inr (filter (\<lambda>p. \<not> list_ex (\<lambda>parent. p \<noteq> parent \<and> has_prefix p (parent @ ''/'')) paths) paths)))"

section \<open>Readable and writable paths\<close>

definition system_reads :: "string list" where
  "system_reads =
     [''/bin'', ''/sbin'', ''/usr/bin'', ''/usr/sbin'', ''/usr/lib'', ''/usr/libexec'', ''/lib'', ''/lib64'', ''/etc/ssl/certs'',
      ''/etc/ssl/openssl.cnf'', ''/etc/hosts'', ''/etc/resolv.conf'', ''/etc/nsswitch.conf'', ''/etc/ld.so.cache'', ''/etc/localtime'',
      ''/dev/null'', ''/dev/urandom'', ''/dev/random'']"

definition platform_reads :: "('a) sandbox_os_scheme \<Rightarrow> provider_config \<Rightarrow> string list" where
  "platform_reads os c =
     (if ho_goos os = ''darwin''
      then [''/System/Library'', ''/usr/share/icu'', ''/private/var/select/sh'', ''/private/etc/ssl/cert.pem'']
      else
        [''/usr/share/nodejs'', ''/usr/share/icu'']
        @ (if pc_provider c = ''claude''
           then (case Option.bind (so_look_path os (if pc_bin c = [] then ''claude'' else pc_bin c)) (so_eval os) of
                   Some resolved \<Rightarrow> [resolved] | None \<Rightarrow> [])
           else []))"

definition protected_paths :: "provider_config \<Rightarrow> string list" where
  "protected_paths c =
     nativeHostPaths (case pc_env c of None \<Rightarrow> [] | Some env \<Rightarrow> env) @ [sc_root (pc_isolation c), sc_temp_root (pc_isolation c)]"

text \<open>The paths an operator adds must exist and stay clear of everything protected.\<close>

fun operator_reads :: "(string \<Rightarrow> string option) \<Rightarrow> string list \<Rightarrow> string list \<Rightarrow> string list result" where
  "operator_reads eval protected [] = Inr []"
| "operator_reads eval protected (p # ps) =
     (case eval p of
        None \<Rightarrow> Inl (ErrNew ''SESSION_READ_PATHS must exist'')
      | Some r \<Rightarrow>
          if list_ex (\<lambda>blocked. blocked \<noteq> [] \<and> pathsOverlap r (canonicalProspectivePath eval blocked)) protected
          then Inl (ErrNew ''SESSION_READ_PATHS cannot expose authentication or session/control directories'')
          else (case operator_reads eval protected ps of Inl er \<Rightarrow> Inl er | Inr rs \<Rightarrow> Inr (r # rs)))"

definition resolve_unique :: "(string \<Rightarrow> string option) \<Rightarrow> string list \<Rightarrow> string list" where
  "resolve_unique eval ps =
     foldl (\<lambda>acc p. case eval p of Some r \<Rightarrow> appendUniqueString acc r | None \<Rightarrow> acc) [] ps"

definition codex_minimal :: "('a) sandbox_os_scheme \<Rightarrow> provider_config \<Rightarrow> string list" where
  "codex_minimal os c =
     (if pc_provider c = ''codex'' \<and> ho_goos os = ''linux''
      then [''/usr'', ''/etc'', ''/nix/store'', ''/run/current-system/sw''] else [])"

definition exposes_protected :: "(string \<Rightarrow> string option) \<Rightarrow> string list \<Rightarrow> string list \<Rightarrow> bool" where
  "exposes_protected eval protected roots =
     list_ex (\<lambda>blocked. blocked \<noteq> [] \<and>
       list_ex (\<lambda>root. let b = canonicalProspectivePath eval blocked; g = canonicalProspectivePath eval root
                       in b = g \<or> has_prefix b (g @ ''/'')) roots) protected"

definition session_writes :: "session \<Rightarrow> string list" where
  "session_writes s = [session_workspace s, session_tool_home s, sn_temp s]"

definition writes_reach_state :: "(string \<Rightarrow> string option) \<Rightarrow> string list \<Rightarrow> string list \<Rightarrow> bool" where
  "writes_reach_state eval env writes =
     list_ex (\<lambda>entry. case cut_prefix entry ''HOME='' of
                        None \<Rightarrow> False
                      | Some home \<Rightarrow>
                          list_ex (\<lambda>w. pathsOverlap (canonicalProspectivePath eval w)
                                         (canonicalProspectivePath eval (hostAuthStatePath home))) writes) env"

text \<open>The readable roots, or why there is no policy.\<close>

definition policy_reads :: "('a) sandbox_os_scheme \<Rightarrow> provider_config \<Rightarrow> session \<Rightarrow> string list result" where
  "policy_reads os c s =
     (let eval = so_eval os; protected = protected_paths c; env = (case pc_env c of None \<Rightarrow> [] | Some e \<Rightarrow> e)
      in if pc_provider c = ''claude'' \<and> contains_any (session_workspace s) ''(),''
         then Inl (ErrNew ''Claude SESSION_ROOT must not contain permission-rule delimiters'')
         else
           (case operator_reads eval protected (sc_read_paths (pc_isolation c)) of
              Inl er \<Rightarrow> Inl er
            | Inr extra \<Rightarrow>
                (let read = resolve_unique eval (system_reads @ platform_reads os c @ extra)
                 in if exposes_protected eval protected (read @ codex_minimal os c)
                    then Inl (ErrNew ''authentication and session roots must be outside readable system/code paths'')
                    else if writes_reach_state eval env (session_writes s)
                    then Inl (ErrNew ''session writable paths cannot overlap host-auth coordination state'')
                    else Inr read)))"

section \<open>The policy handed to the clients\<close>

definition dq :: "string \<Rightarrow> string" where
  "dq s = CHR 0x22 # s @ [CHR 0x22]"

definition safe_keys :: "string list" where
  "safe_keys =
     [''PATH'', ''Path'', ''PATHEXT'', ''HOME'', ''USERPROFILE'', ''HOMEDRIVE'', ''HOMEPATH'', ''SYSTEMROOT'', ''SystemRoot'',
      ''WINDIR'', ''COMSPEC'', ''TMPDIR'', ''TEMP'', ''TMP'', ''LANG'', ''HTTP_PROXY'', ''HTTPS_PROXY'', ''http_proxy'',
      ''https_proxy'', ''NO_PROXY'', ''no_proxy'', ''SSL_CERT_FILE'']"

definition found_values :: "string list \<Rightarrow> env_map" where
  "found_values env =
     foldl (\<lambda>m item. case str_cut CHR ''='' item of (k, v, ok) \<Rightarrow> if ok then obj_put k v m else m) [] env"

definition codexCommandEnvironment :: "string list \<Rightarrow> string" where
  "codexCommandEnvironment env =
     (let m = found_values env;
          pairs = concat (map (\<lambda>k. case map_of m k of None \<Rightarrow> [] | Some v \<Rightarrow> [k @ ''='' @ json_quote v]) safe_keys)
      in CHR 0x7B # str_join '','' pairs @ [CHR 0x7D])"

text \<open>\<open>filesystem\<close> and its textual form \<open>fs\<close>: what Codex may read, then what it may write.\<close>

fun grant_reads :: "(string \<Rightarrow> string option) \<Rightarrow> string list \<Rightarrow> env_map \<times> string list \<Rightarrow> env_map \<times> string list" where
  "grant_reads eval [] acc = acc"
| "grant_reads eval (p # ps) (m, fs) =
     (case eval p of
        None \<Rightarrow> grant_reads eval ps (m, fs)
      | Some r \<Rightarrow>
          if env_get m r \<noteq> [] then grant_reads eval ps (m, fs)
          else grant_reads eval ps (obj_put r ''read'' m, fs @ [json_quote r @ ''='' @ dq ''read'']))"

fun grant_writes :: "string list \<Rightarrow> env_map \<times> string list \<Rightarrow> env_map \<times> string list" where
  "grant_writes [] acc = acc"
| "grant_writes (p # ps) (m, fs) = grant_writes ps (obj_put p ''write'' m, fs @ [json_quote p @ ''='' @ dq ''write''])"

definition codex_filesystem :: "(string \<Rightarrow> string option) \<Rightarrow> string list \<Rightarrow> string list \<Rightarrow> env_map \<times> string list" where
  "codex_filesystem eval read writes =
     grant_writes writes (grant_reads eval read ([('':minimal'', ''read'')], [dq '':minimal'' @ ''='' @ dq ''read'']))"

definition codex_network :: "string list \<Rightarrow> string" where
  "codex_network domains =
     (if domains = [] then ''enabled=false''
      else ''enabled=true,mode='' @ dq ''limited'' @ '',allow_local_binding=false,allow_upstream_proxy=false,enable_socks5=false,'' @
           ''enable_socks5_udp=false,dangerously_allow_all_unix_sockets=false,dangerously_allow_non_loopback_proxy=false,domains='' @
           CHR 0x7B # str_join '','' (map (\<lambda>d. json_quote (trim_suffix d '':443'') @ ''='' @ dq ''allow'') domains) @ [CHR 0x7D])"

definition codex_tool_env :: "session \<Rightarrow> string list \<Rightarrow> string list" where
  "codex_tool_env s env =
     [''HOME='' @ session_tool_home s, ''TMPDIR='' @ sn_temp s, ''TMP='' @ sn_temp s, ''TEMP='' @ sn_temp s, ''LANG=C'']
     @ filter (\<lambda>item. has_prefix item ''PATH='') env"

definition disabled_features :: "string list" where
  "disabled_features =
     [''view_image'', ''multi_agent'', ''multi_agent_v2'', ''memories'', ''browser_use'', ''computer_use'', ''in_app_browser'',
      ''shell_snapshot'', ''shell_snapshot_v2'', ''shell_zsh_fork'', ''external_agent_memory_import'', ''in_app_local_automation'', ''goals'']"

definition codex_policy_args :: "session \<Rightarrow> string list \<Rightarrow> string list \<Rightarrow> string list \<Rightarrow> string list" where
  "codex_policy_args s env fs domains =
     [''-c'', ''default_permissions='' @ dq ''openlinker_session'',
      ''-c'', ''permissions='' @ CHR 0x7B # ''openlinker_session='' @ CHR 0x7B # ''filesystem='' @ CHR 0x7B # str_join '','' fs @
        CHR 0x7D # '',network='' @ CHR 0x7B # codex_network domains @ [CHR 0x7D, CHR 0x7D, CHR 0x7D],
      ''-c'', ''approval_policy='' @ dq ''never'', ''-c'', ''shell_environment_policy.inherit='' @ dq ''none'',
      ''-c'', ''shell_environment_policy.set='' @ codexCommandEnvironment (codex_tool_env s env),
      ''-c'', ''project_doc_max_bytes=0'', ''-c'', ''mcp_servers='' @ [CHR 0x7B, CHR 0x7D], ''-c'', ''developer_instructions='' @ dq [],
      ''-c'', ''notify='' @ [CHR 0x5B, CHR 0x5D] ]
     @ concat (map (\<lambda>f. [''--disable'', f]) disabled_features)
     @ [if domains = [] then ''--disable'' else ''--enable'', ''network_proxy'']"

definition denied_reads ::
  "('a) sandbox_os_scheme \<Rightarrow> string list option \<Rightarrow> string \<Rightarrow> string list \<Rightarrow> string list result" where
  "denied_reads os entries tmp env =
     (case (if ho_goos os = ''linux'' then nativeLinuxReadDenies (so_eval os) entries
            else Inr [''/'', ''/tmp'', ''/private/tmp'', tmp]) of
        Inl er \<Rightarrow> Inl er
      | Inr roots \<Rightarrow>
          (let denied = roots @ nativeHostPaths env @
                 concat (map (\<lambda>item. if has_prefix item ''HOME='' then [trim_prefix item ''HOME=''] else []) env)
           in Inr (foldl (\<lambda>acc p. case so_eval os p of Some r \<Rightarrow> appendUniqueString acc r | None \<Rightarrow> acc) denied denied)))"

definition denied_networks :: "string list" where
  "denied_networks =
     [''0.0.0.0/8'', ''127.0.0.0/8'', ''169.254.0.0/16'', ''::/128'', ''::1/128'', ''fe80::/10'', ''10.0.0.0/8'', ''172.16.0.0/12'',
      ''192.168.0.0/16'', ''100.64.0.0/10'', ''fc00::/7'', ''224.0.0.0/4'', ''ff00::/8'']"

text \<open>\<open>claudepolicy.Settings\<close>.\<close>

definition claude_base_settings :: "(string \<times> json) list" where
  "claude_base_settings =
     [(''disableAllHooks'', JBool True), (''autoMemoryEnabled'', JBool False), (''claudeMdExcludes'', json_strs [''/**''])]"

definition claude_settings :: "string list \<Rightarrow> string list \<Rightarrow> string list \<Rightarrow> string list \<Rightarrow> string list \<Rightarrow> json" where
  "claude_settings denied reads writes hosts domains =
     JObj (obj_of (
       [(''permissions'', JObj (obj_of [(''defaultMode'', JStr ''default''), (''blockReadsOutsideWorkingDirectories'', JBool True),
           (''disableBypassPermissionsMode'', JStr ''disable'')])),
        (''sandbox'', JObj (obj_of
          [(''enabled'', JBool True), (''failIfUnavailable'', JBool True), (''allowUnsandboxedCommands'', JBool False),
           (''autoAllowBashIfSandboxed'', JBool True), (''excludedCommands'', json_strs []), (''enableWeakerNestedSandbox'', JBool False),
           (''credentials'', JObj [(''envVars'', JArr (map (\<lambda>n. JObj [(''mode'', JStr ''deny''), (''name'', JStr n)])
               [''ANTHROPIC_API_KEY'', ''ANTHROPIC_AUTH_TOKEN'']))]),
           (''filesystem'', JObj (obj_of [(''disabled'', JBool False), (''denyRead'', json_strs denied), (''allowRead'', json_strs reads),
               (''allowWrite'', json_strs writes), (''denyWrite'', json_strs hosts)])),
           (''network'', JObj (obj_of [(''strictAllowlist'', JBool True), (''allowedDomains'', json_strs domains),
               (''allowLocalBinding'', JBool False), (''allowAllUnixSockets'', JBool False), (''allowUnixSockets'', json_strs []),
               (''deniedResolvedAddresses'', json_strs denied_networks)]))]))]
       @ claude_base_settings))"

record native_tool_policy =
  np_codex :: "string list"
  np_filesystem :: env_map
  np_claude :: json
  np_roots :: "string list"

definition newNativeToolPolicy ::
  "('a) sandbox_os_scheme \<Rightarrow> string list option \<Rightarrow> string \<Rightarrow> provider_config \<Rightarrow> session \<Rightarrow> native_tool_policy result" where
  "newNativeToolPolicy os entries tmp c s =
     (let env = (case pc_env c of None \<Rightarrow> [] | Some e \<Rightarrow> e); domains = sc_domains (pc_isolation c); writes = session_writes s
      in case policy_reads os c s of
           Inl er \<Rightarrow> Inl er
         | Inr read \<Rightarrow>
             (case denied_reads os entries tmp env of
                Inl er \<Rightarrow> Inl er
              | Inr denied \<Rightarrow>
                  (let (filesystem, fs) = codex_filesystem (so_eval os) read writes; granted = read @ writes
                   in Inr \<lparr>np_codex = codex_policy_args s env fs domains, np_filesystem = filesystem,
                           np_claude = claude_settings denied granted writes (nativeHostPaths env) domains,
                           np_roots = granted @ codex_minimal os c\<rparr>)))"

text \<open>The environment a client is started with; \<open>user\<close> is the effective user name.\<close>

definition WithIdentity :: "string \<Rightarrow> string list \<Rightarrow> string list" where
  "WithIdentity user env =
     filter (\<lambda>item. \<not> has_prefix item ''USER='' \<and> \<not> has_prefix item ''LOGNAME='') env
     @ (if user = [] then [] else [''USER='' @ user, ''LOGNAME='' @ user])"

definition native_host_env ::
  "('a) sandbox_os_scheme \<Rightarrow> string \<Rightarrow> provider_config \<Rightarrow> session \<Rightarrow> string list" where
  "native_host_env os user c s =
     WithIdentity user
       ((case pc_env c of None \<Rightarrow> [] | Some e \<Rightarrow> e) @ [''TMPDIR='' @ sn_temp s, ''TMP='' @ sn_temp s, ''TEMP='' @ sn_temp s]
        @ (if pc_provider c = ''claude''
           then [''CLAUDE_CODE_TMPDIR='' @ sn_temp s,
                 ''CLAUDE_CODE_SUBPROCESS_ENV_SCRUB='' @ (if ho_goos os = ''linux'' then ''0'' else ''1''),
                 ''CLAUDE_CODE_DISABLE_NONESSENTIAL_TRAFFIC=1'', ''CLAUDE_CODE_PROJECT_DIR_NAME=openlinker-'' @ Scope [pc_store c]]
           else []))"

section \<open>Containment on components\<close>

lemma rel_clean: "filepath_rel a (filepath_clean b) = filepath_rel a b"
  by (simp add: filepath_rel_def)

lemma prospective_canonical: "prospective_from eval p d = canonicalize_from eval (filepath_clean p) d"
proof (induction eval p d rule: prospective_from.induct)
  case (1 eval p d)
  then show ?case
    by (subst prospective_from.simps, subst canonicalize_from.simps) (auto simp: rel_clean split: option.split)
qed

lemma canonicalProspective_location:
  assumes "is_abs p" and "\<And>d q. eval d = Some q \<Longrightarrow> is_abs q"
  shows "path_comps (canonicalProspectivePath eval p) = real_location eval (path_comps p)"
    and "is_abs (canonicalProspectivePath eval p)"
    and "filepath_clean (canonicalProspectivePath eval p) = canonicalProspectivePath eval p"
  using canonicalExisting_location [OF assms]
  by (simp_all add: canonicalProspectivePath_def prospective_canonical canonicalExisting_def)

lemma join_plain_up: "list_all plain_comp ts \<Longrightarrow> ts \<noteq> [] \<Longrightarrow> str_join [slash] ts \<noteq> ''..'' \<and> \<not> has_prefix (str_join [slash] ts) (''..'' @ [slash])"
proof (cases ts)
  case (Cons t us)
  assume plain: "list_all plain_comp ts"
  then have t: "t \<noteq> ''..''" "slash \<notin> set t" using Cons by (simp_all add: plain_comp_def)
  have cut: "str_split slash (str_join [slash] ts) = ts"
    using plain Cons by (intro str_split_join) (auto simp: list_all_iff plain_comp_def)
  have dots: "str_split slash ''..'' = [''..'']" by (simp add: slash_def)
  have "hd (str_split slash (''..'' @ slash # u)) = ''..''" for u
    using split_append_slash [of "''..''" u] dots by simp
  moreover have "str_join [slash] ts = ''..'' @ slash # u" if "str_join [slash] ts = (''..'' @ [slash]) @ u" for u using that by simp
  ultimately have "\<not> has_prefix (str_join [slash] ts) (''..'' @ [slash])"
    using cut t(1) Cons by (metis has_prefix_iff list.sel(1))
  moreover have "str_join [slash] ts \<noteq> ''..''" using cut dots t(1) Cons by auto
  ultimately show ?thesis by simp
qed simp

lemma contains_prefix:
  assumes "is_abs a" "is_abs b" "prefix (path_comps a) (path_comps b)"
  shows "rel_contains a b"
proof -
  obtain ts where ts: "path_comps b = path_comps a @ ts" using assms(3) by (auto simp: prefix_def)
  have plain: "list_all plain_comp ts" using path_comps_rooted [OF assms(2)] ts by simp
  have "filepath_rel a b = Some (if ts = [] then ''.'' else str_join [slash] ts)"
    using assms(1,2) ts strip_prefix [of "path_comps a" ts] by (auto simp: filepath_rel_def filepath_clean_eq_iff)
  then show ?thesis using join_plain_up [OF plain] by (auto simp: rel_contains_def)
qed

lemma overlap_prefix:
  assumes "is_abs a" "is_abs b" "\<not> pathsOverlap a b"
  shows "\<not> prefix (path_comps a) (path_comps b) \<and> \<not> prefix (path_comps b) (path_comps a)"
  using assms contains_prefix by (auto simp: pathsOverlap_def)

lemma str_join_append:
  "xs \<noteq> [] \<Longrightarrow> ys \<noteq> [] \<Longrightarrow> str_join sep (xs @ ys) = str_join sep xs @ sep @ str_join sep ys"
  by (induction xs rule: induct_list012) (auto simp: str_join_Cons)

lemma below_text:
  assumes "is_abs g" "filepath_clean g = g" "is_abs b" "filepath_clean b = b"
    and "path_comps g \<noteq> []" "prefix (path_comps g) (path_comps b)"
  shows "b = g \<or> has_prefix b (g @ ''/'')"
proof -
  obtain ts where ts: "path_comps b = path_comps g @ ts" using assms(6) by (auto simp: prefix_def)
  have g: "g = path_text True (path_comps g)" using assms(1,2) by (simp add: filepath_clean_def)
  have b: "b = path_text True (path_comps g @ ts)" using assms(3,4) ts by (simp add: filepath_clean_def)
  show ?thesis
  proof (cases "ts = []")
    case True
    then show ?thesis using g b by simp
  next
    case False
    then have "b = g @ slash # str_join [slash] ts"
      using assms(5) g b by (simp add: path_text_def str_join_append)
    then show ?thesis by (simp add: has_prefix_iff slash_def)
  qed
qed

section \<open>What the policy grants\<close>

lemma operator_reads_clear:
  assumes "operator_reads eval protected ps = Inr rs"
  shows "map eval ps = map Some rs \<and> (\<forall>r \<in> set rs. \<forall>b \<in> set protected. b \<noteq> [] \<longrightarrow> \<not> pathsOverlap r (canonicalProspectivePath eval b))"
  using assms
  by (induction ps arbitrary: rs) (auto simp: list_ex_iff split: option.splits if_splits sum.splits)

lemma append_unique_set: "set (appendUniqueString xs x) = insert x (set xs)"
  by (auto simp: appendUniqueString_def)

lemma foldl_unique_set:
  "set (foldl (\<lambda>acc p. case eval p of Some r \<Rightarrow> appendUniqueString acc r | None \<Rightarrow> acc) acc ps) =
   set acc \<union> {r. \<exists>p \<in> set ps. eval p = Some r}"
  by (induction ps arbitrary: acc) (auto simp: append_unique_set split: option.split)

lemma resolve_unique_set: "set (resolve_unique eval ps) = {r. \<exists>p \<in> set ps. eval p = Some r}"
  by (simp add: resolve_unique_def foldl_unique_set)

lemma policy_reads_Inr:
  assumes "policy_reads os c s = Inr read"
  obtains extra where "operator_reads (so_eval os) (protected_paths c) (sc_read_paths (pc_isolation c)) = Inr extra"
    "read = resolve_unique (so_eval os) (system_reads @ platform_reads os c @ extra)"
    "\<not> exposes_protected (so_eval os) (protected_paths c) (read @ codex_minimal os c)"
    "\<not> writes_reach_state (so_eval os) (case pc_env c of None \<Rightarrow> [] | Some e \<Rightarrow> e) (session_writes s)"
  using assms by (auto simp: policy_reads_def Let_def split: if_splits sum.splits)

lemma newNativeToolPolicy_Inr:
  assumes "newNativeToolPolicy os entries tmp c s = Inr pol"
  obtains read denied where "policy_reads os c s = Inr read"
    "denied_reads os entries tmp (case pc_env c of None \<Rightarrow> [] | Some e \<Rightarrow> e) = Inr denied"
    "np_roots pol = (read @ session_writes s) @ codex_minimal os c"
    "np_filesystem pol = fst (codex_filesystem (so_eval os) read (session_writes s))"
    "np_claude pol = claude_settings denied (read @ session_writes s) (session_writes s)
       (nativeHostPaths (case pc_env c of None \<Rightarrow> [] | Some e \<Rightarrow> e)) (sc_domains (pc_isolation c))"
  using assms that
  by (auto simp: newNativeToolPolicy_def Let_def split: sum.splits prod.splits)

lemma not_exposed:
  assumes "\<not> exposes_protected eval protected roots" "b \<in> set protected" "is_abs b" "g \<in> set roots" "is_abs g"
    and "\<And>d q. eval d = Some q \<Longrightarrow> is_abs q" "real_location eval (path_comps g) \<noteq> []"
  shows "\<not> prefix (real_location eval (path_comps g)) (real_location eval (path_comps b))"
proof
  assume pre: "prefix (real_location eval (path_comps g)) (real_location eval (path_comps b))"
  note lg = canonicalProspective_location [OF assms(5,6), of eval] and lb = canonicalProspective_location [OF assms(3,6), of eval]
  have "canonicalProspectivePath eval b = canonicalProspectivePath eval g
      \<or> has_prefix (canonicalProspectivePath eval b) (canonicalProspectivePath eval g @ ''/'')"
    by (rule below_text) (use lg lb pre assms(7) in simp_all)
  moreover have "b \<noteq> []" using assms(3) by (auto simp: is_abs_def)
  ultimately show False using assms(1,2,4) by (auto simp: exposes_protected_def list_ex_iff Let_def)
qed

lemma grant_reads_values:
  "grant_reads eval ps (m, fs) = (m', fs') \<Longrightarrow> map_of m' x = Some v \<Longrightarrow> map_of m x = Some v \<or> v = ''read''"
proof (induction eval ps "(m, fs)" arbitrary: m fs rule: grant_reads.induct)
  case (2 eval p ps m fs)
  then show ?case by (auto split: option.splits if_splits)
qed simp

lemma grant_writes_values:
  "grant_writes ps (m, fs) = (m', fs') \<Longrightarrow> map_of m' x = Some v \<Longrightarrow> map_of m x = Some v \<or> (v = ''write'' \<and> x \<in> set ps)"
proof (induction ps "(m, fs)" arbitrary: m fs rule: grant_writes.induct)
  case (2 p ps m fs)
  then show ?case by (auto split: if_splits)
qed simp

lemma filesystem_writes:
  assumes "map_of (fst (codex_filesystem eval read writes)) x = Some ''write''"
  shows "x \<in> set writes"
proof -
  obtain m fs where r: "grant_reads eval read ([('':minimal'', ''read'')], [dq '':minimal'' @ ''='' @ dq ''read'']) = (m, fs)"
    by (cases "grant_reads eval read ([('':minimal'', ''read'')], [dq '':minimal'' @ ''='' @ dq ''read''])")
  obtain m' fs' where w: "grant_writes writes (m, fs) = (m', fs')" by (cases "grant_writes writes (m, fs)")
  have "map_of m' x = Some ''write''" using assms r w by (simp add: codex_filesystem_def)
  then show ?thesis
    using grant_writes_values [OF w, of x "''write''"] grant_reads_values [OF r, of x "''write''"] by (auto split: if_splits)
qed

lemma denied_home:
  assumes "denied_reads os entries tmp env = Inr denied"
  shows "(\<forall>h. ''HOME='' @ h \<in> set env \<longrightarrow> h \<in> set denied) \<and> set (nativeHostPaths env) \<subseteq> set denied"
proof -
  obtain roots where "denied = foldl (\<lambda>acc p. case so_eval os p of Some r \<Rightarrow> appendUniqueString acc r | None \<Rightarrow> acc)
      (roots @ nativeHostPaths env @ concat (map (\<lambda>item. if has_prefix item ''HOME='' then [trim_prefix item ''HOME=''] else []) env))
      (roots @ nativeHostPaths env @ concat (map (\<lambda>item. if has_prefix item ''HOME='' then [trim_prefix item ''HOME=''] else []) env))"
    using assms by (auto simp: denied_reads_def Let_def split: sum.splits)
  then have sup: "set (nativeHostPaths env) \<union> set (concat (map (\<lambda>item. if has_prefix item ''HOME='' then [trim_prefix item ''HOME=''] else []) env)) \<subseteq> set denied"
    by (auto simp: foldl_unique_set)
  have "h \<in> set denied" if "''HOME='' @ h \<in> set env" for h
  proof -
    have "has_prefix (''HOME='' @ h) ''HOME=''" "trim_prefix (''HOME='' @ h) ''HOME='' = h" by (simp_all add: trim_prefix_def)
    then have "h \<in> set (concat (map (\<lambda>item. if has_prefix item ''HOME='' then [trim_prefix item ''HOME=''] else []) env))"
      using that by force
    then show ?thesis using sup by blast
  qed
  then show ?thesis using sup by blast
qed

section \<open>Properties\<close>


section \<open>Witnesses\<close>

text \<open>A Linux host on which only the operator's path exists.\<close>

definition demo_policy_os :: auth_os where
  "demo_policy_os = demo_auth_os\<lparr>so_eval := \<lambda>p. if p = ''/opt/x'' then Some p else None\<rparr>"

definition demo_policy_config :: provider_config where
  "demo_policy_config =
     empty_provider\<lparr>pc_provider := ''codex'', pc_env := Some [''HOME=/h''],
       pc_isolation := empty_sandbox\<lparr>sc_root := ''/s'', sc_read_paths := [''/opt/x'']\<rparr>\<rparr>"

definition demo_policy_session :: session where
  "demo_policy_session =
     \<lparr>sn_config = empty_sandbox, sn_control = ''/s/k'', sn_data = ''/s/k/data'', sn_policy = [], sn_bin = [], sn_temp = ''/t'', sn_locked = True\<rparr>"


end
