(* ===== verification/Node_Adapters.thy ===== *)
theory Node_Adapters
  imports Provider_Output Helper_Server Session_Store Node_Config
begin

text \<open>
  The adapters of the Agent Node that hand a Run to something outside it, and what the Node makes
  of their answers: \<open>envelope.go\<close>, \<open>adapter_command.go\<close>, \<open>adapter_http.go\<close>,
  \<open>adapter_result.go\<close>, \<open>types.go\<close> and the JSON helpers of \<open>util.go\<close>, all under
  \<open>internal/agentnode\<close>. A value of type \<open>any\<close> that came from JSON is a \<open>json\<close>; the nil
  interface is \<open>JNull\<close>. How \<open>fmt\<close> prints a \<open>float64\<close> is the parameter \<open>flt\<close>.
\<close>

section \<open>Printing\<close>

fun fmt_sprint :: "(string \<Rightarrow> string) \<Rightarrow> json \<Rightarrow> string" where
  "fmt_sprint flt JNull = ''<nil>''"
| "fmt_sprint flt (JBool b) = (if b then ''true'' else ''false'')"
| "fmt_sprint flt (JNum n) = flt n"
| "fmt_sprint flt (JStr s) = s"
| "fmt_sprint flt (JArr vs) = CHR 0x5B # str_join '' '' (map (fmt_sprint flt) vs) @ [CHR 0x5D]"
| "fmt_sprint flt (JObj kvs) =
     ''map'' @ CHR 0x5B # str_join '' '' (map (\<lambda>(k, v). k @ '':'' @ fmt_sprint flt v) kvs) @ [CHR 0x5D]"

text \<open>\<open>time.Duration.String\<close> for a non-negative number of nanoseconds.\<close>

fun pad_digits :: "nat \<Rightarrow> nat \<Rightarrow> string" where
  "pad_digits 0 v = []"
| "pad_digits (Suc p) v = pad_digits p (v div 10) @ [digit_char (v mod 10)]"

definition frac_text :: "nat \<Rightarrow> nat \<Rightarrow> string" where
  "frac_text prec v =
     (let ds = rev (dropWhile (\<lambda>c. c = CHR ''0'') (rev (pad_digits prec (v mod 10 ^ prec))))
      in if ds = [] then [] else CHR ''.'' # ds)"

definition duration_text :: "nat \<Rightarrow> string" where
  "duration_text d =
     (if d = 0 then ''0s''
      else if d < 10 ^ 3 then itoa_nat d @ ''ns''
      else if d < 10 ^ 6 then itoa_nat (d div 10 ^ 3) @ frac_text 3 d @ [CHR 0xC2, CHR 0xB5] @ ''s''
      else if d < 10 ^ 9 then itoa_nat (d div 10 ^ 6) @ frac_text 6 d @ ''ms''
      else
        (let s = d div 10 ^ 9; m = s div 60; h = m div 60
         in (if 0 < h then itoa_nat h @ ''h'' else [])
            @ (if 0 < m then itoa_nat (m mod 60) @ ''m'' else [])
            @ itoa_nat (s mod 60) @ frac_text 9 d @ ''s''))"

section \<open>Data\<close>

record run_event =
  ev_type :: string
  ev_payload :: json

record agent_error =
  ae_code :: string
  ae_message :: string

record adapter_result =
  ar_status :: string
  ar_output :: json
  ar_events :: "run_event list"
  ar_error :: "agent_error option"

text \<open>
  What an adapter returns as \<open>any\<close>: a result or a pointer to one, a value that JSON decoding
  produced, or a \<open>JSONMap\<close>, whose dynamic type is not \<open>map[string]any\<close>.
\<close>

datatype adapter_value =
    Plain adapter_result
  | Pointer "adapter_result option"
  | Decoded json
  | JSONMap "(string \<times> json) list"

fun value_json :: "adapter_value \<Rightarrow> json" where
  "value_json (Decoded v) = v"
| "value_json (JSONMap kvs) = JObj kvs"
| "value_json (Plain r) = ar_output r"
| "value_json (Pointer r) = (case r of Some x \<Rightarrow> ar_output x | None \<Rightarrow> JNull)"

type_synonym core_conversation = conversation

record node_run =
  rn_mcp :: json
  rn_packages :: json
  rn_run :: string
  rn_agent :: string
  rn_principal :: "string option"
  rn_input :: json
  rn_metadata :: "(string \<times> json) list"
  rn_source :: string
  rn_a2a :: json_map
  rn_conversation :: "core_conversation option"
  rn_helper :: "helper_info option"
  rn_reads_delegated :: bool

section \<open>JSON helpers\<close>

definition jsonMapFromAny :: "json \<Rightarrow> json_map" where
  "jsonMapFromAny v = (case v of JObj kvs \<Rightarrow> Some kvs | _ \<Rightarrow> None)"

record conv_message =
  cm_run :: string
  cm_sequence :: "int option"
  cm_role :: string
  cm_content :: string
  cm_payload :: json_map
  cm_created :: string

definition f_int32 :: "(int option \<Rightarrow> 'r \<Rightarrow> 'r) \<Rightarrow> 'r \<Rightarrow> json \<Rightarrow> 'r option" where
  "f_int32 upd r v =
     (case v of
        JNull \<Rightarrow> Some (upd None r)
      | JNum n \<Rightarrow>
          (case atoi n of
             Some i \<Rightarrow> if - (2 ^ 31) \<le> i \<and> i < 2 ^ 31 then Some (upd (Some i) r) else None
           | None \<Rightarrow> None)
      | _ \<Rightarrow> None)"

definition conv_message_fields :: "conv_message field list" where
  "conv_message_fields =
     [(''run_id'', f_string (\<lambda>x r. r\<lparr>cm_run := x\<rparr>)), (''event_sequence'', f_int32 (\<lambda>x r. r\<lparr>cm_sequence := x\<rparr>)),
      (''role'', f_string (\<lambda>x r. r\<lparr>cm_role := x\<rparr>)), (''content'', f_string (\<lambda>x r. r\<lparr>cm_content := x\<rparr>)),
      (''payload'', f_map cm_payload (\<lambda>x r. r\<lparr>cm_payload := x\<rparr>)), (''created_at'', f_string (\<lambda>x r. r\<lparr>cm_created := x\<rparr>))]"

definition zero_conv_message :: conv_message where
  "zero_conv_message = \<lparr>cm_run = [], cm_sequence = None, cm_role = [], cm_content = [], cm_payload = None, cm_created = []\<rparr>"

text \<open>The encoding of a message, with its \<open>omitempty\<close> fields; \<open>Session_Store\<close> keeps messages in this form.\<close>

definition message_json :: "conv_message \<Rightarrow> json" where
  "message_json m =
     JObj ([(''run_id'', JStr (cm_run m))]
       @ (case cm_sequence m of None \<Rightarrow> [] | Some i \<Rightarrow> [(''event_sequence'', JNum (itoa i))])
       @ [(''role'', JStr (cm_role m)), (''content'', JStr (cm_content m))]
       @ (case cm_payload m of None \<Rightarrow> [] | Some kvs \<Rightarrow> if kvs = [] then [] else [(''payload'', JObj kvs)])
       @ (if cm_created m = [] then [] else [(''created_at'', JStr (cm_created m))]))"

fun decode_messages :: "json list \<Rightarrow> json list option" where
  "decode_messages [] = Some []"
| "decode_messages (v # vs) =
     (case decode_struct False conv_message_fields zero_conv_message v of
        None \<Rightarrow> None
      | Some m \<Rightarrow> map_option ((#) (message_json m)) (decode_messages vs))"

definition f_messages :: "(json list \<Rightarrow> 'r \<Rightarrow> 'r) \<Rightarrow> 'r \<Rightarrow> json \<Rightarrow> 'r option" where
  "f_messages upd r v =
     (case v of
        JNull \<Rightarrow> Some (upd [] r)
      | JArr vs \<Rightarrow> map_option (\<lambda>ms. upd ms r) (decode_messages vs)
      | _ \<Rightarrow> None)"

definition conversation_fields :: "core_conversation field list" where
  "conversation_fields =
     [(''id'', f_string (\<lambda>x r. r\<lparr>conv_id := x\<rparr>)), (''session_key'', f_string (\<lambda>x r. r\<lparr>conv_session_key := x\<rparr>)),
      (''protocol_context_id'', f_string (\<lambda>x r. r\<lparr>conv_protocol_context := x\<rparr>)),
      (''root_context_id'', f_string (\<lambda>x r. r\<lparr>conv_root_context := x\<rparr>)),
      (''current_run_id'', f_string (\<lambda>x r. r\<lparr>conv_current_run := x\<rparr>)),
      (''current_protocol_task_id'', f_string (\<lambda>x r. r\<lparr>conv_protocol_task := x\<rparr>)),
      (''history_before_current'', f_messages (\<lambda>x r. r\<lparr>conv_history := x\<rparr>)),
      (''truncated'', f_bool (\<lambda>x r. r\<lparr>conv_truncated := x\<rparr>)), (''source'', f_string (\<lambda>x r. r\<lparr>conv_source := x\<rparr>))]"

definition zero_conversation :: core_conversation where
  "zero_conversation =
     \<lparr>conv_id = [], conv_session_key = [], conv_protocol_context = [], conv_root_context = [], conv_current_run = [],
      conv_source = [], conv_history = [], conv_protocol_task = [], conv_truncated = False\<rparr>"

definition trustedConversationContext :: "json \<Rightarrow> core_conversation option" where
  "trustedConversationContext v =
     (case Option.bind (json_parse (json_marshal v)) (decode_struct False conversation_fields zero_conversation) of
        None \<Rightarrow> None
      | Some c \<Rightarrow>
          if conv_source c \<noteq> ''core'' \<or> trim_space (conv_session_key c) = [] \<or> trim_space (conv_current_run c) = []
          then None else Some c)"

text \<open>
  A response as the adapter reads it: the status, the bytes of the body that arrive, and whether the
  stream breaks off with an error after them. A decoder that is still inside a number then fails.
\<close>

record http_reply =
  hr_status :: nat
  hr_body :: string
  hr_broken :: bool

definition readJSONResponse :: "http_reply \<Rightarrow> adapter_value" where
  "readJSONResponse res =
     (case parse_value (2 * length (hr_body res) + 2) (hr_body res) of
        None \<Rightarrow> JSONMap []
      | Some (v, rest) \<Rightarrow>
          if (case v of JNum _ \<Rightarrow> hr_broken res \<and> rest = [] | _ \<Rightarrow> False) then JSONMap []
          else if v = JNull then JSONMap [] else Decoded (json_any v))"

section \<open>Envelopes\<close>

definition helper_json :: "helper_info \<Rightarrow> json" where
  "helper_json h =
     JObj [(''base_url'', JStr (hi_base h)), (''token'', JStr (hi_token h)),
           (''headers'', JObj [(''authorization'', JStr (hi_authorization h))]),
           (''endpoints'', JObj [(''call_agent'', JStr (hi_call_url h)), (''events'', JStr (hi_events_url h))])]"

definition conversation_json :: "core_conversation \<Rightarrow> json" where
  "conversation_json c =
     (let opt = (\<lambda>k v. if v = [] then [] else [(k, JStr v)])
      in JObj ([(''id'', JStr (conv_id c)), (''session_key'', JStr (conv_session_key c))]
           @ opt ''protocol_context_id'' (conv_protocol_context c) @ opt ''root_context_id'' (conv_root_context c)
           @ [(''current_run_id'', JStr (conv_current_run c))] @ opt ''current_protocol_task_id'' (conv_protocol_task c)
           @ (if conv_history c = [] then [] else [(''history_before_current'', JArr (conv_history c))])
           @ [(''truncated'', JBool (conv_truncated c)), (''source'', JStr (conv_source c))]))"

definition buildAdapterEnvelope :: "json \<Rightarrow> node_run \<Rightarrow> json" where
  "buildAdapterEnvelope input run =
     JObj ([(''input'', input), (''run_id'', JStr (rn_run run)), (''metadata'', JObj (rn_metadata run)),
            (''a2a'', case rn_a2a run of None \<Rightarrow> JNull | Some m \<Rightarrow> JObj m)]
       @ (case rn_conversation run of None \<Rightarrow> [] | Some c \<Rightarrow> [(''conversation'', conversation_json c)])
       @ (case rn_helper run of None \<Rightarrow> [] | Some h \<Rightarrow> [(''agent_node'', JObj [(''helper'', helper_json h)])]))"

definition helperEnv :: "node_run \<Rightarrow> string list" where
  "helperEnv run =
     (case rn_helper run of
        None \<Rightarrow> []
      | Some h \<Rightarrow>
          [''OPENLINKER_AGENT_NODE_RUN_ID='' @ rn_run run, ''OPENLINKER_AGENT_NODE_HELPER_URL='' @ hi_base h,
           ''OPENLINKER_AGENT_NODE_HELPER_TOKEN='' @ hi_token h,
           ''OPENLINKER_AGENT_NODE_HELPER_CALL_AGENT_URL='' @ hi_call_url h,
           ''OPENLINKER_AGENT_NODE_HELPER_EVENTS_URL='' @ hi_events_url h])"

section \<open>Results\<close>

definition fillAdapterDefaults :: "adapter_result \<Rightarrow> adapter_result" where
  "fillAdapterDefaults r =
     (let r1 = (if ar_status r = [] then r\<lparr>ar_status := ''success''\<rparr> else r)
      in if ar_output r1 = JNull \<and> ar_error r1 = None then r1\<lparr>ar_output := JObj []\<rparr> else r1)"

fun events_of :: "(string \<Rightarrow> string) \<Rightarrow> json list \<Rightarrow> run_event list" where
  "events_of flt [] = []"
| "events_of flt (JObj m # vs) =
     \<lparr>ev_type = fmt_sprint flt (obj_get m ''event_type''), ev_payload = obj_get m ''payload''\<rparr> # events_of flt vs"
| "events_of flt (v # vs) = events_of flt vs"

definition eventsFromAny :: "(string \<Rightarrow> string) \<Rightarrow> json \<Rightarrow> run_event list" where
  "eventsFromAny flt v = (case v of JArr vs \<Rightarrow> events_of flt vs | _ \<Rightarrow> [])"

definition adapterResultFromMap :: "(string \<Rightarrow> string) \<Rightarrow> (string \<times> json) list \<Rightarrow> adapter_result" where
  "adapterResultFromMap flt m =
     (let status = fmt_sprint flt (obj_get m ''status''); output = obj_get m ''output''
      in \<lparr>ar_status = (if status = [] \<or> status = ''<nil>'' then ''success'' else status),
          ar_output = (if output = JNull
                       then JObj (filter (\<lambda>(k, _). k \<noteq> ''status'' \<and> k \<noteq> ''output'' \<and> k \<noteq> ''events'' \<and> k \<noteq> ''error'') m)
                       else output),
          ar_events = eventsFromAny flt (obj_get m ''events''), ar_error = None\<rparr>)"

definition normalizeAdapterResult :: "(string \<Rightarrow> string) \<Rightarrow> adapter_value \<Rightarrow> adapter_result" where
  "normalizeAdapterResult flt raw =
     (let plain = \<lparr>ar_status = ''success'', ar_output = value_json raw, ar_events = [], ar_error = None\<rparr>
      in case raw of
           Plain r \<Rightarrow> fillAdapterDefaults r
         | Pointer None \<Rightarrow> \<lparr>ar_status = ''success'', ar_output = JObj [], ar_events = [], ar_error = None\<rparr>
         | Pointer (Some r) \<Rightarrow> fillAdapterDefaults r
         | Decoded (JObj m) \<Rightarrow>
             if map_of m ''status'' \<noteq> None \<or> map_of m ''output'' \<noteq> None \<or> map_of m ''events'' \<noteq> None
             then adapterResultFromMap flt m else plain
         | _ \<Rightarrow> plain)"

definition normalizeAgentError :: "go_error \<Rightarrow> agent_error" where
  "normalizeAgentError er =
     (if errors_is er ErrCanceled
      then \<lparr>ae_code = ''ADAPTER_CANCELED'', ae_message = ''adapter execution was canceled''\<rparr>
      else \<lparr>ae_code = ''AGENT_NODE_ERROR'', ae_message = bounded_runtime_text (err_text er) 500 ''adapter failed''\<rparr>)"

section \<open>The command adapter\<close>

definition defaultAdapterEnvAllowlist :: "string list" where
  "defaultAdapterEnvAllowlist = [''PATH'', ''HOME'', ''TMPDIR'', ''TEMP'', ''TMP'', ''LANG'']"

definition adapterEnvKeyAllowed :: "string \<Rightarrow> string list \<Rightarrow> bool" where
  "adapterEnvKeyAllowed key allowed = (key \<in> set allowed \<or> has_prefix key ''LC_'')"

definition sanitizedEnv :: "string list \<Rightarrow> string list \<Rightarrow> string list" where
  "sanitizedEnv env extraAllowlist =
     (let allowed = defaultAdapterEnvAllowlist @ filter (\<lambda>k. k \<noteq> []) (map trim_space extraAllowlist)
      in filter (\<lambda>item. case str_cut (CHR ''='') item of (key, _, ok) \<Rightarrow> ok \<and> adapterEnvKeyAllowed key allowed) env)"

text \<open>
  A child process: what it is started with, and what came of it, namely the writes to its two
  outputs, the error of \<open>cmd.Run\<close> and whether the context's deadline had passed.
\<close>

record command_spec =
  cx_path :: string
  cx_args :: "string list"
  cx_dir :: string
  cx_env :: "string list"
  cx_stdin :: string

record child_run =
  ch_stdout :: "string list"
  ch_stderr :: "string list"
  ch_err :: "go_error option"
  ch_deadline :: bool

definition adapter_timeout :: "int \<Rightarrow> nat" where
  "adapter_timeout t = (if t \<le> 0 then 15 * 60 * 10 ^ 9 else nat t)"

definition parseCommandOutput :: "string \<Rightarrow> string \<Rightarrow> adapter_value" where
  "parseCommandOutput stdout stderr =
     (let out = trim_space stdout; err = trim_space stderr
      in if out = [] then JSONMap [(''ok'', JBool True), (''stderr'', JStr err)]
         else
           (case map_option json_any (json_parse out) of
              None \<Rightarrow> JSONMap ((if err = [] then [] else [(''stderr'', JStr err)]) @ [(''text'', JStr out)])
            | Some v \<Rightarrow>
                (case v of
                   JObj m \<Rightarrow> (case map_of m ''output'' of Some output \<Rightarrow> Decoded output | None \<Rightarrow> Decoded v)
                 | _ \<Rightarrow> Decoded v)))"

definition command_Run ::
  "(command_spec \<Rightarrow> child_run) \<Rightarrow> string list \<Rightarrow> command_adapter \<Rightarrow> json \<Rightarrow> node_run \<Rightarrow> adapter_value result" where
  "command_Run start baseEnv a input run =
     (if ca_command a = [] then Inl (ErrNew ''OPENLINKER_AGENT_NODE_COMMAND is required'')
      else
        (let child = start \<lparr>cx_path = ca_command a, cx_args = ca_args a, cx_dir = ca_cwd a,
                            cx_env = sanitizedEnv baseEnv (ca_allowlist a) @ helperEnv run,
                            cx_stdin = json_marshal (buildAdapterEnvelope input run)\<rparr>;
             stdout = foldl adapter_buffer_put new_limited_buffer (ch_stdout child);
             stderr = foldl adapter_buffer_put new_limited_buffer (ch_stderr child)
         in case adapter_output_limit_error ''command'' (Some stdout) (Some stderr) of
              Some er \<Rightarrow> Inl er
            | None \<Rightarrow>
                (case ch_err child of
                   Some er \<Rightarrow>
                     if ch_deadline child
                     then Inl (ErrNew (''command timed out after '' @ duration_text (adapter_timeout (ca_timeout a))))
                     else Inl (ErrWrap ''command failed: '' er ('': '' @ trim_space (buf stderr)))
                 | None \<Rightarrow> Inr (parseCommandOutput (buf stdout) (buf stderr)))))"

section \<open>The HTTP adapter\<close>

record http_out =
  ho_url :: string
  ho_headers :: "(string \<times> string) list"
  ho_body :: string

definition unwrap_output :: "adapter_value \<Rightarrow> adapter_value" where
  "unwrap_output v =
     (case v of
        Decoded (JObj m) \<Rightarrow> (case map_of m ''output'' of Some output \<Rightarrow> Decoded output | None \<Rightarrow> v)
      | _ \<Rightarrow> v)"

definition http_Run ::
  "(string \<Rightarrow> string) \<Rightarrow> (http_out \<Rightarrow> http_reply result) \<Rightarrow> http_adapter \<Rightarrow> json \<Rightarrow> node_run \<Rightarrow> adapter_value result" where
  "http_Run flt client a input run =
     (if ha_url a = [] then Inl (ErrNew ''OPENLINKER_AGENT_NODE_HTTP_URL is required'')
      else
        (case client \<lparr>ho_url = ha_url a,
                      ho_headers = foldl (\<lambda>hs (k, v). assoc_set (canonical_key k) v hs)
                        [(''Content-Type'', ''application/json'')] (ha_headers a),
                      ho_body = json_marshal (buildAdapterEnvelope input run)\<rparr> of
           Inl er \<Rightarrow> Inl er
         | Inr res \<Rightarrow>
             (let jsonBody = readJSONResponse res
              in if hr_status res < 200 \<or> 300 \<le> hr_status res
                 then Inl (ErrNew (''HTTP adapter returned '' @ itoa_nat (hr_status res) @ '': '' @ fmt_sprint flt (value_json jsonBody)))
                 else Inr (unwrap_output jsonBody))))"

section \<open>The A2A adapter\<close>

text \<open>
  The SDK's A2A client, whose source is not part of the repository: what it sends, the answer to a
  call (a task value, of which the code reads the state, or decoded JSON), the text of an answer, the
  Run status of a task state, the parameters of a text message and the decoding of a message.
\<close>

datatype a2a_answer = Task string json | Answer json

record a2a_params =
  ap_message :: json
  ap_metadata :: "(string \<times> json) list"
  ap_modes :: "string list"

datatype a2a_call_params = Explicit "(string \<times> json) list" | Built a2a_params

record a2a_request =
  aq_base :: string
  aq_token :: string
  aq_headers :: "(string \<times> string) list"
  aq_version :: string
  aq_dialect :: string
  aq_method :: string
  aq_params :: a2a_call_params

record a2a_sdk = sdk +
  sdk_call :: "a2a_request \<Rightarrow> a2a_answer result"
  sdk_text :: "a2a_answer \<Rightarrow> string"
  sdk_run_status :: "string \<Rightarrow> string"
  sdk_text_params :: "string \<Rightarrow> string \<Rightarrow> string list \<Rightarrow> string \<Rightarrow> a2a_params"
  sdk_message :: "json \<Rightarrow> json option"
  sdk_dialect_current :: string

definition explicitA2AAdapterParams :: "json \<Rightarrow> json_map" where
  "explicitA2AAdapterParams input =
     (case jsonMapFromAny input of
        None \<Rightarrow> None
      | Some m \<Rightarrow>
          (case jsonMapFromAny (obj_get m ''a2a_params'') of
             Some ps \<Rightarrow> Some ps
           | None \<Rightarrow> jsonMapFromAny (obj_get m ''params'')))"

definition a2aMessageFromAny :: "a2a_sdk \<Rightarrow> json \<Rightarrow> json option" where
  "a2aMessageFromAny sdk v =
     (case v of JObj _ \<Rightarrow> Option.bind (json_parse (json_marshal v)) (sdk_message sdk) | _ \<Rightarrow> None)"

definition a2aInputText :: "(string \<Rightarrow> string) \<Rightarrow> json \<Rightarrow> string" where
  "a2aInputText flt input =
     (let named = (case jsonMapFromAny input of
                     None \<Rightarrow> None
                   | Some m \<Rightarrow> find (\<lambda>v. v \<noteq> [] \<and> v \<noteq> ''<nil>'')
                       (map (\<lambda>k. trim_space (fmt_sprint flt (obj_get m k))) [''text'', ''query'', ''task'', ''prompt'']))
      in case named of
           Some v \<Rightarrow> v
         | None \<Rightarrow> (case input of JStr s \<Rightarrow> s | _ \<Rightarrow> json_marshal input))"

definition a2aMessageID :: "node_run \<Rightarrow> string" where
  "a2aMessageID run = (if trim_space (rn_run run) \<noteq> [] then ''msg-'' @ rn_run run else ''msg-openlinker-agent-node'')"

definition a2aAdapterParams ::
  "a2a_sdk \<Rightarrow> (string \<Rightarrow> string) \<Rightarrow> json \<Rightarrow> node_run \<Rightarrow> string list \<Rightarrow> string \<Rightarrow> a2a_call_params" where
  "a2aAdapterParams sdk flt input run modes dialect =
     (case explicitA2AAdapterParams input of
        Some ps \<Rightarrow> Explicit ps
      | None \<Rightarrow>
          (let ps = sdk_text_params sdk (a2aMessageID run) (a2aInputText flt input) modes dialect;
               message = Option.bind (jsonMapFromAny input)
                 (\<lambda>m. Option.bind (map_of m ''message'') (a2aMessageFromAny sdk));
               ps1 = (case message of Some msg \<Rightarrow> ps\<lparr>ap_message := msg\<rparr> | None \<Rightarrow> ps)
           in Built (ps1\<lparr>ap_metadata := [(''openlinker_run_id'', JStr (rn_run run)), (''openlinker_source'', JStr (rn_source run))]\<rparr>)))"

text \<open>The state of a decoded answer: a nested update first, then \<open>status\<close>, then \<open>state\<close>.\<close>

lemma size_map_of_json:
  assumes "map_of m k = Some (v :: json)"
  shows "size v < Suc (size_list (size_prod (\<lambda>x. 0) size) m)"
  using size_list_estimation' [OF map_of_SomeD [OF assms], of "size v" "size_prod (\<lambda>x. 0) size"] by simp

function task_state :: "(string \<Rightarrow> string) \<Rightarrow> json \<Rightarrow> string" where
  "task_state flt (JObj m) =
     (let nested = (\<lambda>k. case map_of m k of Some v \<Rightarrow> task_state flt v | None \<Rightarrow> [])
      in if nested ''task'' \<noteq> [] then nested ''task''
         else if nested ''statusUpdate'' \<noteq> [] then nested ''statusUpdate''
         else if nested ''artifactUpdate'' \<noteq> [] then nested ''artifactUpdate''
         else
           (case map_of m ''status'' of
              Some v \<Rightarrow> task_state flt v
            | None \<Rightarrow> (case map_of m ''state'' of Some v \<Rightarrow> fmt_sprint flt v | None \<Rightarrow> [])))"
| "task_state flt JNull = []"
| "task_state flt (JBool b) = []"
| "task_state flt (JNum n) = []"
| "task_state flt (JStr s) = []"
| "task_state flt (JArr vs) = []"
  by pat_completeness auto
termination
  by (relation "measure (\<lambda>(_, v). size v)") (auto dest: size_map_of_json)

fun a2aAdapterTaskState :: "(string \<Rightarrow> string) \<Rightarrow> a2a_answer \<Rightarrow> string" where
  "a2aAdapterTaskState flt (Task state _) = state"
| "a2aAdapterTaskState flt (Answer v) = task_state flt v"

definition a2aAdapterRunStatus :: "a2a_sdk \<Rightarrow> (string \<Rightarrow> string) \<Rightarrow> a2a_answer \<Rightarrow> string \<times> agent_error option" where
  "a2aAdapterRunStatus sdk flt result =
     (let status = sdk_run_status sdk (a2aAdapterTaskState flt result); message = sdk_text sdk result
      in (status,
          if status = ''failed''
          then Some \<lparr>ae_code = ''A2A_TASK_FAILED'', ae_message = defaultString message ''A2A task failed''\<rparr>
          else None))"

definition a2aAdapterRunEvents :: "a2a_sdk \<Rightarrow> a2a_answer \<Rightarrow> run_event list" where
  "a2aAdapterRunEvents sdk result =
     (let message = trim_space (sdk_text sdk result)
      in if message = [] then []
         else [\<lparr>ev_type = ''run.message.delta'', ev_payload = JObj [(''text'', JStr message)]\<rparr>])"

fun answer_json :: "a2a_answer \<Rightarrow> json" where
  "answer_json (Task _ v) = v"
| "answer_json (Answer v) = v"

definition a2a_Run ::
  "a2a_sdk \<Rightarrow> (string \<Rightarrow> string) \<Rightarrow> a2a_adapter \<Rightarrow> json \<Rightarrow> node_run \<Rightarrow> adapter_value result" where
  "a2a_Run sdk flt a input run =
     (if trim_space (aa_base_url a) = [] then Inl (ErrNew ''OPENLINKER_AGENT_NODE_A2A_BASE_URL is required'')
      else
        (case sdk_call sdk
                \<lparr>aq_base = aa_base_url a, aq_token = aa_token a, aq_headers = aa_headers a,
                 aq_version = defaultString (aa_version a) ''1.0'',
                 aq_dialect = defaultString (aa_dialect a) (sdk_dialect_current sdk),
                 aq_method = sdk_method_for sdk (defaultString (aa_method a) (sdk_method_send sdk)) (aa_dialect a),
                 aq_params = a2aAdapterParams sdk flt input run (aa_modes a) (aa_dialect a)\<rparr> of
           Inl er \<Rightarrow> Inl er
         | Inr result \<Rightarrow>
             (let (status, er) = a2aAdapterRunStatus sdk flt result; message = trim_space (sdk_text sdk result)
              in Inr (Plain \<lparr>ar_status = status,
                             ar_output = JObj ((''a2a'', answer_json result) # (if message = [] then [] else [(''text'', JStr message)])),
                             ar_events = a2aAdapterRunEvents sdk result, ar_error = er\<rparr>))))"

section \<open>The native adapters\<close>

text \<open>The SDK's \<open>RuntimeResult\<close>, in which providers and the Node's handler answer.\<close>

record runtime_result =
  rr_status :: string
  rr_output :: json
  rr_events :: "run_event list"
  rr_error :: "agent_error option"

definition native_output :: "runtime_result result \<Rightarrow> adapter_value result" where
  "native_output r =
     (case r of
        Inl er \<Rightarrow> Inl er
      | Inr x \<Rightarrow> Inr (Plain \<lparr>ar_status = rr_status x, ar_output = rr_output x, ar_events = rr_events x, ar_error = rr_error x\<rparr>))"

text \<open>The mocked Codex adapter: the event it emits at once and its result.\<close>

definition codex_mock :: "codex_adapter \<Rightarrow> run_event \<times> adapter_value" where
  "codex_mock a =
     (\<lparr>ev_type = ''run.message.delta'', ev_payload = JObj [(''text'', JStr ''Codex is processing the task.'')]\<rparr>,
      Plain \<lparr>ar_status = ''success'',
             ar_output = JObj [(''handled_by'', JStr ''codex''), (''mocked'', JBool True), (''summary'', JStr (xa_mock a))],
             ar_events = [\<lparr>ev_type = ''run.message.delta'', ev_payload = JObj [(''text'', JStr (xa_mock a))]\<rparr>],
             ar_error = None\<rparr>)"

end
