(* ===== verification/Codex_Home.thy ===== *)
theory Codex_Home
  imports Provider_Setup
begin

text \<open>
  The files around a Codex process, in \<open>pkg/adapters\<close>: the private home of one attempt
  (\<open>codexhome/home.go\<close>), the native command that uses it (\<open>codexturn/native.go\<close>) and the
  helper programs its Linux sandbox may read (\<open>codex_runtime_files.go\<close>). The answers of the
  system are functions of the path; what the code does to the files is a list of actions.
\<close>

section \<open>The home of an attempt\<close>

text \<open>What \<open>Lstat\<close> reports; a symbolic link is neither a directory nor a regular file.\<close>

record lstat_info =
  li_dir :: bool
  li_regular :: bool
  li_perm :: nat
  li_owned :: bool
  li_size :: nat

record home_os =
  co_mkdir_all :: "string \<Rightarrow> go_error option"
  co_mkdir :: "string \<Rightarrow> go_error option"
  co_lstat :: "string \<Rightarrow> lstat_info result"
  co_mkdir_temp :: "string \<Rightarrow> string result"
  co_symlink :: "string \<Rightarrow> string \<Rightarrow> go_error option"
  co_write :: "string \<Rightarrow> string \<Rightarrow> go_error option"

definition LauncherEnvironment :: string where
  "LauncherEnvironment = ''OPENLINKER_CODEX_RPC_LAUNCHER''"

definition PrepareEnvironment :: string where
  "PrepareEnvironment = ''OPENLINKER_CODEX_RPC_PREPARE''"

definition codex_source :: "env_map \<Rightarrow> string result" where
  "codex_source values =
     (let home = (if env_get values ''HOME'' = [] then env_get values ''USERPROFILE'' else env_get values ''HOME'');
          source = (if env_get values ''CODEX_HOME'' \<noteq> [] then env_get values ''CODEX_HOME''
                    else if home = [] then [] else filepath_join [home, ''.codex''])
      in if env_get values ''CODEX_HOME'' = [] \<and> home = [] then Inl (ErrNew ''Codex isolation requires HOME or CODEX_HOME'')
         else if \<not> is_abs source then Inl (ErrNew ''Codex home must be absolute'')
         else Inr source)"

definition private_state :: "home_os \<Rightarrow> string \<Rightarrow> go_error option" where
  "private_state os path =
     (case co_lstat os path of
        Inr i \<Rightarrow> if li_dir i \<and> \<not> group_or_other (li_perm i) \<and> li_owned i then None
                 else Some (ErrNew ''isolated Codex state must be an owner-only non-symlink directory'')
      | Inl _ \<Rightarrow> Some (ErrNew ''isolated Codex state must be an owner-only non-symlink directory''))"

definition safe_codex_home :: "home_os \<Rightarrow> string \<Rightarrow> bool" where
  "safe_codex_home os source =
     (case co_lstat os source of Inl _ \<Rightarrow> False | Inr i \<Rightarrow> li_dir i \<and> \<not> shared_writable (li_perm i) \<and> li_owned i)"

definition rollout_names :: "string list" where
  "rollout_names = [''sessions'', ''archived_sessions'']"

fun make_rollouts :: "home_os \<Rightarrow> string \<Rightarrow> string list \<Rightarrow> go_error option \<times> home_act list" where
  "make_rollouts os root [] = (None, [])"
| "make_rollouts os root (name # names) =
     (let p = filepath_join [root, name]
      in case (case co_mkdir os p of
                 Some er \<Rightarrow> if errors_is er err_exist then private_state os p else Some er
               | None \<Rightarrow> private_state os p) of
           Some er \<Rightarrow> (Some er, [MakeDir p])
         | None \<Rightarrow> (case make_rollouts os root names of (r, acts) \<Rightarrow> (r, MakeDir p # acts)))"

fun link_rollouts :: "home_os \<Rightarrow> string \<Rightarrow> string \<Rightarrow> string list \<Rightarrow> go_error option \<times> home_act list" where
  "link_rollouts os root home [] = (None, [])"
| "link_rollouts os root home (name # names) =
     (let target = filepath_join [root, name]; link = filepath_join [home, name]
      in case co_symlink os target link of
           Some _ \<Rightarrow> (Some (ErrNew ''link isolated Codex rollouts (symlink support is required)''), [LinkTo target link])
         | None \<Rightarrow> (case link_rollouts os root home names of (r, acts) \<Rightarrow> (r, LinkTo target link # acts)))"

definition key_file :: "string \<Rightarrow> string" where
  "key_file apiKey = json_marshal (JObj [(''OPENAI_API_KEY'', JStr apiKey)])"

definition link_auth :: "home_os \<Rightarrow> string \<Rightarrow> string \<Rightarrow> string \<Rightarrow> go_error option \<times> home_act list" where
  "link_auth os source home apiKey =
     (let target = filepath_join [home, ''auth.json''] in
      if apiKey \<noteq> [] then
        (if 32768 < length apiKey then (Some (ErrNew ''Codex API key exceeds size limit''), [])
         else
           (case co_write os target (key_file apiKey) of
              Some _ \<Rightarrow> (Some (ErrNew ''prepare private Codex API-key authentication''), [PutFile target (key_file apiKey)])
            | None \<Rightarrow> (None, [PutFile target (key_file apiKey)])))
      else
        (let auth = filepath_join [source, ''auth.json'']
         in case co_lstat os auth of
              Inl er \<Rightarrow> (if errors_is er err_not_exist then None else Some (ErrNew ''inspect native Codex authentication''), [])
            | Inr i \<Rightarrow>
                if \<not> li_regular i \<or> group_or_other (li_perm i) \<or> \<not> li_owned i \<or> 1048576 < li_size i
                then (Some (ErrNew ''native Codex auth must be an owner-only regular non-symlink file''), [])
                else
                  (case co_symlink os auth target of
                     Some _ \<Rightarrow> (Some (ErrNew ''link native Codex authentication''), [LinkTo auth target])
                   | None \<Rightarrow> (None, [LinkTo auth target]))))"

definition home_entries :: "string list \<Rightarrow> string \<Rightarrow> string list" where
  "home_entries environment home =
     filter (\<lambda>entry. fst (str_cut CHR ''='' entry) \<notin> {''CODEX_HOME'', PrepareEnvironment, LauncherEnvironment}) environment
     @ [''CODEX_HOME='' @ home]"

definition prepare_state :: "home_os \<Rightarrow> string \<Rightarrow> string result \<times> home_act list" where
  "prepare_state os source =
     (let root = filepath_join [source, ''openlinker-rpc-v1'']
      in if co_mkdir_all os source \<noteq> None then (Inl (ErrNew ''create native Codex home''), [MakeDirs source])
         else if \<not> safe_codex_home os source
         then (Inl (ErrNew ''native Codex home must be an owned directory without shared write access''), [MakeDirs source])
         else if co_mkdir_all os root \<noteq> None
         then (Inl (ErrNew ''create isolated Codex state directory''), [MakeDirs source, MakeDirs root])
         else
           (case private_state os root of
              Some er \<Rightarrow> (Inl er, [MakeDirs source, MakeDirs root])
            | None \<Rightarrow>
                (case make_rollouts os root rollout_names of
                   (Some er, acts) \<Rightarrow> (Inl er, [MakeDirs source, MakeDirs root] @ acts)
                 | (None, acts) \<Rightarrow> (Inr root, [MakeDirs source, MakeDirs root] @ acts))))"

text \<open>The new environment and the home, which the returned cleanup removes.\<close>

definition Prepare :: "home_os \<Rightarrow> string list \<Rightarrow> (string list \<times> string) result \<times> home_act list" where
  "Prepare os environment =
     (let values = found_values environment
      in case codex_source values of
           Inl er \<Rightarrow> (Inl er, [])
         | Inr source \<Rightarrow>
             (case prepare_state os source of
                (Inl er, acts) \<Rightarrow> (Inl er, acts)
              | (Inr root, acts) \<Rightarrow>
                  (case co_mkdir_temp os root of
                     Inl er \<Rightarrow> (Inl er, acts)
                   | Inr home \<Rightarrow>
                       (case link_rollouts os root home rollout_names of
                          (Some er, acts1) \<Rightarrow> (Inl er, acts @ MakeTemp home # acts1 @ [RemoveTree home])
                        | (None, acts1) \<Rightarrow>
                            (case link_auth os source home (env_get values ''CODEX_API_KEY'') of
                               (Some er, acts2) \<Rightarrow> (Inl er, acts @ MakeTemp home # acts1 @ acts2 @ [RemoveTree home])
                             | (None, acts2) \<Rightarrow>
                                 (Inr (home_entries environment home, home), acts @ MakeTemp home # acts1 @ acts2))))))"

section \<open>What the preparation may do\<close>

text \<open>The actions an attempt with this operator home and this private home may take.\<close>

definition home_act_ok :: "home_os \<Rightarrow> string \<Rightarrow> string \<Rightarrow> string \<Rightarrow> home_act \<Rightarrow> bool" where
  "home_act_ok os apiKey source home act =
     (let root = filepath_join [source, ''openlinker-rpc-v1''] in
      case act of
        MakeDirs p \<Rightarrow> p = source \<or> p = root
      | MakeDir p \<Rightarrow> p \<in> (\<lambda>n. filepath_join [root, n]) ` set rollout_names
      | MakeTemp h \<Rightarrow> h = home
      | RemoveTree h \<Rightarrow> h = home
      | LinkTo target link \<Rightarrow>
          (\<exists>n \<in> set rollout_names. target = filepath_join [root, n] \<and> link = filepath_join [home, n])
          \<or> (target = filepath_join [source, ''auth.json''] \<and> link = filepath_join [home, ''auth.json''] \<and> apiKey = []
             \<and> (\<exists>i. co_lstat os target = Inr i \<and> li_regular i \<and> \<not> group_or_other (li_perm i) \<and> li_owned i \<and> li_size i \<le> 1048576))
      | PutFile p content \<Rightarrow> p = filepath_join [home, ''auth.json''] \<and> content = key_file apiKey \<and> apiKey \<noteq> [] \<and> length apiKey \<le> 32768)"

definition source_state :: "string \<Rightarrow> string list" where
  "source_state source =
     (let root = filepath_join [source, ''openlinker-rpc-v1''] in root # map (\<lambda>n. filepath_join [root, n]) rollout_names)"

lemma make_rollouts_ok:
  "make_rollouts os (filepath_join [source, ''openlinker-rpc-v1'']) names = (r, acts) \<Longrightarrow> set names \<subseteq> set rollout_names \<Longrightarrow>
     list_all (home_act_ok os k source home) acts \<and> (\<forall>h. MakeTemp h \<notin> set acts \<and> RemoveTree h \<notin> set acts)
     \<and> (r = None \<longrightarrow> (\<forall>n \<in> set names. private_state os (filepath_join [filepath_join [source, ''openlinker-rpc-v1''], n]) = None))"
proof (induction names arbitrary: r acts)
  case (Cons name names)
  obtain r2 acts2 where rest: "make_rollouts os (filepath_join [source, ''openlinker-rpc-v1'']) names = (r2, acts2)" by (meson surj_pair)
  show ?case
    using Cons.prems Cons.IH [OF rest] rest
    by (cases "private_state os (filepath_join [filepath_join [source, ''openlinker-rpc-v1''], name])")
      (auto simp: Let_def home_act_ok_def split: option.splits if_splits)
qed simp

lemma link_rollouts_ok:
  "link_rollouts os (filepath_join [source, ''openlinker-rpc-v1'']) home names = (r, acts) \<Longrightarrow> set names \<subseteq> set rollout_names \<Longrightarrow>
     list_all (home_act_ok os k source home) acts \<and> (\<forall>h. MakeTemp h \<notin> set acts \<and> RemoveTree h \<notin> set acts)"
proof (induction names arbitrary: r acts)
  case (Cons name names)
  obtain r2 acts2 where rest: "link_rollouts os (filepath_join [source, ''openlinker-rpc-v1'']) home names = (r2, acts2)" by (meson surj_pair)
  show ?case
    using Cons.prems Cons.IH [OF rest] rest by (auto simp: Let_def home_act_ok_def split: option.splits if_splits)
qed simp

lemma link_auth_ok:
  "link_auth os source home k = (r, acts) \<Longrightarrow>
     list_all (home_act_ok os k source home) acts \<and> (\<forall>h. MakeTemp h \<notin> set acts \<and> RemoveTree h \<notin> set acts)"
  by (auto simp: link_auth_def Let_def home_act_ok_def split: if_splits option.splits sum.splits)

lemma prepare_state_ok:
  assumes "prepare_state os source = (r, acts)"
  shows "list_all (home_act_ok os k source home) acts \<and> (\<forall>h. MakeTemp h \<notin> set acts \<and> RemoveTree h \<notin> set acts)
    \<and> (\<forall>root. r = Inr root \<longrightarrow> root = filepath_join [source, ''openlinker-rpc-v1''] \<and> safe_codex_home os source \<and> private_state os root = None
          \<and> (\<forall>n \<in> set rollout_names. private_state os (filepath_join [root, n]) = None))"
proof -
  obtain r2 acts2 where rest: "make_rollouts os (filepath_join [source, ''openlinker-rpc-v1'']) rollout_names = (r2, acts2)" by (meson surj_pair)
  show ?thesis
    using assms make_rollouts_ok [OF rest subset_refl, of k home] rest
    by (auto simp: prepare_state_def Let_def home_act_ok_def split: if_splits option.splits)
qed

lemma prepare_shape:
  assumes "Prepare os environment = (r, acts)" and "acts \<noteq> []"
  shows "\<exists>source home. list_all (home_act_ok os (env_get (found_values environment) ''CODEX_API_KEY'') source home) acts \<and> is_abs source
    \<and> (MakeTemp home \<in> set acts \<longrightarrow> safe_codex_home os source
         \<and> (\<forall>p \<in> set (source_state source). private_state os p = None))
    \<and> (case r of
         Inl _ \<Rightarrow> MakeTemp home \<in> set acts \<longrightarrow> last acts = RemoveTree home
       | Inr (env, h) \<Rightarrow> h = home \<and> MakeTemp home \<in> set acts \<and> RemoveTree home \<notin> set acts
           \<and> (\<forall>entry \<in> set env. entry = ''CODEX_HOME='' @ home \<or> entry \<in> set environment
                \<and> fst (str_cut CHR ''='' entry) \<notin> {''CODEX_HOME'', PrepareEnvironment, LauncherEnvironment}))"
proof -
  let ?k = "env_get (found_values environment) ''CODEX_API_KEY''"
  obtain source where src: "codex_source (found_values environment) = Inr source"
    using assms by (cases "codex_source (found_values environment)") (auto simp: Prepare_def Let_def)
  have abs: "is_abs source" using src by (auto simp: codex_source_def Let_def split: if_splits)
  obtain state acts0 where st: "prepare_state os source = (state, acts0)" by (meson surj_pair)
  note state_ok = prepare_state_ok [OF st, of ?k]
  show ?thesis
  proof (cases state)
    case (Inl er)
    have "r = Inl er \<and> acts = acts0" using assms src st Inl by (auto simp: Prepare_def Let_def)
    then show ?thesis using abs state_ok by (intro exI [of _ source] exI [of _ "[]"]) auto
  next
    case (Inr root)
    have root: "root = filepath_join [source, ''openlinker-rpc-v1'']" "safe_codex_home os source" "\<forall>p \<in> set (source_state source). private_state os p = None"
      using state_ok Inr by (auto simp: source_state_def Let_def)
    show ?thesis
    proof (cases "co_mkdir_temp os root")
      case (Inl er)
      have "r = Inl er \<and> acts = acts0" using assms src st Inr Inl by (auto simp: Prepare_def Let_def)
      then show ?thesis using abs state_ok by (intro exI [of _ source] exI [of _ "[]"]) auto
    next
      case (Inr home)
      obtain l acts1 where l: "link_rollouts os root home rollout_names = (l, acts1)" by (meson surj_pair)
      obtain u acts2 where u: "link_auth os source home ?k = (u, acts2)" by (meson surj_pair)
      have ok: "list_all (home_act_ok os ?k source home) (acts0 @ MakeTemp home # acts1 @ acts2 @ [RemoveTree home])"
        "RemoveTree home \<notin> set (acts0 @ acts1 @ acts2)"
        using state_ok [of home] link_rollouts_ok [OF l [unfolded root(1)] subset_refl, of ?k] link_auth_ok [OF u]
        by (auto simp: home_act_ok_def)
      have out: "(r, acts) = (case (l, u) of
          (Some er, _) \<Rightarrow> (Inl er, acts0 @ MakeTemp home # acts1 @ [RemoveTree home])
        | (None, Some er) \<Rightarrow> (Inl er, acts0 @ MakeTemp home # acts1 @ acts2 @ [RemoveTree home])
        | (None, None) \<Rightarrow> (Inr (home_entries environment home, home), acts0 @ MakeTemp home # acts1 @ acts2))"
        using assms(1) l u by (cases l; cases u) (simp_all add: Prepare_def Let_def src st \<open>state = Inr root\<close> Inr)
      have env: "entry = ''CODEX_HOME='' @ home \<or> entry \<in> set environment
          \<and> fst (str_cut CHR ''='' entry) \<notin> {''CODEX_HOME'', PrepareEnvironment, LauncherEnvironment}"
        if "entry \<in> set (home_entries environment home)" for entry using that by (auto simp: home_entries_def)
      show ?thesis
        using out ok abs root(2,3) env
        by (intro exI [of _ source] exI [of _ home]) (cases l; cases u; simp)
    qed
  qed
qed

text \<open>The private homes that exist after some actions.\<close>

fun live_step :: "string list \<Rightarrow> home_act \<Rightarrow> string list" where
  "live_step hs (MakeTemp h) = h # hs"
| "live_step hs (RemoveTree h) = removeAll h hs"
| "live_step hs _ = hs"

definition live_homes :: "home_act list \<Rightarrow> string list" where
  "live_homes acts = foldl live_step [] acts"

lemma live_homes_append: "live_homes (xs @ ys) = foldl live_step (live_homes xs) ys"
  by (simp add: live_homes_def)

lemma live_step_set: "set (live_step hs a) \<subseteq> set hs \<union> {h. a = MakeTemp h}"
  by (cases a) auto

lemma live_made: "set (foldl live_step hs acts) \<subseteq> set hs \<union> {h. MakeTemp h \<in> set acts}"
proof (induction acts arbitrary: hs)
  case (Cons a acts)
  have "set (foldl live_step (live_step hs a) acts) \<subseteq> set (live_step hs a) \<union> {h. MakeTemp h \<in> set acts}" by (rule Cons.IH)
  also have "\<dots> \<subseteq> set hs \<union> {h. MakeTemp h \<in> set (a # acts)}" using live_step_set [of hs a] by auto
  finally show ?case by simp
qed simp

lemma live_last:
  assumes "{h. MakeTemp h \<in> set acts} \<subseteq> {home}" "acts \<noteq> []" "last acts = RemoveTree home"
  shows "set (foldl live_step hs acts) \<subseteq> set hs"
proof -
  have "acts = butlast acts @ [RemoveTree home]" using assms(2,3) append_butlast_last_id [of acts] by simp
  then have "foldl live_step hs acts = foldl live_step hs (butlast acts @ [RemoveTree home])" by simp
  also have "set \<dots> \<subseteq> set hs"
  proof -
    have "{h. MakeTemp h \<in> set (butlast acts)} \<subseteq> {home}" using assms(1) in_set_butlastD by fastforce
    then show ?thesis using live_made [of hs "butlast acts"] by auto
  qed
  finally show ?thesis .
qed

lemma Prepare_live:
  assumes "Prepare os environment = (r, acts)"
  shows "set (foldl live_step hs acts) \<subseteq> set hs \<union> (case r of Inl _ \<Rightarrow> {} | Inr (_, home) \<Rightarrow> {home})"
proof (cases "acts = []")
  case False
  from prepare_shape [OF assms this] obtain source home where
    ok: "list_all (home_act_ok os (env_get (found_values environment) ''CODEX_API_KEY'') source home) acts"
    and all: "case r of Inl _ \<Rightarrow> MakeTemp home \<in> set acts \<longrightarrow> last acts = RemoveTree home
       | Inr (env, h) \<Rightarrow> h = home \<and> MakeTemp home \<in> set acts \<and> RemoveTree home \<notin> set acts
           \<and> (\<forall>entry \<in> set env. entry = ''CODEX_HOME='' @ home \<or> entry \<in> set environment
                \<and> fst (str_cut CHR ''='' entry) \<notin> {''CODEX_HOME'', PrepareEnvironment, LauncherEnvironment})"
    by blast
  have shape: "case r of Inl _ \<Rightarrow> MakeTemp home \<in> set acts \<longrightarrow> last acts = RemoveTree home | Inr (env, h) \<Rightarrow> h = home"
    using all by (cases r) auto
  have temp: "{h. MakeTemp h \<in> set acts} \<subseteq> {home}" using ok by (auto simp: list_all_iff home_act_ok_def Let_def)
  show ?thesis
  proof (cases r)
    case (Inl er)
    show ?thesis
    proof (cases "MakeTemp home \<in> set acts")
      case True
      then show ?thesis using live_last [OF temp False] shape Inl by simp
    next
      case False
      then have "{h. MakeTemp h \<in> set acts} = {}" using temp by auto
      then show ?thesis using live_made [of hs acts] Inl by simp
    qed
  next
    case (Inr q)
    then show ?thesis using shape live_made [of hs acts] temp by (cases q) auto
  qed
qed (use assms in simp)


definition demo_home_os :: home_os where
  "demo_home_os =
     \<lparr>co_mkdir_all = (\<lambda>_. None), co_mkdir = (\<lambda>_. Some err_exist),
      co_lstat = (\<lambda>p. if has_suffix p ''auth.json''
                      then Inr \<lparr>li_dir = False, li_regular = True, li_perm = 384, li_owned = True, li_size = 10\<rparr>
                      else Inr \<lparr>li_dir = True, li_regular = False, li_perm = 448, li_owned = True, li_size = 0\<rparr>),
      co_mkdir_temp = (\<lambda>d. Inr (d @ ''/attempt-1'')), co_symlink = (\<lambda>_ _. None), co_write = (\<lambda>_ _. None)\<rparr>"

lemma demo_prepares:
  "Prepare demo_home_os [''CODEX_HOME=/c'', ''A=b''] =
     (Inr ([''A=b'', ''CODEX_HOME=/c/openlinker-rpc-v1/attempt-1''], ''/c/openlinker-rpc-v1/attempt-1''),
      [MakeDirs ''/c'', MakeDirs ''/c/openlinker-rpc-v1'', MakeDir ''/c/openlinker-rpc-v1/sessions'',
       MakeDir ''/c/openlinker-rpc-v1/archived_sessions'', MakeTemp ''/c/openlinker-rpc-v1/attempt-1'',
       LinkTo ''/c/openlinker-rpc-v1/sessions'' ''/c/openlinker-rpc-v1/attempt-1/sessions'',
       LinkTo ''/c/openlinker-rpc-v1/archived_sessions'' ''/c/openlinker-rpc-v1/attempt-1/archived_sessions'',
       LinkTo ''/c/auth.json'' ''/c/openlinker-rpc-v1/attempt-1/auth.json''])"
proof -
  have joins: "filepath_join [''/c'', ''openlinker-rpc-v1''] = ''/c/openlinker-rpc-v1''"
    "filepath_join [''/c/openlinker-rpc-v1'', ''sessions''] = ''/c/openlinker-rpc-v1/sessions''"
    "filepath_join [''/c/openlinker-rpc-v1'', ''archived_sessions''] = ''/c/openlinker-rpc-v1/archived_sessions''"
    "filepath_join [''/c/openlinker-rpc-v1/attempt-1'', ''sessions''] = ''/c/openlinker-rpc-v1/attempt-1/sessions''"
    "filepath_join [''/c/openlinker-rpc-v1/attempt-1'', ''archived_sessions''] = ''/c/openlinker-rpc-v1/attempt-1/archived_sessions''"
    "filepath_join [''/c/openlinker-rpc-v1/attempt-1'', ''auth.json''] = ''/c/openlinker-rpc-v1/attempt-1/auth.json''"
    "filepath_join [''/c'', ''auth.json''] = ''/c/auth.json''" "is_abs ''/c''"
    by code_simp+
  have suffix: "has_suffix ''/c/auth.json'' ''auth.json''" "\<not> has_suffix ''/c'' ''auth.json''"
    "\<not> has_suffix ''/c/openlinker-rpc-v1'' ''auth.json''" "\<not> has_suffix ''/c/openlinker-rpc-v1/sessions'' ''auth.json''"
    "\<not> has_suffix ''/c/openlinker-rpc-v1/archived_sessions'' ''auth.json''"
    by code_simp+
  have env: "found_values [''CODEX_HOME=/c'', ''A=b''] = [(''A'', ''b''), (''CODEX_HOME'', ''/c'')]"
    "home_entries [''CODEX_HOME=/c'', ''A=b''] h = [''A=b'', ''CODEX_HOME='' @ h]" for h
    by code_simp+
  have exists: "errors_is err_exist err_exist" by (simp add: err_exist_def)
  show ?thesis
    by (simp add: Prepare_def env codex_source_def env_get_def prepare_state_def demo_home_os_def joins suffix exists safe_codex_home_def
        private_state_def rollout_names_def link_auth_def group_or_other_def shared_writable_def Let_def)
qed


end
