(* ===== verification/Session_Use.thy ===== *)
theory Session_Use
  imports Provider_Setup
begin

text \<open>
  How a run of either provider uses the session store, from \<open>claude.go\<close> and \<open>codex.go\<close> of
  \<open>pkg/adapters\<close>: the scope, file and client mode of its session, the id found there, saving the
  id the client gives and forgetting one it no longer knows; and the result of a successful run.
\<close>

section \<open>Looking up, saving, forgetting\<close>

record session_use =
  su_namespace :: string
  su_key :: string
  su_path :: string
  su_mode :: string
  su_reuse :: bool
  su_id :: string
  su_generation :: "64 word"

text \<open>The part of both runs that looks the session up; \<open>mark\<close> starts the client mode.\<close>

definition find_session :: "run_env \<Rightarrow> string \<Rightarrow> string \<Rightarrow> provider_config \<Rightarrow> provider_run \<Rightarrow> string \<Rightarrow> files \<Rightarrow> session_use" where
  "find_session e provider mark c r workspace fs =
     (let (namespace, key) = providerSessionScope provider (pc_session c \<noteq> None) r;
          path = store_path (re_cache e) (re_tmp e) (pc_store c) provider workspace;
          mode = mark @ providerSessionClientMode c @ skillPackageSessionMode r;
          reuse = (pc_reuse c \<and> key \<noteq> []);
          (ident, generation) = (if reuse then (case loadSessionForClientMode (re_store e) path namespace workspace key mode fs of (i, g, _) \<Rightarrow> (i, g)) else ([], 1))
      in \<lparr>su_namespace = namespace, su_key = key, su_path = path, su_mode = mode, su_reuse = reuse, su_id = ident, su_generation = generation\<rparr>)"

definition save_session ::
  "run_env \<Rightarrow> session_use \<Rightarrow> string \<Rightarrow> string \<Rightarrow> provider_run \<Rightarrow> files \<Rightarrow> go_error option \<times> files" where
  "save_session e use workspace ident r fs =
     saveSessionForClientMode (re_store e) (su_path use) (su_namespace use) workspace (su_key use) ident (su_mode use)
       (su_generation use) [r] (re_now e) fs"

definition forget_session :: "run_env \<Rightarrow> string \<Rightarrow> session_use \<Rightarrow> files \<Rightarrow> go_error option \<times> files" where
  "forget_session e workspace use fs = deleteSessionID (re_store e) (su_path use) (su_namespace use) workspace (su_key use) fs"

section \<open>Results\<close>

definition modelLabel :: "string \<Rightarrow> string" where
  "modelLabel model = or_default model ''default''"

definition success_result :: "(string \<times> json) list \<Rightarrow> string \<Rightarrow> runtime_result" where
  "success_result output summary =
     \<lparr>rr_status = ''success'', rr_output = JObj output,
      rr_events = [\<lparr>ev_type = ''run.message.delta'', ev_payload = JObj [(''text'', JStr summary)]\<rparr>], rr_error = None\<rparr>"

section \<open>Laws\<close>

lemma find_session_reuse:
  assumes "su_reuse (find_session e provider mark c r workspace fs)"
  shows "su_id (find_session e provider mark c r workspace fs') =
    fst (loadSessionForClientMode (re_store e) (su_path (find_session e provider mark c r workspace fs))
      (su_namespace (find_session e provider mark c r workspace fs)) workspace (su_key (find_session e provider mark c r workspace fs))
      (su_mode (find_session e provider mark c r workspace fs)) fs')"
  using assms by (auto simp: find_session_def Let_def split: prod.splits)

text \<open>What was saved is what the next run of the conversation finds.\<close>

lemma saved_found:
  assumes reuse: "su_reuse use" and use: "use = find_session e provider mark c r workspace fs" and calm: "calm (re_store e)"
    and wf: "store_wf (readStore (re_store e) (su_path use) fs1)"
    and valid: "valid_string (trim_space ident)" "valid_string (filepath_clean workspace)" "valid_string (su_mode use)" "valid_string (re_now e)"
    and ident: "trim_space ident \<noteq> []" and mode: "trim_space (su_mode use) = su_mode use" "su_mode use \<noteq> []"
    and save: "save_session e use workspace ident r fs1 = (None, fs2)"
  shows "su_id (find_session e provider mark c r workspace fs2) = trim_space ident"
proof -
  have v: "valid_string (trim_space (su_mode use))" "trim_space (su_mode use) \<noteq> []" using mode valid(3) by simp_all
  note saved_loads [OF calm wf valid(1,2) v(1) valid(4) ident v(2) save [unfolded save_session_def], of "su_mode use"]
  then show ?thesis using find_session_reuse [OF reuse [unfolded use], of fs2] mode(1) by (simp add: Let_def use)
qed

lemma forgotten_wf:
  assumes "forget_session e workspace use fs = (None, fs')" "calm (re_store e)" "store_wf (readStore (re_store e) (su_path use) fs)"
  shows "store_wf (readStore (re_store e) (su_path use) fs')"
  using deleted_store [OF assms(2,3)] assoc_del_wf [OF assms(3)] assms(1) by (simp add: forget_session_def)

end
