(* ===== verification/Claude_Run.thy ===== *)
theory Claude_Run
  imports Session_Use Provider_Stream
begin

text \<open>
  One run of Claude: \<open>pkg/adapters/claude.go\<close> with \<open>claudepolicy/mcp.go\<close> and the MCP
  configuration of \<open>delegation.go\<close>. The client process is a parameter: for the command it is
  started with, it gives the writes to its standard streams, the error of \<open>Cmd.Run\<close> and the
  state of the request context afterwards. The frame of \<open>Provider_Setup\<close> surrounds it. The lock
  that \<open>lockSession\<close> holds meanwhile is the subject of \<open>Session_Lock\<close>.
\<close>

section \<open>Arguments\<close>

fun builtin_tools :: "string list \<Rightarrow> string list \<Rightarrow> string list" where
  "builtin_tools ts [] = ts"
| "builtin_tools ts (rule # rules) =
     (let name = fst (str_cut CHR ''('' (trim_space rule))
      in builtin_tools (if name \<noteq> [] \<and> \<not> has_prefix name ''mcp__'' then appendUniqueString ts name else ts) rules)"

definition BuiltinTools :: "string list \<Rightarrow> bool \<Rightarrow> string list" where
  "BuiltinTools rules webSearch =
     builtin_tools [''Read'', ''Glob'', ''Grep''] rules @ (if webSearch then [''WebSearch'', ''WebFetch''] else [])"

definition MCPArgs :: "string \<Rightarrow> string \<Rightarrow> string list \<Rightarrow> string list" where
  "MCPArgs mcp settings ts =
     [''--restricted'', ''--no-chrome'', ''--disable-slash-commands'', ''--strict-mcp-config'', ''--mcp-config'', mcp,
      ''--permission-prompts'', ''none'', ''--settings'',
      (if settings = [] then json_marshal (JObj (obj_of claude_base_settings)) else settings), ''--tools'', str_join '','' ts]"

text \<open>The contract of the embedding executable, \<open>agenthost/contract.json\<close>.\<close>

definition DelegationProxyArguments :: "string \<Rightarrow> string list" where
  "DelegationProxyArguments provider = [''plugin'', ''delegation-proxy'', ''--host'', provider]"

definition claudeRunMCPConfig :: "provider_config \<Rightarrow> string" where
  "claudeRunMCPConfig c =
     json_marshal (JObj [(''mcpServers'', JObj
       (if pc_socket c = [] then []
        else [(''openlinker_delegation'',
               JObj [(''args'', json_strs (DelegationProxyArguments ''claude'')), (''command'', JStr (pc_proxy_bin c)),
                     (''env'', JObj [(SocketEnvironment, JStr (pc_socket c))]), (''type'', JStr ''stdio'')])]))])"

definition claude_mode_args :: "provider_config \<Rightarrow> native_tool_policy option \<Rightarrow> string list" where
  "claude_mode_args c policy =
     (let plain = [''--safe-mode'', ''--no-chrome'', ''--disable-slash-commands''];
          settings = (case policy of None \<Rightarrow> [] | Some p \<Rightarrow> json_marshal (np_claude p))
      in if pc_session c \<noteq> None
         then (if pc_bound_tools c \<noteq> [] then MCPArgs (claudeRunMCPConfig c) settings (nativeClaudeTools c)
               else plain @ [''--restricted'', ''--strict-mcp-config'', ''--mcp-config'', claudeRunMCPConfig c,
                             ''--permission-prompts'', ''none'', ''--settings'', settings, ''--tools'',
                             str_join '','' (nativeClaudeTools c)])
         else if pc_bound_tools c \<noteq> [] \<and> pc_targets c = []
         then MCPArgs (claudeRunMCPConfig c) [] (BuiltinTools (pc_allowed_tools c) (pc_web_search c))
         else if pc_socket c \<noteq> []
         then [''--bare'', ''--no-chrome'', ''--disable-slash-commands'', ''--strict-mcp-config'', ''--mcp-config'', claudeRunMCPConfig c]
         else plain)"

definition claude_allowed :: "provider_config \<Rightarrow> string list" where
  "claude_allowed c =
     (let path = ''/'' @ trim_suffix (pc_workspace c) ''/'' @ ''/**'';
          allowed = (if pc_session c \<noteq> None
                     then [''Bash'', ''Edit('' @ path @ '')'', ''Write('' @ path @ '')''] @ (if pc_web_search c then [''WebSearch''] else [])
                     else pc_allowed_tools c);
          allowed = (if pc_web_search c \<and> pc_session c = None then foldl appendUniqueString allowed [''WebSearch'', ''WebFetch''] else allowed)
      in if pc_socket c = [] then allowed
         else foldl appendUniqueString allowed
                (map (\<lambda>tool. ''mcp__openlinker_delegation__'' @ tool) (BoundToolNames (pc_targets c) (pc_bound_tools c))))"

definition claudeArguments :: "provider_config \<Rightarrow> native_tool_policy option \<Rightarrow> string \<Rightarrow> string \<Rightarrow> string list" where
  "claudeArguments c policy permission sessionID =
     claude_mode_args c policy
     @ [''-p'', ''--output-format'', ''stream-json'', ''--verbose'', ''--include-partial-messages'', ''--permission-mode'',
        (if pc_session c \<noteq> None then ''default'' else permission)]
     @ (if pc_model c \<noteq> [] then [''--model'', pc_model c] else [])
     @ (if claude_allowed c \<noteq> [] then [''--allowedTools'', str_join '','' (claude_allowed c)] else [])
     @ (if \<not> pc_web_search c then [''--disallowedTools'', ''WebSearch,WebFetch''] else [])
     @ (if sessionID \<noteq> [] then [''--resume'', sessionID] else [])"

section \<open>One invocation\<close>

record process_run =
  px_stdout :: "string list"
  px_stderr :: "string list"
  px_err :: "go_error option"
  px_ctx :: "go_error option"

text \<open>A client answers the \<open>n\<close>-th command it is started with.\<close>

type_synonym client = "nat \<Rightarrow> client_command \<Rightarrow> process_run"

definition claude_env :: "run_env \<Rightarrow> provider_config \<Rightarrow> string list" where
  "claude_env e c =
     (case pc_session c of
        Some s \<Rightarrow> native_host_env (re_os e) (re_user e) c s
      | None \<Rightarrow>
          processEnvironment (re_user e) (config_env e c)
            ([''ANTHROPIC_API_KEY'', ''CLAUDE_CONFIG_DIR'', ''HTTP_PROXY'', ''HTTPS_PROXY'', ''NO_PROXY'', ''NODE_EXTRA_CA_CERTS'', ''SSL_CERT_FILE'']
             @ pc_env_allowlist c)
          @ [''LC_ALL=C'', ''LANG=C'']
          @ (if pc_claude_url c \<noteq> [] then [''ANTHROPIC_BASE_URL='' @ pc_claude_url c] else []))"

definition read_claude :: "run_env \<Rightarrow> process_run \<Rightarrow> claude_stream \<times> claude_response \<times> go_error option" where
  "read_claude e px =
     (let prog = claude_progress None
      in stream_Result prog
           (foldl (stream_put prog) (newClaudeResultStream (Some (NewClaudeObserver (re_emit e \<noteq> None)))) (px_stdout px)))"

definition claude_sent :: "claude_stream \<Rightarrow> (string \<times> json) list" where
  "claude_sent s = (case cs_observer s of None \<Rightarrow> [] | Some ob \<Rightarrow> ob_sent ob)"

definition claude_failure :: "process_run \<Rightarrow> claude_response \<Rightarrow> go_error option \<Rightarrow> go_error option" where
  "claude_failure px response parseErr =
     (case px_err px of
        Some er \<Rightarrow> Some er
      | None \<Rightarrow> if cr_is_error response \<or> has_prefix (cr_subtype response) ''error''
                then Some (ErrNew ''Claude returned an unsuccessful result'') else parseErr)"

text \<open>What one attempt comes to: it ends the run, it failed with a diagnostic, or it succeeded.\<close>

datatype attempt = Stop go_error | Failed go_error string string | Done claude_response

definition claude_verdict :: "process_run \<Rightarrow> int \<Rightarrow> claude_stream \<times> claude_response \<times> go_error option \<Rightarrow> attempt" where
  "claude_verdict px timeout read =
     (case read of (s, response, parseErr) \<Rightarrow>
        if parseErr \<noteq> None \<and> cs_err s \<noteq> None then Stop (the parseErr)
        else
          (case px_ctx px of
             Some ctx \<Rightarrow> Stop (if errors_is ctx ErrDeadlineExceeded then ErrNew (''Claude timed out after '' @ duration_text (nat timeout)) else ctx)
           | None \<Rightarrow>
               (case claude_failure px response parseErr of
                  None \<Rightarrow> Done response
                | Some er \<Rightarrow>
                    (let stderr = foldl tail_put [] (px_stderr px) in Failed er (failureMessage response @ [newline] @ stderr) stderr))))"

definition claude_command ::
  "run_env \<Rightarrow> provider_config \<Rightarrow> native_tool_policy option \<Rightarrow> provider_run \<Rightarrow> string \<Rightarrow> string \<Rightarrow> string \<Rightarrow> string \<Rightarrow> string \<Rightarrow> string \<Rightarrow> files \<Rightarrow> client_command" where
  "claude_command e c policy r bin workspace path namespace key sessionID fs =
     \<lparr>cc_bin = bin, cc_args = claudeArguments c policy (or_default (pc_permission c) ''dontAsk'') sessionID,
      cc_dir = workspace, cc_env = claude_env e c,
      cc_stdin = buildPrompt ''Claude Code'' (runWithSessionHistory (re_store e) r path namespace workspace key sessionID fs)\<rparr>"

section \<open>The run\<close>

text \<open>
  At most two attempts; \<open>n\<close> is how many may follow. A session the client no longer knows is
  forgotten and the task tried once more without it.
\<close>

fun claude_loop ::
  "run_env \<Rightarrow> client \<Rightarrow> (string \<Rightarrow> files \<Rightarrow> client_command) \<Rightarrow> int \<Rightarrow> (files \<Rightarrow> go_error option \<times> files) \<Rightarrow> nat \<Rightarrow>
   claude_response \<Rightarrow> string \<Rightarrow> bool \<Rightarrow> run_state \<Rightarrow> (claude_response \<times> string \<times> bool) result \<times> run_state" where
  "claude_loop e client command timeout forget 0 response sessionID recovered st = (Inr (response, [], recovered), st)"
| "claude_loop e client command timeout forget (Suc n) response sessionID recovered st =
     (let cmd = command sessionID (rs_files st); px = client (length (rs_commands st)) cmd; read = read_claude e px;
          st1 = st\<lparr>rs_commands := rs_commands st @ [cmd], rs_events := rs_events st @ claude_sent (fst read)\<rparr>
      in case claude_verdict px timeout read of
           Stop er \<Rightarrow> (Inl er, st1)
         | Done answer \<Rightarrow> (Inr (answer, sessionID, recovered), st1)
         | Failed er diagnostic stderr \<Rightarrow>
             if sessionID \<noteq> [] \<and> n = 1 \<and> missingProviderSession diagnostic
             then (case forget (rs_files st1) of
                     (Some er2, fs) \<Rightarrow> (Inl (ErrWrap ''Claude session recovery failed: '' er2 []), st1\<lparr>rs_files := fs\<rparr>)
                   | (None, fs) \<Rightarrow> claude_loop e client command timeout forget n (fst (snd read)) [] True (st1\<lparr>rs_files := fs\<rparr>))
             else (Inl (ErrWrap ''Claude failed: '' er ('': '' @ bounded_text stderr 500 ''no diagnostic output'')), st1))"

definition id_digest :: "string \<Rightarrow> json" where
  "id_digest ident = JStr (hex_encode (sha256 ident))"

definition claude_output ::
  "provider_config \<Rightarrow> session_use \<Rightarrow> string \<Rightarrow> string \<Rightarrow> claude_response \<Rightarrow> string \<Rightarrow> bool \<Rightarrow> (string \<times> json) list" where
  "claude_output c use workspace summary response resumedID recovered =
     obj_of ([(''handled_by'', JStr ''claude''), (''claude_permission'', JStr (or_default (pc_permission c) ''dontAsk'')),
              (''claude_model'', JStr (modelLabel (pc_model c))), (''summary'', JStr summary)]
       @ (if resumedID \<noteq> [] then [(''claude_resume_session_id_sha256'', id_digest resumedID)] else [])
       @ (if cr_session response \<noteq> [] then [(''claude_session_id_sha256'', id_digest (cr_session response))] else [])
       @ (if pc_session c \<noteq> None then [(''session_isolation'', JStr ''native'')] else [])
       @ (if su_reuse use
          then [(''claude_session_reuse'', JBool True), (''claude_session_key_hash'', JStr (KeyHash (su_namespace use) workspace (su_key use))),
                (''claude_session_resumed'', JBool (su_id use \<noteq> [])), (''claude_session_recovered'', JBool recovered)]
          else []))"

text \<open>The attempts of a run with the session it uses.\<close>

definition claude_attempts ::
  "run_env \<Rightarrow> client \<Rightarrow> provider_config \<Rightarrow> native_tool_policy option \<Rightarrow> provider_run \<Rightarrow> string \<Rightarrow> string \<Rightarrow> session_use \<Rightarrow> run_state \<Rightarrow>
   (claude_response \<times> string \<times> bool) result \<times> run_state" where
  "claude_attempts e client c policy r bin workspace use st =
     claude_loop e client (claude_command e c policy r bin workspace (su_path use) (su_namespace use) (su_key use)) (run_timeout c)
       (forget_session e workspace use) 2 zero_response (su_id use) False st"

definition claude_body :: "run_env \<Rightarrow> client \<Rightarrow> client_body" where
  "claude_body e client c policy r bin workspace st =
     (let use = find_session e ''claude'' [] c r workspace (rs_files st)
      in case claude_attempts e client c policy r bin workspace use st of
           (Inl er, st1) \<Rightarrow> Some ((zero_result, Some er), st1)
         | (Inr (response, resumedID, recovered), st1) \<Rightarrow>
             (let summary = trim_space (cr_result response)
              in if summary = [] then Some ((zero_result, Some (ErrNew ''Claude completed without a final result'')), st1)
                 else
                   (case (if su_reuse use \<and> trim_space (cr_session response) \<noteq> []
                          then save_session e use workspace (cr_session response) r (rs_files st1) else (None, rs_files st1)) of
                      (Some er, fs) \<Rightarrow> Some ((zero_result, Some (sessionPersistenceError ''Claude'' er)), st1\<lparr>rs_files := fs\<rparr>)
                    | (None, fs) \<Rightarrow>
                        Some ((success_result (claude_output c use workspace summary response resumedID recovered) summary, None),
                         st1\<lparr>rs_files := fs\<rparr>))))"

definition ClaudeProvider_Run ::
  "run_env \<Rightarrow> client \<Rightarrow> provider_config \<Rightarrow> provider_run \<Rightarrow> run_state \<Rightarrow> (outcome \<times> run_state) option" where
  "ClaudeProvider_Run e client config r st = native_frame e ''claude'' ''Claude Code'' (claude_body e client) config r st"

section \<open>The loop\<close>

lemma claude_loop_held:
  "rs_held (snd (claude_loop e client command timeout forget n response sid rec st)) = rs_held st"
  by (induction n arbitrary: response sid rec st) (auto simp: Let_def split: attempt.split prod.split option.split)

lemma claude_attempts_held: "claude_attempts e client c policy r bin workspace use st = (a, st1) \<Longrightarrow> rs_held st1 = rs_held st"
  unfolding claude_attempts_def using claude_loop_held by (metis snd_conv)

lemma claude_body_held:
  assumes "claude_body e client c policy r bin workspace st = Some (out, st')"
  shows "rs_held st' = rs_held st"
proof -
  obtain a st1 where loop: "claude_attempts e client c policy r bin workspace (find_session e ''claude'' [] c r workspace (rs_files st)) st = (a, st1)"
    by (meson surj_pair)
  then show ?thesis
    using assms claude_attempts_held [OF loop]
    by (cases a) (auto simp: claude_body_def Let_def split: prod.splits option.splits if_splits)
qed

interpretation claude: native_body "claude_body e client" for e client
  by unfold_locales (rule claude_body_held)

section \<open>Attempts\<close>

text \<open>The last answer of the client, and the command that resumes a session.\<close>

definition last_answer :: "run_env \<Rightarrow> client \<Rightarrow> run_state \<Rightarrow> claude_response" where
  "last_answer e client st = fst (snd (read_claude e (client (length (rs_commands st) - 1) (last (rs_commands st)))))"

definition session_command ::
  "run_env \<Rightarrow> provider_config \<Rightarrow> native_tool_policy option \<Rightarrow> provider_run \<Rightarrow> string \<Rightarrow> string \<Rightarrow> session_use \<Rightarrow> string \<Rightarrow> files \<Rightarrow> client_command" where
  "session_command e c policy r bin workspace use sid fs =
     claude_command e c policy r bin workspace (su_path use) (su_namespace use) (su_key use) sid fs"

lemma verdict_Done:
  "claude_verdict px timeout read = Done answer \<Longrightarrow> answer = fst (snd read)"
  by (auto simp: claude_verdict_def Let_def split: prod.splits option.splits if_splits)

text \<open>The possible courses of the loop: one attempt, or a forgotten session and a second attempt without it.\<close>

lemma attempts_cases:
  assumes "claude_attempts e client c policy r bin workspace use st = (a, st1)"
  obtains (once) "rs_commands st1 = rs_commands st @ [session_command e c policy r bin workspace use (su_id use) (rs_files st)]"
      "rs_files st1 = rs_files st" "\<And>answer sid rec. a = Inr (answer, sid, rec) \<Longrightarrow> answer = last_answer e client st1 \<and> sid = su_id use \<and> \<not> rec"
  | (unforgotten) er where "rs_commands st1 = rs_commands st @ [session_command e c policy r bin workspace use (su_id use) (rs_files st)]"
      "su_id use \<noteq> []" "forget_session e workspace use (rs_files st) = (Some er, rs_files st1)"
      "a = Inl (ErrWrap ''Claude session recovery failed: '' er [])"
  | (again) fs where "rs_commands st1 = rs_commands st @ [session_command e c policy r bin workspace use (su_id use) (rs_files st),
        session_command e c policy r bin workspace use [] fs]" "su_id use \<noteq> []"
      "forget_session e workspace use (rs_files st) = (None, fs)" "rs_files st1 = fs"
      "\<And>answer sid rec. a = Inr (answer, sid, rec) \<Longrightarrow> answer = last_answer e client st1 \<and> sid = [] \<and> rec"
proof -
  let ?command = "claude_command e c policy r bin workspace (su_path use) (su_namespace use) (su_key use)"
  let ?cmd = "?command (su_id use) (rs_files st)"
  let ?px = "client (length (rs_commands st)) ?cmd"
  note defs = claude_attempts_def session_command_def last_answer_def numeral_2_eq_2 Let_def
  show thesis
  proof (cases "claude_verdict ?px (run_timeout c) (read_claude e ?px)")
    case (Stop er)
    then show thesis using assms by (intro once) (auto simp: defs)
  next
    case (Done answer)
    then show thesis using assms verdict_Done [OF Done] by (intro once) (auto simp: defs)
  next
    case (Failed er diagnostic stderr)
    show thesis
    proof (cases "su_id use \<noteq> [] \<and> missingProviderSession diagnostic")
      case False
      then show thesis using assms Failed by (intro once) (auto simp: defs)
    next
      case True
      obtain d fs where d: "forget_session e workspace use (rs_files st) = (d, fs)"
        by (meson surj_pair)
      show thesis
      proof (cases d)
        case (Some er2)
        then show thesis using assms Failed True d by (intro unforgotten) (auto simp: defs)
      next
        case None
        let ?px2 = "client (Suc (length (rs_commands st))) (?command [] fs)"
        show thesis
          using assms Failed True d None again
          by (cases "claude_verdict ?px2 (run_timeout c) (read_claude e ?px2)") (auto simp: defs dest: verdict_Done)
      qed
    qed
  qed
qed

section \<open>What a successful run reports and stores\<close>

lemma success_answer:
  assumes "claude_body e client c policy r bin workspace st = Some (out, st')" "snd out = None"
  obtains answer sid rec st1 where
    "claude_attempts e client c policy r bin workspace (find_session e ''claude'' [] c r workspace (rs_files st)) st = (Inr (answer, sid, rec), st1)"
    "fst out = success_result (claude_output c (find_session e ''claude'' [] c r workspace (rs_files st)) workspace
                 (trim_space (cr_result answer)) answer sid rec) (trim_space (cr_result answer))"
    "trim_space (cr_result answer) \<noteq> []" "rs_commands st' = rs_commands st1"
    "su_reuse (find_session e ''claude'' [] c r workspace (rs_files st)) \<and> trim_space (cr_session answer) \<noteq> [] \<Longrightarrow>
       save_session e (find_session e ''claude'' [] c r workspace (rs_files st)) workspace (cr_session answer) r (rs_files st1) = (None, rs_files st')"
proof -
  let ?use = "find_session e ''claude'' [] c r workspace (rs_files st)"
  obtain a st1 where loop: "claude_attempts e client c policy r bin workspace ?use st = (a, st1)" by (meson surj_pair)
  show thesis
  proof (cases a)
    case (Inl er)
    then show thesis using assms loop by (auto simp: claude_body_def Let_def)
  next
    case (Inr q)
    obtain answer sid rec where q: "q = (answer, sid, rec)" by (metis prod_cases3)
    show thesis
      using assms loop Inr q that [of answer sid rec st1]
      by (auto simp: claude_body_def Let_def split: if_splits option.splits prod.splits)
  qed
qed

text \<open>The store in which the run leaves off has only forgotten.\<close>

lemma attempts_store:
  assumes "claude_attempts e client c policy r bin workspace use st = (Inr q, st1)" "calm (re_store e)"
    and "store_wf (readStore (re_store e) (su_path use) (rs_files st))"
  shows "store_wf (readStore (re_store e) (su_path use) (rs_files st1))"
  using assms(1)
proof (cases rule: attempts_cases)
  case (again fs)
  then show ?thesis
    using forgotten_wf [OF _ assms(2,3)] by simp
qed (use assms in auto)


text \<open>A run whose conversation has no session yet; the client answers at once.\<close>

definition demo_run_env :: run_env where
  "demo_run_env =
     \<lparr>re_os = demo_policy_os, re_ctx = None, re_ambient = [''HOME=/h''], re_getwd = ''/w'', re_user = [], re_entries = Some [],
      re_tmp = ''/tmp'', re_cache = None, re_load = demo_load_env, re_check_ctx = (\<lambda>_. None), re_found = (\<lambda>_. True),
      re_first = None, re_permit = demo_permit, re_store = demo_fs_env, re_now = ''2024-01-01T00:00:00Z'', re_emit = None\<rparr>"

definition demo_conversation :: conversation where
  "demo_conversation = \<lparr>conv_id = [], conv_session_key = ''chat'', conv_protocol_context = [], conv_root_context = [],
     conv_current_run = ''r1'', conv_source = ''core'', conv_history = [], conv_protocol_task = [], conv_truncated = False\<rparr>"

definition demo_provider_run :: provider_run where
  "demo_provider_run = \<lparr>rc_run_id = ''r1'', rc_agent_id = ''a1'', rc_principal = Some ''p1'', rc_conversation = Some demo_conversation,
     rc_packages_loaded = False, pr_mcp = JNull, pr_bound_tools = [], pr_bound_digest = [], pr_packages = None,
     pr_packages_digest = [], pr_loaded = [], pr_socket = [], pr_proxy_bin = [], pr_input = JStr ''hello'', pr_metadata = None, pr_a2a = None\<rparr>"

definition demo_state :: run_state where
  "demo_state = \<lparr>rs_held = [], rs_files = (\<lambda>_. None), rs_cache = demo_cache, rs_home = [], rs_events = [], rs_commands = []\<rparr>"

definition demo_reuse :: provider_config where
  "demo_reuse = empty_provider\<lparr>pc_reuse := True, pc_store := ''/s/map.json'', pc_workspace := ''/w''\<rparr>"

definition demo_process :: process_run where
  "demo_process = \<lparr>px_stdout = [''{\"type\":\"result\",\"result\":\"hi\",\"session_id\":\" id-1 \"}'' @ [newline]], px_stderr = [], px_err = None, px_ctx = None\<rparr>"

definition demo_answer :: claude_response where
  "demo_answer = \<lparr>cr_type = ''result'', cr_subtype = [], cr_is_error = False, cr_result = ''hi'', cr_errors = [], cr_session = '' id-1 ''\<rparr>"

definition demo_line :: string where
  "demo_line = ''{\"type\":\"result\",\"result\":\"hi\",\"session_id\":\" id-1 \"}''"

lemma demo_line_facts:
  "str_cut newline (demo_line @ [newline]) = (demo_line, [], True)" "trim_space demo_line = demo_line" "demo_line \<noteq> []"
  "Option.bind (json_parse demo_line) (decode_struct False response_fields zero_response) = Some demo_answer" "cr_type demo_answer = ''result''"
  by code_simp+

lemma demo_claude_reads:
  "read_claude demo_run_env demo_process =
     ((newClaudeResultStream (Some (NewClaudeObserver False)))\<lparr>cs_result := demo_answer, cs_found := True\<rparr>, demo_answer, None)"
proof -
  have len: "length demo_line < MaxBytes" by (simp add: demo_line_def MaxBytes_def)
  show ?thesis
    using len demo_line_facts
    by (simp add: read_claude_def demo_run_env_def demo_process_def demo_line_def [symmetric] stream_put_def stream_Write_def write_lines.simps
        consume_def Let_def stream_Result_def newClaudeResultStream_def trim_space_def [of "[]"])
qed

lemma demo_use:
  "\<exists>k. k \<noteq> [] \<and> find_session demo_run_env ''claude'' [] demo_reuse demo_provider_run ''/w'' fs =
     \<lparr>su_namespace = ''claude/principal-v1'', su_key = k, su_path = ''/s/map.json'', su_mode = ''standard'', su_reuse = True,
      su_id = fst (loadSessionForClientMode demo_fs_env ''/s/map.json'' ''claude/principal-v1'' ''/w'' k ''standard'' fs),
      su_generation = fst (snd (loadSessionForClientMode demo_fs_env ''/s/map.json'' ''claude/principal-v1'' ''/w'' k ''standard'' fs))\<rparr>"
proof -
  have trims: "trim_space ''p1'' = ''p1''" "trim_space ''a1'' = ''a1''" "trim_space ''chat'' = ''chat''" "trim_space ''/s/map.json'' = ''/s/map.json''"
    by code_simp+
  have "Scope ps \<noteq> []" for ps using Scope_plain(2) [of ps] by auto
  then show ?thesis
    by (auto simp: find_session_def demo_reuse_def demo_provider_run_def demo_conversation_def demo_run_env_def providerSessionScope_def Let_def
        trims store_path_def empty_provider_def providerSessionClientMode_def delegationSessionMode_def skillPackageSessionMode_def SessionMode_def
        split: prod.splits)
qed

lemma demo_claude_run:
  "\<exists>fs. claude_body demo_run_env (\<lambda>_ _. demo_process) demo_reuse None demo_provider_run ''claude'' ''/w'' demo_state =
     (let use = find_session demo_run_env ''claude'' [] demo_reuse demo_provider_run ''/w'' (\<lambda>_. None)
      in Some ((success_result (claude_output demo_reuse use ''/w'' ''hi'' demo_answer [] False) ''hi'', None),
           demo_state\<lparr>rs_commands := [session_command demo_run_env demo_reuse None demo_provider_run ''claude'' ''/w'' use [] (\<lambda>_. None)],
                      rs_files := fs\<rparr>))"
proof -
  let ?use = "find_session demo_run_env ''claude'' [] demo_reuse demo_provider_run ''/w'' (\<lambda>_. None)"
  have load: "loadSessionForClientMode demo_fs_env path p ''/w'' k ''standard'' (\<lambda>_. None) = ([], 1, False)" for path p k
    by (simp add: loadSessionForClientMode_def demo_reads)
  obtain k where use: "?use = \<lparr>su_namespace = ''claude/principal-v1'', su_key = k, su_path = ''/s/map.json'', su_mode = ''standard'',
      su_reuse = True, su_id = [], su_generation = 1\<rparr>"
    using demo_use [of "\<lambda>_. None"] load by auto
  have verdict: "claude_verdict demo_process t (read_claude demo_run_env demo_process) = Done demo_answer" for t
    unfolding demo_claude_reads
    by (simp add: claude_verdict_def demo_process_def claude_failure_def demo_answer_def)
  have sent: "claude_sent (fst (read_claude demo_run_env demo_process)) = []"
    by (simp add: demo_claude_reads claude_sent_def newClaudeResultStream_def NewClaudeObserver_def)
  have attempts: "claude_attempts demo_run_env (\<lambda>_ _. demo_process) demo_reuse None demo_provider_run ''claude'' ''/w'' ?use demo_state =
      (Inr (demo_answer, [], False), demo_state\<lparr>rs_commands := [session_command demo_run_env demo_reuse None demo_provider_run ''claude'' ''/w'' ?use [] (\<lambda>_. None)]\<rparr>)"
    unfolding use by (simp add: claude_attempts_def numeral_2_eq_2 Let_def verdict sent session_command_def demo_state_def)
  have "remember_runs [] [demo_provider_run] = []" by (simp add: demo_provider_run_def demo_conversation_def)
  from demo_saves [OF this, of "''/s/map.json''" "''claude/principal-v1''" k]
  obtain fs where save: "save_session demo_run_env ?use ''/w'' '' id-1 '' demo_provider_run (\<lambda>_. None) = (None, fs)"
    unfolding use by (auto simp: save_session_def demo_run_env_def saveSessionForClientMode_def)
  have "trim_space ''hi'' = ''hi''" by code_simp
  then show ?thesis
    using attempts save
    by (auto simp: claude_body_def Let_def demo_answer_def demo_trims use demo_state_def)
qed


end
