(* ===== verification/Codex_Launch.thy ===== *)
theory Codex_Launch
  imports Codex_Home Claude_Run
begin

text \<open>
  How a Codex process is launched, in \<open>pkg/adapters\<close>: its configuration arguments
  (\<open>codex.go\<close>, \<open>codex_rpc.go\<close>, \<open>delegation.go\<close>), the native command
  (\<open>codexturn/native.go\<close>) and the helper programs that its Linux sandbox may read
  (\<open>codex_runtime_files.go\<close>).
\<close>

section \<open>Quoting\<close>

text \<open>
  \<open>strconv.Quote\<close>, for \<open>%q\<close>. Which runes above ASCII are printable is the Unicode table of the
  library, the parameter \<open>isprint\<close> on their code points.
\<close>

definition rune_code :: "string \<Rightarrow> nat" where
  "rune_code r =
     (case r of
        [a] \<Rightarrow> byte a
      | [a, b] \<Rightarrow> (byte a - 192) * 64 + (byte b - 128)
      | [a, b, c] \<Rightarrow> (byte a - 224) * 4096 + (byte b - 128) * 64 + (byte c - 128)
      | [a, b, c, d] \<Rightarrow> (byte a - 240) * 262144 + (byte b - 128) * 4096 + (byte c - 128) * 64 + (byte d - 128)
      | _ \<Rightarrow> 65533)"

fun hex_text :: "nat \<Rightarrow> nat \<Rightarrow> string" where
  "hex_text 0 v = []"
| "hex_text (Suc n) v = hex_text n (v div 16) @ [hex_digit (v mod 16)]"

definition quote_ascii :: "char \<Rightarrow> string" where
  "quote_ascii c =
     (if c = CHR 0x22 \<or> c = CHR 0x5C then [CHR 0x5C, c]
      else if byte c = 7 then [CHR 0x5C, CHR ''a''] else if byte c = 8 then [CHR 0x5C, CHR ''b'']
      else if byte c = 12 then [CHR 0x5C, CHR ''f''] else if byte c = 10 then [CHR 0x5C, CHR ''n'']
      else if byte c = 13 then [CHR 0x5C, CHR ''r''] else if byte c = 9 then [CHR 0x5C, CHR ''t'']
      else if byte c = 11 then [CHR 0x5C, CHR ''v'']
      else if 32 \<le> byte c \<and> byte c < 127 then [c]
      else [CHR 0x5C, CHR ''x''] @ hex_text 2 (byte c))"

definition quote_rune :: "(nat \<Rightarrow> bool) \<Rightarrow> string \<Rightarrow> string" where
  "quote_rune isprint r =
     (case r of
        [c] \<Rightarrow> quote_ascii c
      | _ \<Rightarrow> if isprint (rune_code r) then r
             else if rune_code r < 65536 then [CHR 0x5C, CHR ''u''] @ hex_text 4 (rune_code r)
             else [CHR 0x5C, CHR ''U''] @ hex_text 8 (rune_code r))"

text \<open>A byte that starts no encoding is one rune of its own, printed in hexadecimal.\<close>

function quote_runes :: "(nat \<Rightarrow> bool) \<Rightarrow> string \<Rightarrow> string" where
  "quote_runes isprint [] = []"
| "quote_runes isprint (c # s) =
     (let n = rune_width (c # s)
      in if n = 0 then quote_ascii c @ quote_runes isprint s
         else quote_rune isprint (take n (c # s)) @ quote_runes isprint (drop n (c # s)))"
  by pat_completeness auto
termination
  by (relation "measure (\<lambda>(_, s). length s)") auto

definition go_quote :: "(nat \<Rightarrow> bool) \<Rightarrow> string \<Rightarrow> string" where
  "go_quote isprint s = CHR 0x22 # quote_runes isprint s @ [CHR 0x22]"

section \<open>Configuration arguments\<close>

definition opt_c :: "string \<Rightarrow> string list" where
  "opt_c v = [''-c'', v]"

definition codexLaunchConfiguration :: "run_env \<Rightarrow> (nat \<Rightarrow> bool) \<Rightarrow> provider_config \<Rightarrow> string \<Rightarrow> string list" where
  "codexLaunchConfiguration e isprint c sandbox =
     (let approval = trim_space (pc_codex_approval c); url = trim_space (pc_codex_url c)
      in (if approval \<noteq> [] then opt_c (''approval_policy='' @ go_quote isprint approval) else [])
         @ (if pc_web_search c then opt_c (''web_search='' @ dq ''live'') else opt_c (''web_search='' @ dq ''disabled''))
         @ (if url \<noteq> []
            then opt_c (''model_provider='' @ dq ''openlinker_proxy'')
                 @ opt_c (''model_providers.openlinker_proxy.name='' @ dq ''OpenLinker-compatible provider'')
                 @ opt_c (''model_providers.openlinker_proxy.base_url='' @ go_quote isprint url)
                 @ opt_c (''model_providers.openlinker_proxy.env_key='' @ dq ''CODEX_API_KEY'')
                 @ opt_c (''model_providers.openlinker_proxy.wire_api='' @ dq ''responses'')
                 @ opt_c ''model_providers.openlinker_proxy.supports_websockets=false''
            else [])
         @ (if sandbox = ''danger-full-access''
            then opt_c (''shell_environment_policy.inherit='' @ dq ''none'')
                 @ opt_c (''shell_environment_policy.set='' @ codexCommandEnvironment (config_env e c))
            else []))"

definition codexDelegationMCPArguments :: "provider_config \<Rightarrow> string list" where
  "codexDelegationMCPArguments c =
     (if pc_socket c = [] then []
      else
        opt_c (''mcp_servers.openlinker_delegation.command='' @ json_quote (pc_proxy_bin c))
        @ opt_c (''mcp_servers.openlinker_delegation.args='' @ json_marshal (json_strs (DelegationProxyArguments ''codex'')))
        @ opt_c (''mcp_servers.openlinker_delegation.env_vars=['' @ dq SocketEnvironment @ '']'')
        @ opt_c ''mcp_servers.openlinker_delegation.required=true''
        @ opt_c (''mcp_servers.openlinker_delegation.enabled_tools='' @ json_marshal (json_strs (BoundToolNames (pc_targets c) (pc_bound_tools c))))
        @ opt_c (''mcp_servers.openlinker_delegation.default_tools_approval_mode='' @ dq ''approve''))"

definition codexAppServerArguments ::
  "run_env \<Rightarrow> (nat \<Rightarrow> bool) \<Rightarrow> provider_config \<Rightarrow> native_tool_policy option \<Rightarrow> string \<Rightarrow> string \<Rightarrow> string list" where
  "codexAppServerArguments e isprint c policy workspace sandbox =
     codexLaunchConfiguration e isprint c sandbox
     @ [''--disable'', ''remote_plugin'', ''--disable'', ''remote_control'', ''--disable'', ''hooks'', ''--disable'', ''apps'',
        ''--disable'', ''plugins'']
     @ (case policy of Some p \<Rightarrow> np_codex p | None \<Rightarrow> opt_c (''cli_auth_credentials_store='' @ dq ''file''))
     @ codexDelegationMCPArguments c
     @ opt_c (''projects={'' @ json_quote workspace @ ''={trust_level='' @ dq ''untrusted'' @ ''}}'')
     @ [''app-server'', ''--listen'', ''stdio://'']"

section \<open>The native command\<close>

text \<open>\<open>lo_getwd\<close> is the directory \<open>filepath.Abs\<close> starts from, \<open>lo_eval\<close> is \<open>EvalSymlinks\<close>.\<close>

record launch_os =
  lo_getwd :: "string result"
  lo_eval :: "string \<Rightarrow> string result"
  lo_home :: home_os

record native_command =
  nc_command :: client_command
  nc_workspace :: string
  nc_cleanup :: "string option"

definition go_abs :: "launch_os \<Rightarrow> string \<Rightarrow> string result" where
  "go_abs os p =
     (if is_abs p then Inr (filepath_clean p)
      else (case lo_getwd os of Inl er \<Rightarrow> Inl er | Inr d \<Rightarrow> Inr (filepath_join [d, p])))"

definition codex_names :: "string list" where
  "codex_names = [''CODEX_API_KEY'', ''CODEX_HOME'', ''HTTP_PROXY'', ''HTTPS_PROXY'', ''NO_PROXY'', ''ALL_PROXY'', ''CODEX_CA_CERTIFICATE'', ''SSL_CERT_FILE'']"

definition codex_environment ::
  "launch_os \<Rightarrow> string \<Rightarrow> string list \<Rightarrow> string list \<Rightarrow> (string list \<times> string option) result \<times> home_act list" where
  "codex_environment os user environment allowlist =
     (let launcher = (LauncherEnvironment @ ''=1'' \<in> set environment);
          env = processEnvironment user environment (codex_names @ allowlist) @ [''LC_ALL=C'', ''LANG=C'']
      in if launcher then (Inr (env @ [PrepareEnvironment @ ''=1''], None), [])
         else
           (case Prepare (lo_home os) env of
              (Inl er, acts) \<Rightarrow> (Inl er, acts)
            | (Inr (env', home), acts) \<Rightarrow> (Inr (env', Some home), acts)))"

definition PrepareNative ::
  "launch_os \<Rightarrow> string \<Rightarrow> string \<Rightarrow> string \<Rightarrow> (string \<Rightarrow> string list) \<Rightarrow> string list \<Rightarrow> string list \<Rightarrow> native_command result \<times> home_act list" where
  "PrepareNative os user bin workspace arguments environment allowlist =
     (case go_abs os workspace of
        Inl er \<Rightarrow> (Inl (ErrWrap ''resolve Codex workspace: '' er []), [])
      | Inr absolute \<Rightarrow>
          (case lo_eval os absolute of
             Inl er \<Rightarrow> (Inl (ErrWrap ''resolve Codex workspace: '' er []), [])
           | Inr real \<Rightarrow>
               (case codex_environment os user environment allowlist of
                  (Inl er, acts) \<Rightarrow> (Inl er, acts)
                | (Inr (env, cleanup), acts) \<Rightarrow>
                    (Inr \<lparr>nc_command = \<lparr>cc_bin = bin, cc_args = arguments real, cc_dir = real, cc_env = env, cc_stdin = []\<rparr>,
                          nc_workspace = real, nc_cleanup = cleanup\<rparr>, acts))))"

section \<open>Helper programs of the Linux sandbox\<close>

text \<open>
  A directory entry with what \<open>Info\<close> says of it: whether it is regular, and its size;
  \<open>gr_lstat\<close> says whether a path is a symbolic link, \<open>gr_stat\<close> whether its target is regular
  and with which permissions.
\<close>

record alias_entry =
  ae_name :: string
  ae_dir :: bool
  ae_info :: "(bool \<times> nat) option"

record grant_os =
  gr_list :: "string \<Rightarrow> alias_entry list result"
  gr_lstat :: "string \<Rightarrow> bool result"
  gr_stat :: "string \<Rightarrow> (bool \<times> nat) result"
  gr_eval :: "string \<Rightarrow> string option"

definition helper_names :: "string list" where
  "helper_names = [''codex-linux-sandbox'', ''codex-execve-wrapper'', ''apply_patch'', ''applypatch'']"

definition entry_error :: "alias_entry \<Rightarrow> go_error option" where
  "entry_error x =
     (if ae_name x \<in> set helper_names then None
      else if ae_name x = ''.lock''
      then (if ae_info x = Some (True, 0) then None else Some (ErrNew ''unsafe Codex sandbox helper lock''))
      else Some (ErrNew ''Codex helper directory contains unexpected data''))"

fun entries_error :: "alias_entry list \<Rightarrow> go_error option" where
  "entries_error [] = None"
| "entries_error (x # xs) = (case entry_error x of Some er \<Rightarrow> Some er | None \<Rightarrow> entries_error xs)"

definition executable :: "nat \<Rightarrow> bool" where
  "executable perm = (odd (perm div 64) \<or> odd (perm div 8) \<or> odd perm)"

text \<open>One helper of an alias directory: absent, refused, or resolved to its program.\<close>

definition grant_helper :: "grant_os \<Rightarrow> string \<Rightarrow> string option result" where
  "grant_helper os path =
     (case gr_lstat os path of
        Inl er \<Rightarrow> if errors_is er err_not_exist then Inr None else Inl (ErrNew ''unsafe Codex runtime helper'')
      | Inr link \<Rightarrow>
          if \<not> link then Inl (ErrNew ''unsafe Codex runtime helper'')
          else
            (case gr_stat os path of
               Inl er \<Rightarrow> if errors_is er err_not_exist then Inr None else Inl (ErrNew ''Codex runtime helper is not executable code'')
             | Inr (regular, perm) \<Rightarrow>
                 if \<not> regular \<or> \<not> executable perm then Inl (ErrNew ''Codex runtime helper is not executable code'')
                 else
                   (case gr_eval os path of
                      None \<Rightarrow> Inl (ErrNew ''cannot resolve Codex helper executable'')
                    | Some target \<Rightarrow> Inr (Some target))))"

fun grant_helpers ::
  "grant_os \<Rightarrow> string \<Rightarrow> string \<Rightarrow> string list \<Rightarrow> env_map \<Rightarrow> bool \<Rightarrow> bool \<Rightarrow> (env_map \<times> bool \<times> bool) result" where
  "grant_helpers os root dir [] fs active found = Inr (fs, active, found)"
| "grant_helpers os root dir (name # names) fs active found =
     (case grant_helper os (filepath_join [root, dir, name]) of
        Inl er \<Rightarrow> Inl er
      | Inr None \<Rightarrow> grant_helpers os root dir names fs active found
      | Inr (Some target) \<Rightarrow>
          grant_helpers os root dir names (obj_put target ''read'' fs) True (found \<or> name = ''codex-linux-sandbox''))"

fun grant_dirs :: "grant_os \<Rightarrow> string \<Rightarrow> alias_entry list \<Rightarrow> env_map \<Rightarrow> bool \<Rightarrow> (env_map \<times> bool) result" where
  "grant_dirs os root [] fs found = Inr (fs, found)"
| "grant_dirs os root (d # ds) fs found =
     (if \<not> ae_dir d \<or> \<not> has_prefix (ae_name d) ''codex-arg0'' then grant_dirs os root ds fs found
      else
        (let dir = filepath_join [root, ae_name d]
         in case gr_list os dir of
              Inl er \<Rightarrow> if errors_is er err_not_exist then grant_dirs os root ds fs found
                        else Inl (ErrNew ''cannot inspect Codex sandbox helper directory'')
            | Inr entries \<Rightarrow>
                (case entries_error entries of
                   Some er \<Rightarrow> Inl er
                 | None \<Rightarrow>
                     (case grant_helpers os root (ae_name d) helper_names fs False found of
                        Inl er \<Rightarrow> Inl er
                      | Inr (fs1, active, found1) \<Rightarrow>
                          grant_dirs os root ds (if active then obj_put dir ''read'' fs1 else fs1) found1))))"

definition alias_root :: "string list \<Rightarrow> string" where
  "alias_root env =
     (let values = env_values env; config = env_get values ''CODEX_HOME''
      in filepath_join [if config = [] then filepath_join [env_get values ''HOME'', ''.codex''] else config, ''tmp'', ''arg0''])"

text \<open>The table that replaces the filesystem permissions of the session.\<close>

definition codexRuntimeFileGrants :: "grant_os \<Rightarrow> string list \<Rightarrow> env_map \<Rightarrow> env_map result" where
  "codexRuntimeFileGrants os env base =
     (let root = alias_root env
      in case gr_list os root of
           Inl _ \<Rightarrow> Inl (ErrNew ''cannot resolve Codex sandbox helper aliases'')
         | Inr dirs \<Rightarrow>
             if 1024 < length dirs then Inl (ErrNew ''cannot resolve Codex sandbox helper aliases'')
             else
               (case grant_dirs os root dirs base False of
                  Inl er \<Rightarrow> Inl er
                | Inr (fs, found) \<Rightarrow>
                    if \<not> found then Inl (ErrNew ''Codex did not create its required Linux sandbox helper'') else Inr fs))"

definition grant_override :: "env_map \<Rightarrow> (string \<times> json) list" where
  "grant_override fs = [(''permissions.openlinker_session.filesystem'', JObj (map (\<lambda>(k, v). (k, JStr v)) fs))]"

section \<open>What is granted\<close>

text \<open>A path the table may add: the program behind a helper link, or an alias directory holding nothing else.\<close>

definition granted_path :: "grant_os \<Rightarrow> string \<Rightarrow> string \<Rightarrow> bool" where
  "granted_path os root p =
     ((\<exists>d name perm. name \<in> set helper_names \<and> gr_eval os (filepath_join [root, d, name]) = Some p
         \<and> gr_lstat os (filepath_join [root, d, name]) = Inr True
         \<and> gr_stat os (filepath_join [root, d, name]) = Inr (True, perm) \<and> executable perm)
      \<or> (\<exists>d entries. has_prefix d ''codex-arg0'' \<and> p = filepath_join [root, d] \<and> gr_list os p = Inr entries
           \<and> list_all (\<lambda>x. ae_name x \<in> set helper_names \<or> (ae_name x = ''.lock'' \<and> ae_info x = Some (True, 0))) entries))"

text \<open>\<open>fs\<close> differs from \<open>base\<close> only by read access to such paths.\<close>

definition grants_from :: "grant_os \<Rightarrow> string \<Rightarrow> env_map \<Rightarrow> env_map \<Rightarrow> bool" where
  "grants_from os root base fs =
     (\<forall>p. map_of fs p = map_of base p \<or> (map_of fs p = Some ''read'' \<and> granted_path os root p))"

lemma grant_helper_target:
  assumes "grant_helper os path = Inr (Some target)"
  shows "gr_eval os path = Some target \<and> gr_lstat os path = Inr True \<and> (\<exists>perm. gr_stat os path = Inr (True, perm) \<and> executable perm)"
  using assms by (auto simp: grant_helper_def split: sum.splits if_splits prod.splits option.splits)

lemma grants_from_put: "grants_from os root base fs \<Longrightarrow> granted_path os root p \<Longrightarrow> grants_from os root base (obj_put p ''read'' fs)"
  by (auto simp: grants_from_def map_of_obj_put)

lemma grant_helpers_from:
  "grant_helpers os root d names fs active found = Inr (fs', active', found') \<Longrightarrow> set names \<subseteq> set helper_names \<Longrightarrow>
     grants_from os root base fs \<Longrightarrow> grants_from os root base fs'"
proof (induction names arbitrary: fs active found)
  case (Cons name names)
  show ?case
  proof (cases "grant_helper os (filepath_join [root, d, name])")
    case (Inr t)
    then show ?thesis
    proof (cases t)
      case (Some target)
      have "granted_path os root target"
        using grant_helper_target [OF Inr [unfolded Some]] Cons.prems(2) by (auto simp: granted_path_def)
      then show ?thesis using Cons Inr Some grants_from_put by simp
    qed (use Cons Inr in simp)
  qed (use Cons in simp)
qed simp

lemma entries_error_None:
  "entries_error xs = None \<Longrightarrow> list_all (\<lambda>x. ae_name x \<in> set helper_names \<or> (ae_name x = ''.lock'' \<and> ae_info x = Some (True, 0))) xs"
  by (induction xs) (auto simp: entry_error_def split: option.splits if_splits)

lemma grant_dirs_from:
  "grant_dirs os root ds fs found = Inr (fs', found') \<Longrightarrow> grants_from os root base fs \<Longrightarrow> grants_from os root base fs'"
proof (induction ds arbitrary: fs found)
  case (Cons d ds)
  let ?dir = "filepath_join [root, ae_name d]"
  show ?case
  proof (cases "ae_dir d \<and> has_prefix (ae_name d) ''codex-arg0''")
    case True
    show ?thesis
    proof (cases "gr_list os ?dir")
      case (Inl er)
      then show ?thesis using Cons True by (auto simp: Let_def split: if_splits)
    next
      case (Inr entries)
      then obtain fs1 active found1 where h: "grant_helpers os root (ae_name d) helper_names fs False found = Inr (fs1, active, found1)"
          "entries_error entries = None"
          "grant_dirs os root ds (if active then obj_put ?dir ''read'' fs1 else fs1) found1 = Inr (fs', found')"
        using Cons.prems True by (auto simp: Let_def split: option.splits sum.splits)
      have "granted_path os root ?dir" using entries_error_None [OF h(2)] Inr True by (auto simp: granted_path_def)
      then show ?thesis
        using Cons.IH [OF h(3)] grant_helpers_from [OF h(1) subset_refl Cons.prems(2)] grants_from_put by auto
    qed
  qed (use Cons in auto)
qed simp

text \<open>The sandbox helper was found in an alias directory.\<close>

definition sandbox_found :: "grant_os \<Rightarrow> string \<Rightarrow> bool" where
  "sandbox_found os root =
     (\<exists>d target. has_prefix d ''codex-arg0'' \<and> grant_helper os (filepath_join [root, d, ''codex-linux-sandbox'']) = Inr (Some target))"

lemma grant_helpers_found:
  "grant_helpers os root d names fs active found = Inr (fs', active', True) \<Longrightarrow>
     found \<or> (\<exists>target. grant_helper os (filepath_join [root, d, ''codex-linux-sandbox'']) = Inr (Some target))"
proof (induction names arbitrary: fs active found)
  case (Cons name names)
  show ?case
  proof (cases "grant_helper os (filepath_join [root, d, name])")
    case (Inr t)
    then show ?thesis
    proof (cases t)
      case None
      then show ?thesis using Cons.prems Cons.IH [of fs active found] Inr by simp
    next
      case (Some target)
      then show ?thesis
        using Cons.prems Cons.IH [of "obj_put target ''read'' fs" True "found \<or> name = ''codex-linux-sandbox''"] Inr
        by (cases "name = ''codex-linux-sandbox''") simp_all
    qed
  qed (use Cons in simp)
qed simp

lemma grant_dirs_found: "grant_dirs os root ds fs found = Inr (fs', True) \<Longrightarrow> found \<or> sandbox_found os root"
proof (induction ds arbitrary: fs found)
  case (Cons d ds)
  show ?case
  proof (cases "ae_dir d \<and> has_prefix (ae_name d) ''codex-arg0''")
    case True
    show ?thesis
    proof (cases "gr_list os (filepath_join [root, ae_name d])")
      case (Inl er)
      then show ?thesis using Cons True by (auto simp: Let_def split: if_splits)
    next
      case (Inr entries)
      then obtain fs1 active found1 where h: "grant_helpers os root (ae_name d) helper_names fs False found = Inr (fs1, active, found1)"
          "grant_dirs os root ds (if active then obj_put (filepath_join [root, ae_name d]) ''read'' fs1 else fs1) found1 = Inr (fs', True)"
        using Cons.prems True by (auto simp: Let_def split: option.splits sum.splits)
      have "found1 \<Longrightarrow> found \<or> sandbox_found os root"
        using grant_helpers_found [of os root "ae_name d" helper_names fs False found fs1 active] h(1) True by (auto simp: sandbox_found_def)
      then show ?thesis using Cons.IH [OF h(2)] by blast
    qed
  qed (use Cons in auto)
qed simp

text \<open>
  The filesystem table handed to the Linux sandbox of Codex differs from the session's policy
  only by read access to programs behind executable helper links and to alias directories that
  hold nothing but such links and an empty lock, and it is handed over only when the sandbox helper
  itself is among them.
\<close>

theorem codex_grants_closed:
  assumes "codexRuntimeFileGrants os env base = Inr fs"
  shows "grants_from os (alias_root env) base fs \<and> sandbox_found os (alias_root env)"
proof -
  obtain dirs where d: "grant_dirs os (alias_root env) dirs base False = Inr (fs, True)"
    using assms by (auto simp: codexRuntimeFileGrants_def Let_def split: sum.splits if_splits)
  have "grants_from os (alias_root env) base base" by (simp add: grants_from_def)
  then show ?thesis using grant_dirs_from [OF d] grant_dirs_found [OF d] by simp
qed

definition demo_grant_os :: grant_os where
  "demo_grant_os =
     \<lparr>gr_list = (\<lambda>p. if has_suffix p ''arg0'' then Inr [\<lparr>ae_name = ''codex-arg0x'', ae_dir = True, ae_info = None\<rparr>]
                    else Inr [\<lparr>ae_name = ''.lock'', ae_dir = False, ae_info = Some (True, 0)\<rparr>]),
      gr_lstat = (\<lambda>p. if has_suffix p ''codex-linux-sandbox'' then Inr True else Inl err_not_exist),
      gr_stat = (\<lambda>_. Inr (True, 73)), gr_eval = (\<lambda>_. Some ''/bin/codex'')\<rparr>"

theorem codex_grants_closed_witness:
  "\<exists>fs. codexRuntimeFileGrants demo_grant_os [''HOME=/h''] [(''/w'', ''write'')] = Inr fs
     \<and> map_of fs ''/bin/codex'' = Some ''read'' \<and> grants_from demo_grant_os (alias_root [''HOME=/h'']) [(''/w'', ''write'')] fs"
proof -
  have root: "alias_root [''HOME=/h''] = ''/h/.codex/tmp/arg0''" by code_simp
  have joins: "filepath_join [''/h/.codex/tmp/arg0'', ''codex-arg0x''] = ''/h/.codex/tmp/arg0/codex-arg0x''"
    "filepath_join [''/h/.codex/tmp/arg0'', ''codex-arg0x'', ''codex-linux-sandbox''] = ''/h/.codex/tmp/arg0/codex-arg0x/codex-linux-sandbox''"
    "filepath_join [''/h/.codex/tmp/arg0'', ''codex-arg0x'', ''codex-execve-wrapper''] = ''/h/.codex/tmp/arg0/codex-arg0x/codex-execve-wrapper''"
    "filepath_join [''/h/.codex/tmp/arg0'', ''codex-arg0x'', ''apply_patch''] = ''/h/.codex/tmp/arg0/codex-arg0x/apply_patch''"
    "filepath_join [''/h/.codex/tmp/arg0'', ''codex-arg0x'', ''applypatch''] = ''/h/.codex/tmp/arg0/codex-arg0x/applypatch''"
    by code_simp+
  have suffixes: "has_suffix ''/h/.codex/tmp/arg0'' ''arg0''" "\<not> has_suffix ''/h/.codex/tmp/arg0/codex-arg0x'' ''arg0''"
    "has_suffix ''/h/.codex/tmp/arg0/codex-arg0x/codex-linux-sandbox'' ''codex-linux-sandbox''"
    "\<not> has_suffix ''/h/.codex/tmp/arg0/codex-arg0x/codex-execve-wrapper'' ''codex-linux-sandbox''"
    "\<not> has_suffix ''/h/.codex/tmp/arg0/codex-arg0x/apply_patch'' ''codex-linux-sandbox''"
    "\<not> has_suffix ''/h/.codex/tmp/arg0/codex-arg0x/applypatch'' ''codex-linux-sandbox''" "has_prefix ''codex-arg0x'' ''codex-arg0''"
    by code_simp+
  have list: "gr_list demo_grant_os ''/h/.codex/tmp/arg0'' = Inr [\<lparr>ae_name = ''codex-arg0x'', ae_dir = True, ae_info = None\<rparr>]"
    "gr_list demo_grant_os ''/h/.codex/tmp/arg0/codex-arg0x'' = Inr [\<lparr>ae_name = ''.lock'', ae_dir = False, ae_info = Some (True, 0)\<rparr>]"
    unfolding demo_grant_os_def using suffixes by simp_all
  have helper: "grant_helper demo_grant_os p = Inr (if has_suffix p ''codex-linux-sandbox'' then Some ''/bin/codex'' else None)" for p
    by (simp add: grant_helper_def demo_grant_os_def executable_def err_not_exist_def)
  have entries: "entry_error \<lparr>ae_name = ''.lock'', ae_dir = False, ae_info = Some (True, 0)\<rparr> = None" by (simp add: entry_error_def)
  have "\<exists>fs active. grant_helpers demo_grant_os ''/h/.codex/tmp/arg0'' ''codex-arg0x'' helper_names [(''/w'', ''write'')] False False = Inr (fs, active, True)
      \<and> map_of fs ''/bin/codex'' = Some ''read''"
    using suffixes by (auto simp: helper_names_def helper joins map_of_obj_put)
  then obtain fs active where "grant_helpers demo_grant_os ''/h/.codex/tmp/arg0'' ''codex-arg0x'' helper_names [(''/w'', ''write'')] False False = Inr (fs, active, True)"
      "map_of fs ''/bin/codex'' = Some ''read''" by blast
  then have "\<exists>fs. codexRuntimeFileGrants demo_grant_os [''HOME=/h''] [(''/w'', ''write'')] = Inr fs \<and> map_of fs ''/bin/codex'' = Some ''read''"
    using suffixes by (simp add: codexRuntimeFileGrants_def root list joins entries Let_def map_of_obj_put)
  then show ?thesis using codex_grants_closed by blast
qed

end
