(* ===== verification/Codex_Run.thy ===== *)
theory Codex_Run
  imports Codex_Launch Codex_Turn
begin

text \<open>
  One run of Codex: \<open>CodexProvider.Run\<close> of \<open>pkg/adapters/codex.go\<close> and \<open>runCodexRPC\<close> of
  \<open>codex_rpc.go\<close>, composed from the frame of \<open>Provider_Setup\<close>, the launch of
  \<open>Codex_Launch\<close>, the turn of \<open>Codex_Turn\<close> and the session store. The app-server process is a
  parameter: it gives, for the turn and the command it is started with, the answers the turn sees.
\<close>

section \<open>A turn of the provider\<close>

text \<open>\<open>cw_server n\<close> answers the turn of attempt \<open>n\<close>, \<open>cw_ctx n\<close> is the request context after it.\<close>

record codex_world =
  cw_schema :: schema
  cw_isprint :: "nat \<Rightarrow> bool"
  cw_launch :: launch_os
  cw_grants :: grant_os
  cw_server :: "nat \<Rightarrow> turn_config \<Rightarrow> client_command \<Rightarrow> turn_env"
  cw_ctx :: "nat \<Rightarrow> go_error option"

definition no_command :: client_command where
  "no_command = \<lparr>cc_bin = [], cc_args = [], cc_dir = [], cc_env = [], cc_stdin = []\<rparr>"

text \<open>The factory of \<open>runCodexRPC\<close>: the command, its private home if it has one, and what was done to it.\<close>

definition prepare_codex ::
  "run_env \<Rightarrow> codex_world \<Rightarrow> string \<Rightarrow> string \<Rightarrow> string \<Rightarrow> provider_config \<Rightarrow> native_tool_policy option \<Rightarrow>
   (prepared_command \<times> go_error option) \<times> client_command \<times> string option \<times> home_act list" where
  "prepare_codex e w bin workspace sandbox c policy =
     (case pc_session c of
        Some s \<Rightarrow>
          ((\<lparr>pp_has_command = True, pp_workspace = workspace, pp_has_cleanup = False, pp_track = True\<rparr>, None),
           \<lparr>cc_bin = bin, cc_args = codexAppServerArguments e (cw_isprint w) c policy workspace sandbox,
            cc_dir = pc_workspace c, cc_env = native_host_env (re_os e) (re_user e) c s, cc_stdin = []\<rparr>, None, [])
      | None \<Rightarrow>
          (case PrepareNative (cw_launch w) (re_user e) bin workspace
                  (\<lambda>cwd. codexAppServerArguments e (cw_isprint w) c policy cwd sandbox) (config_env e c) (pc_env_allowlist c) of
             (Inl er, acts) \<Rightarrow>
               ((\<lparr>pp_has_command = False, pp_workspace = [], pp_has_cleanup = False, pp_track = False\<rparr>, Some er), no_command, None, acts)
           | (Inr nc, acts) \<Rightarrow>
               ((\<lparr>pp_has_command = True, pp_workspace = nc_workspace nc, pp_has_cleanup = (nc_cleanup nc \<noteq> None), pp_track = True\<rparr>, None),
                nc_command nc, nc_cleanup nc, acts)))"

text \<open>The grants of the Linux sandbox, computed before the thread is opened.\<close>

definition codex_grants :: "run_env \<Rightarrow> codex_world \<Rightarrow> provider_config \<Rightarrow> native_tool_policy option \<Rightarrow> (string \<times> json) list result" where
  "codex_grants e w c policy =
     (case policy of
        Some p \<Rightarrow>
          if ho_goos (re_os e) = ''linux''
          then (case codexRuntimeFileGrants (cw_grants w) (case pc_env c of None \<Rightarrow> [] | Some env \<Rightarrow> env) (np_filesystem p) of
                  Inl er \<Rightarrow> Inl er | Inr fs \<Rightarrow> Inr (grant_override fs))
          else Inr []
      | None \<Rightarrow> Inr [])"

definition codex_sent :: "run_env \<Rightarrow> turn_state \<Rightarrow> (string \<times> json) list" where
  "codex_sent e s =
     (case foldl (\<lambda>ob v. ObserveLine (codex_progress None) ob (json_marshal v)) (Some (NewCodexObserver (re_emit e \<noteq> None))) (observed s) of
        None \<Rightarrow> [] | Some ob \<Rightarrow> ob_sent ob)
     @ (if re_emit e = None then [] else emitted s)"

text \<open>
  The outcome of a turn and what it did; \<open>None\<close> when the server never ends the turn. The events of
  the observer are listed before those the turn emits itself; their interleaving is not represented.
\<close>

definition runCodexRPC ::
  "run_env \<Rightarrow> codex_world \<Rightarrow> nat \<Rightarrow> string \<Rightarrow> string \<Rightarrow> string \<Rightarrow> string \<Rightarrow> string \<Rightarrow> bool \<Rightarrow> provider_config \<Rightarrow> native_tool_policy option \<Rightarrow>
   run_state \<Rightarrow> (turn_outcome \<times> run_state) option" where
  "runCodexRPC e w attempt bin workspace sandbox sessionID prompt persistent c policy st =
     (let grants = codex_grants e w c policy;
          cfg = \<lparr>tc_session = sessionID, tc_prompt = prompt, tc_sandbox = sandbox, tc_model = pc_model c, tc_approval = pc_codex_approval c,
                 tc_persistent = persistent, tc_configured_permissions = (policy \<noteq> None),
                 tc_thread_config = (case grants of Inl _ \<Rightarrow> [] | Inr overrides \<Rightarrow> overrides)\<rparr>;
          (prep, command, home, acts) = prepare_codex e w bin workspace sandbox c policy;
          answers = (cw_server w attempt cfg command)
                      \<lparr>te_prepare := prep, te_before := (case grants of Inl er \<Rightarrow> Some er | Inr _ \<Rightarrow> None)\<rparr>
      in map_option
           (\<lambda>out. (out, st\<lparr>rs_home := rs_home st @ (if PrepareCommand \<in> set (to_actions out) then acts else [])
                                @ (case home of Some h \<Rightarrow> if Cleanup \<in> set (to_actions out) then [RemoveTree h] else [] | None \<Rightarrow> []),
                     rs_commands := rs_commands st @ (if StartProcess \<in> set (to_actions out) then [command] else []),
                     rs_events := rs_events st @ codex_sent e (to_state out)\<rparr>))
           (Run (cw_schema w) cfg answers))"

section \<open>The run\<close>

definition codexRecoversMissingSession :: "string \<Rightarrow> nat \<Rightarrow> go_error \<Rightarrow> bool" where
  "codexRecoversMissingSession sessionID attempt er =
     (sessionID \<noteq> [] \<and> attempt = 0 \<and> errors_is er ErrSessionMissing \<and> \<not> errors_is er ErrProcessCleanup)"

definition codexCanceledResult :: "go_error \<Rightarrow> go_error option \<Rightarrow> int \<Rightarrow> go_error" where
  "codexCanceledResult cause executionErr timeout =
     (case executionErr of
        Some er \<Rightarrow>
          if errors_is er ErrProcessCleanup then ErrJoin [cause, er]
          else if errors_is cause ErrDeadlineExceeded then ErrNew (''Codex timed out after '' @ duration_text (nat timeout)) else cause
      | None \<Rightarrow> if errors_is cause ErrDeadlineExceeded then ErrNew (''Codex timed out after '' @ duration_text (nat timeout)) else cause)"

definition codex_turn ::
  "run_env \<Rightarrow> codex_world \<Rightarrow> provider_config \<Rightarrow> native_tool_policy option \<Rightarrow> provider_run \<Rightarrow> string \<Rightarrow> string \<Rightarrow> session_use \<Rightarrow> nat \<Rightarrow> string \<Rightarrow>
   run_state \<Rightarrow> (turn_outcome \<times> run_state) option" where
  "codex_turn e w c policy r bin workspace use attempt sessionID st =
     runCodexRPC e w attempt bin workspace (or_default (pc_sandbox c) ''read-only'') sessionID
       (buildCodexPrompt (runWithSessionHistory (re_store e) r (su_path use) (su_namespace use) workspace (su_key use) sessionID (rs_files st))
          (pc_web_search c))
       (su_reuse use) c policy st"

text \<open>A turn that is not tried again ends the run.\<close>

definition codex_end ::
  "run_env \<Rightarrow> codex_world \<Rightarrow> provider_config \<Rightarrow> provider_run \<Rightarrow> string \<Rightarrow> session_use \<Rightarrow> nat \<Rightarrow> bool \<Rightarrow> turn_outcome \<Rightarrow> run_state \<Rightarrow>
   (string \<times> string \<times> bool) result \<times> run_state" where
  "codex_end e w c r workspace use attempt recovered out st =
     (case cw_ctx w attempt of
        Some cause \<Rightarrow> (Inl (codexCanceledResult cause (to_err out) (run_timeout c)), st)
      | None \<Rightarrow>
          (case to_err out of
             None \<Rightarrow> (Inr (to_thread out, to_final out, recovered), st)
           | Some er \<Rightarrow>
               if errors_is er ErrResponseMessageLimit \<and> su_reuse use \<and> to_thread out \<noteq> []
               then (case save_session e use workspace (to_thread out) r (rs_files st) of
                       (Some er2, fs) \<Rightarrow> (Inl (ErrJoin [er, sessionPersistenceError ''Codex'' er2]), st\<lparr>rs_files := fs\<rparr>)
                     | (None, fs) \<Rightarrow> (Inl (ErrWrap ''Codex failed: '' er []), st\<lparr>rs_files := fs\<rparr>))
               else (Inl (ErrWrap ''Codex failed: '' er []), st)))"

definition codex_retries :: "codex_world \<Rightarrow> string \<Rightarrow> nat \<Rightarrow> turn_outcome \<Rightarrow> bool" where
  "codex_retries w sessionID attempt out =
     (cw_ctx w attempt = None \<and> (case to_err out of None \<Rightarrow> False | Some er \<Rightarrow> codexRecoversMissingSession sessionID attempt er))"

text \<open>At most two turns; \<open>attempt\<close> counts them. The result is the thread, the answer and whether a session was recovered.\<close>

fun codex_loop ::
  "run_env \<Rightarrow> codex_world \<Rightarrow> provider_config \<Rightarrow> native_tool_policy option \<Rightarrow> provider_run \<Rightarrow> string \<Rightarrow> string \<Rightarrow> session_use \<Rightarrow>
   nat \<Rightarrow> nat \<Rightarrow> string \<times> string \<Rightarrow> string \<Rightarrow> bool \<Rightarrow> run_state \<Rightarrow> ((string \<times> string \<times> bool) result \<times> run_state) option" where
  "codex_loop e w c policy r bin workspace use 0 attempt earlier sessionID recovered st = Some (Inr (fst earlier, snd earlier, recovered), st)"
| "codex_loop e w c policy r bin workspace use (Suc n) attempt earlier sessionID recovered st =
     (case codex_turn e w c policy r bin workspace use attempt sessionID st of
        None \<Rightarrow> None
      | Some (out, st1) \<Rightarrow>
          if codex_retries w sessionID attempt out
          then (case forget_session e workspace use (rs_files st1) of
                  (Some er, fs) \<Rightarrow> Some (Inl er, st1\<lparr>rs_files := fs\<rparr>)
                | (None, fs) \<Rightarrow>
                    codex_loop e w c policy r bin workspace use n (Suc attempt) (to_thread out, to_final out) [] True (st1\<lparr>rs_files := fs\<rparr>))
          else Some (codex_end e w c r workspace use attempt recovered out st1))"

definition codex_output :: "provider_config \<Rightarrow> session_use \<Rightarrow> string \<Rightarrow> string \<Rightarrow> bool \<Rightarrow> (string \<times> json) list" where
  "codex_output c use workspace summary recovered =
     obj_of ([(''handled_by'', JStr ''codex''), (''codex_sandbox'', JStr (or_default (pc_sandbox c) ''read-only'')),
              (''codex_model'', JStr (modelLabel (pc_model c))), (''summary'', JStr summary)]
       @ (if pc_session c \<noteq> None then [(''session_isolation'', JStr ''native'')] else [])
       @ (if su_reuse use
          then [(''codex_session_reuse'', JBool True), (''codex_session_key_hash'', JStr (KeyHash (su_namespace use) workspace (su_key use))),
                (''codex_session_resumed'', JBool (su_id use \<noteq> [])), (''codex_session_recovered'', JBool recovered)]
          else []))"

text \<open>After the loop: the session of the successful turn is saved and its answer reported.\<close>

definition codex_finish ::
  "run_env \<Rightarrow> provider_config \<Rightarrow> provider_run \<Rightarrow> string \<Rightarrow> session_use \<Rightarrow> (string \<times> string \<times> bool) result \<times> run_state \<Rightarrow> outcome \<times> run_state" where
  "codex_finish e c r workspace use result =
     (case result of
        (Inl er, st) \<Rightarrow> ((zero_result, Some er), st)
      | (Inr (thread, summary, recovered), st) \<Rightarrow>
          (case (if su_reuse use then save_session e use workspace thread r (rs_files st) else (None, rs_files st)) of
             (Some er, fs) \<Rightarrow> ((zero_result, Some (sessionPersistenceError ''Codex'' er)), st\<lparr>rs_files := fs\<rparr>)
           | (None, fs) \<Rightarrow> ((success_result (codex_output c use workspace summary recovered) summary, None), st\<lparr>rs_files := fs\<rparr>)))"

definition codex_body :: "run_env \<Rightarrow> codex_world \<Rightarrow> client_body" where
  "codex_body e w c policy r bin workspace st =
     (let use = find_session e ''codex'' ''codex_rpc_v1:'' c r workspace (rs_files st)
      in map_option (codex_finish e c r workspace use) (codex_loop e w c policy r bin workspace use 2 0 ([], []) (su_id use) False st))"

definition CodexProvider_Run ::
  "run_env \<Rightarrow> codex_world \<Rightarrow> provider_config \<Rightarrow> provider_run \<Rightarrow> run_state \<Rightarrow> (outcome \<times> run_state) option" where
  "CodexProvider_Run e w config r st = native_frame e ''codex'' ''Codex'' (codex_body e w) config r st"

section \<open>Resources\<close>

lemma runCodexRPC_keeps:
  assumes "runCodexRPC e w attempt bin workspace sandbox sid prompt persistent c policy st = Some (out, st1)"
  shows "rs_held st1 = rs_held st \<and> rs_files st1 = rs_files st"
  using assms by (auto simp: runCodexRPC_def Let_def split: prod.splits)

lemma codex_end_state:
  "codex_end e w c r workspace use attempt recovered out st = (a, st1) \<Longrightarrow> rs_held st1 = rs_held st \<and> rs_home st1 = rs_home st"
  by (auto simp: codex_end_def split: option.splits if_splits prod.splits)

lemma codex_loop_held:
  "codex_loop e w c policy r bin workspace use n attempt earlier sid rec st = Some (a, st1) \<Longrightarrow> rs_held st1 = rs_held st"
proof (induction n arbitrary: attempt earlier sid rec st)
  case (Suc n)
  obtain out st2 where turn: "codex_turn e w c policy r bin workspace use attempt sid st = Some (out, st2)"
    using Suc.prems by (auto split: option.splits)
  have "rs_held st2 = rs_held st" using turn runCodexRPC_keeps unfolding codex_turn_def by blast
  then show ?case
    using Suc turn by (auto split: option.splits if_splits prod.splits dest: codex_end_state)
qed simp

lemma codex_finish_state:
  "rs_held (snd (codex_finish e c r workspace use (a, st))) = rs_held st \<and> rs_home (snd (codex_finish e c r workspace use (a, st))) = rs_home st"
  by (cases a) (auto simp: codex_finish_def split: option.split prod.split)

lemma codex_body_loop:
  assumes "codex_body e w c policy r bin workspace st = Some (out, st')"
  obtains a st1 where "codex_loop e w c policy r bin workspace (find_session e ''codex'' ''codex_rpc_v1:'' c r workspace (rs_files st)) 2 0 ([], [])
      (su_id (find_session e ''codex'' ''codex_rpc_v1:'' c r workspace (rs_files st))) False st = Some (a, st1)"
    "codex_finish e c r workspace (find_session e ''codex'' ''codex_rpc_v1:'' c r workspace (rs_files st)) (a, st1) = (out, st')"
  using assms that by (auto simp: codex_body_def Let_def)

lemma codex_body_held:
  assumes "codex_body e w c policy r bin workspace st = Some (out, st')"
  shows "rs_held st' = rs_held st"
  using assms by (cases rule: codex_body_loop) (metis codex_finish_state codex_loop_held snd_conv)

interpretation codex: native_body "codex_body e w" for e w
  by unfold_locales (rule codex_body_held)

text \<open>A turn that prepared a command with a cleanup runs it.\<close>

lemma Run_cleanup:
  assumes "Run schema cfg e = Some out" "PrepareCommand \<in> set (to_actions out)" "pp_has_cleanup (fst (te_prepare e))"
  shows "Cleanup \<in> set (to_actions out)"
  using assms by (auto simp: Run_def Let_def failed_turn_def split: option.splits prod.splits)

lemma prepare_codex_live:
  assumes "prepare_codex e w bin workspace sandbox c policy = (prep, command, home, acts)"
  shows "set (foldl live_step hs acts) \<subseteq> set hs \<union> set_option home" "pp_has_cleanup (fst prep) \<longleftrightarrow> home \<noteq> None"
proof -
  have env: "set (foldl live_step hs acts) \<subseteq> set hs \<union> (case q of Inl _ \<Rightarrow> {} | Inr (_, h) \<Rightarrow> set_option h)"
    if "codex_environment os user environment allowlist = (q, acts)" for os user environment allowlist q acts
  proof (cases "LauncherEnvironment @ ''=1'' \<in> set environment")
    case True
    then show ?thesis using that by (auto simp: codex_environment_def Let_def)
  next
    case False
    obtain p acts' where p: "Prepare (lo_home os) (processEnvironment user environment (codex_names @ allowlist) @ [''LC_ALL=C'', ''LANG=C'']) = (p, acts')"
      by (meson surj_pair)
    then show ?thesis using that False Prepare_live [OF p, of hs] by (cases p) (auto simp: codex_environment_def Let_def)
  qed
  have native: "set (foldl live_step hs acts) \<subseteq> set hs \<union> (case q of Inl _ \<Rightarrow> {} | Inr nc \<Rightarrow> set_option (nc_cleanup nc))"
    if "PrepareNative os user bin workspace arguments environment allowlist = (q, acts)" for os user bin workspace arguments environment allowlist q acts
    using that by (auto simp: PrepareNative_def split: sum.splits prod.splits dest!: env)
  show "set (foldl live_step hs acts) \<subseteq> set hs \<union> set_option home" "pp_has_cleanup (fst prep) \<longleftrightarrow> home \<noteq> None"
    using assms by (auto simp: prepare_codex_def split: option.splits sum.splits prod.splits dest!: native)
qed

lemma runCodexRPC_homes:
  assumes "runCodexRPC e w attempt bin workspace sandbox sid prompt persistent c policy st = Some (out, st1)"
  shows "set (live_homes (rs_home st1)) \<subseteq> set (live_homes (rs_home st))"
proof -
  obtain prep command home acts where p: "prepare_codex e w bin workspace sandbox c policy = (prep, command, home, acts)" by (metis prod_cases4)
  obtain cfg answers where run: "Run (cw_schema w) cfg answers = Some out" "te_prepare answers = prep"
      "rs_home st1 = rs_home st @ (if PrepareCommand \<in> set (to_actions out) then acts else [])
         @ (case home of Some h \<Rightarrow> if Cleanup \<in> set (to_actions out) then [RemoveTree h] else [] | None \<Rightarrow> [])"
    using assms p by (auto simp: runCodexRPC_def Let_def)
  show ?thesis
  proof (cases "PrepareCommand \<in> set (to_actions out)")
    case True
    then show ?thesis
      using run Run_cleanup [OF run(1) True] prepare_codex_live(1) [OF p, of "live_homes (rs_home st)"] prepare_codex_live(2) [OF p]
      by (cases home) (auto simp: live_homes_append)
  next
    case False
    then show ?thesis using run(3) live_step_set by (cases home) (auto simp: live_homes_append)
  qed
qed

lemma codex_loop_homes:
  "codex_loop e w c policy r bin workspace use n attempt earlier sid rec st = Some (a, st1) \<Longrightarrow>
     set (live_homes (rs_home st1)) \<subseteq> set (live_homes (rs_home st))"
proof (induction n arbitrary: attempt earlier sid rec st)
  case (Suc n)
  obtain out st2 where turn: "codex_turn e w c policy r bin workspace use attempt sid st = Some (out, st2)"
    using Suc.prems by (auto split: option.splits)
  have first: "set (live_homes (rs_home st2)) \<subseteq> set (live_homes (rs_home st))" using turn runCodexRPC_homes unfolding codex_turn_def by blast
  show ?case
    using Suc.prems turn first Suc.IH by (fastforce split: option.splits if_splits prod.splits dest: codex_end_state)
qed simp

section \<open>The turns of a run\<close>

text \<open>The turns a run makes, in order.\<close>

definition codex_turns ::
  "run_env \<Rightarrow> codex_world \<Rightarrow> provider_config \<Rightarrow> native_tool_policy option \<Rightarrow> provider_run \<Rightarrow> string \<Rightarrow> string \<Rightarrow> session_use \<Rightarrow> run_state \<Rightarrow> turn_outcome list" where
  "codex_turns e w c policy r bin workspace use st =
     (case codex_turn e w c policy r bin workspace use 0 (su_id use) st of
        None \<Rightarrow> []
      | Some (out, st1) \<Rightarrow>
          if codex_retries w (su_id use) 0 out
          then (case forget_session e workspace use (rs_files st1) of
                  (None, fs) \<Rightarrow>
                    (case codex_turn e w c policy r bin workspace use 1 [] (st1\<lparr>rs_files := fs\<rparr>) of
                       None \<Rightarrow> [out] | Some (out2, _) \<Rightarrow> [out, out2])
                | (Some _, _) \<Rightarrow> [out])
          else [out])"

definition cleanup_failed :: "go_error option \<Rightarrow> bool" where
  "cleanup_failed er = (case er of None \<Rightarrow> False | Some x \<Rightarrow> errors_is x ErrProcessCleanup)"

lemma retry_clean: "codex_retries w sid attempt out \<Longrightarrow> \<not> cleanup_failed (to_err out)"
  by (auto simp: codex_retries_def codexRecoversMissingSession_def cleanup_failed_def split: option.splits)

lemma retry_missing:
  assumes "codex_retries w sid attempt out"
  shows "sid \<noteq> [] \<and> (\<exists>er. to_err out = Some er \<and> errors_is er ErrSessionMissing)"
  using assms by (auto simp: codex_retries_def codexRecoversMissingSession_def split: option.splits)

lemma no_second_retry: "\<not> codex_retries w sid (Suc attempt) out"
  by (auto simp: codex_retries_def codexRecoversMissingSession_def split: option.splits)

lemma codex_end_cleanup:
  assumes "codex_end e w c r workspace use attempt recovered out st = (a, st1)" "cleanup_failed (to_err out)"
  obtains er where "a = Inl er" "errors_is er ErrProcessCleanup"
  using assms that
  by (auto simp: codex_end_def cleanup_failed_def codexCanceledResult_def split: option.splits if_splits prod.splits)

text \<open>The two courses of the loop that end with a turn, and the failure to forget.\<close>

lemma codex_courses:
  assumes "codex_loop e w c policy r bin workspace use 2 0 earlier (su_id use) False st = Some (a, st1)"
  obtains (once) out st2 where "codex_turns e w c policy r bin workspace use st = [out]"
      "codex_end e w c r workspace use 0 False out st2 = (a, st1)" "rs_files st2 = rs_files st"
  | (unforgotten) out er where "codex_turns e w c policy r bin workspace use st = [out]" "a = Inl er" "\<not> cleanup_failed (to_err out)"
      "\<exists>x. to_err out = Some x \<and> errors_is x ErrSessionMissing"
  | (again) out fs out2 st2 where "codex_turns e w c policy r bin workspace use st = [out, out2]" "\<not> cleanup_failed (to_err out)" "su_id use \<noteq> []"
      "forget_session e workspace use (rs_files st) = (None, fs)" "rs_files st2 = fs"
      "codex_end e w c r workspace use 1 True out2 st2 = (a, st1)"
proof -
  obtain out st2 where turn: "codex_turn e w c policy r bin workspace use 0 (su_id use) st = Some (out, st2)"
    using assms by (auto simp: numeral_2_eq_2 split: option.splits)
  have files: "rs_files st2 = rs_files st" using turn runCodexRPC_keeps unfolding codex_turn_def by blast
  show thesis
  proof (cases "codex_retries w (su_id use) 0 out")
    case False
    then show thesis using once assms turn files by (auto simp: numeral_2_eq_2 codex_turns_def)
  next
    case True
    note clean = retry_clean [OF True] retry_missing [OF True]
    obtain d fs where d: "forget_session e workspace use (rs_files st2) = (d, fs)" by (meson surj_pair)
    show thesis
    proof (cases d)
      case (Some er)
      then show thesis using unforgotten assms turn True d clean by (auto simp: numeral_2_eq_2 codex_turns_def)
    next
      case None
      then obtain out2 st3 where second: "codex_turn e w c policy r bin workspace use 1 [] (st2\<lparr>rs_files := fs\<rparr>) = Some (out2, st3)"
          "codex_end e w c r workspace use 1 True out2 st3 = (a, st1)"
        using assms turn True d no_second_retry by (auto simp: numeral_2_eq_2 split: option.splits if_splits)
      have "rs_files st3 = fs" using second(1) runCodexRPC_keeps unfolding codex_turn_def by fastforce
      then show thesis using again [of out out2 fs st3] turn True d None second clean files by (simp add: codex_turns_def)
    qed
  qed
qed

text \<open>What the end of a run leaves in the store.\<close>

lemma finish_success:
  assumes "codex_finish e c r workspace use (a, st1) = (out, st')" "snd out = None"
  obtains thread summary recovered where "a = Inr (thread, summary, recovered)"
    "fst out = success_result (codex_output c use workspace summary recovered) summary"
    "su_reuse use \<Longrightarrow> save_session e use workspace thread r (rs_files st1) = (None, rs_files st')"
proof (cases a)
  case (Inl er)
  then show thesis using assms by (auto simp: codex_finish_def)
next
  case (Inr q)
  obtain thread summary recovered where q: "q = (thread, summary, recovered)" by (metis prod_cases3)
  show thesis
    using assms Inr q that [of thread summary recovered] by (auto simp: codex_finish_def split: if_splits option.splits prod.splits)
qed

lemma end_success:
  assumes "codex_end e w c r workspace use attempt recovered out st = (Inr (thread, summary, rec), st1)"
  shows "to_err out = None \<and> thread = to_thread out \<and> summary = to_final out \<and> rec = recovered \<and> st1 = st"
  using assms by (auto simp: codex_end_def split: option.splits if_splits prod.splits)

text \<open>The turn whose thread the run keeps: the successful one, or one that hit the message limit.\<close>

definition keeps_thread :: "codex_world \<Rightarrow> outcome \<Rightarrow> nat \<Rightarrow> turn_outcome \<Rightarrow> bool" where
  "keeps_thread w out attempt turn =
     (case to_err turn of
        None \<Rightarrow> snd out = None
      | Some er \<Rightarrow> cw_ctx w attempt = None \<and> errors_is er ErrResponseMessageLimit \<and> \<not> errors_is er ErrSessionMissing
          \<and> snd out = Some (ErrWrap ''Codex failed: '' er []))"

lemma end_finish:
  assumes ending: "codex_end e w c r workspace use attempt recovered turn st2 = (a, st1)"
    and finish: "codex_finish e c r workspace use (a, st1) = (out, st')"
  shows "cleanup_failed (to_err turn) \<Longrightarrow> cleanup_failed (snd out)"
    and "snd out = None \<Longrightarrow> to_err turn = None \<and> fst out = success_result (codex_output c use workspace (to_final turn) recovered) (to_final turn)"
    and "keeps_thread w out attempt turn \<Longrightarrow> su_reuse use \<Longrightarrow> to_thread turn \<noteq> [] \<Longrightarrow>
      save_session e use workspace (to_thread turn) r (rs_files st2) = (None, rs_files st')"
proof -
  show "cleanup_failed (snd out)" if fail: "cleanup_failed (to_err turn)"
  proof -
    obtain er where "a = Inl er" "errors_is er ErrProcessCleanup" using codex_end_cleanup [OF ending fail] by blast
    then show ?thesis using finish by (auto simp: codex_finish_def cleanup_failed_def)
  qed
  have success: "to_err turn = None \<and> fst out = success_result (codex_output c use workspace (to_final turn) recovered) (to_final turn)
      \<and> (su_reuse use \<longrightarrow> save_session e use workspace (to_thread turn) r (rs_files st2) = (None, rs_files st'))" if "snd out = None"
    using finish that
  proof (cases rule: finish_success)
    case (1 thread summary rec)
    then show ?thesis using end_success ending by blast
  qed
  then show "to_err turn = None \<and> fst out = success_result (codex_output c use workspace (to_final turn) recovered) (to_final turn)"
    if "snd out = None" using that by blast
  show "save_session e use workspace (to_thread turn) r (rs_files st2) = (None, rs_files st')"
    if keeps: "keeps_thread w out attempt turn" and reuse: "su_reuse use" and thread: "to_thread turn \<noteq> []"
  proof (cases "to_err turn")
    case None
    then show ?thesis using keeps success reuse by (simp add: keeps_thread_def)
  next
    case (Some er)
    then have limit: "cw_ctx w attempt = None" "errors_is er ErrResponseMessageLimit" "snd out = Some (ErrWrap ''Codex failed: '' er [])"
      using keeps by (auto simp: keeps_thread_def)
    then show ?thesis
      using ending finish Some reuse thread
      by (auto simp: codex_end_def codex_finish_def sessionPersistenceError_def split: option.splits if_splits prod.splits sum.splits)
  qed
qed


text \<open>A run without session reuse whose server answers at once; the client prepares its own home.\<close>

definition demo_codex_config :: provider_config where
  "demo_codex_config = empty_provider\<lparr>pc_workspace := ''/w'', pc_env := Some [LauncherEnvironment @ ''=1'']\<rparr>"

definition demo_codex_world :: codex_world where
  "demo_codex_world =
     \<lparr>cw_schema = demo_schema, cw_isprint = (\<lambda>_. True), cw_launch = \<lparr>lo_getwd = Inr ''/w'', lo_eval = Inr, lo_home = demo_home_os\<rparr>,
      cw_grants = demo_grant_os, cw_server = (\<lambda>_ _ _. demo_turn_env), cw_ctx = (\<lambda>_. None)\<rparr>"

definition demo_prepared :: prepared_command where
  "demo_prepared = \<lparr>pp_has_command = True, pp_workspace = ''/w'', pp_has_cleanup = False, pp_track = True\<rparr>"

lemma demo_codex_turn:
  "\<exists>out. Run demo_schema (demo_turn_config\<lparr>tc_prompt := p, tc_persistent := False\<rparr>) (demo_turn_env\<lparr>te_prepare := (demo_prepared, None), te_before := None\<rparr>) = Some out
     \<and> to_err out = None \<and> to_final out = ''hello''"
proof -
  let ?run = "Run demo_schema (demo_turn_config\<lparr>tc_prompt := p, tc_persistent := False\<rparr>) (demo_turn_env\<lparr>te_prepare := (demo_prepared, None), te_before := None\<rparr>)"
  have "?run \<noteq> None \<and> to_err (the ?run) = None \<and> to_final (the ?run) = ''hello''" by code_simp
  then show ?thesis by auto
qed

lemma demo_codex_prepare:
  "\<exists>command. prepare_codex demo_run_env demo_codex_world ''codex'' ''/w'' ''read-only'' demo_codex_config None = ((demo_prepared, None), command, None, [])"
proof -
  have "is_abs ''/w''" by code_simp
  then show ?thesis
    by (simp add: prepare_codex_def PrepareNative_def codex_environment_def demo_codex_config_def demo_codex_world_def empty_provider_def
        config_env_def go_abs_def demo_trims demo_prepared_def)
qed


end
