(* ===== verification/Provider_Runs.thy ===== *)
theory Provider_Runs
  imports Codex_Run
begin

text \<open>
  What a run of either native provider leaves behind. The frame of \<open>Provider_Setup\<close> is proved once
  for every client (\<open>native_body\<close>); the two providers are its interpretations.
\<close>

text \<open>The frame touches the Codex homes only through the client.\<close>

lemma with_permit_home:
  assumes "with_permit e c run st = Some (out, st')"
  shows "rs_home st' = rs_home st \<or> (\<exists>s o2 s2. run s = Some (o2, s2) \<and> rs_home s = rs_home st \<and> rs_home st' = rs_home s2)"
proof -
  obtain permit n where permit: "acquireHostAuthPermit (run_permit e (rs_held st)) (re_first e) (pc_session c \<noteq> None) (re_ambient e) c = Some (permit, n)"
    using assms by (auto simp: with_permit_def split: option.splits)
  show ?thesis
  proof (cases permit)
    case (Inl er)
    then show ?thesis using assms permit by (auto simp: with_permit_def)
  next
    case (Inr granted)
    then show ?thesis
      using assms permit by (cases granted) (auto simp: with_permit_def Let_def case_prod_beta intro!: disjI2; force)+
  qed
qed

lemma run_client_home:
  assumes "run_client e provider body c policy r st = Some (out, st')"
  shows "rs_home st' = rs_home st
    \<or> (\<exists>c2 r2 bin workspace s o2 s2. body c2 policy r2 bin workspace s = Some (o2, s2) \<and> rs_home s = rs_home st \<and> rs_home st' = rs_home s2)"
proof -
  let ?c = "providerConfigForDelegationRun e c r"
  obtain loaded events cache where load: "loadSkillPackages e r provider (run_workspace e ?c) ?c policy (rs_cache st) = (loaded, events, cache)"
    by (metis prod_cases3)
  show ?thesis
  proof (cases loaded)
    case (Inl er)
    then show ?thesis using assms load by (auto simp: run_client_def Let_def)
  next
    case (Inr r1)
    then have "with_permit e ?c (body ?c policy r1 (or_default (pc_bin ?c) provider) (run_workspace e ?c))
        (st\<lparr>rs_events := rs_events st @ events, rs_cache := cache\<rparr>) = Some (out, st')"
      using assms load by (simp add: run_client_def Let_def)
    from with_permit_home [OF this] show ?thesis by simp blast
  qed
qed

lemma frame_home:
  assumes "native_frame e provider label body config r st = Some (out, st')"
  shows "rs_home st' = rs_home st
    \<or> (\<exists>c policy r2 bin workspace s o2 s2. body c policy r2 bin workspace s = Some (o2, s2) \<and> rs_home s = rs_home st \<and> rs_home st' = rs_home s2)"
proof -
  let ?c = "if Enabled (pc_isolation config) then config\<lparr>pc_provider := provider\<rparr> else config"
  let ?st = "send_event e ''run.message.delta'' (processing label) st"
  have sent: "rs_home ?st = rs_home st" by (simp add: send_event_def split: option.split)
  obtain a rs where prep: "prepareIsolatedSession e ?c r (rs_held ?st) = (a, rs)" by (meson surj_pair)
  show ?thesis
  proof (cases a)
    case (Inl er)
    then show ?thesis using assms prep sent by (auto simp: native_frame_def Let_def)
  next
    case (Inr q)
    obtain c1 policy where q: "q = (c1, policy)" by (cases q)
    then obtain o2 s2 where "run_client e provider body c1 policy r (?st\<lparr>rs_held := rs\<rparr>) = Some (o2, s2)" "rs_home st' = rs_home s2"
      using assms prep Inr by (auto simp: native_frame_def Let_def case_prod_beta)
    then show ?thesis using run_client_home [of e provider body c1 policy r "?st\<lparr>rs_held := rs\<rparr>" o2 s2] sent by simp metis
  qed
qed

lemma codex_body_homes:
  assumes "codex_body e w c policy r bin workspace st = Some (out, st')"
  shows "set (live_homes (rs_home st')) \<subseteq> set (live_homes (rs_home st))"
  using assms by (cases rule: codex_body_loop) (metis codex_finish_state codex_loop_homes snd_conv)

lemma claude_body_homes:
  assumes "claude_body e client c policy r bin workspace st = Some (out, st')"
  shows "rs_home st' = rs_home st"
proof -
  have loop: "rs_home (snd (claude_loop e client command timeout forget n response sid rec s)) = rs_home s"
    for command timeout forget n response sid rec s
    by (induction n arbitrary: response sid rec s) (auto simp: Let_def split: attempt.split prod.split option.split)
  have "rs_home s1 = rs_home st" if "claude_attempts e client c policy r bin workspace use st = (a, s1)" for use a s1
    using that loop unfolding claude_attempts_def by (metis snd_conv)
  then show ?thesis
    using assms by (fastforce simp: claude_body_def Let_def split: prod.splits sum.splits if_splits option.splits)
qed

lemma runs_release:
  assumes "CodexProvider_Run e w config r st = Some (out, st') \<or> ClaudeProvider_Run e client config r st = Some (out, st')"
  shows "locks_of (rs_held st') = locks_of (rs_held st)
    \<and> (fresh_session e (rs_held st) \<and> snd out = None \<longrightarrow> durable (rs_held st') = durable (rs_held st))
    \<and> (fresh_session e (rs_held st) \<and> removes (re_os e) \<longrightarrow> rs_held st' = rs_held st)
    \<and> set (live_homes (rs_home st')) \<subseteq> set (live_homes (rs_home st))"
  using assms
proof
  assume run: "CodexProvider_Run e w config r st = Some (out, st')"
  then have frame: "native_frame e ''codex'' ''Codex'' (codex_body e w) config r st = Some (out, st')" by (simp add: CodexProvider_Run_def)
  have "set (live_homes (rs_home st')) \<subseteq> set (live_homes (rs_home st))"
    using frame_home [OF frame] codex_body_homes by (metis order_refl)
  then show ?thesis using codex.frame_locks [OF frame] codex.frame_success [OF frame] codex.frame_held [OF frame] by blast
next
  assume run: "ClaudeProvider_Run e client config r st = Some (out, st')"
  then have frame: "native_frame e ''claude'' ''Claude Code'' (claude_body e client) config r st = Some (out, st')"
    by (simp add: ClaudeProvider_Run_def)
  have "rs_home st' = rs_home st" using frame_home [OF frame] claude_body_homes by metis
  then show ?thesis using claude.frame_locks [OF frame] claude.frame_success [OF frame] claude.frame_held [OF frame] by auto
qed

text \<open>
  A run of Codex and a run of Claude give up everything they took, however they end. Every lock
  of the run is released; a run that succeeds leaves no private directory of its session; where
  the system removes what it is told to remove, nothing at all is left; and no private Codex home
  outlives the turn that made it.
\<close>

theorem native_runs_release:
  assumes "CodexProvider_Run e w config r st = Some (out, st') \<or> ClaudeProvider_Run e client config r st = Some (out, st')"
  shows "locks_of (rs_held st') = locks_of (rs_held st)
    \<and> (fresh_session e (rs_held st) \<and> snd out = None \<longrightarrow> durable (rs_held st') = durable (rs_held st))
    \<and> (fresh_session e (rs_held st) \<and> removes (re_os e) \<longrightarrow> rs_held st' = rs_held st)
    \<and> set (live_homes (rs_home st')) \<subseteq> set (live_homes (rs_home st))"
  by (rule runs_release [OF assms])

text \<open>A server that is canceled at once, and a client that answers.\<close>

definition canceled_world :: codex_world where
  "canceled_world = demo_codex_world\<lparr>cw_server := (\<lambda>_ _ _. demo_turn_env\<lparr>te_ctx0 := Some ErrCanceled\<rparr>)\<rparr>"

lemma canceled_body: "codex_body e canceled_world c policy r bin workspace st \<noteq> None"
  by (simp add: codex_body_def canceled_world_def demo_codex_world_def codex_turn_def runCodexRPC_def Run_def Let_def numeral_2_eq_2
      codex_retries_def codexRecoversMissingSession_def failed_turn_def ErrSessionMissing_def split: prod.split option.split)

lemma claude_body_ends: "claude_body e client c policy r bin workspace st \<noteq> None"
  by (simp add: claude_body_def Let_def split: prod.split sum.split option.split)

lemma demo_permit_ends:
  "pm_ctx (re_permit demo_run_env) 9 \<noteq> None" "\<forall>i. pm_ctx (re_permit demo_run_env) i \<noteq> None \<longrightarrow> pm_ctx (re_permit demo_run_env) (Suc i) \<noteq> None"
  by (simp_all add: demo_run_env_def demo_permit_def)

theorem native_runs_release_witness:
  "(\<exists>out st'. CodexProvider_Run demo_run_env canceled_world demo_codex_config demo_provider_run demo_state = Some (out, st')
      \<and> locks_of (rs_held st') = [] \<and> live_homes (rs_home st') = [])
   \<and> (\<exists>out st'. ClaudeProvider_Run demo_run_env (\<lambda>_ _. demo_process) demo_reuse demo_provider_run demo_state = Some (out, st')
      \<and> locks_of (rs_held st') = [] \<and> live_homes (rs_home st') = [])"
proof -
  obtain out st' where codex: "CodexProvider_Run demo_run_env canceled_world demo_codex_config demo_provider_run demo_state = Some (out, st')"
    using codex.frame_ends [OF demo_permit_ends canceled_body] unfolding CodexProvider_Run_def by (metis not_None_eq surj_pair)
  obtain out2 st2 where claude: "ClaudeProvider_Run demo_run_env (\<lambda>_ _. demo_process) demo_reuse demo_provider_run demo_state = Some (out2, st2)"
    using claude.frame_ends [OF demo_permit_ends claude_body_ends] unfolding ClaudeProvider_Run_def by (metis not_None_eq surj_pair)
  have empty: "locks_of [] = []" "live_homes [] = []" by (simp_all add: locks_of_def live_homes_def)
  show ?thesis
    using codex claude native_runs_release [OF disjI1 [OF codex]] native_runs_release [OF disjI2 [OF claude]]
    by (simp add: demo_state_def empty)
qed

end
