(* ===== verification/Agent_Host.thy ===== *)
theory Agent_Host
  imports Provider_Setup
begin

text \<open>
  The handshake with the program that embeds the transports
  (\<open>pkg/adapters/agenthost/contract.go\<close> with its \<open>contract.json\<close>): before a program is given to a
  provider as its delegation proxy it must answer with the protocol and the capability. The
  programs are a parameter: what \<open>os.Executable\<close> and \<open>LookPath\<close> find and what a probe prints.
\<close>

section \<open>The handshake\<close>

definition contract_protocol :: string where
  "contract_protocol = ''openlinker.agent-host.v1''"

definition BrowserProxyArguments :: "string \<Rightarrow> string list" where
  "BrowserProxyArguments provider = [''plugin'', ''browser-proxy'', ''--host'', provider]"

record capabilities =
  cap_protocol :: string
  cap_browser :: bool
  cap_delegation :: bool

definition capability_fields :: "capabilities field list" where
  "capability_fields =
     [(''protocol'', f_string (\<lambda>v r. r\<lparr>cap_protocol := v\<rparr>)), (''browser_proxy'', f_bool (\<lambda>v r. r\<lparr>cap_browser := v\<rparr>)),
      (''delegation_proxy'', f_bool (\<lambda>v r. r\<lparr>cap_delegation := v\<rparr>))]"

definition zero_capabilities :: capabilities where
  "zero_capabilities = \<lparr>cap_protocol = [], cap_browser = False, cap_delegation = False\<rparr>"

definition SupportedCapabilities :: capabilities where
  "SupportedCapabilities = \<lparr>cap_protocol = contract_protocol, cap_browser = True, cap_delegation = True\<rparr>"

definition capabilities_json :: "capabilities \<Rightarrow> json" where
  "capabilities_json c =
     JObj [(''protocol'', JStr (cap_protocol c)), (''browser_proxy'', JBool (cap_browser c)), (''delegation_proxy'', JBool (cap_delegation c))]"

text \<open>\<open>probeOutput\<close>: a write that would pass the limit fails, and with it the copying of the output.\<close>

definition probe_limit :: nat where
  "probe_limit = 8192"

fun probe_writes :: "string \<Rightarrow> string list \<Rightarrow> string option" where
  "probe_writes kept [] = Some kept"
| "probe_writes kept (v # vs) = (if probe_limit < length kept + length v then None else probe_writes (kept @ v) vs)"

text \<open>\<open>hx_probe\<close> gives what the program writes, and the error of the process; a probe that runs out of time fails.\<close>

record host_exec =
  hx_executable :: "string result"
  hx_look :: "string \<Rightarrow> string result"
  hx_environ :: "string list"
  hx_probe :: "client_command \<Rightarrow> string list \<times> go_error option"

definition probe_environment :: "string list \<Rightarrow> string list" where
  "probe_environment environ = filter (\<lambda>item. let key = fst (str_cut CHR ''='' item) in key = ''PATH'' \<or> key = ''SystemRoot'') environ"

definition host_command :: "host_exec \<Rightarrow> string \<Rightarrow> client_command" where
  "host_command x bin =
     \<lparr>cc_bin = bin, cc_args = [''plugin'', ''capabilities''], cc_dir = [], cc_env = probe_environment (hx_environ x), cc_stdin = []\<rparr>"

definition supports :: "string \<Rightarrow> capabilities \<Rightarrow> bool" where
  "supports capability c =
     (cap_protocol c = contract_protocol
      \<and> (capability = ''browser_proxy'' \<and> cap_browser c \<or> capability = ''delegation_proxy'' \<and> cap_delegation c))"

definition Resolve :: "host_exec \<Rightarrow> string \<Rightarrow> string \<Rightarrow> string result" where
  "Resolve x configured capability =
     (let bin = trim_space configured
      in case (if bin = [] then hx_executable x else Inr bin) of
           Inl er \<Rightarrow> Inl er
         | Inr bin \<Rightarrow>
             (case hx_look x bin of
                Inl er \<Rightarrow> Inl (ErrWrap ''Agent transport host is unavailable: '' er [])
              | Inr bin \<Rightarrow>
                  (case hx_probe x (host_command x bin) of (writes, er) \<Rightarrow>
                     (case (er, probe_writes [] writes) of
                        (None, Some output) \<Rightarrow>
                          (case Option.bind (json_parse output) (decode_struct False capability_fields zero_capabilities) of
                             Some c \<Rightarrow>
                               if supports capability c then Inr bin
                               else Inl (ErrNew ''Agent transport host does not support the required protocol/capability'')
                           | None \<Rightarrow> Inl (ErrNew ''Agent transport host does not support the required protocol/capability''))
                      | _ \<Rightarrow>
                          Inl (ErrNew (''Agent transport host lacks plugin capabilities; select the embedding product's host binary '' @
                            ''implementing openlinker.agent-host.v1 (Agent Node uses openlinker-agent-node)''))))))"

section \<open>The resolver\<close>

record resolver =
  rv_configured :: string
  rv_capability :: string
  rv_binary :: string

definition NewResolver :: "string \<Rightarrow> string \<Rightarrow> resolver" where
  "NewResolver configured capability = \<lparr>rv_configured = configured, rv_capability = capability, rv_binary = []\<rparr>"

definition resolver_Resolve :: "host_exec \<Rightarrow> resolver \<Rightarrow> string result \<times> resolver" where
  "resolver_Resolve x v =
     (if rv_binary v \<noteq> [] then (Inr (rv_binary v), v)
      else
        (case Resolve x (rv_configured v) (rv_capability v) of
           Inl er \<Rightarrow> (Inl er, v)
         | Inr bin \<Rightarrow> (Inr bin, v\<lparr>rv_binary := bin\<rparr>)))"

section \<open>Properties\<close>

text \<open>A program that has passed the handshake.\<close>

definition verified :: "host_exec \<Rightarrow> string \<Rightarrow> string \<Rightarrow> bool" where
  "verified x capability bin =
     (case hx_probe x (host_command x bin) of (writes, er) \<Rightarrow>
        er = None \<and> length (concat writes) \<le> probe_limit
        \<and> (case Option.bind (json_parse (concat writes)) (decode_struct False capability_fields zero_capabilities) of
             None \<Rightarrow> False | Some c \<Rightarrow> supports capability c))"

lemma probe_writes_eq:
  "probe_writes kept vs = (if vs = [] \<or> length (kept @ concat vs) \<le> probe_limit then Some (kept @ concat vs) else None)"
proof (induction kept vs rule: probe_writes.induct)
  case (2 kept v vs)
  then show ?case by (cases vs) auto
qed simp

lemma resolve_verified:
  "Resolve x configured capability = Inr bin \<longleftrightarrow>
     (\<exists>b. (if trim_space configured = [] then hx_executable x else Inr (trim_space configured)) = Inr b
        \<and> hx_look x b = Inr bin \<and> verified x capability bin)"
proof -
  let ?found = "if trim_space configured = [] then hx_executable x else Inr (trim_space configured)"
  show ?thesis
  proof (cases ?found)
    case (Inl er)
    then show ?thesis unfolding Resolve_def Let_def by simp
  next
    case (Inr b)
    show ?thesis
    proof (cases "hx_look x b")
      case (Inl er)
      then show ?thesis using Inr unfolding Resolve_def Let_def by simp
    next
      case found: (Inr path)
      obtain writes er where run: "hx_probe x (host_command x path) = (writes, er)" by (meson surj_pair)
      have kept: "probe_writes [] writes = (if length (concat writes) \<le> probe_limit then Some (concat writes) else None)"
        by (simp add: probe_writes_eq)
      have "Resolve x configured capability = Inr bin \<longleftrightarrow> bin = path \<and> verified x capability path"
        by (cases er; cases "Option.bind (json_parse (concat writes)) (decode_struct False capability_fields zero_capabilities)")
          (auto simp: Resolve_def Let_def verified_def Inr found run kept)
      then show ?thesis using Inr found by auto
    qed
  qed
qed

text \<open>The uses of one resolver, in order, each with the programs it finds.\<close>

fun resolves :: "host_exec list \<Rightarrow> resolver \<Rightarrow> string result list" where
  "resolves [] v = []"
| "resolves (x # xs) v = (case resolver_Resolve x v of (r, v1) \<Rightarrow> r # resolves xs v1)"

lemma resolves_bound:
  assumes "bin \<noteq> []" "rv_binary v = bin"
  shows "resolves xs v = replicate (length xs) (Inr bin)"
  using assms by (induction xs arbitrary: v) (auto simp: resolver_Resolve_def)

text \<open>
  A resolver only ever gives a program that passed the handshake, and sticks to the first such
  program: failures before it are retried, nothing after it is probed again.
\<close>

theorem resolver_sticks:
  assumes "rv_binary v = []" "\<forall>(x :: host_exec) b. hx_look x b \<noteq> Inr []"
  shows "\<exists>n. list_all (\<lambda>r. \<exists>er. r = Inl er) (take n (resolves xs v))
    \<and> (n < length xs \<longrightarrow> (\<exists>bin. verified (xs ! n) (rv_capability v) bin \<and> drop n (resolves xs v) = replicate (length xs - n) (Inr bin)))"
  using assms(1)
proof (induction xs)
  case Nil
  show ?case by (rule exI [of _ 0]) simp
next
  case (Cons x xs)
  show ?case
  proof (cases "Resolve x (rv_configured v) (rv_capability v)")
    case (Inl er)
    obtain n where n: "list_all (\<lambda>r. \<exists>er. r = Inl er) (take n (resolves xs v))"
        "n < length xs \<longrightarrow> (\<exists>bin. verified (xs ! n) (rv_capability v) bin \<and> drop n (resolves xs v) = replicate (length xs - n) (Inr bin))"
      using Cons by blast
    then show ?thesis using Inl Cons.prems by (intro exI [of _ "Suc n"]) (simp add: resolver_Resolve_def)
  next
    case (Inr bin)
    then have bin: "verified x (rv_capability v) bin" "bin \<noteq> []" using assms(2) by (auto simp: resolve_verified)
    have "resolves (x # xs) v = Inr bin # resolves xs (v\<lparr>rv_binary := bin\<rparr>)"
      using Inr Cons.prems by (simp add: resolver_Resolve_def)
    then show ?thesis using bin resolves_bound [OF bin(2), of "v\<lparr>rv_binary := bin\<rparr>" xs] by (intro exI [of _ 0]) auto
  qed
qed

end
