(* ===== verification/Delegation_Run.thy ===== *)
theory Delegation_Run
  imports Provider_Runs Agent_Host Delegation_Safety
begin

text \<open>
  The provider a Node runs (\<open>pkg/adapters/types.go\<close>, \<open>delegation.go\<close>): a native provider behind
  \<open>delegationProvider\<close>, which starts a broker for a Run that may delegate or has bound ts,
  gives its socket to the client, and lets the Run succeed only when the broker agrees. What the
  client does to the broker while it runs is a parameter, the state the broker is left in.
\<close>

section \<open>A delegated run\<close>

text \<open>
  \<open>dw_hosts\<close> are the programs found at this Run, \<open>dw_start\<close> the system that starts the broker,
  \<open>dw_call\<close> and \<open>dw_read\<close> say whether the Run has the two callbacks, \<open>dw_unsupported\<close> is the
  SDK's error for a Run without them, \<open>dw_left\<close> is the broker
  when the client has returned and \<open>dw_env\<close> answers it afterwards.
\<close>

record delegation_world =
  dw_hosts :: host_exec
  dw_start :: start_os
  dw_call :: bool
  dw_read :: bool
  dw_unsupported :: go_error
  dw_decode :: "json \<Rightarrow> run_summary option"
  dw_left :: "started \<Rightarrow> broker"
  dw_env :: env

record delegation_state =
  ds_run :: run_state
  ds_resources :: "resource list"
  ds_host :: resolver

type_synonym provider_body = "provider_run \<Rightarrow> run_state \<Rightarrow> (outcome \<times> run_state) option"

definition emit_event :: "run_env \<Rightarrow> string \<Rightarrow> json \<Rightarrow> run_state \<Rightarrow> go_error option \<times> run_state" where
  "emit_event e ty payload st =
     (case re_emit e of
        None \<Rightarrow> (None, st)
      | Some emit \<Rightarrow> (emit ty payload, st\<lparr>rs_events := rs_events st @ [(ty, payload)]\<rparr>))"

definition unavailable :: "run_env \<Rightarrow> bound_tool list \<Rightarrow> go_error \<Rightarrow> run_state \<Rightarrow> outcome \<times> run_state" where
  "unavailable e ts er st =
     (if ts = [] then ((zero_result, Some er), st)
      else
        (case emit_event e ''run.mcp_bindings.failed'' (JObj (BoundReceipt ts)) st of
           (Some er2, st1) \<Rightarrow> ((zero_result, Some er2), st1)
         | (None, st1) \<Rightarrow>
             ((failedResult ''MCP_TOOLS_UNAVAILABLE'' ''Selected MCP tools could not be loaded. Review the Host and tool configuration.'', None), st1)))"

definition succeeded :: "outcome \<Rightarrow> bool" where
  "succeeded out = (snd out = None \<and> rr_error (fst out) = None \<and> (rr_status (fst out) = [] \<or> rr_status (fst out) = ''success''))"

definition broker_conf :: "delegation_world \<Rightarrow> provider_config \<Rightarrow> provider_run \<Rightarrow> bound_tool list \<Rightarrow> conf" where
  "broker_conf w c r ts =
     \<lparr>runID = rc_run_id r, targets = pc_targets c, boundTools = ts, hasOnTools = True, hasBoundToolUsed = True, decodeSummary = dw_decode w\<rparr>"

text \<open>The events the broker's callbacks emit.\<close>

fun callback_event :: "bound_tool list \<Rightarrow> obs \<Rightarrow> (string \<times> json) list" where
  "callback_event ts OnTools = (if ts = [] then [] else [(''run.mcp_bindings.ready'', JObj (BoundReceipt ts))])"
| "callback_event ts (BoundToolUsed t) = [(''run.mcp_bindings.used'', JObj (BoundReceipt [t]))]"
| "callback_event ts _ = []"

definition callback_events :: "run_env \<Rightarrow> bound_tool list \<Rightarrow> broker \<Rightarrow> (string \<times> json) list" where
  "callback_events e ts b = (if re_emit e = None then [] else concat (map (callback_event ts) (hist b)))"

definition early_receipt :: "bound_tool list \<Rightarrow> json" where
  "early_receipt ts = JObj (obj_of (BoundReceipt ts @ [(''stage'', JStr ''provider_ended_before_discovery'')]))"

text \<open>After the client has returned: its outcome, the broker it left and the broker after the check.\<close>

definition delegation_end ::
  "run_env \<Rightarrow> delegation_world \<Rightarrow> started \<Rightarrow> bound_tool list \<Rightarrow> outcome \<Rightarrow> run_state \<Rightarrow> outcome \<times> run_state \<times> broker" where
  "delegation_end e w s ts out st0 =
     (let b = dw_left w s; st = st0\<lparr>rs_events := rs_events st0 @ callback_events e ts b\<rparr>;
          early = (ts \<noteq> [] \<and> \<not> toolsReady b \<and> \<not> succeeded out);
          (er, st1) = (if early then emit_event e ''run.mcp_bindings.failed'' (early_receipt ts) st else (None, st))
      in if er \<noteq> None \<and> snd out = None then ((fst out, er), st1, b)
         else if \<not> succeeded out then (out, st1, b)
         else
           (case EnsureComplete (dw_env w) (st_conf s) b of
              (None, b1) \<Rightarrow> (out, st1, b1)
            | (Some er2, b1) \<Rightarrow>
                if errors_is er2 (ErrSentinel ''selected MCP tools were not discovered by the provider'')
                then (case unavailable e ts er2 st1 of (out2, st2) \<Rightarrow> (out2, st2, b1))
                else ((failedResult ''DELEGATION_UNFINISHED'' ''A delegated Run is unfinished or its result could not be verified.'', None), st1, b1)))"

definition delegationProvider_Run ::
  "run_env \<Rightarrow> delegation_world \<Rightarrow> provider_body \<Rightarrow> provider_config \<Rightarrow> provider_run \<Rightarrow> delegation_state \<Rightarrow> (outcome \<times> delegation_state) option" where
  "delegationProvider_Run e w body c r ds =
     (case DecodeBound (pr_mcp r) (rc_principal r \<noteq> None) of
        Inl er \<Rightarrow> Some ((zero_result, Some er), ds)
      | Inr (ts, digest) \<Rightarrow>
          if ts = [] \<and> pc_targets c = []
          then map_option (\<lambda>(out, st). (out, ds\<lparr>ds_run := st\<rparr>)) (body r (ds_run ds))
          else
            (case resolver_Resolve (dw_hosts w) (ds_host ds) of
               (Inl er, host) \<Rightarrow> (case unavailable e ts er (ds_run ds) of (out, st) \<Rightarrow> Some (out, ds\<lparr>ds_run := st, ds_host := host\<rparr>))
             | (Inr binary, host) \<Rightarrow>
                 if \<not> dw_read w
                 then (case unavailable e ts (dw_unsupported w) (ds_run ds) of
                         (out, st) \<Rightarrow> Some (out, ds\<lparr>ds_run := st, ds_host := host\<rparr>))
                 else
                   (case StartBound (dw_start w) (pc_broker_root c) (dw_call w) True (broker_conf w c r ts) (ds_resources ds) of
                      (Inl er, rs) \<Rightarrow>
                        (case unavailable e ts er (ds_run ds) of
                           (out, st) \<Rightarrow> Some (out, \<lparr>ds_run = st, ds_resources = rs, ds_host = host\<rparr>))
                    | (Inr s, rs) \<Rightarrow>
                        map_option
                          (\<lambda>(out, st). case delegation_end e w s ts out st of
                             (out1, st1, _) \<Rightarrow> (out1, \<lparr>ds_run = st1, ds_resources = Close s rs, ds_host = host\<rparr>))
                          (body (r\<lparr>pr_bound_tools := ts, pr_bound_digest := digest, pr_socket := Socket s, pr_proxy_bin := binary\<rparr>) (ds_run ds)))))"

section \<open>The provider of a configuration\<close>

datatype native_client = CodexClient | ClaudeClient

text \<open>The native provider has the configuration as given; the broker's has the resolved proxy.\<close>

record provider =
  pv_client :: native_client
  pv_config :: provider_config
  pv_delegation :: provider_config

definition withDelegation :: "host_exec \<Rightarrow> native_client \<Rightarrow> provider_config \<Rightarrow> (provider \<times> resolver) result" where
  "withDelegation x client c =
     (let host = NewResolver (pc_proxy_bin c) ''delegation_proxy''
      in if pc_targets c = [] then Inr (\<lparr>pv_client = client, pv_config = c, pv_delegation = c\<rparr>, host)
         else
           (case ValidateTargets (pc_targets c) of
              Some er \<Rightarrow> Inl er
            | None \<Rightarrow>
                (case resolver_Resolve x host of
                   (Inl er, _) \<Rightarrow> Inl er
                 | (Inr binary, host1) \<Rightarrow> Inr (\<lparr>pv_client = client, pv_config = c, pv_delegation = c\<lparr>pc_proxy_bin := binary\<rparr>\<rparr>, host1))))"

definition NewProvider :: "host \<Rightarrow> host_exec \<Rightarrow> provider_config \<Rightarrow> (provider \<times> resolver) result" where
  "NewProvider h x c0 =
     (let c = c0\<lparr>pc_provider := to_lower (trim_space (pc_provider c0))\<rparr>;
          name = to_lower (trim_space (pc_provider c)); profile = to_lower (trim_space (pc_profile c))
      in case validateSessionIsolation h c of
           Some er \<Rightarrow> Inl er
         | None \<Rightarrow>
             (case (if name = ''codex'' then Some CodexClient else if name = ''claude'' then Some ClaudeClient else None) of
                None \<Rightarrow> Inl (ErrNew ''provider must be codex or claude'')
              | Some client \<Rightarrow>
                  if profile = [] \<or> profile = ''standard'' then withDelegation x client c
                  else Inl (ErrNew ''bridge execution profile must be standard; deep execution requires Plugin'')))"

definition native_Run :: "run_env \<Rightarrow> codex_world \<Rightarrow> client \<Rightarrow> provider \<Rightarrow> provider_body" where
  "native_Run e w client p r st =
     (case pv_client p of CodexClient \<Rightarrow> CodexProvider_Run e w (pv_config p) r st | ClaudeClient \<Rightarrow> ClaudeProvider_Run e client (pv_config p) r st)"

definition provider_Run ::
  "run_env \<Rightarrow> codex_world \<Rightarrow> client \<Rightarrow> delegation_world \<Rightarrow> provider \<Rightarrow> provider_run \<Rightarrow> delegation_state \<Rightarrow> (outcome \<times> delegation_state) option" where
  "provider_Run e w client dw p r ds = delegationProvider_Run e dw (native_Run e w client p) (pv_delegation p) r ds"

section \<open>What success means\<close>

lemma unavailable_fails:
  assumes "unavailable e ts er st = (out, st')"
  shows "\<not> succeeded out \<and> rs_commands st' = rs_commands st"
  using assms by (auto simp: unavailable_def succeeded_def failedResult_def emit_event_def split: if_splits option.splits)

lemma failed_fails: "\<not> succeeded (failedResult code message, er)"
  by (simp add: succeeded_def failedResult_def)

lemma end_commands: "delegation_end e w s ts out st = (out1, st1, b) \<Longrightarrow> rs_commands st1 = rs_commands st"
  by (auto simp: delegation_end_def emit_event_def Let_def dest: unavailable_fails split: if_splits option.splits prod.splits)

lemma end_passes:
  assumes "delegation_end e w s ts out st = (out1, st1, b)" "\<not> succeeded out"
  shows "fst out1 = fst out \<and> \<not> succeeded out1 \<and> (snd out \<noteq> None \<longrightarrow> out1 = out)"
  using assms by (auto simp: delegation_end_def succeeded_def emit_event_def Let_def split: if_splits option.splits prod.splits)

lemma delegation_end_success:
  assumes "delegation_end e w s ts out st = (out1, st1, b)" "succeeded out1"
  shows "out1 = out \<and> EnsureComplete (dw_env w) (st_conf s) (dw_left w s) = (None, b)"
proof -
  have ok: "succeeded out" using assms end_passes by blast
  obtain er b1 where check: "EnsureComplete (dw_env w) (st_conf s) (dw_left w s) = (er, b1)" by (meson surj_pair)
  show ?thesis
    using assms ok check failed_fails
    by (cases er) (auto simp: delegation_end_def Let_def dest: unavailable_fails split: if_splits prod.splits)
qed

text \<open>A broker that was left by its client, checked without an error.\<close>

lemma checked_broker:
  assumes "EnsureComplete e c b = (None, b')" "broker_run c initial_broker b" "range_order e"
  shows "table_ok (requests b') \<and> live_requests (requests b') = [] \<and> list_all (allowed_call c) (agent_calls (hist b'))
    \<and> (boundTools c \<noteq> [] \<longrightarrow> toolsReady b)"
proof -
  have run: "evolves c initial_broker b" using assms(2) by (simp add: broker_run_evolves)
  have step: "evolves c b b'" using EnsureComplete_evolves [OF assms(3)] run assms(1) by (metis evolves_def snd_conv)
  have calls: "list_all (allowed_call c) (agent_calls (hist b'))"
    using evolves_trans [OF run step] by (auto simp: evolves_def initial_broker_def)
  have ts: "boundTools c \<noteq> [] \<longrightarrow> toolsReady b" using assms(1) by (auto simp: EnsureComplete_def split: if_splits)
  have "live_requests (requests b') = []"
    using settle_live(2) [OF assms(3), of b] run assms(1) unfolding EnsureComplete_def evolves_def
    by (metis fst_conv option.distinct(1) snd_conv)
  then show ?thesis using calls ts step by (simp add: evolves_def)
qed

text \<open>The courses of a delegated run.\<close>

abbreviation start_broker :: "delegation_world \<Rightarrow> provider_config \<Rightarrow> provider_run \<Rightarrow> bound_tool list \<Rightarrow> resource list \<Rightarrow> started result \<times> resource list" where
  "start_broker w c r ts rs \<equiv> StartBound (dw_start w) (pc_broker_root c) (dw_call w) True (broker_conf w c r ts) rs"

lemma delegation_courses:
  assumes run: "delegationProvider_Run e w body c r ds = Some (out, ds')"
  obtains (malformed) er where "DecodeBound (pr_mcp r) (rc_principal r \<noteq> None) = Inl er" "out = (zero_result, Some er)" "ds' = ds"
  | (plain) digest where "DecodeBound (pr_mcp r) (rc_principal r \<noteq> None) = Inr ([], digest)" "pc_targets c = []"
      "body r (ds_run ds) = Some (out, ds_run ds')" "ds_resources ds' = ds_resources ds"
  | (refused) ts digest er where "DecodeBound (pr_mcp r) (rc_principal r \<noteq> None) = Inr (ts, digest)"
      "unavailable e ts er (ds_run ds) = (out, ds_run ds')"
      "(\<exists>er. fst (resolver_Resolve (dw_hosts w) (ds_host ds)) = Inl er) \<and> ds_resources ds' = ds_resources ds
       \<or> \<not> dw_read w \<and> ds_resources ds' = ds_resources ds
       \<or> (\<exists>er. start_broker w c r ts (ds_resources ds) = (Inl er, ds_resources ds'))"
  | (served) ts digest binary s rs out1 st1 b where "DecodeBound (pr_mcp r) (rc_principal r \<noteq> None) = Inr (ts, digest)"
      "fst (resolver_Resolve (dw_hosts w) (ds_host ds)) = Inr binary" "dw_read w" "start_broker w c r ts (ds_resources ds) = (Inr s, rs)"
      "body (r\<lparr>pr_bound_tools := ts, pr_bound_digest := digest, pr_socket := Socket s, pr_proxy_bin := binary\<rparr>) (ds_run ds) = Some (out1, st1)"
      "delegation_end e w s ts out1 st1 = (out, ds_run ds', b)" "ds_resources ds' = Close s rs"
proof (cases "DecodeBound (pr_mcp r) (rc_principal r \<noteq> None)")
  case (Inl er)
  then show thesis using run malformed by (simp add: delegationProvider_Run_def)
next
  case (Inr q)
  obtain ts digest where decode: "DecodeBound (pr_mcp r) (rc_principal r \<noteq> None) = Inr (ts, digest)" using Inr by (cases q) simp
  show thesis
  proof (cases "ts = [] \<and> pc_targets c = []")
    case True
    then show thesis using run plain decode by (auto simp: delegationProvider_Run_def)
  next
    case False
    obtain found host where host: "resolver_Resolve (dw_hosts w) (ds_host ds) = (found, host)" by (meson surj_pair)
    obtain p rs where start: "start_broker w c r ts (ds_resources ds) = (p, rs)" by (meson surj_pair)
    note unfold = run [unfolded delegationProvider_Run_def decode sum.case prod.case if_not_P [OF False] host start]
    consider er where "found = Inl er" | binary where "found = Inr binary" "\<not> dw_read w" | binary er where "found = Inr binary" "dw_read w" "p = Inl er"
      | binary s where "found = Inr binary" "dw_read w" "p = Inr s"
      by (cases found; cases p) auto
    then show thesis
    proof cases
      case (1 er)
      then show thesis using unfold host by (intro refused [OF decode, of er]) (auto split: prod.splits)
    next
      case (2 binary)
      then show thesis using unfold host by (intro refused [OF decode, of "dw_unsupported w"]) (auto split: prod.splits)
    next
      case (3 binary er)
      then show thesis using unfold start by (intro refused [OF decode, of er]) (auto split: prod.splits)
    next
      case (4 binary s)
      let ?r = "r\<lparr>pr_bound_tools := ts, pr_bound_digest := digest, pr_socket := Socket s, pr_proxy_bin := binary\<rparr>"
      obtain out1 st1 where called: "body ?r (ds_run ds) = Some (out1, st1)" using unfold 4 by (cases "body ?r (ds_run ds)") auto
      obtain out2 st2 b where ended: "delegation_end e w s ts out1 st1 = (out2, st2, b)" by (metis prod_cases3)
      show thesis
        by (rule served [OF decode _ 4(2) _ called, of rs b]) (use unfold 4 host start called ended in auto)
    qed
  qed
qed

lemma end_conduct:
  assumes ended: "delegation_end e w s ts out1 st1 = (out, st2, b)" and conf: "boundTools (st_conf s) = ts"
    and left: "broker_run (st_conf s) initial_broker (dw_left w s)" and order: "range_order (dw_env w)"
  shows "rs_commands st2 = rs_commands st1"
    and "succeeded out \<longrightarrow> out = out1 \<and> (\<exists>b. EnsureComplete (dw_env w) (st_conf s) (dw_left w s) = (None, b) \<and> table_ok (requests b)
        \<and> live_requests (requests b) = [] \<and> list_all (allowed_call (st_conf s)) (agent_calls (hist b))) \<and> (ts \<noteq> [] \<longrightarrow> toolsReady (dw_left w s))"
    and "\<not> succeeded out1 \<longrightarrow> \<not> succeeded out \<and> fst out = fst out1 \<and> (snd out1 \<noteq> None \<longrightarrow> out = out1)"
proof -
  show "rs_commands st2 = rs_commands st1" by (rule end_commands [OF ended])
  show "succeeded out \<longrightarrow> out = out1 \<and> (\<exists>b. EnsureComplete (dw_env w) (st_conf s) (dw_left w s) = (None, b) \<and> table_ok (requests b)
      \<and> live_requests (requests b) = [] \<and> list_all (allowed_call (st_conf s)) (agent_calls (hist b))) \<and> (ts \<noteq> [] \<longrightarrow> toolsReady (dw_left w s))"
  proof
    assume "succeeded out"
    note fin = delegation_end_success [OF ended this]
    show "out = out1 \<and> (\<exists>b. EnsureComplete (dw_env w) (st_conf s) (dw_left w s) = (None, b) \<and> table_ok (requests b)
        \<and> live_requests (requests b) = [] \<and> list_all (allowed_call (st_conf s)) (agent_calls (hist b))) \<and> (ts \<noteq> [] \<longrightarrow> toolsReady (dw_left w s))"
      using fin conf checked_broker [OF conjunct2 [OF fin] left order] by blast
  qed
  show "\<not> succeeded out1 \<longrightarrow> \<not> succeeded out \<and> fst out = fst out1 \<and> (snd out1 \<noteq> None \<longrightarrow> out = out1)"
    using end_passes [OF ended] by blast
qed


text \<open>A Run that may call one Agent and does not.\<close>

definition demo_hosts :: host_exec where
  "demo_hosts = \<lparr>hx_executable = Inr ''/bin/node'', hx_look = Inr, hx_environ = [''PATH=/bin'', ''TOKEN=x''],
     hx_probe = (\<lambda>_. ([''{\"protocol\":\"openlinker.agent-host.v1\",\"delegation_proxy\":true}''], None))\<rparr>"

definition demo_delegation :: delegation_world where
  "demo_delegation = \<lparr>dw_hosts = demo_hosts, dw_start = demo_os, dw_call = True, dw_read = True, dw_unsupported = ErrNew ''unsupported'',
     dw_decode = (\<lambda>_. None), dw_left = (\<lambda>_. initial_broker), dw_env = demo_env\<rparr>"

definition demo_delegation_config :: provider_config where
  "demo_delegation_config = empty_provider\<lparr>pc_targets := [demo_agent]\<rparr>"

definition demo_delegation_state :: delegation_state where
  "demo_delegation_state = \<lparr>ds_run = demo_state, ds_resources = [], ds_host = NewResolver [] ''delegation_proxy''\<rparr>"

lemma demo_host_resolves: "resolver_Resolve demo_hosts (NewResolver [] ''delegation_proxy'') = (Inr ''/bin/node'', \<lparr>rv_configured = [], rv_capability = ''delegation_proxy'', rv_binary = ''/bin/node''\<rparr>)"
proof -
  have "Option.bind (json_parse ''{\"protocol\":\"openlinker.agent-host.v1\",\"delegation_proxy\":true}'') (decode_struct False capability_fields zero_capabilities)
      = Some \<lparr>cap_protocol = contract_protocol, cap_browser = False, cap_delegation = True\<rparr>" by code_simp
  then have "verified demo_hosts ''delegation_proxy'' ''/bin/node''" by (simp add: verified_def demo_hosts_def supports_def probe_limit_def)
  then have "Resolve demo_hosts [] ''delegation_proxy'' = Inr ''/bin/node''" by (simp add: resolve_verified demo_hosts_def)
  then show ?thesis by (simp add: resolver_Resolve_def NewResolver_def)
qed


end
