(* ===== verification/Provider_Preflight.thy ===== *)
theory Provider_Preflight
  imports Codex_Launch "HOL-Library.Monad_Syntax"
begin

text \<open>
  The checks before a Node accepts work: the compatibility of the installed client
  (\<open>pkg/adapters/providerpreflight/preflight.go\<close>) and the probe of its tool sandbox
  (\<open>pkg/adapters/preflight.go\<close>, \<open>CheckSessionIsolation\<close> of \<open>isolation.go\<close>). The installed programs
  are a parameter: which of them \<open>LookPath\<close> finds, and what a command prints and returns.
\<close>

section \<open>Probes\<close>

record cli_world =
  cli_isprint :: "nat \<Rightarrow> bool"
  cli_look :: "string \<Rightarrow> string result"
  cli_run :: "client_command \<Rightarrow> process_run"

definition capture :: "string list \<Rightarrow> limited_buffer" where
  "capture writes = foldl (\<lambda>b v. fst (buffer_write b v)) new_limited_buffer writes"

text \<open>\<open>command.Run\<close> reports the process first, then a failure to copy its output.\<close>

definition run_captured :: "cli_world \<Rightarrow> client_command \<Rightarrow> go_error option \<times> limited_buffer \<times> limited_buffer" where
  "run_captured w cmd =
     (let px = cli_run w cmd; stdout = capture (px_stdout px); stderr = capture (px_stderr px)
      in (case px_err px of
            Some er \<Rightarrow> Some er
          | None \<Rightarrow> if exceeded stdout \<or> exceeded stderr then Some ErrTooLarge else None, stdout, stderr))"

definition probe_command :: "string \<Rightarrow> string list \<Rightarrow> string \<Rightarrow> string list \<Rightarrow> client_command" where
  "probe_command user environment path args =
     \<lparr>cc_bin = path, cc_args = args, cc_dir = [], cc_env = processEnvironment user environment [] @ [''LC_ALL=C'', ''LANG=C''], cc_stdin = []\<rparr>"

definition probe :: "cli_world \<Rightarrow> string \<Rightarrow> client_command \<Rightarrow> string result" where
  "probe w provider cmd =
     (case run_captured w cmd of
        (Some er, _) \<Rightarrow> Inl (ErrWrap (provider @ '' CLI compatibility probe ['' @ str_join '' '' (cc_args cmd) @ ''] failed: '') er [])
      | (None, stdout, stderr) \<Rightarrow>
          (case limit_error provider [Some stdout, Some stderr] of
             Some er \<Rightarrow> Inl er
           | None \<Rightarrow> Inr (trim_space (buf stdout))))"

section \<open>Versions\<close>

definition MinimumCodexVersion :: string where
  "MinimumCodexVersion = ''0.153.0''"

definition MinimumClaudeVersion :: string where
  "MinimumClaudeVersion = ''2.1.259''"

text \<open>\<open>providerVersionPattern\<close>: a number, the literal dot, and the optional build of the third number.\<close>

definition match_number :: "string \<Rightarrow> (string \<times> string) option" where
  "match_number s = (if takeWhile is_digit s = [] then None else Some (takeWhile is_digit s, dropWhile is_digit s))"

definition match_dot :: "string \<Rightarrow> string option" where
  "match_dot s = (case s of [] \<Rightarrow> None | c # t \<Rightarrow> if c = CHR ''.'' then Some t else None)"

definition match_build :: "string \<Rightarrow> string \<times> string" where
  "match_build s =
     (case s of
        [] \<Rightarrow> ([], [])
      | c # t \<Rightarrow>
          if (c = CHR ''-'' \<or> c = CHR ''+'') \<and> takeWhile (\<lambda>x. x \<noteq> CHR '' '') t \<noteq> []
          then (c # takeWhile (\<lambda>x. x \<noteq> CHR '' '') t, dropWhile (\<lambda>x. x \<noteq> CHR '' '') t)
          else ([], s))"

definition claude_mark :: string where
  "claude_mark = '' (Claude Code)''"

definition providerVersionPattern :: "string \<Rightarrow> (string \<times> string \<times> string \<times> string) option" where
  "providerVersionPattern raw =
     do {
       let s = (case cut_prefix raw ''codex-cli '' of Some t \<Rightarrow> t | None \<Rightarrow> raw);
       (a, s) \<leftarrow> match_number s;
       s \<leftarrow> match_dot s;
       (b, s) \<leftarrow> match_number s;
       s \<leftarrow> match_dot s;
       (c, s) \<leftarrow> match_number s;
       let (build, rest) = match_build s;
       if rest = [] \<or> rest = claude_mark then Some (a, b, c, build) else None
     }"

fun compare_parts :: "string list \<Rightarrow> string list \<Rightarrow> bool" where
  "compare_parts (x # xs) (y # ys) =
     (case atoi x of
        None \<Rightarrow> False
      | Some a \<Rightarrow> (let b = (case atoi y of None \<Rightarrow> 0 | Some b \<Rightarrow> b) in if a \<noteq> b then a > b else compare_parts xs ys))"
| "compare_parts _ _ = True"

definition versionAtLeast :: "string \<Rightarrow> string \<Rightarrow> bool" where
  "versionAtLeast version minimum =
     (let version = fst (str_cut CHR ''+'' version)
      in if str_contains version ''-'' then False
         else
           (let actual = str_split CHR ''.'' version; required = str_split CHR ''.'' minimum
            in if length actual \<noteq> 3 \<or> length required \<noteq> 3 then False else compare_parts actual required))"

definition version_text :: "string \<times> string \<times> string \<times> string \<Rightarrow> string" where
  "version_text v = (case v of (a, b, c, build) \<Rightarrow> a @ ''.'' @ b @ ''.'' @ c @ build)"

section \<open>The compatibility check\<close>

definition minimum_of :: "string \<Rightarrow> string" where
  "minimum_of provider = (if provider = ''claude'' then MinimumClaudeVersion else MinimumCodexVersion)"

definition accepted_version :: "string \<Rightarrow> string \<Rightarrow> string option" where
  "accepted_version provider raw =
     (case providerVersionPattern raw of
        None \<Rightarrow> None
      | Some v \<Rightarrow>
          if provider = ''codex'' \<and> \<not> has_prefix raw ''codex-cli '' \<or> provider = ''claude'' \<and> \<not> has_suffix raw claude_mark
             \<or> \<not> versionAtLeast (version_text v) (minimum_of provider)
          then None else Some (version_text v))"

definition codex_words :: "string list" where
  "codex_words = [''app-server'', ''generate-json-schema'', ''--listen'', ''--config'', ''--disable'']"

definition claude_flags :: "string list" where
  "claude_flags =
     [''--restricted'', ''--settings'', ''--permission-prompts'', ''--tools'', ''--safe-mode'', ''--bare'', ''--no-chrome'',
      ''--disable-slash-commands'', ''--permission-mode'', ''--resume'', ''stream-json'', ''--verbose'', ''--include-partial-messages'',
      ''--strict-mcp-config'']"

definition help_arguments :: "string \<Rightarrow> string list" where
  "help_arguments provider = (if provider = ''codex'' then [''app-server'', ''--help''] else [''--help''])"

definition help_error :: "string \<Rightarrow> string \<Rightarrow> go_error option" where
  "help_error provider help =
     (if provider = ''codex''
      then (if list_all (str_contains help) codex_words then None
            else Some (ErrNew ''codex CLI app-server help is missing required generate-json-schema/stdio/config capabilities''))
      else (case find (\<lambda>flag. \<not> str_contains help flag) claude_flags of
              None \<Rightarrow> None
            | Some flag \<Rightarrow> Some (ErrNew (provider @ '' CLI is missing required capability '' @ flag))))"

text \<open>The result, and the probes that were started.\<close>

definition Check ::
  "cli_world \<Rightarrow> string \<Rightarrow> string \<Rightarrow> string list \<Rightarrow> string \<Rightarrow> string \<Rightarrow> string result \<times> client_command list" where
  "Check w goos user environment provider0 bin0 =
     (let provider = to_lower (trim_space provider0); bin = or_default bin0 provider
      in if provider \<noteq> ''claude'' \<and> provider \<noteq> ''codex''
         then (Inl (ErrNew (''unknown provider '' @ go_quote (cli_isprint w) provider)), [])
         else if provider = ''codex'' \<and> goos = ''windows''
         then (Inl (ErrNew ''isolated Codex app-server requires a POSIX host; Windows DACL isolation is not implemented''), [])
         else
           (case cli_look w bin of
              Inl er \<Rightarrow> (Inl (ErrWrap (provider @ '' provider CLI was not found: '') er []), [])
            | Inr path \<Rightarrow>
                (let ask = probe_command user environment path; version = ask [''--version'']; helping = ask (help_arguments provider)
                 in case probe w provider version of
                      Inl er \<Rightarrow> (Inl er, [version])
                    | Inr raw \<Rightarrow>
                        (case accepted_version provider raw of
                           None \<Rightarrow>
                             (Inl (ErrNew (provider @ '' CLI requires a stable version >= '' @ minimum_of provider
                                @ ''; installed version is unsupported or unrecognized'')), [version])
                         | Some v \<Rightarrow>
                             (case probe w provider helping of
                                Inl er \<Rightarrow> (Inl er, [version, helping])
                              | Inr help \<Rightarrow>
                                  (case help_error provider help of
                                     Some er \<Rightarrow> (Inl er, [version, helping])
                                   | None \<Rightarrow> (Inr v, [version, helping])))))))"

definition CheckProviderCLI :: "run_env \<Rightarrow> cli_world \<Rightarrow> provider_config \<Rightarrow> string result \<times> client_command list" where
  "CheckProviderCLI e w c = Check w (ho_goos (re_os e)) (re_user e) (config_env e c) (pc_provider c) (pc_bin c)"

section \<open>The tool sandbox\<close>

definition native_host_command :: "run_env \<Rightarrow> provider_config \<Rightarrow> session \<Rightarrow> string \<Rightarrow> string list \<Rightarrow> client_command" where
  "native_host_command e c s bin args =
     \<lparr>cc_bin = bin, cc_args = args, cc_dir = pc_workspace c, cc_env = native_host_env (re_os e) (re_user e) c s, cc_stdin = []\<rparr>"

definition darwin_probe :: "session \<Rightarrow> native_tool_policy \<Rightarrow> string list" where
  "darwin_probe s policy =
     np_codex policy
     @ [''sandbox'', ''-P'', ''openlinker_session'', ''-C'', session_workspace s, ''--'', ''/bin/sh'', ''-c'',
        ''if cat \"$1\" >/dev/null 2>&1; then exit 91; fi; printf verified > \"$2\"; test \"$(cat \"$2\")\" = verified'', ''probe'',
        sn_policy s, filepath_join [session_workspace s, ''probe'']]"

definition bwrap_probe :: "string list \<Rightarrow> client_command" where
  "bwrap_probe environment =
     \<lparr>cc_bin = ''bwrap'', cc_args = [''--unshare-user'', ''--unshare-net'', ''--unshare-pid'', ''--ro-bind'', ''/'', ''/'', ''--proc'', ''/proc'',
        ''--dev'', ''/dev'', ''--'', ''/bin/true''], cc_dir = [], cc_env = environment, cc_stdin = []\<rparr>"

definition sandbox_flags :: "string list" where
  "sandbox_flags = [''--restricted'', ''--safe-mode'', ''--settings'', ''--permission-prompts'', ''--tools'']"

definition missing_program :: "cli_world \<Rightarrow> string \<Rightarrow> bool" where
  "missing_program w name = (case cli_look w name of Inl _ \<Rightarrow> True | Inr _ \<Rightarrow> False)"

definition linux_error :: "cli_world \<Rightarrow> string list \<Rightarrow> string \<Rightarrow> go_error option" where
  "linux_error w environment provider =
     (if list_ex (missing_program w) ([''bwrap''] @ (if provider = ''claude'' then [''socat'', ''rg''] else []))
      then Some (ErrNew ''native sandbox OS dependencies are missing'')
      else if px_err (cli_run w (bwrap_probe environment)) \<noteq> None
      then Some (ErrNew ''native sandbox requires working unprivileged user/network/PID namespaces'')
      else None)"

definition claude_sandbox_error :: "run_env \<Rightarrow> cli_world \<Rightarrow> client_command \<Rightarrow> go_error option" where
  "claude_sandbox_error e w cmd =
     (case run_captured w cmd of
        (Some _, _) \<Rightarrow> Some (ErrNew ''Claude native sandbox capability probe failed'')
      | (None, stdout, stderr) \<Rightarrow>
          (case limit_error ''Claude'' [Some stdout, Some stderr] of
             Some er \<Rightarrow> Some er
           | None \<Rightarrow>
               if \<not> list_all (str_contains (buf stdout)) sandbox_flags then Some (ErrNew ''Claude lacks required host-auth sandbox capabilities'')
               else if ho_goos (re_os e) = ''darwin'' \<and> missing_program w ''sandbox-exec''
               then Some (ErrNew ''Claude native sandbox requires macOS sandbox-exec'')
               else None))"

text \<open>The probe inside an open session.\<close>

definition sandbox_error :: "run_env \<Rightarrow> cli_world \<Rightarrow> provider_config \<Rightarrow> session \<Rightarrow> native_tool_policy \<Rightarrow> go_error option" where
  "sandbox_error e w c s policy =
     (let bin = (if pc_bin c = [] then pc_provider c else pc_bin c); goos = ho_goos (re_os e)
      in if pc_provider c = ''codex'' \<and> goos = ''darwin''
         then (if px_err (cli_run w (native_host_command e c s bin (darwin_probe s policy))) = None then None
               else Some (ErrNew ''Codex tool sandbox enforcement probe failed; no unsandboxed fallback''))
         else
           (case (if goos = ''linux'' then linux_error w (re_ambient e) (pc_provider c) else None) of
              Some er \<Rightarrow> Some er
            | None \<Rightarrow>
                if goos = ''linux'' \<and> pc_provider c = ''codex'' then None
                else claude_sandbox_error e w (native_host_command e c s bin [''--help''])))"

text \<open>The session is closed again whatever the probe says; an error of closing it is dropped.\<close>

definition checkNativeToolSandbox :: "run_env \<Rightarrow> cli_world \<Rightarrow> provider_config \<Rightarrow> held list \<Rightarrow> go_error option \<times> held list" where
  "checkNativeToolSandbox e w c0 rs =
     (case nativeClientEnvironment (re_ambient e) c0 of
        Inl er \<Rightarrow> (Some er, rs)
      | Inr env \<Rightarrow>
          (let c = c0\<lparr>pc_env := Some env\<rparr>
           in case fst (CheckProviderCLI e w c) of
                Inl er \<Rightarrow> (Some er, rs)
              | Inr _ \<Rightarrow>
                  (case OpenClient (re_os e) (re_ctx e) (pc_isolation c) (Scope [''host-client-preflight'', pc_provider c]) rs of
                     (Inl er, rs1) \<Rightarrow> (Some er, rs1)
                   | (Inr s, rs1) \<Rightarrow>
                       (let c1 = c\<lparr>pc_session := Some s, pc_workspace := session_workspace s\<rparr>
                        in (case newNativeToolPolicy (re_os e) (re_entries e) (re_tmp e) c1 s of
                              Inl er \<Rightarrow> Some er
                            | Inr policy \<Rightarrow> sandbox_error e w c1 s policy,
                            snd (snd (session_Close (re_os e) s rs1)))))))"

definition CheckSessionIsolation :: "run_env \<Rightarrow> cli_world \<Rightarrow> provider_config \<Rightarrow> held list \<Rightarrow> go_error option \<times> held list" where
  "CheckSessionIsolation e w c rs =
     (case validateSessionIsolation (host.truncate (re_os e)) c of
        Some er \<Rightarrow> (Some er, rs)
      | None \<Rightarrow> if \<not> Enabled (pc_isolation c) then (None, rs) else checkNativeToolSandbox e w c rs)"

section \<open>The pattern\<close>

definition digits :: "string \<Rightarrow> bool" where
  "digits s = (s \<noteq> [] \<and> list_all is_digit s)"

definition build_ok :: "string \<Rightarrow> bool" where
  "build_ok b = (b = [] \<or> (hd b = CHR ''-'' \<or> hd b = CHR ''+'') \<and> tl b \<noteq> [] \<and> CHR '' '' \<notin> set b)"

lemma match_number_iff: "match_number s = Some (a, t) \<longleftrightarrow> s = a @ t \<and> digits a \<and> (t = [] \<or> \<not> is_digit (hd t))"
proof
  assume "match_number s = Some (a, t)"
  then have m: "a = takeWhile is_digit s" "t = dropWhile is_digit s" "a \<noteq> []" by (auto simp: match_number_def split: if_splits)
  then show "s = a @ t \<and> digits a \<and> (t = [] \<or> \<not> is_digit (hd t))"
    using hd_dropWhile [of is_digit s] by (auto simp: digits_def list_all_iff dest: set_takeWhileD)
next
  assume "s = a @ t \<and> digits a \<and> (t = [] \<or> \<not> is_digit (hd t))"
  then have "takeWhile is_digit s = a" "dropWhile is_digit s = t" "a \<noteq> []"
    by (cases t; auto simp: digits_def list_all_iff takeWhile_append2 dropWhile_append2)+
  then show "match_number s = Some (a, t)" by (simp add: match_number_def)
qed

lemma match_dot_iff: "match_dot s = Some t \<longleftrightarrow> s = CHR ''.'' # t"
  by (auto simp: match_dot_def split: list.split)

lemma match_build_iff:
  assumes "rest = [] \<or> rest = claude_mark"
  shows "match_build s = (build, rest) \<longleftrightarrow> s = build @ rest \<and> build_ok build"
proof
  assume "match_build s = (build, rest)"
  moreover have "CHR '' '' \<notin> set (takeWhile (\<lambda>x. x \<noteq> CHR '' '') t)" for t using set_takeWhileD by fast
  ultimately show "s = build @ rest \<and> build_ok build"
    by (cases s) (auto simp: match_build_def build_ok_def split: if_split_asm)
next
  assume s: "s = build @ rest \<and> build_ok build"
  show "match_build s = (build, rest)"
  proof (cases build)
    case Nil
    then show ?thesis using s assms by (auto simp: match_build_def claude_mark_def)
  next
    case (Cons c t)
    then have t: "\<forall>x \<in> set t. x \<noteq> CHR '' ''" "t \<noteq> []" "c = CHR ''-'' \<or> c = CHR ''+''" using s by (auto simp: build_ok_def)
    have "takeWhile (\<lambda>x. x \<noteq> CHR '' '') rest = []" "dropWhile (\<lambda>x. x \<noteq> CHR '' '') rest = rest"
      using assms by (auto simp: claude_mark_def)
    then have "takeWhile (\<lambda>x. x \<noteq> CHR '' '') (t @ rest) = t" "dropWhile (\<lambda>x. x \<noteq> CHR '' '') (t @ rest) = rest"
      using t(1) by (simp_all add: takeWhile_append2 dropWhile_append2)
    then show ?thesis using s Cons t by (simp add: match_build_def)
  qed
qed

text \<open>The pattern matches exactly the language of the regular expression, with its groups.\<close>

lemma pattern_exact:
  "providerVersionPattern raw = Some (a, b, c, build) \<longleftrightarrow>
     digits a \<and> digits b \<and> digits c \<and> build_ok build
     \<and> (\<exists>pre \<in> {[], ''codex-cli ''}. \<exists>post \<in> {[], claude_mark}. raw = pre @ a @ ''.'' @ b @ ''.'' @ c @ build @ post)"
  (is "?l \<longleftrightarrow> ?r")
proof
  define s where "s = (case cut_prefix raw ''codex-cli '' of Some t \<Rightarrow> t | None \<Rightarrow> raw)"
  have pre: "\<exists>pre \<in> {[], ''codex-cli ''}. raw = pre @ s"
    by (auto simp: s_def cut_prefix_Some_iff split: option.split)
  assume ?l
  then obtain t1 t2 t3 t4 t5 rest where m: "match_number s = Some (a, t1)" "match_dot t1 = Some t2" "match_number t2 = Some (b, t3)"
      "match_dot t3 = Some t4" "match_number t4 = Some (c, t5)" "match_build t5 = (build, rest)" "rest = [] \<or> rest = claude_mark"
    by (auto simp: providerVersionPattern_def s_def [symmetric] Let_def split: Option.bind_splits prod.splits if_splits)
  have "s = a @ ''.'' @ b @ ''.'' @ c @ build @ rest" "digits a" "digits b" "digits c" "build_ok build"
    using m match_build_iff [OF m(7)] by (auto simp: match_number_iff match_dot_iff)
  then show ?r using pre m(7) by auto
next
  assume ?r
  then obtain pre post where r: "pre \<in> {[], ''codex-cli ''}" "post \<in> {[], claude_mark}" "raw = pre @ a @ ''.'' @ b @ ''.'' @ c @ build @ post"
      "digits a" "digits b" "digits c" "build_ok build" by blast
  have first: "hd a \<noteq> CHR ''c''" "a \<noteq> []" using r(4) by (cases a; auto simp: digits_def is_digit_def)+
  have "cut_prefix (a @ x) ''codex-cli '' = None" for x
    using first by (cases a) (auto simp: cut_prefix_def)
  moreover have "cut_prefix (''codex-cli '' @ x) ''codex-cli '' = Some x" for x by (simp add: cut_prefix_Some_iff)
  ultimately have s: "(case cut_prefix raw ''codex-cli '' of Some t \<Rightarrow> t | None \<Rightarrow> raw) = a @ ''.'' @ b @ ''.'' @ c @ build @ post"
    using r(1,3) by auto
  have stop: "\<not> is_digit (hd (build @ post)) \<or> build @ post = []"
    using r(2,7) by (cases build) (auto simp: build_ok_def claude_mark_def is_digit_def)
  have "match_number (a @ CHR ''.'' # x) = Some (a, CHR ''.'' # x)" "match_number (b @ CHR ''.'' # x) = Some (b, CHR ''.'' # x)" for x
    using r(4,5) by (simp_all add: match_number_iff is_digit_def)
  moreover have "match_number (c @ build @ post) = Some (c, build @ post)" using r(6) stop by (auto simp: match_number_iff)
  moreover have "match_build (build @ post) = (build, post)" using match_build_iff r(2,7) by blast
  ultimately show ?l using s r(2) by (auto simp: providerVersionPattern_def Let_def match_dot_def)
qed

section \<open>The order of versions\<close>

definition value_of :: "string \<Rightarrow> nat" where
  "value_of s = (case digits_value 0 s of None \<Rightarrow> 0 | Some n \<Rightarrow> n)"

text \<open>The order on version numbers, the most significant first.\<close>

definition release_le :: "nat \<times> nat \<times> nat \<Rightarrow> nat \<times> nat \<times> nat \<Rightarrow> bool" where
  "release_le v w = (case (v, w) of ((a, b, c), (x, y, z)) \<Rightarrow> a < x \<or> a = x \<and> (b < y \<or> b = y \<and> c \<le> z))"

definition minimum_value :: "string \<Rightarrow> nat \<times> nat \<times> nat" where
  "minimum_value provider = (if provider = ''claude'' then (2, 1, 259) else (0, 153, 0))"

lemma digits_value_digits: "list_all is_digit s \<Longrightarrow> digits_value acc s \<noteq> None"
  by (induction acc s rule: digits_value.induct) auto

lemma atoi_digits:
  assumes "digits s"
  shows "atoi s = (if value_of s < 2 ^ 63 then Some (int (value_of s)) else None)"
proof -
  obtain c t where s: "s = c # t" "is_digit c" using assms by (cases s) (auto simp: digits_def)
  have sign: "c \<noteq> CHR ''-''" "c \<noteq> CHR ''+''" using s(2) by (auto simp: is_digit_def)
  obtain n where n: "digits_value 0 s = Some n" using assms digits_value_digits [of s 0] by (auto simp: digits_def)
  have "int n < 2 ^ 63 \<longleftrightarrow> n < 2 ^ 63" by (metis of_nat_less_numeral_power_cancel_iff)
  then show ?thesis using s(1) sign n by (simp add: atoi_def value_of_def)
qed

lemma digit_plain: "\<not> is_digit CHR ''+''" "\<not> is_digit CHR ''-''" "\<not> is_digit CHR ''.''"
  by (simp_all add: is_digit_def)

lemma contains_char: "str_contains s [c] \<longleftrightarrow> c \<in> set s"
  by (simp add: str_contains_iff in_set_conv_decomp)

lemma cut_takeWhile: "fst (str_cut c s) = takeWhile (\<lambda>x. x \<noteq> c) s"
  by (induction c s rule: str_cut.induct) (auto split: prod.split)

text \<open>A stable build leaves nothing of the version but its numbers.\<close>

lemma stable_version:
  assumes "digits a" "digits b" "digits c" "build_ok build"
  shows "versionAtLeast (version_text (a, b, c, build)) minimum \<longleftrightarrow>
    (build = [] \<or> hd build = CHR ''+'') \<and> length (str_split CHR ''.'' minimum) = 3 \<and> compare_parts [a, b, c] (str_split CHR ''.'' minimum)"
proof -
  let ?n = "a @ ''.'' @ b @ ''.'' @ c"
  have plain: "CHR ''+'' \<notin> set ?n" "CHR ''-'' \<notin> set ?n" and dots: "CHR ''.'' \<notin> set a" "CHR ''.'' \<notin> set b" "CHR ''.'' \<notin> set c"
    using assms(1-3) digit_plain unfolding digits_def list_all_iff by auto
  have no_plus: "\<And>x. x \<in> set ?n \<Longrightarrow> x \<noteq> CHR ''+''" using plain(1) by blast
  have split: "str_split CHR ''.'' ?n = [a, b, c]" using dots by (simp add: str_split_append_sep str_split_none)
  have "version_text (a, b, c, build) = ?n @ build" by (simp add: version_text_def)
  then have cut: "fst (str_cut CHR ''+'' (version_text (a, b, c, build))) = ?n @ takeWhile (\<lambda>x. x \<noteq> CHR ''+'') build"
    using takeWhile_append2 [OF no_plus] by (simp only: cut_takeWhile)
  show ?thesis
  proof (cases "build = [] \<or> hd build = CHR ''+''")
    case True
    have "fst (str_cut CHR ''+'' (version_text (a, b, c, build))) = ?n"
      unfolding cut using True by (cases build) auto
    moreover have "\<not> str_contains ?n ''-''" using plain(2) contains_char by metis
    ultimately show ?thesis using True split by (auto simp: versionAtLeast_def Let_def)
  next
    case False
    then obtain t where build: "build = CHR ''-'' # t" using assms(4) by (cases build) (auto simp: build_ok_def)
    have takeWhile: "takeWhile (\<lambda>x. x \<noteq> CHR ''+'') build = CHR ''-'' # takeWhile (\<lambda>x. x \<noteq> CHR ''+'') t" using build by simp
    have "fst (str_cut CHR ''+'' (version_text (a, b, c, build))) = ?n @ CHR ''-'' # takeWhile (\<lambda>x. x \<noteq> CHR ''+'') t"
      using cut takeWhile by simp
    then have "str_contains (fst (str_cut CHR ''+'' (version_text (a, b, c, build)))) ''-''" by (simp add: contains_char)
    then show ?thesis using False by (simp add: versionAtLeast_def)
  qed
qed

lemma minimum_parts:
  "str_split CHR ''.'' (minimum_of provider) =
     (if provider = ''claude'' then [''2'', ''1'', ''259''] else [''0'', ''153'', ''0''])"
  by (simp add: minimum_of_def MinimumClaudeVersion_def MinimumCodexVersion_def)

lemma minimum_values:
  "atoi ''2'' = Some 2" "atoi ''1'' = Some 1" "atoi ''259'' = Some 259" "atoi ''0'' = Some 0" "atoi ''153'' = Some 153"
  by code_simp+

lemma compare_three:
  assumes "atoi a = (if p < m then Some (int p) else None)" "atoi b = (if q < m then Some (int q) else None)"
    "atoi c = (if r < m then Some (int r) else None)" "atoi x = Some (int i)" "atoi y = Some (int j)" "atoi z = Some (int k)"
  shows "compare_parts [a, b, c] [x, y, z] \<longleftrightarrow> p < m \<and> (i < p \<or> i = p \<and> q < m \<and> (j < q \<or> j = q \<and> r < m \<and> k \<le> r))"
  using assms by (auto simp: Let_def)

lemma compare_values:
  assumes "digits a" "digits b" "digits c"
  shows "compare_parts [a, b, c] (str_split CHR ''.'' (minimum_of provider)) \<longleftrightarrow>
    (let (x, y, z) = minimum_value provider; m = 2 ^ 63
     in value_of a < m \<and> (x < value_of a \<or> x = value_of a \<and> value_of b < m \<and> (y < value_of b \<or> y = value_of b \<and> value_of c < m \<and> z \<le> value_of c)))"
proof (cases "provider = ''claude''")
  case True
  then show ?thesis
    using compare_three [OF atoi_digits atoi_digits atoi_digits, OF assms, of "''2''" 2 "''1''" 1 "''259''" 259] minimum_values
    by (simp add: minimum_parts minimum_value_def Let_def del: compare_parts.simps)
next
  case False
  then show ?thesis
    using compare_three [OF atoi_digits atoi_digits atoi_digits, OF assms, of "''0''" 0 "''153''" 153 "''0''" 0] minimum_values
    by (simp add: minimum_parts minimum_value_def Let_def del: compare_parts.simps)
qed

lemma probe_entries:
  assumes "entry \<in> set (cc_env (probe_command user environment path args))"
  shows "entry \<in> {''LC_ALL=C'', ''LANG=C'', ''USER='' @ user, ''LOGNAME='' @ user}
    \<or> entry \<in> set environment \<and> (fst (str_cut CHR ''='' entry) \<in> set baseProviderEnvironment \<or> has_prefix (fst (str_cut CHR ''='' entry)) ''LC_'')"
  using assms by (auto simp: probe_command_def processEnvironment_def WithIdentity_def env_allowed_def case_prod_beta split: if_splits)

text \<open>
  C34: The preflight admits a client only when its version is a stable one, not older than the
  minimum by the order of the numbers, it names itself as the provider it is configured as, and
  its help lists every capability the Node relies on. It starts two commands, \<open>--version\<close> and the
  help, with nothing of the environment but the base variables.
\<close>

theorem preflight_admits_supported:
  assumes "Check w goos user environment provider0 bin = (Inr v, commands)"
  shows "let provider = to_lower (trim_space provider0)
    in (provider = ''codex'' \<and> goos \<noteq> ''windows'' \<or> provider = ''claude'')
      \<and> (\<exists>path a b c build raw usage.
           cli_look w (or_default bin provider) = Inr path
           \<and> commands = [probe_command user environment path [''--version''], probe_command user environment path (help_arguments provider)]
           \<and> probe w provider (commands ! 0) = Inr raw \<and> probe w provider (commands ! 1) = Inr usage
           \<and> v = a @ ''.'' @ b @ ''.'' @ c @ build \<and> digits a \<and> digits b \<and> digits c \<and> (build = [] \<or> hd build = CHR ''+'')
           \<and> (\<exists>pre \<in> {[], ''codex-cli ''}. \<exists>post \<in> {[], claude_mark}. raw = pre @ v @ post)
           \<and> (provider = ''codex'' \<longrightarrow> has_prefix raw ''codex-cli '') \<and> (provider = ''claude'' \<longrightarrow> has_suffix raw claude_mark)
           \<and> release_le (minimum_value provider) (value_of a, value_of b, value_of c)
           \<and> list_all (str_contains usage) (if provider = ''codex'' then codex_words else claude_flags))
      \<and> (\<forall>cmd \<in> set commands. \<forall>entry \<in> set (cc_env cmd).
           entry \<in> {''LC_ALL=C'', ''LANG=C'', ''USER='' @ user, ''LOGNAME='' @ user}
           \<or> entry \<in> set environment \<and> (fst (str_cut CHR ''='' entry) \<in> set baseProviderEnvironment \<or> has_prefix (fst (str_cut CHR ''='' entry)) ''LC_''))"
proof -
  define provider where "provider = to_lower (trim_space provider0)"
  let ?ask = "\<lambda>path. probe_command user environment path"
  have known: "provider = ''codex'' \<and> goos \<noteq> ''windows'' \<or> provider = ''claude''"
    using assms by (auto simp: Check_def Let_def provider_def [symmetric] split: if_splits)
  then obtain path raw usage where run: "cli_look w (or_default bin provider) = Inr path"
      "commands = [?ask path [''--version''], ?ask path (help_arguments provider)]"
      "probe w provider (?ask path [''--version'']) = Inr raw" "accepted_version provider raw = Some v"
      "probe w provider (?ask path (help_arguments provider)) = Inr usage" "help_error provider usage = None"
    using assms by (fastforce simp: Check_def Let_def provider_def [symmetric] split: sum.splits option.splits)
  have flags: "list_all (str_contains usage) (if provider = ''codex'' then codex_words else claude_flags)"
    using run(6) by (auto simp: help_error_def find_None_iff list_all_iff split: if_splits option.splits)
  obtain a b c build where pattern: "providerVersionPattern raw = Some (a, b, c, build)" "v = version_text (a, b, c, build)"
      "versionAtLeast v (minimum_of provider)" "provider = ''codex'' \<longrightarrow> has_prefix raw ''codex-cli ''" "provider = ''claude'' \<longrightarrow> has_suffix raw claude_mark"
    using run(4) by (auto simp: accepted_version_def split: option.splits if_splits)
  note shape = pattern(1) [unfolded pattern_exact]
  have "(build = [] \<or> hd build = CHR ''+'') \<and> compare_parts [a, b, c] (str_split CHR ''.'' (minimum_of provider))"
    using stable_version [of a b c build "minimum_of provider"] shape pattern(2,3) by simp
  then have order: "build = [] \<or> hd build = CHR ''+''" "release_le (minimum_value provider) (value_of a, value_of b, value_of c)"
    using compare_values [of a b c provider] shape by (auto simp: release_le_def Let_def split: prod.splits)
  have spelled: "v = a @ ''.'' @ b @ ''.'' @ c @ build" using pattern(2) by (simp add: version_text_def)
  have parts: "\<exists>pre \<in> {[], ''codex-cli ''}. \<exists>post \<in> {[], claude_mark}. raw = pre @ v @ post"
    using shape unfolding spelled append_assoc by blast
  have commands: "commands ! 0 = ?ask path [''--version'']" "commands ! 1 = ?ask path (help_arguments provider)" using run(2) by simp_all
  have entries: "\<forall>cmd \<in> set commands. \<forall>entry \<in> set (cc_env cmd).
      entry \<in> {''LC_ALL=C'', ''LANG=C'', ''USER='' @ user, ''LOGNAME='' @ user}
      \<or> entry \<in> set environment \<and> (fst (str_cut CHR ''='' entry) \<in> set baseProviderEnvironment \<or> has_prefix (fst (str_cut CHR ''='' entry)) ''LC_'')"
    using probe_entries unfolding run(2) by (metis (no_types, lifting) empty_iff empty_set set_ConsD)
  have digit: "digits a" "digits b" "digits c" using shape by blast+
  show ?thesis
    unfolding provider_def [symmetric] Let_def
    by (intro conjI known entries exI, rule run(1), rule run(2))
      (use commands run(3,5) in simp, use commands run(3,5) in simp, (rule spelled digit order parts pattern flags)+)
qed

text \<open>A supported Codex.\<close>

definition demo_cli :: cli_world where
  "demo_cli =
     \<lparr>cli_isprint = (\<lambda>_. True), cli_look = (\<lambda>bin. Inr (''/bin/'' @ bin)),
      cli_run = (\<lambda>cmd. \<lparr>px_stdout = (if cc_args cmd = [''--version''] then [''codex-cli 0.'', ''154.2+x'' @ [newline]]
                                      else [''app-server --listen --config --disable generate-json-schema'']),
                        px_stderr = [], px_err = None, px_ctx = None\<rparr>)\<rparr>"

lemma capture_small:
  assumes "length (concat writes) \<le> MaxBytes"
  shows "capture writes = \<lparr>buf = concat writes, cancelled = False, exceeded = False\<rparr>"
proof -
  have "foldl (\<lambda>b v. fst (buffer_write b v)) \<lparr>buf = kept, cancelled = False, exceeded = False\<rparr> writes
      = \<lparr>buf = kept @ concat writes, cancelled = False, exceeded = False\<rparr>" if "length (kept @ concat writes) \<le> MaxBytes" for kept
    using that
  proof (induction writes arbitrary: kept)
    case (Cons a writes)
    have "fst (buffer_write \<lparr>buf = kept, cancelled = False, exceeded = False\<rparr> a) = \<lparr>buf = kept @ a, cancelled = False, exceeded = False\<rparr>"
      using Cons.prems by (cases a) (auto simp: buffer_write_def limited_write_def Let_def)
    then show ?case using Cons by simp
  qed simp
  from this [of "[]"] show ?thesis using assms by (simp add: capture_def new_limited_buffer_def)
qed

lemma probe_small:
  assumes "px_err (cli_run w cmd) = None" "length (concat (px_stdout (cli_run w cmd))) \<le> MaxBytes" "px_stderr (cli_run w cmd) = []"
  shows "probe w provider cmd = Inr (trim_space (concat (px_stdout (cli_run w cmd))))"
  using assms by (simp add: probe_def run_captured_def Let_def capture_small limit_error_def)

theorem preflight_admits_supported_witness:
  "\<exists>commands. Check demo_cli ''linux'' [] [''PATH=/bin'', ''SECRET=x''] '' Codex '' [] = (Inr ''0.154.2+x'', commands) \<and> length commands = 2"
proof -
  have "fst (Check demo_cli ''linux'' [] [''PATH=/bin'', ''SECRET=x''] '' Codex '' []) = Inr ''0.154.2+x''"
  proof -
    have small: "n \<le> MaxBytes" if "n \<le> 100" for n using that by (simp add: MaxBytes_def)
    have probe: "probe demo_cli p cmd = Inr (trim_space (concat (px_stdout (cli_run demo_cli cmd))))" for p cmd
      by (rule probe_small) (simp_all add: demo_cli_def small)
    have eval: "to_lower (trim_space '' Codex '') = ''codex''" "or_default [] ''codex'' = ''codex''"
      "trim_space (''codex-cli 0.154.2+x'' @ [newline]) = ''codex-cli 0.154.2+x''"
      "trim_space ''app-server --listen --config --disable generate-json-schema'' = ''app-server --listen --config --disable generate-json-schema''"
      "accepted_version ''codex'' ''codex-cli 0.154.2+x'' = Some ''0.154.2+x''"
      "help_error ''codex'' ''app-server --listen --config --disable generate-json-schema'' = None"
      by code_simp+
    have look: "cli_look demo_cli b = Inr (''/bin/'' @ b)"
      "px_stdout (cli_run demo_cli (probe_command u env path args)) = (if args = [''--version''] then [''codex-cli 0.'', ''154.2+x'' @ [newline]]
         else [''app-server --listen --config --disable generate-json-schema''])" for b u env path args
      by (simp_all add: demo_cli_def probe_command_def)
    show ?thesis using eval by (simp add: Check_def Let_def probe look help_arguments_def)
  qed
  then obtain commands where check: "Check demo_cli ''linux'' [] [''PATH=/bin'', ''SECRET=x''] '' Codex '' [] = (Inr ''0.154.2+x'', commands)"
    by (metis prod.collapse)
  have "length commands = 2" using preflight_admits_supported [OF check] unfolding Let_def by (elim conjE exE) simp
  then show ?thesis using check by blast
qed

text \<open>For numbers that fit an \<open>int\<close> the comparison is the order on versions, and only stable builds pass.\<close>

lemma version_order_exact:
  assumes "digits a" "digits b" "digits c" "build_ok build" "value_of a < 2 ^ 63" "value_of b < 2 ^ 63" "value_of c < 2 ^ 63"
  shows "versionAtLeast (version_text (a, b, c, build)) (minimum_of provider) \<longleftrightarrow>
    (build = [] \<or> hd build = CHR ''+'') \<and> release_le (minimum_value provider) (value_of a, value_of b, value_of c)"
  using stable_version [OF assms(1-4), of "minimum_of provider"] compare_values [OF assms(1-3), of provider] assms(5-7)
  by (auto simp: release_le_def Let_def minimum_parts split: prod.splits)

text \<open>The probe of the tool sandbox gives its session up again: the locks always, everything where removing works.\<close>

theorem preflight_releases:
  assumes "CheckSessionIsolation e w c rs = (er, rs')"
  shows "locks_of rs' = locks_of rs" "removes (re_os e) \<Longrightarrow> fresh_session e rs \<Longrightarrow> rs' = rs"
proof -
  have "locks_of rs' = locks_of rs \<and> (removes (re_os e) \<and> fresh_session e rs \<longrightarrow> rs' = rs)"
  proof (cases "rs' = rs")
    case False
    obtain scope q rs1 where opened: "OpenClient (re_os e) (re_ctx e) (pc_isolation c) scope rs = (q, rs1)"
        "rs' = (case q of Inl _ \<Rightarrow> rs1 | Inr s \<Rightarrow> snd (snd (session_Close (re_os e) s rs1)))"
      using assms False
      by (fastforce simp: CheckSessionIsolation_def checkNativeToolSandbox_def Let_def split: option.splits if_splits sum.splits prod.splits)
    have clean: "rs' = rs" if "removes (re_os e)" "fresh_session e rs"
      using open_close_clean [OF that(1) opened(1) [unfolded OpenClient_def]] that(2) opened(2) by (auto simp: fresh_session_def split: sum.splits)
    have "locks_of rs' = locks_of rs"
    proof (cases q)
      case (Inl x)
      then show ?thesis using opened locks_openSession_Inl by (simp add: OpenClient_def)
    next
      case (Inr s)
      note o = locks_openSession_Inr [OF opened(1) [unfolded OpenClient_def Inr]]
      obtain er2 s2 where "session_Close (re_os e) s rs1 = (er2, s2, rs')" using opened(2) Inr by (metis prod.collapse sum.simps(6))
      then show ?thesis using locks_Close o by (metis release_fresh held_lock_iff)
    qed
    then show ?thesis using clean by blast
  qed simp
  then show "locks_of rs' = locks_of rs" "removes (re_os e) \<Longrightarrow> fresh_session e rs \<Longrightarrow> rs' = rs" by blast+
qed

end
