(* ===== verification/Private_Files.thy ===== *)
theory Private_Files
  imports Session_Store Sandbox_Session
begin

text \<open>
  The private files of the Node (\<open>pkg/adapters/appfiles/files.go\<close>): a secret is read only from a
  regular file of the current user that nobody else can read, and a file is written privately and
  replaced in one step.
\<close>

definition secret_limit :: nat where
  "secret_limit = 64 * 1024"

definition ReadPrivateSecret :: "fs_env \<Rightarrow> string \<Rightarrow> files \<Rightarrow> string result" where
  "ReadPrivateSecret e path fs =
     (case fe_lstat e of
        Some er \<Rightarrow> Inl er
      | None \<Rightarrow>
          (case fs path of
             None \<Rightarrow> Inl err_not_exist
           | Some info \<Rightarrow>
               if fn_symlink info \<or> \<not> fn_regular info then Inl (ErrNew ''secret path must be a regular file and not a symlink'')
               else if group_or_other (fn_perm info) then Inl (ErrNew ''secret file must not be accessible by group or other users'')
               else if \<not> fn_owned info then Inl (ErrNew ''secret file must be owned by the current user'')
               else if fn_bytes info = [] \<or> secret_limit < length (fn_bytes info) then Inl (ErrNew ''secret file size is invalid'')
               else
                 (case fe_open e info of
                    Inl er \<Rightarrow> Inl er
                  | Inr (_, opened) \<Rightarrow>
                      (case fe_read e of
                         Some er \<Rightarrow> Inl er
                       | None \<Rightarrow>
                           (let value = trim_space (take (secret_limit + 1) (fn_bytes opened))
                            in if value = [] then Inl (ErrNew ''secret file is empty'') else Inr value)))))"

definition WritePrivateFile :: "fs_env \<Rightarrow> string \<Rightarrow> string \<Rightarrow> files \<Rightarrow> go_error option \<times> files" where
  "WritePrivateFile e path raw fs =
     (case fe_write e WMkdirAll of
        Some er \<Rightarrow> (Some er, fs)
      | None \<Rightarrow>
          (case fe_lstat e of
             Some er \<Rightarrow> (Some er, fs)
           | None \<Rightarrow>
               if (case fs path of None \<Rightarrow> False | Some info \<Rightarrow> fn_symlink info \<or> \<not> fn_regular info)
               then (Some (ErrNew ''destination is not a regular file''), fs)
               else
                 (case fe_write e WCreateTemp of
                    Some er \<Rightarrow> (Some er, fs)
                  | None \<Rightarrow>
                      (case first_failure (fe_write e) [WChmod, WWrite, WSync, WClose, WRename] of
                         Some er \<Rightarrow> (Some er, fs(fe_temp e := None))
                       | None \<Rightarrow> (None, fs(fe_temp e := None, path \<mapsto> temp_node raw))))))"

definition WritePrivateJSON :: "fs_env \<Rightarrow> string \<Rightarrow> json \<Rightarrow> files \<Rightarrow> go_error option \<times> files" where
  "WritePrivateJSON e path v fs = WritePrivateFile e path (json_marshal_indent v @ [CHR 0x0A]) fs"

section \<open>Properties\<close>

lemma written_file:
  assumes "WritePrivateFile e path raw fs = (None, fs')" "fe_temp e \<noteq> path"
  shows "fs' path = Some (temp_node raw)" "q \<noteq> path \<Longrightarrow> q \<noteq> fe_temp e \<Longrightarrow> fs' q = fs q"
  using assms by (auto simp: WritePrivateFile_def split: option.splits if_splits)

text \<open>
  What was written privately is what a secret is read back as, and nothing else of the file
  system changes; a write that fails leaves the destination as it was. A destination that is not a
  regular file is never replaced.
\<close>

theorem private_file_roundtrip:
  assumes "WritePrivateFile e path raw fs = (er, fs')" "fe_temp e \<noteq> path" "fs (fe_temp e) = None"
  shows "(case er of
            Some _ \<Rightarrow> fs' = fs
          | None \<Rightarrow> fs' = fs(path \<mapsto> temp_node raw)
              \<and> (\<forall>info. fs path = Some info \<longrightarrow> fn_regular info \<and> \<not> fn_symlink info)
              \<and> (calm e \<and> trim_space raw \<noteq> [] \<and> length raw \<le> secret_limit \<longrightarrow> ReadPrivateSecret e path fs' = Inr (trim_space raw)))"
proof (cases er)
  case (Some x)
  then show ?thesis using assms by (auto simp: WritePrivateFile_def fun_upd_idem split: option.splits if_splits)
next
  case None
  have fs': "fs' = fs(path \<mapsto> temp_node raw)" and regular: "\<forall>info. fs path = Some info \<longrightarrow> fn_regular info \<and> \<not> fn_symlink info"
    using assms None by (auto simp: WritePrivateFile_def fun_upd_idem split: option.splits if_splits)
  have "ReadPrivateSecret e path fs' = Inr (trim_space raw)" if "calm e" "trim_space raw \<noteq> []" "length raw \<le> secret_limit"
  proof -
    have "raw \<noteq> []" using that(2) by auto
    then show ?thesis
      using fs' that by (simp add: ReadPrivateSecret_def calm_def temp_node_def group_or_other_def Let_def)
  qed
  then show ?thesis using None fs' regular by simp
qed

theorem private_file_roundtrip_witness:
  "ReadPrivateSecret demo_fs_env ''/s/key'' (snd (WritePrivateFile demo_fs_env ''/s/key'' '' id-1 '' (\<lambda>_. None))) = Inr ''id-1''"
proof -
  have wrote: "WritePrivateFile demo_fs_env ''/s/key'' '' id-1 '' (\<lambda>_. None) = (None, (\<lambda>_. None)(''/s/key'' \<mapsto> temp_node '' id-1 ''))"
    by (simp add: WritePrivateFile_def demo_fs_env_def)
  have "fe_temp demo_fs_env \<noteq> ''/s/key''" by (simp add: demo_fs_env_def)
  from private_file_roundtrip [OF wrote this] show ?thesis
    by (simp add: wrote demo_calm demo_trims secret_limit_def)
qed

end
