(* ===== verification/Node_Handler.thy ===== *)
theory Node_Handler
  imports Node_Adapters
begin

text \<open>
  The handler that the SDK worker calls with an assigned Run: \<open>runtimeAdapterHandler.Handle\<close> of
  \<open>internal/agentnode/node.go\<close>. The adapter is an argument: what it makes of a Run, which may
  be a panic. While it runs, the helper server goes on serving other Runs (\<open>meanwhile\<close>).
\<close>

section \<open>Assignments\<close>

record assignment =
  as_run :: string
  as_agent :: string
  as_principal :: "string option"
  as_input :: json
  as_metadata :: "(string \<times> json) list"
  as_reads_delegated :: bool
  as_emit :: "string \<Rightarrow> json \<Rightarrow> go_error option"
  as_call :: "string \<Rightarrow> json \<Rightarrow> call_options \<Rightarrow> json result"

definition reserved_metadata :: "string list" where
  "reserved_metadata =
     [''a2a'', ''conversation'', ''_openlinker_skill_packages'', ''_openlinker_mcp_bindings'', ''_openlinker_mcp_binding'']"

definition run_of_assignment :: "assignment \<Rightarrow> node_run" where
  "run_of_assignment a =
     \<lparr>rn_mcp = obj_get (as_metadata a) ''_openlinker_mcp_bindings'',
      rn_packages = obj_get (as_metadata a) ''_openlinker_skill_packages'',
      rn_run = as_run a, rn_agent = as_agent a, rn_principal = as_principal a, rn_input = as_input a,
      rn_metadata = filter (\<lambda>(k, _). k \<notin> set reserved_metadata) (as_metadata a),
      rn_source = ''agent_runtime'', rn_a2a = jsonMapFromAny (obj_get (as_metadata a) ''a2a''),
      rn_conversation = trustedConversationContext (obj_get (as_metadata a) ''conversation''),
      rn_helper = None, rn_reads_delegated = as_reads_delegated a\<rparr>"

definition assignment_session :: "assignment \<Rightarrow> helper_session" where
  "assignment_session a = \<lparr>hs_run = as_run a, hs_sink = Checked (as_emit a), hs_call = as_call a\<rparr>"

section \<open>The handler\<close>

datatype adapter_outcome = Returned "adapter_value result" | Panicked

definition failed_result :: "agent_error \<Rightarrow> runtime_result" where
  "failed_result er = \<lparr>rr_status = ''failed'', rr_output = JNull, rr_events = [], rr_error = Some er\<rparr>"

definition handle_outcome :: "(string \<Rightarrow> string) \<Rightarrow> adapter_outcome \<Rightarrow> runtime_result" where
  "handle_outcome flt outcome =
     (case outcome of
        Panicked \<Rightarrow> failed_result \<lparr>ae_code = ''ADAPTER_PANIC'', ae_message = ''adapter panicked''\<rparr>
      | Returned (Inl er) \<Rightarrow> failed_result (normalizeAgentError er)
      | Returned (Inr raw) \<Rightarrow>
          (let r = normalizeAdapterResult flt raw
           in \<lparr>rr_status = ar_status r, rr_output = ar_output r, rr_events = ar_events r, rr_error = ar_error r\<rparr>))"

definition Handle ::
  "(string \<Rightarrow> string) \<Rightarrow> string \<Rightarrow> (node_run \<Rightarrow> adapter_outcome) \<Rightarrow> (helper_state \<Rightarrow> helper_state)
   \<Rightarrow> assignment \<Rightarrow> helper_state option \<Rightarrow> runtime_result \<times> helper_state option" where
  "Handle flt random adapter meanwhile a helper =
     (case helper of
        None \<Rightarrow> (handle_outcome flt (adapter (run_of_assignment a)), None)
      | Some st \<Rightarrow>
          (let (info, st1) = CreateSession random (assignment_session a) st;
               outcome = adapter ((run_of_assignment a)\<lparr>rn_helper := Some info\<rparr>)
           in (handle_outcome flt outcome, Some (CloseSession (hi_token info) (meanwhile st1)))))"

section \<open>Bounded messages\<close>

lemma runes_not_Nil: "runes s = [] \<longleftrightarrow> s = []"
  by (cases s) (simp_all add: Let_def del: rune_width.simps)

lemma rune_not_empty: "r \<in> set (runes s) \<Longrightarrow> r \<noteq> []"
proof (induction s rule: runes.induct)
  case (2 c s)
  then show ?case
    by (cases "rune_width (c # s) = 0") (auto simp: Let_def replacement_def simp del: rune_width.simps)
qed simp

lemma truncate_not_Nil: "0 < m \<Longrightarrow> s \<noteq> [] \<Longrightarrow> truncate_runes m s \<noteq> []"
proof -
  assume m: "0 < m" and s: "s \<noteq> []"
  obtain r rs where r: "runes s = r # rs" using s runes_not_Nil [of s] by (cases "runes s") auto
  then have "r \<noteq> []" using rune_not_empty [of r s] by simp
  with m s r show ?thesis by (cases m) (auto simp: truncate_runes_def)
qed

lemma agent_error_bounded:
  "ae_message (normalizeAgentError er) \<noteq> [] \<and> length (runes (ae_message (normalizeAgentError er))) \<le> 500"
proof (cases "errors_is er ErrCanceled")
  case True
  moreover have "length (runes ''adapter execution was canceled'') \<le> 500" by code_simp
  ultimately show ?thesis by (simp add: normalizeAgentError_def)
next
  case False
  then show ?thesis
    by (auto simp: normalizeAgentError_def bounded_runtime_text_def Let_def truncate_not_Nil intro: truncate_runes_bound)
qed

lemma normalized_status: "ar_status (normalizeAdapterResult flt raw) \<noteq> []"
  by (auto simp: normalizeAdapterResult_def fillAdapterDefaults_def adapterResultFromMap_def Let_def
      split: adapter_value.splits json.splits option.splits)

lemma map_of_filter_keys: "map_of (filter (\<lambda>(k, _). P k) m) k = (if P k then map_of m k else None)"
  by (induction m) auto

lemma trusted_conversation:
  "trustedConversationContext v = Some c \<Longrightarrow>
   conv_source c = ''core'' \<and> trim_space (conv_session_key c) \<noteq> [] \<and> trim_space (conv_current_run c) \<noteq> []"
  by (auto simp: trustedConversationContext_def split: option.splits if_splits)

lemma outcome_contained:
  "case adapter run of
     Panicked \<Rightarrow> rr_status (handle_outcome flt (adapter run)) = ''failed''
       \<and> map_option ae_code (rr_error (handle_outcome flt (adapter run))) = Some ''ADAPTER_PANIC''
   | Returned (Inl er) \<Rightarrow> rr_status (handle_outcome flt (adapter run)) = ''failed'' \<and> rr_output (handle_outcome flt (adapter run)) = JNull
       \<and> map_option ae_code (rr_error (handle_outcome flt (adapter run))) =
           Some (if errors_is er ErrCanceled then ''ADAPTER_CANCELED'' else ''AGENT_NODE_ERROR'')
       \<and> ae_message (the (rr_error (handle_outcome flt (adapter run)))) \<noteq> []
       \<and> length (runes (ae_message (the (rr_error (handle_outcome flt (adapter run)))))) \<le> 500
   | Returned (Inr _) \<Rightarrow> rr_status (handle_outcome flt (adapter run)) \<noteq> []"
proof (cases "adapter run")
  case (Returned r)
  show ?thesis
  proof (cases r)
    case (Inl er)
    have "ae_code (normalizeAgentError er) = (if errors_is er ErrCanceled then ''ADAPTER_CANCELED'' else ''AGENT_NODE_ERROR'')"
      by (simp add: normalizeAgentError_def)
    then show ?thesis
      using Returned Inl agent_error_bounded [of er] by (simp add: handle_outcome_def failed_result_def)
  next
    case (Inr v)
    then show ?thesis using Returned normalized_status [of flt v] by (simp add: handle_outcome_def Let_def)
  qed
qed (simp add: handle_outcome_def failed_result_def)

section \<open>Properties\<close>

text \<open>
  C27: The handler contains whatever an adapter does. A panic, an error and a result each become one
  result for the Run: a panic and an error are failures with a code and, for an error, a message of
  1 to 500 runes; any other answer gets a status. The adapter never sees the reserved metadata of
  Core among the Run's metadata, everything else unchanged, and a conversation only when Core
  vouches for it. The helper token of the Run is withdrawn in every case, whatever other Runs did
  to the helper meanwhile.
\<close>

theorem handler_contains_adapter:
  assumes reach: "helper_step\<^sup>*\<^sup>* (init_helper base) st" and fresh: "''olh_'' @ random \<notin> fst ` set (hp_issued st)"
    and other: "\<forall>s. helper_step\<^sup>*\<^sup>* s (meanwhile s)"
  shows "let (info, st1) = CreateSession random (assignment_session a) st;
             run = (run_of_assignment a)\<lparr>rn_helper := Some info\<rparr>;
             (res, helper) = Handle flt random adapter meanwhile a (Some st)
         in (case adapter run of
               Panicked \<Rightarrow> rr_status res = ''failed'' \<and> map_option ae_code (rr_error res) = Some ''ADAPTER_PANIC''
             | Returned (Inl er) \<Rightarrow> rr_status res = ''failed'' \<and> rr_output res = JNull
                 \<and> map_option ae_code (rr_error res) =
                     Some (if errors_is er ErrCanceled then ''ADAPTER_CANCELED'' else ''AGENT_NODE_ERROR'')
                 \<and> ae_message (the (rr_error res)) \<noteq> [] \<and> length (runes (ae_message (the (rr_error res)))) \<le> 500
             | Returned (Inr _) \<Rightarrow> rr_status res \<noteq> [])
            \<and> map_of (rn_metadata run) k = (if k \<in> set reserved_metadata then None else map_of (as_metadata a) k)
            \<and> pred_option (\<lambda>c. conv_source c = ''core'' \<and> trim_space (conv_session_key c) \<noteq> []) (rn_conversation run)
            \<and> pred_option (\<lambda>st'. helper_step\<^sup>*\<^sup>* (init_helper base) st' \<and> map_of (hp_sessions st') (hi_token info) = None
                 \<and> hi_token info \<in> set (hp_revoked st')) helper
            \<and> helper \<noteq> None"
proof -
  obtain info st1 where c: "CreateSession random (assignment_session a) st = (info, st1)"
    by (cases "CreateSession random (assignment_session a) st")
  then have tok: "hi_token info = ''olh_'' @ random" and st1: "st1 = snd (CreateSession random (assignment_session a) st)"
    and iss: "hi_token info \<in> fst ` set (hp_issued st1)"
    by (auto simp: CreateSession_def Let_def)
  have "helper_step st st1" unfolding st1 using fresh by (rule helper_step.create)
  then have r1: "helper_step\<^sup>*\<^sup>* (init_helper base) st1" using reach by simp
  have grow: "fst ` set (hp_issued s) \<subseteq> fst ` set (hp_issued s')" if "helper_step\<^sup>*\<^sup>* s s'" for s s'
    using that
  proof (induction rule: rtranclp_induct)
    case (step y z)
    from step(2) have "fst ` set (hp_issued y) \<subseteq> fst ` set (hp_issued z)"
      by cases (auto simp: CreateSession_def CloseSession_def StopHelper_def Let_def)
    with step show ?case by blast
  qed simp
  have r2: "helper_step\<^sup>*\<^sup>* (init_helper base) (meanwhile st1)" using r1 other rtranclp_trans by metis
  have "helper_step (meanwhile st1) (CloseSession (hi_token info) (meanwhile st1))"
    by (rule helper_step.close) (use grow [OF other [rule_format, of st1]] iss in blast)
  then have r3: "helper_step\<^sup>*\<^sup>* (init_helper base) (CloseSession (hi_token info) (meanwhile st1))" using r2 by simp
  have h: "Handle flt random adapter meanwhile a (Some st) =
      (handle_outcome flt (adapter ((run_of_assignment a)\<lparr>rn_helper := Some info\<rparr>)),
       Some (CloseSession (hi_token info) (meanwhile st1)))"
    by (simp add: Handle_def c)
  have conv: "pred_option (\<lambda>c. conv_source c = ''core'' \<and> trim_space (conv_session_key c) \<noteq> [])
      (rn_conversation (run_of_assignment a))"
    using trusted_conversation by (cases "rn_conversation (run_of_assignment a)") (auto simp: run_of_assignment_def)
  have meta: "map_of (rn_metadata (run_of_assignment a)) k = (if k \<in> set reserved_metadata then None else map_of (as_metadata a) k)"
    by (simp add: run_of_assignment_def map_of_filter_keys)
  have closed: "map_of (hp_sessions (CloseSession t s)) t = None" "t \<in> set (hp_revoked (CloseSession t s))" for t s
    by (simp_all add: CloseSession_def)
  show ?thesis
    using r3 conv closed outcome_contained [of flt adapter "(run_of_assignment a)\<lparr>rn_helper := Some info\<rparr>"] meta
    by (simp add: c h)
qed

section \<open>Witnesses\<close>

definition demo_assignment :: assignment where
  "demo_assignment =
     \<lparr>as_run = ''run-7'', as_agent = ''agent'', as_principal = None, as_input = JStr ''hi'',
      as_metadata = [(''a2a'', JObj []), (''note'', JBool True)], as_reads_delegated = False,
      as_emit = (\<lambda>_ _. None), as_call = (\<lambda>_ _ _. Inr JNull)\<rparr>"

theorem handler_contains_adapter_witness:
  "\<exists>st'. Handle id ''t'' (\<lambda>run. if map_of (rn_metadata run) ''a2a'' = None then Panicked else Returned (Inr (Decoded JNull))) id
      demo_assignment (Some (init_helper ''http://h'')) =
      (failed_result \<lparr>ae_code = ''ADAPTER_PANIC'', ae_message = ''adapter panicked''\<rparr>, Some st')
    \<and> map_of (hp_sessions st') ''olh_t'' = None \<and> ''olh_t'' \<in> set (hp_revoked st')"
proof -
  let ?ad = "\<lambda>run. if map_of (rn_metadata run) ''a2a'' = None then Panicked else Returned (Inr (Decoded JNull))"
  have fresh: "''olh_'' @ ''t'' \<notin> fst ` set (hp_issued (init_helper ''http://h''))" by (simp add: init_helper_def)
  have other: "\<forall>s. helper_step\<^sup>*\<^sup>* s (id s)" by simp
  have hidden: "map_of (rn_metadata (run_of_assignment demo_assignment)) ''a2a'' = None"
    by (simp add: run_of_assignment_def demo_assignment_def reserved_metadata_def)
  note h = handler_contains_adapter [OF rtranclp.rtrancl_refl fresh other, of demo_assignment id ?ad "''a2a''"]
  then show ?thesis
    using hidden by (simp add: Handle_def CreateSession_def Let_def handle_outcome_def init_helper_def)
qed

section \<open>Errors that a decoded answer reports\<close>

text \<open>
  A command or HTTP adapter that answers with a JSON object cannot report an error: the \<open>error\<close>
  member is left out of the output and never becomes the result's error, and a \<open>status\<close> beside an
  \<open>output\<close> is dropped with the envelope, so the Run succeeds.
\<close>

lemma decoded_error_dropped:
  "rr_error (handle_outcome flt (Returned (Inr (Decoded v)))) = None"
  "map_of m ''output'' = Some out \<Longrightarrow> (\<And>o'. out \<noteq> JObj o') \<Longrightarrow>
   rr_status (handle_outcome flt (Returned (Inr (unwrap_output (Decoded (JObj m)))))) = ''success''"
  by (auto simp: handle_outcome_def normalizeAdapterResult_def adapterResultFromMap_def unwrap_output_def Let_def
      split: json.split)

end
