(* ===== verification/Native_Adapter.thy ===== *)
theory Native_Adapter
  imports Delegation_Run Provider_Preflight Private_Files Node_Handler
begin

text \<open>
  The Node's adapter for Codex and Claude (\<open>internal/agentnode/adapter_native.go\<close>,
  \<open>native_credentials.go\<close>) and the handler published for embedding
  (\<open>pkg/adapters/handler_compat.go\<close>): both build the provider of a configuration once, hand it a
  Run and turn its outcome into a result.
\<close>

section \<open>Credentials\<close>

text \<open>What is read of the machine: the platform, the environment of the Node and its files.\<close>

record credential_env =
  ce_goos :: string
  ce_environ :: "string list"
  ce_store :: fs_env
  ce_files :: files

definition key_name :: string where
  "key_name = ''ANTHROPIC_API_KEY''"

definition key_file_name :: string where
  "key_file_name = ''ANTHROPIC_API_KEY_FILE''"

definition entry_name :: "string \<Rightarrow> string" where
  "entry_name item = fst (str_cut CHR ''='' item)"

text \<open>The last entry of a name, trimmed; empty without one.\<close>

definition last_value :: "string \<Rightarrow> string list \<Rightarrow> string" where
  "last_value name environment =
     foldl (\<lambda>v item. case str_cut CHR ''='' item of (n, value, _) \<Rightarrow> if n = name then trim_space value else v) [] environment"

definition credential_environment :: "string list \<Rightarrow> string \<Rightarrow> string list" where
  "credential_environment environment key =
     filter (\<lambda>item. entry_name item \<noteq> key_name \<and> entry_name item \<noteq> key_file_name) environment
     @ (if key = [] then [] else [key_name @ ''='' @ key])"

definition prepareNativeCredentials :: "credential_env \<Rightarrow> provider_config \<Rightarrow> provider_config result" where
  "prepareNativeCredentials x c =
     (if \<not> equal_fold (trim_space (pc_provider c)) ''claude'' then Inr c
      else
        (let environment = (case pc_env c of None \<Rightarrow> ce_environ x | Some env \<Rightarrow> env);
             key = last_value key_name environment; path = last_value key_file_name environment; required = (pc_targets c \<noteq> [])
         in if \<not> required \<and> path = [] then Inr c
            else if key \<noteq> [] \<and> path \<noteq> [] then Inl (ErrNew ''ANTHROPIC_API_KEY and ANTHROPIC_API_KEY_FILE are mutually exclusive'')
            else if path \<noteq> [] \<and> ce_goos x = ''windows''
            then Inl (ErrNew (''ANTHROPIC_API_KEY_FILE requires POSIX private-file checks; use ANTHROPIC_API_KEY on Windows '' @
              ''(DACL validation is not implemented)''))
            else
              (case (if path = [] then Inr key else ReadPrivateSecret (ce_store x) path (ce_files x)) of
                 Inl _ \<Rightarrow>
                   Inl (ErrNew (''ANTHROPIC_API_KEY_FILE must be a readable, nonempty private regular file owned by the current user '' @
                     ''(no symlinks, at most 64 KiB)''))
               | Inr key \<Rightarrow>
                   if key = [] \<and> required
                   then Inl (ErrNew (''Claude delegation uses --bare and requires ANTHROPIC_API_KEY or ANTHROPIC_API_KEY_FILE; '' @
                     ''OAuth/Keychain login is not used''))
                   else Inr (c\<lparr>pc_env := Some (credential_environment environment key)\<rparr>))))"

section \<open>The adapter\<close>

text \<open>The configuration and the provider are made once; \<open>na_host\<close> is the provider's resolver.\<close>

record native_adapter =
  na_config :: provider_config
  na_prepared :: "provider_config result option"
  na_provider :: "provider result option"
  na_host :: resolver

definition configuration :: "credential_env \<Rightarrow> native_adapter \<Rightarrow> provider_config result \<times> native_adapter" where
  "configuration x a =
     (case na_prepared a of
        Some r \<Rightarrow> (r, a)
      | None \<Rightarrow> (let r = prepareNativeCredentials x (na_config a) in (r, a\<lparr>na_prepared := Some r\<rparr>)))"

definition backend :: "credential_env \<Rightarrow> host \<Rightarrow> host_exec \<Rightarrow> native_adapter \<Rightarrow> provider result \<times> native_adapter" where
  "backend x h hosts a =
     (case na_provider a of
        Some r \<Rightarrow> (r, a)
      | None \<Rightarrow>
          (case configuration x a of
             (Inl er, a1) \<Rightarrow> (Inl er, a1\<lparr>na_provider := Some (Inl er)\<rparr>)
           | (Inr c, a1) \<Rightarrow>
               (case NewProvider h hosts c of
                  Inl er \<Rightarrow> (Inl er, a1\<lparr>na_provider := Some (Inl er)\<rparr>)
                | Inr (p, host) \<Rightarrow> (Inr p, a1\<lparr>na_provider := Some (Inr p), na_host := host\<rparr>))))"

definition RuntimeFeatures :: "string \<Rightarrow> native_adapter \<Rightarrow> string list" where
  "RuntimeFeatures readFeature a = Features (pc_provider (na_config a)) @ [''mcp_bindings.v1'', readFeature]"

text \<open>The Run as the provider sees it.\<close>

definition native_run :: "node_run \<Rightarrow> json \<Rightarrow> provider_run" where
  "native_run run input =
     \<lparr>rc_run_id = rn_run run, rc_agent_id = rn_agent run, rc_principal = rn_principal run,
      rc_conversation = (case rn_conversation run of None \<Rightarrow> None | Some c \<Rightarrow> if conv_source c = ''core'' then Some c else None),
      rc_packages_loaded = False, pr_mcp = rn_mcp run, pr_bound_tools = [], pr_bound_digest = [],
      pr_packages = (if rn_packages run = JNull then None else Some (rn_packages run)), pr_packages_digest = [], pr_loaded = [],
      pr_socket = [], pr_proxy_bin = [], pr_input = input, pr_metadata = Some (rn_metadata run), pr_a2a = rn_a2a run\<rparr>"

text \<open>The surroundings of a native Run.\<close>

record native_world =
  nw_run :: run_env
  nw_codex :: codex_world
  nw_client :: client
  nw_delegation :: delegation_world
  nw_credentials :: credential_env
  nw_cli :: cli_world

definition outcome_result :: "outcome \<Rightarrow> runtime_result result" where
  "outcome_result out = (case snd out of Some er \<Rightarrow> Inl er | None \<Rightarrow> Inr (fst out))"

definition NativeAdapter_Run ::
  "native_world \<Rightarrow> json \<Rightarrow> node_run \<Rightarrow> native_adapter \<times> run_state \<times> resource list \<Rightarrow>
   (adapter_value result \<times> native_adapter \<times> run_state \<times> resource list) option" where
  "NativeAdapter_Run w input run s =
     (case s of (a, st, rs) \<Rightarrow>
        (case backend (nw_credentials w) (host.truncate (re_os (nw_run w))) (dw_hosts (nw_delegation w)) a of
           (Inl er, a1) \<Rightarrow> Some (Inl er, a1, st, rs)
         | (Inr p, a1) \<Rightarrow>
             map_option
               (\<lambda>(out, ds). (native_output (outcome_result out), a1\<lparr>na_host := ds_host ds\<rparr>, ds_run ds, ds_resources ds))
               (provider_Run (nw_run w) (nw_codex w) (nw_client w) (nw_delegation w) p (native_run run input)
                  \<lparr>ds_run = st, ds_resources = rs, ds_host = na_host a1\<rparr>)))"

text \<open>What is checked before the Node accepts work.\<close>

definition Preflight :: "native_world \<Rightarrow> native_adapter \<Rightarrow> held list \<Rightarrow> resource list \<Rightarrow> go_error option \<times> native_adapter \<times> held list \<times> resource list" where
  "Preflight w a hs rs =
     (case configuration (nw_credentials w) a of
        (Inl er, a1) \<Rightarrow> (Some er, a1, hs, rs)
      | (Inr c, a1) \<Rightarrow>
          (case CheckSessionIsolation (nw_run w) (nw_cli w) c hs of
             (Some er, hs1) \<Rightarrow> (Some er, a1, hs1, rs)
           | (None, hs1) \<Rightarrow>
               (case fst (CheckProviderCLI (nw_run w) (nw_cli w) c) of
                  Inl er \<Rightarrow> (Some er, a1, hs1, rs)
                | Inr _ \<Rightarrow>
                    (case (if pc_targets c = [] then Resolve (dw_hosts (nw_delegation w)) (pc_proxy_bin c) ''delegation_proxy'' else Inr []) of
                       Inl er \<Rightarrow> (Some (ErrWrap ''MCP delivery preflight: delegation proxy unavailable: '' er []), a1, hs1, rs)
                     | Inr _ \<Rightarrow>
                         (case CheckBrokerRoot (dw_start (nw_delegation w)) (pc_broker_root c) rs of
                            (Some er, rs1) \<Rightarrow> (Some (ErrWrap ''MCP delivery preflight: private broker unavailable: '' er []), a1, hs1, rs1)
                          | (None, rs1) \<Rightarrow>
                              (case backend (nw_credentials w) (host.truncate (re_os (nw_run w))) (dw_hosts (nw_delegation w)) a1 of
                                 (Inl er, a2) \<Rightarrow> (Some er, a2, hs1, rs1)
                               | (Inr _, a2) \<Rightarrow> (None, a2, hs1, rs1)))))))"

section \<open>The published handler\<close>

datatype provider_answer = Answered outcome | Broke

definition compat_reserved :: "string list" where
  "compat_reserved = [''a2a'', ''conversation'', ''_openlinker_mcp_bindings'', ''_openlinker_mcp_binding'']"

definition conversationValue :: "json \<Rightarrow> conversation option" where
  "conversationValue v =
     (case Option.bind (json_parse (json_marshal v)) (decode_struct False conversation_fields zero_conversation) of
        None \<Rightarrow> None
      | Some c \<Rightarrow> if trim_space (conv_session_key c) = [] \<or> trim_space (conv_current_run c) = [] then None else Some c)"

definition mapValue :: "json \<Rightarrow> (string \<times> json) list" where
  "mapValue v = (case v of JObj kvs \<Rightarrow> kvs | _ \<Rightarrow> [])"

definition compat_run :: "assignment \<Rightarrow> provider_run" where
  "compat_run a =
     \<lparr>rc_run_id = as_run a, rc_agent_id = as_agent a, rc_principal = as_principal a,
      rc_conversation = (case conversationValue (obj_get (as_metadata a) ''conversation'') of
                           None \<Rightarrow> None | Some c \<Rightarrow> if conv_source c = ''core'' then Some c else None),
      rc_packages_loaded = False, pr_mcp = obj_get (as_metadata a) ''_openlinker_mcp_bindings'', pr_bound_tools = [], pr_bound_digest = [],
      pr_packages = None, pr_packages_digest = [], pr_loaded = [], pr_socket = [], pr_proxy_bin = [], pr_input = as_input a,
      pr_metadata = Some (filter (\<lambda>(k, _). k \<notin> set compat_reserved) (as_metadata a)),
      pr_a2a = Some (mapValue (obj_get (as_metadata a) ''a2a''))\<rparr>"

definition normalizeResult :: "runtime_result \<Rightarrow> runtime_result" where
  "normalizeResult r =
     (if rr_error r \<noteq> None then r\<lparr>rr_status := ''failed''\<rparr>
      else
        (let r1 = (if rr_status r = [] then r\<lparr>rr_status := ''success''\<rparr> else r)
         in if rr_status r1 \<noteq> ''success'' then failedResult ''PROVIDER_INVALID_RESULT'' ''provider returned an invalid result'' else r1))"

definition Handler_Handle :: "(provider_run \<Rightarrow> provider_answer) option \<Rightarrow> assignment \<Rightarrow> runtime_result" where
  "Handler_Handle provider a =
     (case provider of
        None \<Rightarrow> failedResult ''PROVIDER_NOT_CONFIGURED'' ''provider is not configured''
      | Some run \<Rightarrow>
          (case run (compat_run a) of
             Broke \<Rightarrow> failedResult ''PROVIDER_PANIC'' ''provider execution panicked''
           | Answered (_, Some er) \<Rightarrow>
               if errors_is er ErrCanceled \<or> errors_is er ErrDeadlineExceeded
               then failedResult ''PROVIDER_CANCELED'' ''provider execution was canceled''
               else failedResult ''PROVIDER_ERROR'' (bounded_text (err_text er) 500 ''provider failed'')
           | Answered (result, None) \<Rightarrow> normalizeResult result))"

section \<open>What is handed on\<close>

definition credential_texts :: "string list" where
  "credential_texts =
     [''ANTHROPIC_API_KEY and ANTHROPIC_API_KEY_FILE are mutually exclusive'',
      ''ANTHROPIC_API_KEY_FILE requires POSIX private-file checks; use ANTHROPIC_API_KEY on Windows '' @ ''(DACL validation is not implemented)'',
      ''ANTHROPIC_API_KEY_FILE must be a readable, nonempty private regular file owned by the current user '' @ ''(no symlinks, at most 64 KiB)'',
      ''Claude delegation uses --bare and requires ANTHROPIC_API_KEY or ANTHROPIC_API_KEY_FILE; '' @ ''OAuth/Keychain login is not used'']"

definition credential_entry :: "string \<Rightarrow> bool" where
  "credential_entry item = (entry_name item = key_name \<or> entry_name item = key_file_name)"

lemma key_entry: "entry_name (key_name @ ''='' @ key) = key_name" "key_name \<noteq> key_file_name"
  by (simp_all add: entry_name_def key_name_def key_file_name_def)

lemma credential_environment_entries:
  "filter (\<lambda>i. \<not> credential_entry i) (credential_environment env key) = filter (\<lambda>i. \<not> credential_entry i) env"
  "filter credential_entry (credential_environment env key) = (if key = [] then [] else [key_name @ ''='' @ key])"
  using key_entry by (auto simp: credential_environment_def credential_entry_def filter_empty_conv intro: filter_cong)

lemma secret_private:
  assumes "ReadPrivateSecret e path fs = Inr key"
  shows "key \<noteq> [] \<and> (\<exists>info. fs path = Some info \<and> private_file info)"
  using assms by (auto simp: ReadPrivateSecret_def private_file_def Let_def split: option.splits if_splits sum.splits prod.splits)

text \<open>
  C37: The credentials of Claude are settled once and never leak. A configuration of another client,
  or one that neither delegates nor names a key file, is used as it is. Otherwise the environment of
  the client has at most one key, the one given or the content of a private file, and one for
  certain when the Node may delegate; the location of the file is not in it, and everything else is
  unchanged. A refusal is one of four fixed texts, without a path or a secret.
\<close>

theorem credentials_pinned:
  "case prepareNativeCredentials x c of
     Inl er \<Rightarrow> err_text er \<in> set credential_texts
   | Inr c' \<Rightarrow>
       (let environment = (case pc_env c of None \<Rightarrow> ce_environ x | Some env \<Rightarrow> env); path = last_value key_file_name environment;
            claude = equal_fold (trim_space (pc_provider c)) ''claude''
        in if claude \<and> (pc_targets c \<noteq> [] \<or> path \<noteq> [])
           then \<exists>env key. c' = c\<lparr>pc_env := Some env\<rparr>
             \<and> filter (\<lambda>i. \<not> credential_entry i) env = filter (\<lambda>i. \<not> credential_entry i) environment
             \<and> filter credential_entry env = (if key = [] then [] else [key_name @ ''='' @ key])
             \<and> \<not> (pc_targets c \<noteq> [] \<and> key = [])
             \<and> (if path = [] then key = last_value key_name environment
                else last_value key_name environment = [] \<and> ReadPrivateSecret (ce_store x) path (ce_files x) = Inr key
                  \<and> (\<exists>info. ce_files x path = Some info \<and> private_file info))
           else c' = c)"
proof (cases "prepareNativeCredentials x c")
  case (Inl er)
  then show ?thesis
    by (auto simp: prepareNativeCredentials_def credential_texts_def Let_def split: if_splits option.splits sum.splits)
next
  case (Inr c')
  define environment where "environment = (case pc_env c of None \<Rightarrow> ce_environ x | Some env \<Rightarrow> env)"
  define path where "path = last_value key_file_name environment"
  define claude where "claude = equal_fold (trim_space (pc_provider c)) ''claude''"
  note run = Inr [unfolded prepareNativeCredentials_def Let_def, folded environment_def, folded path_def, folded claude_def]
  show ?thesis
  proof (cases "claude \<and> (pc_targets c \<noteq> [] \<or> path \<noteq> [])")
    case False
    then have "c' = c" using run by (auto split: if_splits)
    then show ?thesis unfolding Inr Let_def environment_def [symmetric] path_def [symmetric] claude_def [symmetric] sum.case if_not_P [OF False] .
  next
    case True
    then obtain key where key: "(if path = [] then Inr (last_value key_name environment) else ReadPrivateSecret (ce_store x) path (ce_files x)) = Inr key"
        "c' = c\<lparr>pc_env := Some (credential_environment environment key)\<rparr>" "\<not> (pc_targets c \<noteq> [] \<and> key = [])"
        "path \<noteq> [] \<Longrightarrow> last_value key_name environment = []"
      using run by (auto split: if_splits sum.splits)
    have "if path = [] then key = last_value key_name environment
        else last_value key_name environment = [] \<and> ReadPrivateSecret (ce_store x) path (ce_files x) = Inr key
          \<and> (\<exists>info. ce_files x path = Some info \<and> private_file info)"
      using key(1,4) secret_private by (cases "path = []") auto
    then show ?thesis
      unfolding Inr Let_def environment_def [symmetric] path_def [symmetric] claude_def [symmetric] sum.case if_P [OF True]
      using key(2,3) credential_environment_entries by blast
  qed
qed

definition demo_claude_config :: provider_config where
  "demo_claude_config = empty_provider\<lparr>pc_provider := '' Claude '', pc_targets := [demo_agent],
     pc_env := Some [''ANTHROPIC_API_KEY_FILE= /s/key '', ''A=b'']\<rparr>"

definition demo_credentials :: credential_env where
  "demo_credentials = \<lparr>ce_goos = ''linux'', ce_environ = [], ce_store = demo_fs_env, ce_files = (\<lambda>_. None)(''/s/key'' \<mapsto> temp_node '' id-1 '')\<rparr>"

theorem credentials_pinned_witness:
  "\<exists>c' env. prepareNativeCredentials demo_credentials demo_claude_config = Inr c' \<and> pc_env c' = Some env
     \<and> filter credential_entry env = [''ANTHROPIC_API_KEY=id-1''] \<and> filter (\<lambda>i. \<not> credential_entry i) env = [''A=b'']"
proof -
  have claude: "equal_fold (trim_space '' Claude '') ''claude''" by code_simp
  have entries: "last_value key_file_name [''ANTHROPIC_API_KEY_FILE= /s/key '', ''A=b''] = ''/s/key''"
      "last_value key_name [''ANTHROPIC_API_KEY_FILE= /s/key '', ''A=b''] = []"
      "filter (\<lambda>i. \<not> credential_entry i) [''ANTHROPIC_API_KEY_FILE= /s/key '', ''A=b''] = [''A=b'']"
    by code_simp+
  have secret: "ReadPrivateSecret demo_fs_env ''/s/key'' ((\<lambda>_. None)(''/s/key'' \<mapsto> temp_node '' id-1 '')) = Inr ''id-1''"
    by (simp add: ReadPrivateSecret_def demo_fs_env_def temp_node_def group_or_other_def secret_limit_def demo_trims Let_def)
  have config: "pc_env demo_claude_config = Some [''ANTHROPIC_API_KEY_FILE= /s/key '', ''A=b'']" "pc_targets demo_claude_config \<noteq> []"
      "pc_provider demo_claude_config = '' Claude ''"
    by (simp_all add: demo_claude_config_def empty_provider_def)
  obtain c' where prepared: "prepareNativeCredentials demo_credentials demo_claude_config = Inr c'"
    using claude entries secret by (simp add: prepareNativeCredentials_def demo_credentials_def config Let_def)
  have "\<exists>env. c' = demo_claude_config\<lparr>pc_env := Some env\<rparr> \<and> filter (\<lambda>i. \<not> credential_entry i) env = [''A=b'']
      \<and> filter credential_entry env = [key_name @ ''='' @ ''id-1'']"
    using credentials_pinned [of demo_credentials demo_claude_config, unfolded prepared sum.case] claude entries secret config
    by (auto simp: demo_credentials_def Let_def)
  then show ?thesis using prepared by (auto simp: key_name_def)
qed

section \<open>What a native Run leaves behind\<close>

lemma unavailable_keeps:
  "unavailable e ts er st = (out, st') \<Longrightarrow> rs_held st' = rs_held st \<and> rs_home st' = rs_home st"
  by (auto simp: unavailable_def emit_event_def split: if_splits option.splits)

lemma end_keeps: "delegation_end e w s ts out st = (out1, st1, b) \<Longrightarrow> rs_held st1 = rs_held st \<and> rs_home st1 = rs_home st"
  by (auto simp: delegation_end_def emit_event_def Let_def dest: unavailable_keeps split: if_splits option.splits prod.splits)

text \<open>The delegation provider touches the resources of the client's run only through the client.\<close>

lemma delegation_keeps:
  assumes "delegationProvider_Run e w body c r ds = Some (out, ds')"
  shows "(rs_held (ds_run ds') = rs_held (ds_run ds) \<and> rs_home (ds_run ds') = rs_home (ds_run ds))
    \<or> (\<exists>r1 out1 st1. body r1 (ds_run ds) = Some (out1, st1) \<and> rs_held (ds_run ds') = rs_held st1 \<and> rs_home (ds_run ds') = rs_home st1)"
  using assms
proof (cases rule: delegation_courses)
  case (refused ts digest er)
  then show ?thesis using unavailable_keeps by blast
next
  case (served ts digest binary s rs out1 st1 b)
  then show ?thesis using end_keeps by blast
qed blast+

lemma delegation_resources:
  assumes "delegationProvider_Run e w body c r ds = Some (out, ds')"
    and fresh: "\<And>dir. os_mkdir_temp (dw_start w) = Inr dir \<Longrightarrow>
      TempDir dir \<notin> set (ds_resources ds) \<and> Listener (filepath_join [dir, ''mcp.sock'']) \<notin> set (ds_resources ds)"
  shows "ds_resources ds' = ds_resources ds"
proof -
  have clean: "case start_broker w c r ts (ds_resources ds) of
      (Inl er, rs') \<Rightarrow> rs' = ds_resources ds
    | (Inr s, rs') \<Rightarrow> Close s rs' = ds_resources ds \<and> start_check (pc_broker_root c) (dw_call w) True (broker_conf w c r ts) = None" for ts
    by (rule StartBound_clean [OF fresh])
  from assms(1) show ?thesis
  proof (cases rule: delegation_courses)
    case (refused ts digest er)
    then show ?thesis using clean [of ts] by auto
  next
    case (served ts digest binary s rs out1 st1 b)
    then show ?thesis using clean [of ts] by simp
  qed simp_all
qed

lemma native_Run_releases:
  assumes "native_Run e w client p r st = Some (out, st')"
  shows "locks_of (rs_held st') = locks_of (rs_held st) \<and> set (live_homes (rs_home st')) \<subseteq> set (live_homes (rs_home st))
    \<and> (fresh_session e (rs_held st) \<and> removes (re_os e) \<longrightarrow> rs_held st' = rs_held st)"
  using runs_release [of e w "pv_config p" r st out st' client] assms by (auto simp: native_Run_def split: native_client.splits)

lemma backend_kept: "backend x h hosts a = (r, a1) \<Longrightarrow> na_provider a1 = Some r"
  by (auto simp: backend_def split: option.splits sum.splits prod.splits)


text \<open>A Run of Claude by an adapter that has its provider.\<close>

definition demo_native_world :: native_world where
  "demo_native_world = \<lparr>nw_run = demo_run_env, nw_codex = demo_codex_world, nw_client = (\<lambda>_ _. demo_process), nw_delegation = demo_delegation,
     nw_credentials = demo_credentials, nw_cli = demo_cli\<rparr>"

definition demo_adapter :: native_adapter where
  "demo_adapter = \<lparr>na_config = demo_reuse, na_prepared = Some (Inr demo_reuse),
     na_provider = Some (Inr \<lparr>pv_client = ClaudeClient, pv_config = demo_reuse, pv_delegation = demo_reuse\<rparr>),
     na_host = NewResolver [] ''delegation_proxy''\<rparr>"

definition demo_node_run :: node_run where
  "demo_node_run = \<lparr>rn_mcp = JNull, rn_packages = JNull, rn_run = ''r1'', rn_agent = ''a1'', rn_principal = Some ''p1'', rn_input = JStr ''hello'',
     rn_metadata = [], rn_source = ''agent_runtime'', rn_a2a = None, rn_conversation = None, rn_helper = None, rn_reads_delegated = True\<rparr>"


section \<open>The published handler normalises\<close>

text \<open>
  Every answer of the published handler is a success without an error or a failure with one; a
  provider that breaks or fails is a failure whose message has at most 500 runes, and a provider
  sees the conversation only when Core vouches for it, and none of the reserved metadata.
\<close>

theorem handler_normalises:
  "let r = Handler_Handle provider a
   in (rr_status r = ''success'' \<and> rr_error r = None \<or> rr_status r = ''failed'' \<and> (\<exists>er. rr_error r = Some er))
      \<and> (\<forall>run. provider = Some run \<longrightarrow>
           (case run (compat_run a) of
              Broke \<Rightarrow> map_option ae_code (rr_error r) = Some ''PROVIDER_PANIC''
            | Answered (_, Some er) \<Rightarrow>
                map_option ae_code (rr_error r) = Some (if errors_is er ErrCanceled \<or> errors_is er ErrDeadlineExceeded then ''PROVIDER_CANCELED'' else ''PROVIDER_ERROR'')
                \<and> length (runes (ae_message (the (rr_error r)))) \<le> 500
            | Answered (res, None) \<Rightarrow> rr_status r = ''success'' \<longrightarrow> rr_output r = rr_output res \<and> rr_events r = rr_events res))
      \<and> pred_option (\<lambda>c. conv_source c = ''core'') (rc_conversation (compat_run a))
      \<and> map_of (the (pr_metadata (compat_run a))) k = (if k \<in> set compat_reserved then None else map_of (as_metadata a) k)"
proof -
  let ?r = "Handler_Handle provider a"
  have short: "length (runes ''provider execution was canceled'') \<le> 500" by code_simp
  have bounded: "length (runes (bounded_text t 500 d)) \<le> 500" for t d by (simp add: bounded_text_def Let_def truncate_runes_bound)
  have status: "rr_status ?r = ''success'' \<and> rr_error ?r = None \<or> rr_status ?r = ''failed'' \<and> (\<exists>er. rr_error ?r = Some er)"
    by (auto simp: Handler_Handle_def normalizeResult_def failedResult_def Let_def split: option.split provider_answer.split prod.split)
  have answers: "case run (compat_run a) of
      Broke \<Rightarrow> map_option ae_code (rr_error ?r) = Some ''PROVIDER_PANIC''
    | Answered (_, Some er) \<Rightarrow>
        map_option ae_code (rr_error ?r) = Some (if errors_is er ErrCanceled \<or> errors_is er ErrDeadlineExceeded then ''PROVIDER_CANCELED'' else ''PROVIDER_ERROR'')
        \<and> length (runes (ae_message (the (rr_error ?r)))) \<le> 500
    | Answered (res, None) \<Rightarrow> rr_status ?r = ''success'' \<longrightarrow> rr_output ?r = rr_output res \<and> rr_events ?r = rr_events res" if "provider = Some run" for run
    using that short bounded
    by (auto simp: Handler_Handle_def normalizeResult_def failedResult_def Let_def split: option.split provider_answer.split prod.split)
  have conversation: "pred_option (\<lambda>c. conv_source c = ''core'') (rc_conversation (compat_run a))"
    by (simp add: compat_run_def split: option.split)
  have metadata: "map_of (the (pr_metadata (compat_run a))) k = (if k \<in> set compat_reserved then None else map_of (as_metadata a) k)"
    by (simp add: compat_run_def map_of_filter_keys)
  show ?thesis unfolding Let_def using status answers conversation metadata by blast
qed

end
