(* ===== verification/Codex_Adapter.thy ===== *)
theory Codex_Adapter
  imports Native_Adapter
begin

text \<open>
  The Node's \<open>CodexAdapter\<close> (\<open>internal/agentnode/adapter_codex.go\<close>): the settings of the environment in
  front of a native adapter that is made on first use, or of a canned answer when one is set.
\<close>

record codex_state =
  cx_settings :: codex_adapter
  cx_native :: "native_adapter option"

text \<open>\<open>native\<close>: the native adapter, made once.\<close>

definition CodexAdapter_native :: "codex_state \<Rightarrow> native_adapter \<times> codex_state" where
  "CodexAdapter_native a =
     (case cx_native a of
        Some n \<Rightarrow> (n, a)
      | None \<Rightarrow>
          (let n = \<lparr>na_config = codex_native (cx_settings a), na_prepared = None, na_provider = None, na_host = NewResolver [] []\<rparr>
           in (n, a\<lparr>cx_native := Some n\<rparr>)))"

definition CodexAdapter_Preflight ::
  "native_world \<Rightarrow> codex_state \<Rightarrow> held list \<Rightarrow> resource list \<Rightarrow> go_error option \<times> codex_state \<times> held list \<times> resource list" where
  "CodexAdapter_Preflight w a hs rs =
     (if xa_mock (cx_settings a) \<noteq> [] then (None, a, hs, rs)
      else
        (case CodexAdapter_native a of (n, a1) \<Rightarrow>
           (case Preflight w n hs rs of (er, n1, hs1, rs1) \<Rightarrow> (er, a1\<lparr>cx_native := Some n1\<rparr>, hs1, rs1))))"

definition CodexAdapter_RuntimeFeatures :: "string \<Rightarrow> codex_state \<Rightarrow> string list \<times> codex_state" where
  "CodexAdapter_RuntimeFeatures readFeature a =
     (if xa_mock (cx_settings a) \<noteq> [] then ([], a)
      else (case CodexAdapter_native a of (n, a1) \<Rightarrow> (RuntimeFeatures readFeature n, a1)))"

text \<open>The events a canned answer emits, when the Run takes any, come with the outcome.\<close>

definition CodexAdapter_Run ::
  "native_world \<Rightarrow> bool \<Rightarrow> json \<Rightarrow> node_run \<Rightarrow> codex_state \<times> run_state \<times> resource list \<Rightarrow>
   (run_event list \<times> adapter_value result \<times> codex_state \<times> run_state \<times> resource list) option" where
  "CodexAdapter_Run w emit input run s =
     (case s of (a, st, rs) \<Rightarrow>
        if xa_mock (cx_settings a) \<noteq> []
        then (case codex_mock (cx_settings a) of (ev, v) \<Rightarrow> Some (if emit then [ev] else [], Inr v, a, st, rs))
        else
          (case CodexAdapter_native a of (n, a1) \<Rightarrow>
             map_option (\<lambda>(res, n1, st1, rs1). ([], res, a1\<lparr>cx_native := Some n1\<rparr>, st1, rs1))
               (NativeAdapter_Run w input run (n, st, rs))))"

section \<open>The settings stay in force\<close>

text \<open>The native adapter, once made, has the configuration of the settings.\<close>

definition codex_state_ok :: "codex_state \<Rightarrow> bool" where
  "codex_state_ok a \<longleftrightarrow> pred_option (\<lambda>n. na_config n = codex_native (cx_settings a)) (cx_native a)"

lemma configuration_config: "configuration x n = (r, n1) \<Longrightarrow> na_config n1 = na_config n"
  by (auto simp: configuration_def Let_def split: option.splits)

lemma backend_config: "backend x h hosts n = (r, n1) \<Longrightarrow> na_config n1 = na_config n"
  by (auto simp: backend_def dest: configuration_config split: option.splits sum.splits prod.splits)

lemma preflight_config:
  assumes "Preflight w n hs rs = (er, n1, hs1, rs1)"
  shows "na_config n1 = na_config n"
proof -
  obtain r a1 where c: "configuration (nw_credentials w) n = (r, a1)" by fastforce
  obtain p a2 where b: "backend (nw_credentials w) (host.truncate (re_os (nw_run w))) (dw_hosts (nw_delegation w)) a1 = (p, a2)" by fastforce
  have "n1 = a1 \<or> n1 = a2" using assms c b by (auto simp: Preflight_def split: sum.splits prod.splits option.splits)
  then show ?thesis using configuration_config [OF c] backend_config [OF b] by auto
qed

lemma native_run_config:
  assumes "NativeAdapter_Run w input run (n, st, rs) = Some (res, n1, st1, rs1)"
  shows "na_config n1 = na_config n"
proof -
  obtain p a1 where b: "backend (nw_credentials w) (host.truncate (re_os (nw_run w))) (dw_hosts (nw_delegation w)) n = (p, a1)" by fastforce
  have "na_config n1 = na_config a1" using assms b by (auto simp: NativeAdapter_Run_def split: sum.splits)
  then show ?thesis using backend_config [OF b] by simp
qed

lemma native_ok:
  assumes "CodexAdapter_native a = (n, a1)" "codex_state_ok a"
  shows "na_config n = codex_native (cx_settings a) \<and> cx_settings a1 = cx_settings a \<and> codex_state_ok a1"
  using assms by (auto simp: CodexAdapter_native_def codex_state_ok_def Let_def split: option.splits)

text \<open>
  Every operation keeps the settings and the configuration made from them, and an adapter with a
  canned answer touches nothing: its preflight passes, it offers no features, and a Run leaves the
  session, the locks and the resources alone.
\<close>

theorem codex_adapter_consistent:
  assumes "codex_state_ok a"
  shows "CodexAdapter_Preflight w a hs rs = (er, a1, hs1, rs1) \<Longrightarrow>
      codex_state_ok a1 \<and> cx_settings a1 = cx_settings a \<and> (xa_mock (cx_settings a) \<noteq> [] \<longrightarrow> er = None \<and> a1 = a \<and> hs1 = hs \<and> rs1 = rs)"
    and "CodexAdapter_RuntimeFeatures feature a = (fs, a2) \<Longrightarrow>
      codex_state_ok a2 \<and> cx_settings a2 = cx_settings a
      \<and> fs = (if xa_mock (cx_settings a) \<noteq> [] then [] else Features ''codex'' @ [''mcp_bindings.v1'', feature])"
    and "CodexAdapter_Run w emit input run (a, st, rs) = Some (evs, res, a3, st3, rs3) \<Longrightarrow>
      codex_state_ok a3 \<and> cx_settings a3 = cx_settings a \<and> (xa_mock (cx_settings a) \<noteq> [] \<longrightarrow> a3 = a \<and> st3 = st \<and> rs3 = rs)"
proof -
  obtain n a0 where native: "CodexAdapter_native a = (n, a0)" by fastforce
  note ok = native_ok [OF native assms]
  show "codex_state_ok a1 \<and> cx_settings a1 = cx_settings a \<and> (xa_mock (cx_settings a) \<noteq> [] \<longrightarrow> er = None \<and> a1 = a \<and> hs1 = hs \<and> rs1 = rs)"
    if "CodexAdapter_Preflight w a hs rs = (er, a1, hs1, rs1)"
    using that native ok assms preflight_config
    by (auto simp: CodexAdapter_Preflight_def codex_state_ok_def split: if_splits prod.splits)
  show "codex_state_ok a2 \<and> cx_settings a2 = cx_settings a
      \<and> fs = (if xa_mock (cx_settings a) \<noteq> [] then [] else Features ''codex'' @ [''mcp_bindings.v1'', feature])"
    if "CodexAdapter_RuntimeFeatures feature a = (fs, a2)"
    using that native ok assms by (auto simp: CodexAdapter_RuntimeFeatures_def RuntimeFeatures_def split: if_splits)
  show "codex_state_ok a3 \<and> cx_settings a3 = cx_settings a \<and> (xa_mock (cx_settings a) \<noteq> [] \<longrightarrow> a3 = a \<and> st3 = st \<and> rs3 = rs)"
    if "CodexAdapter_Run w emit input run (a, st, rs) = Some (evs, res, a3, st3, rs3)"
    using that native ok assms native_run_config
    by (auto simp: CodexAdapter_Run_def codex_state_ok_def split: if_splits prod.splits)
qed

end
