(* ===== verification/Process_Descendants.thy ===== *)
theory Process_Descendants
  imports Prelude "HOL-Library.Multiset"
begin

text \<open>
  Cleaning up after a native provider on macOS, \<open>pkg/adapters/providerprocess\<close>: the processes a
  provider has started are found from snapshots of the process table (\<open>capture\<close>, \<open>prune\<close>) and
  killed when the provider is stopped (\<open>killMatching\<close>, \<open>finish\<close>); \<open>TrackDescendants\<close> puts
  the two together. The state is the record \<open>descendant_set\<close>; its two function fields are arguments
  of the operations, since their answers change from call to call. \<open>capture\<close> is shown to compute the
  relation \<open>owned\<close>, defined by rules, and the invariant \<open>tracked_set\<close> to hold at all times.

  The kernel is a parameter. The one thing assumed of it is that a snapshot of the process table has
  one record for a process id.
\<close>

section \<open>Processes\<close>

text \<open>The fields of \<open>unix.KinfoProc\<close> the code reads, and the answers of the three \<open>sysctl\<close> calls.\<close>

record kinfo_proc =
  P_pid :: "32 word"
  Ppid :: "32 word"
  P_uid :: "32 word"
  P_starttime :: "int \<times> int"
  P_stat :: int

record kernel =
  SysctlKinfoProc :: "int \<Rightarrow> kinfo_proc result"
  SysctlRaw :: "int \<Rightarrow> 8 word list result"
  SysctlKinfoProcSlice :: "int \<Rightarrow> kinfo_proc list result"

definition ESRCH :: go_error where
  "ESRCH = ErrSentinel ''no such process''"

definition ENOENT :: go_error where
  "ENOENT = ErrSentinel ''no such file or directory''"

definition EIO :: go_error where
  "EIO = ErrSentinel ''input/output error''"

definition errDescendantTracking :: go_error where
  "errDescendantTracking = ErrSentinel ''native provider descendant tracking failed''"

definition errDescendantCleanup :: go_error where
  "errDescendantCleanup = ErrSentinel ''native provider descendant cleanup incomplete''"

definition descendantLimit :: nat where
  "descendantLimit = 1024"

text \<open>\<open>processIdentity\<close>; a start time is a pair of seconds and microseconds.\<close>

record process_identity =
  pi_pid :: int
  pi_parent :: int
  pi_uid :: "32 word"
  pi_start :: "int \<times> int"
  pi_zombie :: bool

definition zero_identity :: process_identity where
  "zero_identity = \<lparr>pi_pid = 0, pi_parent = 0, pi_uid = 0, pi_start = (0, 0), pi_zombie = False\<rparr>"

definition processRecord :: "kinfo_proc \<Rightarrow> process_identity" where
  "processRecord p = \<lparr>pi_pid = sint (P_pid p), pi_parent = sint (Ppid p), pi_uid = P_uid p,
     pi_start = P_starttime p, pi_zombie = (P_stat p = 5)\<rparr>"

definition sameProcess :: "process_identity \<Rightarrow> process_identity \<Rightarrow> bool" where
  "sameProcess a b \<longleftrightarrow> pi_pid a > 1 \<and> pi_pid a = pi_pid b \<and> pi_uid a = pi_uid b \<and> pi_start a = pi_start b"

text \<open>The test on the start times in \<open>capture\<close>: the child is older than its parent.\<close>

definition older :: "process_identity \<Rightarrow> process_identity \<Rightarrow> bool" where
  "older c p \<longleftrightarrow> fst (pi_start c) < fst (pi_start p)
     \<or> fst (pi_start c) = fst (pi_start p) \<and> snd (pi_start c) < snd (pi_start p)"

definition readProcess :: "kernel \<Rightarrow> int \<Rightarrow> process_identity result" where
  "readProcess k pid =
     (case SysctlKinfoProc k pid of
        Inl er \<Rightarrow>
          if errors_is er EIO \<and> SysctlRaw k pid = Inr [] then Inl ESRCH else Inl er
      | Inr p \<Rightarrow> Inr (processRecord p))"

definition processSnapshot :: "kernel \<Rightarrow> int \<Rightarrow> process_identity list result" where
  "processSnapshot k euid =
     (case SysctlKinfoProcSlice k euid of
        Inl er \<Rightarrow> Inl er
      | Inr ps \<Rightarrow> Inr (map processRecord ps))"

section \<open>The set of descendants\<close>

type_synonym process_map = "(int \<times> process_identity) list"
type_synonym process_lookup = "int \<Rightarrow> process_identity result"

record descendant_set =
  ds_root :: process_identity
  ds_known :: process_map

text \<open>What an answer of the lookup says of a recorded process: it has ended.\<close>

definition lookup_gone :: "go_error \<Rightarrow> bool" where
  "lookup_gone er \<longleftrightarrow> errors_is er ESRCH \<or> errors_is er ENOENT"

text \<open>
  \<open>prune\<close> decides every entry by itself, so the order of the loop does not matter; a nil \<open>lookup\<close>
  leaves the set as it is.
\<close>

definition prune_keeps ::
  "process_lookup \<Rightarrow> process_identity \<Rightarrow> (int \<rightharpoonup> process_identity) \<Rightarrow> int \<times> process_identity \<Rightarrow> bool" where
  "prune_keeps lookup root current kv =
     (fst kv = pi_pid root
      \<or> (case current (fst kv) of
           Some listed \<Rightarrow> pi_start listed = pi_start (snd kv)
         | None \<Rightarrow>
             (case lookup (fst kv) of
                Inl er \<Rightarrow> \<not> lookup_gone er
              | Inr live \<Rightarrow> pi_start live = pi_start (snd kv))))"

definition prune ::
  "process_lookup option \<Rightarrow> process_identity \<Rightarrow> (int \<rightharpoonup> process_identity) \<Rightarrow> process_map \<Rightarrow> process_map" where
  "prune lookup root current known =
     (case lookup of
        None \<Rightarrow> known
      | Some f \<Rightarrow> filter (prune_keeps f root current) known)"

text \<open>\<open>current[p.pid] = p\<close> for every process of the snapshot, and reading that map.\<close>

definition current_of :: "process_identity list \<Rightarrow> int \<rightharpoonup> process_identity" where
  "current_of ps = foldl (\<lambda>m p. m(pi_pid p \<mapsto> p)) Map.empty ps"

definition at_pid :: "(int \<rightharpoonup> process_identity) \<Rightarrow> int \<Rightarrow> process_identity" where
  "at_pid m pid = (case m pid of None \<Rightarrow> zero_identity | Some p \<Rightarrow> p)"

text \<open>A process is recorded when the entry for its id has its identity. A child is
  admitted when none of the \<open>continue\<close> statements of the loop is taken.\<close>

definition recorded :: "process_map \<Rightarrow> process_identity \<Rightarrow> bool" where
  "recorded known p = (case map_of known (pi_pid p) of None \<Rightarrow> False | Some previous \<Rightarrow> sameProcess previous p)"

definition admits ::
  "process_identity \<Rightarrow> (int \<rightharpoonup> process_identity) \<Rightarrow> process_map \<Rightarrow> process_identity \<Rightarrow> bool" where
  "admits root current known child =
     (\<not> recorded known child
      \<and> \<not> pi_pid child \<le> 1 \<and> \<not> pi_zombie child \<and> pi_uid child = pi_uid root
      \<and> (case map_of known (pi_parent child) of
           None \<Rightarrow> False
         | Some p \<Rightarrow> sameProcess p (at_pid current (pi_pid p)) \<and> \<not> pi_zombie (at_pid current (pi_pid p))
             \<and> \<not> older child p))"

text \<open>One pass over the snapshot: the entries, whether one was added, and the limit's error.\<close>

fun capture_pass ::
  "process_identity \<Rightarrow> (int \<rightharpoonup> process_identity) \<Rightarrow> process_identity list \<Rightarrow> process_map \<Rightarrow> bool
    \<Rightarrow> process_map \<times> bool \<times> go_error option" where
  "capture_pass root current [] known changed = (known, changed, None)"
| "capture_pass root current (child # rest) known changed =
     (if \<not> admits root current known child then capture_pass root current rest known changed
      else if map_of known (pi_pid child) = None \<and> descendantLimit \<le> length known
      then (known, changed, Some errDescendantTracking)
      else capture_pass root current rest (assoc_set (pi_pid child) child known) True)"

partial_function (option) capture_loop ::
  "process_identity \<Rightarrow> (int \<rightharpoonup> process_identity) \<Rightarrow> process_identity list \<Rightarrow> process_map
    \<Rightarrow> (process_map \<times> go_error option) option" where
  "capture_loop root current ps known =
     (case capture_pass root current ps known False of
        (known', changed, er) \<Rightarrow>
          if er \<noteq> None \<or> \<not> changed then Some (known', er)
          else capture_loop root current ps known')"

definition capture_list ::
  "process_lookup option \<Rightarrow> process_identity list \<Rightarrow> descendant_set \<Rightarrow> (descendant_set \<times> go_error option) option" where
  "capture_list lookup ps s =
     map_option (\<lambda>(known, er). (s\<lparr>ds_known := known\<rparr>, er))
       (capture_loop (ds_root s) (current_of ps) ps (prune lookup (ds_root s) (current_of ps) (ds_known s)))"

section \<open>Killing what is left\<close>

text \<open>The calls \<open>finish\<close> makes, in order: a lookup with its answer, a signal to a process id.\<close>

datatype cleanup_call = Looked int "process_identity result" | Signalled int

definition killMatching ::
  "process_lookup \<Rightarrow> (int \<Rightarrow> go_error option) \<Rightarrow> process_identity \<Rightarrow> (bool \<times> go_error option) \<times> cleanup_call list" where
  "killMatching lookup sig p =
     (let looked = Looked (pi_pid p) (lookup (pi_pid p))
      in case lookup (pi_pid p) of
           Inl er \<Rightarrow>
             if lookup_gone er then ((False, None), [looked])
             else ((False, errors_join (Some errDescendantCleanup) (Some er)), [looked])
         | Inr current \<Rightarrow>
             if pi_zombie current \<or> pi_pid p \<noteq> pi_pid current \<or> pi_start p \<noteq> pi_start current
             then ((False, None), [looked])
             else if pi_uid p \<noteq> pi_uid current then ((False, Some errDescendantCleanup), [looked])
             else
               (case sig (pi_pid p) of
                  None \<Rightarrow> ((True, None), [looked, Signalled (pi_pid p)])
                | Some er \<Rightarrow>
                    if errors_is er ESRCH then ((True, None), [looked, Signalled (pi_pid p)])
                    else ((True, Some errDescendantCleanup), [looked, Signalled (pi_pid p)])))"

text \<open>
  The world \<open>finish\<close> runs in. The clock is read once before the loop and once after each round, in
  nanoseconds; \<open>fe_lookup k\<close> and \<open>fe_signal k\<close> answer in round \<open>k\<close>, in which each process is asked for
  once; \<open>fe_order k\<close> is the order in which Go visits the map in that round.
\<close>

record finish_env =
  fe_now :: "nat \<Rightarrow> int"
  fe_lookup :: "nat \<Rightarrow> process_lookup"
  fe_signal :: "nat \<Rightarrow> int \<Rightarrow> go_error option"
  fe_order :: "nat \<Rightarrow> process_map \<Rightarrow> process_map"

fun finish_pass ::
  "process_lookup \<Rightarrow> (int \<Rightarrow> go_error option) \<Rightarrow> process_identity \<Rightarrow> process_map \<Rightarrow> bool \<Rightarrow> go_error option
    \<Rightarrow> bool \<times> go_error option \<times> cleanup_call list" where
  "finish_pass lookup sig root [] live res = (live, res, [])"
| "finish_pass lookup sig root ((pid, p) # rest) live res =
     (if pid = pi_pid root then finish_pass lookup sig root rest live res
      else
        (case killMatching lookup sig p of
           ((active, Some er), calls) \<Rightarrow>
             (case finish_pass lookup sig root rest live (if res = None then Some er else res) of
                (live', res', calls') \<Rightarrow> (live', res', calls @ calls'))
         | ((active, None), calls) \<Rightarrow>
             (case finish_pass lookup sig root rest (live \<or> active) res of
                (live', res', calls') \<Rightarrow> (live', res', calls @ calls'))))"

partial_function (option) finish_loop ::
  "finish_env \<Rightarrow> descendant_set \<Rightarrow> int \<Rightarrow> nat \<Rightarrow> go_error option \<Rightarrow> cleanup_call list
    \<Rightarrow> (go_error option \<times> cleanup_call list) option" where
  "finish_loop e s deadline k res calls =
     (case finish_pass (fe_lookup e k) (fe_signal e k) (ds_root s) (fe_order e k (ds_known s)) False res of
        (live, res', new) \<Rightarrow>
          if \<not> live then Some (res', calls @ new)
          else if fe_now e (Suc k) > deadline then Some (Some errDescendantCleanup, calls @ new)
          else finish_loop e s deadline (Suc k) res' (calls @ new))"

definition finish :: "finish_env \<Rightarrow> descendant_set \<Rightarrow> (go_error option \<times> cleanup_call list) option" where
  "finish e s = finish_loop e s (fe_now e 0 + 10 ^ 9) 0 None []"

section \<open>Tracking a process\<close>

text \<open>
  \<open>tr_start\<close> is the kernel as the root is read, \<open>tr_kernel n\<close> as the \<open>n\<close>-th snapshot is taken: the
  first before \<open>TrackDescendants\<close> returns, one for each tick of the timer, the last when it is told to
  stop, and \<open>tr_lookup n\<close> the process lookups made while it is worked through. \<open>tr_finish\<close> is the world
  of the last clean-up.
\<close>

record track_env =
  tr_euid :: int
  tr_start :: kernel
  tr_kernel :: "nat \<Rightarrow> kernel"
  tr_lookup :: "nat \<Rightarrow> int \<Rightarrow> kernel"
  tr_finish :: finish_env

definition track_lookup :: "track_env \<Rightarrow> nat \<Rightarrow> process_lookup" where
  "track_lookup e n pid = readProcess (tr_lookup e n pid) pid"

definition track_snapshot :: "track_env \<Rightarrow> nat \<Rightarrow> process_identity list result" where
  "track_snapshot e n = processSnapshot (tr_kernel e n) (tr_euid e)"

definition TrackDescendants :: "track_env \<Rightarrow> int option \<Rightarrow> descendant_set result option" where
  "TrackDescendants e process =
     (case process of
        None \<Rightarrow> Some (Inl errDescendantTracking)
      | Some pid \<Rightarrow>
          (case readProcess (tr_start e) pid of
             Inl er \<Rightarrow> Some (Inl (ErrJoin [errDescendantTracking, er]))
           | Inr root \<Rightarrow>
               if pi_pid root \<noteq> pid \<or> pi_pid root \<le> 1 \<or> pi_uid root \<noteq> word_of_int (tr_euid e) \<or> fst (pi_start root) = 0
               then Some (Inl errDescendantTracking)
               else
                 (case track_snapshot e 0 of
                    Inl er \<Rightarrow> Some (Inl (ErrJoin [errDescendantTracking, er]))
                  | Inr ps \<Rightarrow>
                      map_option (\<lambda>(s, er). if er \<noteq> None then Inl errDescendantTracking else Inr s)
                        (capture_list (Some (track_lookup e 0)) ps \<lparr>ds_root = root, ds_known = [(pi_pid root, root)]\<rparr>))))"

text \<open>What the goroutine does with the \<open>n\<close>-th snapshot, on a tick and when it is told to stop.\<close>

definition watch_tick ::
  "track_env \<Rightarrow> nat \<Rightarrow> descendant_set \<times> go_error option \<Rightarrow> (descendant_set \<times> go_error option) option" where
  "watch_tick e n sr =
     (case track_snapshot e n of
        Inl er \<Rightarrow> Some (fst sr, Some errDescendantTracking)
      | Inr ps \<Rightarrow>
          map_option (\<lambda>(s, er). (s, if er \<noteq> None then Some errDescendantTracking else snd sr))
            (capture_list (Some (track_lookup e n)) ps (fst sr)))"

fun watch :: "track_env \<Rightarrow> nat \<Rightarrow> nat \<Rightarrow> descendant_set \<times> go_error option \<Rightarrow> (descendant_set \<times> go_error option) option" where
  "watch e n 0 sr = Some sr"
| "watch e n (Suc ticks) sr = Option.bind (watch_tick e n sr) (watch e (Suc n) ticks)"

text \<open>
  The whole life of the goroutine: \<open>ticks\<close> ticks, the snapshot after \<open>stop\<close>, the clean-up. This is
  what the returned function gives, the first time and whenever it is called again.
\<close>

definition track_stop ::
  "track_env \<Rightarrow> nat \<Rightarrow> descendant_set \<Rightarrow> (descendant_set \<times> go_error option \<times> cleanup_call list) option" where
  "track_stop e ticks s =
     Option.bind (watch e 1 (Suc ticks) (s, None)) (\<lambda>(s', res).
       map_option (\<lambda>(er, calls). (s', errors_join res er, calls)) (finish (tr_finish e) s'))"

section \<open>Process groups\<close>

text \<open>\<open>Configure\<close>: the child leads its own group, and cancelling it kills the group.\<close>

definition ErrProcessDone :: go_error where
  "ErrProcessDone = ErrSentinel ''os: process already finished''"

definition command_Cancel :: "(int \<Rightarrow> go_error option) \<Rightarrow> int option \<Rightarrow> go_error option \<times> cleanup_call list" where
  "command_Cancel kill process =
     (case process of
        None \<Rightarrow> (Some ErrProcessDone, [])
      | Some pid \<Rightarrow>
          (case kill (- pid) of
             None \<Rightarrow> (None, [Signalled (- pid)])
           | Some er \<Rightarrow> (Some (if errors_is er ESRCH then ErrProcessDone else er), [Signalled (- pid)])))"

text \<open>The fields of the command that are set; the same for provider clients and for command adapters.\<close>

record group_command =
  gc_setpgid :: bool
  gc_cancel :: "(int \<Rightarrow> go_error option) \<Rightarrow> int option \<Rightarrow> go_error option \<times> cleanup_call list"
  gc_wait_delay :: int

definition Configure :: "group_command \<Rightarrow> group_command" where
  "Configure c = c\<lparr>gc_setpgid := True, gc_cancel := command_Cancel, gc_wait_delay := 2 * 10 ^ 9\<rparr>"

definition configureRuntimeProcess :: "group_command \<Rightarrow> group_command" where
  "configureRuntimeProcess c =
     c\<lparr>gc_setpgid := True,
       gc_cancel := (\<lambda>kill process.
         case process of
           None \<Rightarrow> (Some ErrProcessDone, [])
         | Some pid \<Rightarrow>
             (case kill (- pid) of
                None \<Rightarrow> (None, [Signalled (- pid)])
              | Some er \<Rightarrow> (Some (if errors_is er ESRCH then ErrProcessDone else er), [Signalled (- pid)]))),
       gc_wait_delay := 2 * 10 ^ 9\<rparr>"

section \<open>Specifications\<close>

text \<open>
  The processes of a snapshot that belong to the provider, given the entries kept: those recorded
  already, and the live children, no older than their parent, of a live process that belongs to it.
\<close>

inductive owned :: "process_identity \<Rightarrow> process_identity list \<Rightarrow> process_map \<Rightarrow> process_identity \<Rightarrow> bool"
  for root ps known where
  kept: "p \<in> set ps \<Longrightarrow> recorded known p \<Longrightarrow> owned root ps known p"
| born: "owned root ps known p \<Longrightarrow> \<not> pi_zombie p \<Longrightarrow> c \<in> set ps \<Longrightarrow> pi_parent c = pi_pid p \<Longrightarrow> 1 < pi_pid c
    \<Longrightarrow> \<not> pi_zombie c \<Longrightarrow> pi_uid c = pi_uid root \<Longrightarrow> \<not> older c p \<Longrightarrow> owned root ps known c"

text \<open>A line of descent from the root through the snapshots in \<open>S\<close>; each link is seen in one snapshot.\<close>

inductive descends :: "process_identity list set \<Rightarrow> process_identity \<Rightarrow> process_identity \<Rightarrow> bool"
  for S root where
  self: "descends S root root"
| child: "descends S root q \<Longrightarrow> ps \<in> S \<Longrightarrow> p \<in> set ps \<Longrightarrow> sameProcess q p \<Longrightarrow> \<not> pi_zombie p \<Longrightarrow> c \<in> set ps
    \<Longrightarrow> pi_parent c = pi_pid p \<Longrightarrow> pi_uid c = pi_uid root \<Longrightarrow> \<not> older c p \<Longrightarrow> descends S root c"

text \<open>
  The invariant of the set: an entry is filed under its process id, ids are above 1, every process
  runs as the root's user and is not older than the root, the root's id is there, and the limit holds.
\<close>

definition keyed :: "process_map \<Rightarrow> bool" where
  "keyed known \<longleftrightarrow> distinct (map fst known) \<and> (\<forall>(k, q) \<in> set known. pi_pid q = k)"

definition tracked_set :: "descendant_set \<Rightarrow> bool" where
  "tracked_set s \<longleftrightarrow> keyed (ds_known s) \<and> length (ds_known s) \<le> descendantLimit
     \<and> pi_pid (ds_root s) \<in> fst ` set (ds_known s)
     \<and> (\<forall>(k, q) \<in> set (ds_known s). 1 < k \<and> pi_uid q = pi_uid (ds_root s) \<and> \<not> older q (ds_root s))"

text \<open>A lookup that says a process has ended, and one that confirms it.\<close>

definition has_ended :: "process_identity \<Rightarrow> process_identity result \<Rightarrow> bool" where
  "has_ended p answer =
     (case answer of
        Inl er \<Rightarrow> lookup_gone er
      | Inr current \<Rightarrow> pi_zombie current \<or> pi_pid p \<noteq> pi_pid current \<or> pi_start p \<noteq> pi_start current)"

definition confirmed :: "process_identity \<Rightarrow> process_identity \<Rightarrow> bool" where
  "confirmed p current \<longleftrightarrow> \<not> pi_zombie current \<and> pi_pid p = pi_pid current \<and> pi_start p = pi_start current
     \<and> pi_uid p = pi_uid current"

text \<open>Every signal goes to a recorded process other than the root that the call just before confirmed.\<close>

definition justified :: "descendant_set \<Rightarrow> cleanup_call list \<Rightarrow> bool" where
  "justified s calls \<longleftrightarrow>
     (\<forall>pre post pid. calls = pre @ Signalled pid # post \<longrightarrow>
        (\<exists>pre' p current. pre = pre' @ [Looked pid (Inr current)] \<and> (pid, p) \<in> set (ds_known s)
           \<and> pid \<noteq> pi_pid (ds_root s) \<and> confirmed p current))"

section \<open>A pass over the snapshot\<close>

lemma current_of_iff:
  assumes "distinct (map pi_pid ps)"
  shows "current_of ps k = Some p \<longleftrightarrow> p \<in> set ps \<and> pi_pid p = k"
proof -
  have "foldl (\<lambda>m p. m(pi_pid p \<mapsto> p)) m ps k = Some p \<longleftrightarrow>
      p \<in> set ps \<and> pi_pid p = k \<or> k \<notin> pi_pid ` set ps \<and> m k = Some p" for m :: "int \<rightharpoonup> process_identity"
    using assms by (induction ps arbitrary: m) (auto simp: image_iff)
  then show ?thesis by (simp add: current_of_def)
qed

lemma sameProcess_at:
  assumes "distinct (map pi_pid ps)"
  shows "sameProcess q (at_pid (current_of ps) (pi_pid q)) \<longleftrightarrow> (\<exists>p \<in> set ps. sameProcess q p \<and> at_pid (current_of ps) (pi_pid q) = p)"
proof (cases "current_of ps (pi_pid q)")
  case None
  then show ?thesis by (auto simp: at_pid_def sameProcess_def zero_identity_def)
next
  case (Some p)
  then have "p \<in> set ps" using current_of_iff [OF assms] by blast
  then show ?thesis using Some by (auto simp: at_pid_def)
qed

lemma keyed_lookup: "keyed known \<Longrightarrow> map_of known k = Some q \<longleftrightarrow> (k, q) \<in> set known"
  by (simp add: keyed_def)

lemma keyed_pid: "keyed known \<Longrightarrow> (k, q) \<in> set known \<Longrightarrow> pi_pid q = k"
  by (auto simp: keyed_def)

lemma older_cong: "pi_start p = pi_start q \<Longrightarrow> older c p = older c q"
  by (simp add: older_def)

lemma older_trans: "\<not> older a b \<Longrightarrow> \<not> older b c \<Longrightarrow> \<not> older a c"
  by (auto simp: older_def)

text \<open>With one record for a process id, a child is admitted when its parent is listed, recorded and alive.\<close>

lemma admits_iff:
  assumes one: "distinct (map pi_pid ps)" and known: "keyed known"
  shows "admits root (current_of ps) known c \<longleftrightarrow>
    \<not> recorded known c \<and> 1 < pi_pid c \<and> \<not> pi_zombie c \<and> pi_uid c = pi_uid root
    \<and> (\<exists>p \<in> set ps. pi_pid p = pi_parent c \<and> recorded known p \<and> \<not> pi_zombie p \<and> \<not> older c p)"
proof -
  have "(case map_of known (pi_parent c) of None \<Rightarrow> False
         | Some q \<Rightarrow> sameProcess q (at_pid (current_of ps) (pi_pid q)) \<and> \<not> pi_zombie (at_pid (current_of ps) (pi_pid q)) \<and> \<not> older c q)
      \<longleftrightarrow> (\<exists>p \<in> set ps. pi_pid p = pi_parent c \<and> recorded known p \<and> \<not> pi_zombie p \<and> \<not> older c p)" (is "?l \<longleftrightarrow> ?r")
  proof
    assume ?l
    then obtain q where q: "map_of known (pi_parent c) = Some q" "sameProcess q (at_pid (current_of ps) (pi_pid q))"
        "\<not> pi_zombie (at_pid (current_of ps) (pi_pid q))" "\<not> older c q" by (auto split: option.splits)
    obtain p where p: "p \<in> set ps" "sameProcess q p" "at_pid (current_of ps) (pi_pid q) = p" using q(2) sameProcess_at [OF one] by blast
    have "pi_pid q = pi_parent c" using q(1) known keyed_lookup keyed_pid by blast
    then have "pi_pid p = pi_parent c" "\<not> older c p" using p(2) q(4) older_cong [of p q c] by (auto simp: sameProcess_def)
    then show ?r using p q by (auto simp: recorded_def intro!: bexI [of _ p])
  next
    assume ?r
    then obtain p q where p: "p \<in> set ps" "pi_pid p = pi_parent c" "\<not> pi_zombie p" "\<not> older c p"
        "map_of known (pi_parent c) = Some q" "sameProcess q p" by (auto simp: recorded_def split: option.splits)
    have "at_pid (current_of ps) (pi_pid q) = p"
      using p(1,6) current_of_iff [OF one, of "pi_pid q" p] by (simp add: at_pid_def sameProcess_def)
    then show ?l using p older_cong [of p q c] by (simp add: sameProcess_def)
  qed
  then show ?thesis unfolding admits_def by auto
qed

lemma recorded_assoc_set:
  assumes "distinct (map pi_pid ps)" "c \<in> set ps" "p \<in> set ps" "1 < pi_pid c"
  shows "recorded (assoc_set (pi_pid c) c known) p \<longleftrightarrow> p = c \<or> recorded known p"
proof (cases "p = c")
  case False
  then have "pi_pid p \<noteq> pi_pid c" using assms by (metis distinct_map inj_onD)
  then show ?thesis using False by (simp add: recorded_def)
qed (use assms in \<open>simp add: recorded_def sameProcess_def\<close>)

lemma recorded_key: "recorded known p \<Longrightarrow> pi_pid p \<in> fst ` set known"
  using map_of_None_iff_keys [of known "pi_pid p"] by (auto simp: recorded_def split: option.splits)

lemma keyed_assoc_set: "keyed known \<Longrightarrow> keyed (assoc_set (pi_pid c) c known)"
  by (auto simp: keyed_def set_assoc_set)

section \<open>Capture reaches the owned processes\<close>

text \<open>The processes of the snapshot that are not recorded: every admission takes one out.\<close>

abbreviation missing :: "process_identity list \<Rightarrow> process_map \<Rightarrow> process_identity set" where
  "missing ps known \<equiv> {p \<in> set ps. \<not> recorded known p}"

text \<open>What the loop keeps, entry by entry.\<close>

definition admission_keeps ::
  "process_identity \<Rightarrow> process_identity list \<Rightarrow> (process_map \<Rightarrow> bool) \<Rightarrow> bool" where
  "admission_keeps root ps P \<longleftrightarrow>
     (\<forall>known c. P known \<and> keyed known \<and> c \<in> set ps \<and> admits root (current_of ps) known c
        \<and> (map_of known (pi_pid c) = None \<longrightarrow> length known < descendantLimit)
        \<longrightarrow> P (assoc_set (pi_pid c) c known))"

lemma admission_keepsI:
  assumes "\<And>known c. P known \<Longrightarrow> keyed known \<Longrightarrow> c \<in> set ps \<Longrightarrow> admits root (current_of ps) known c
    \<Longrightarrow> map_of known (pi_pid c) = None \<longrightarrow> length known < descendantLimit \<Longrightarrow> P (assoc_set (pi_pid c) c known)"
  shows "admission_keeps root ps P"
  unfolding admission_keeps_def using assms by simp

text \<open>How a pass may end: the limit stops it at a child, or it looked at them all.\<close>

definition stopped_at_limit :: "process_identity \<Rightarrow> process_identity list \<Rightarrow> process_map \<Rightarrow> bool" where
  "stopped_at_limit root ps known \<longleftrightarrow> descendantLimit \<le> length known
     \<and> (\<exists>c \<in> set ps. admits root (current_of ps) known c \<and> map_of known (pi_pid c) = None)"

lemma capture_pass_rule:
  assumes "capture_pass root (current_of ps) rest known changed = (known', changed', er)"
    and "distinct (map pi_pid ps)" "set rest \<subseteq> set ps" "admission_keeps root ps P" "P known" "keyed known"
  shows "P known' \<and> keyed known' \<and> missing ps known' \<subseteq> missing ps known
    \<and> (changed \<longrightarrow> changed') \<and> (changed' \<longrightarrow> changed \<or> missing ps known' \<subset> missing ps known)
    \<and> (er \<noteq> None \<longrightarrow> er = Some errDescendantTracking \<and> stopped_at_limit root ps known')
    \<and> (\<not> changed' \<and> er = None \<longrightarrow> known' = known \<and> (\<forall>c \<in> set rest. \<not> admits root (current_of ps) known c))"
  using assms
proof (induction rest arbitrary: known changed)
  case (Cons c rest)
  consider (skip) "\<not> admits root (current_of ps) known c"
    | (full) "admits root (current_of ps) known c" "map_of known (pi_pid c) = None" "descendantLimit \<le> length known"
    | (add) "admits root (current_of ps) known c" "map_of known (pi_pid c) = None \<longrightarrow> length known < descendantLimit"
    by fastforce
  then show ?case
  proof cases
    case skip
    then show ?thesis using Cons.IH [of known changed] Cons.prems by auto
  next
    case full
    then show ?thesis using Cons.prems by (auto simp: stopped_at_limit_def)
  next
    case add
    let ?new = "assoc_set (pi_pid c) c known"
    have c: "c \<in> set ps" "1 < pi_pid c" "\<not> recorded known c" using Cons.prems(3) add(1) by (auto simp: admits_def)
    have less: "missing ps ?new \<subset> missing ps known"
      using recorded_assoc_set [OF Cons.prems(2) c(1) _ c(2)] c by auto
    have "P ?new" using Cons.prems(4) [unfolded admission_keeps_def, rule_format] Cons.prems(5,6) add c(1) by simp
    then show ?thesis
      using Cons.IH [of ?new True] Cons.prems add less keyed_assoc_set [of known c] by (auto split: if_splits)
  qed
qed auto

text \<open>
  The rule for the whole loop: it ends, keeps what every admission keeps, and where the limit does
  not stop it, no process is left to admit.
\<close>

lemma capture_loop_rule:
  assumes "distinct (map pi_pid ps)" "admission_keeps root ps P" "P known" "keyed known"
  shows "\<exists>known' er. capture_loop root (current_of ps) ps known = Some (known', er) \<and> P known' \<and> keyed known'
    \<and> (er \<noteq> None \<longrightarrow> er = Some errDescendantTracking \<and> stopped_at_limit root ps known')
    \<and> (er = None \<longrightarrow> (\<forall>c \<in> set ps. \<not> admits root (current_of ps) known' c))"
  using assms(3,4)
proof (induction "card (missing ps known)" arbitrary: known rule: less_induct)
  case less
  obtain known' changed er where pass: "capture_pass root (current_of ps) ps known False = (known', changed, er)"
    by (metis prod_cases3)
  note rule = capture_pass_rule [OF pass assms(1) subset_refl assms(2) less.prems]
  show ?case
  proof (cases "er \<noteq> None \<or> \<not> changed")
    case True
    then have "capture_loop root (current_of ps) ps known = Some (known', er)"
      using pass by (subst capture_loop.simps) simp
    then show ?thesis using rule True by auto
  next
    case False
    then have step: "capture_loop root (current_of ps) ps known = capture_loop root (current_of ps) ps known'"
      using pass by (subst capture_loop.simps) simp
    have "card (missing ps known') < card (missing ps known)"
      using rule False by (auto intro!: psubset_card_mono)
    then show ?thesis unfolding step using less.hyps rule by blast
  qed
qed

text \<open>What \<open>capture\<close> relies on after \<open>prune\<close>, and that pruning keeps the invariant.\<close>

lemma prune_subset: "set (prune lookup root current known) \<subseteq> set known"
  by (auto simp: prune_def split: option.splits)

lemma prune_tracked:
  assumes "tracked_set s"
  shows "tracked_set (s\<lparr>ds_known := prune lookup (ds_root s) current (ds_known s)\<rparr>)"
proof (cases lookup)
  case (Some f)
  have "length (filter (prune_keeps f (ds_root s) current) (ds_known s)) \<le> descendantLimit"
    using assms length_filter_le le_trans unfolding tracked_set_def by blast
  then show ?thesis using assms Some
    by (fastforce simp: tracked_set_def keyed_def prune_def prune_keeps_def distinct_map_filter)
qed (use assms in \<open>simp add: prune_def\<close>)

text \<open>An admission keeps the invariant, goes to an owned process, and extends a line of descent.\<close>

lemma admission_parent:
  assumes "keyed known" "distinct (map pi_pid ps)" "admits root (current_of ps) known c"
  obtains p q where "p \<in> set ps" "pi_pid p = pi_parent c" "(pi_pid p, q) \<in> set known" "sameProcess q p" "\<not> pi_zombie p" "\<not> older c p"
    "recorded known p" "1 < pi_pid c" "\<not> pi_zombie c" "pi_uid c = pi_uid root"
proof -
  obtain p where p: "p \<in> set ps" "pi_pid p = pi_parent c" "recorded known p" "\<not> pi_zombie p" "\<not> older c p"
      "1 < pi_pid c" "\<not> pi_zombie c" "pi_uid c = pi_uid root"
    using assms(3) unfolding admits_iff [OF assms(2,1)] by blast
  obtain q where "map_of known (pi_pid p) = Some q" "sameProcess q p" using p(3) by (auto simp: recorded_def split: option.splits)
  then show thesis using that [of p q] p keyed_lookup [OF assms(1)] by simp
qed

lemma admission_tracked:
  assumes "distinct (map pi_pid ps)"
  shows "admission_keeps (ds_root s) ps (\<lambda>known. tracked_set (s\<lparr>ds_known := known\<rparr>))"
proof (rule admission_keepsI)
  fix known c
  assume t: "tracked_set (s\<lparr>ds_known := known\<rparr>)" and k: "keyed known" and "c \<in> set ps"
    and a: "admits (ds_root s) (current_of ps) known c" and room: "map_of known (pi_pid c) = None \<longrightarrow> length known < descendantLimit"
  show "tracked_set (s\<lparr>ds_known := assoc_set (pi_pid c) c known\<rparr>)"
  proof -
    obtain p q where pq: "(pi_pid p, q) \<in> set known" "sameProcess q p" "\<not> older c p" "1 < pi_pid c" "pi_uid c = pi_uid (ds_root s)"
      by (rule admission_parent [OF k assms a])
    have "\<not> older q (ds_root s)" using t pq(1) by (auto simp: tracked_set_def)
    then have young: "\<not> older c (ds_root s)"
      using older_trans [of c q "ds_root s"] pq(2,3) older_cong [of p q c] by (simp add: sameProcess_def)
    have "length (assoc_set (pi_pid c) c known) \<le> descendantLimit"
      using room t by (auto simp: length_assoc_set tracked_set_def map_of_None_iff_keys)
    then show ?thesis
      using t k pq(4,5) young keyed_assoc_set [OF k, of c]
      by (auto simp: tracked_set_def set_assoc_set keyed_def keys_assoc_set)
  qed
qed

lemma admitted_owned:
  assumes "keyed known" "distinct (map pi_pid ps)" "admits root (current_of ps) known c" "c \<in> set ps"
    and "\<forall>p \<in> set ps. recorded known p \<longrightarrow> owned root ps known0 p"
  shows "owned root ps known0 c"
proof -
  obtain p q where p: "p \<in> set ps" "pi_pid p = pi_parent c" "\<not> pi_zombie p" "\<not> older c p" "recorded known p" "1 < pi_pid c" "\<not> pi_zombie c"
      "pi_uid c = pi_uid root"
    by (rule admission_parent [OF assms(1-3)])
  show ?thesis by (rule owned.born [of root ps known0 p]) (use assms(4,5) p in auto)
qed

lemma admission_owned:
  assumes "distinct (map pi_pid ps)"
  shows "admission_keeps root ps (\<lambda>known.
    (\<forall>p \<in> set ps. recorded known p \<longrightarrow> owned root ps known0 p) \<and> (\<forall>p \<in> set ps. recorded known0 p \<longrightarrow> recorded known p)
    \<and> fst ` set known0 \<subseteq> fst ` set known \<and> fst ` set known \<subseteq> fst ` set known0 \<union> pi_pid ` {p. owned root ps known0 p})"
proof -
  have "1 < pi_pid c" if "admits root current known c" for current known c using that by (auto simp: admits_def)
  then show ?thesis
    unfolding admission_keeps_def using admitted_owned [OF _ assms, of _ root _ known0]
    by (auto simp: recorded_assoc_set [OF assms] keys_assoc_set subset_insertI2)
qed

lemma admission_descends:
  assumes "distinct (map pi_pid ps)" "ps \<in> S"
  shows "admission_keeps root ps (\<lambda>known. \<forall>(k, q) \<in> set known. descends S root q)"
proof (rule admission_keepsI)
  fix known c
  assume all: "\<forall>(k, q) \<in> set known. descends S root q" and k: "keyed known" and c: "c \<in> set ps"
    and a: "admits root (current_of ps) known c"
  obtain p q where pq: "p \<in> set ps" "pi_pid p = pi_parent c" "(pi_pid p, q) \<in> set known" "sameProcess q p" "\<not> pi_zombie p" "\<not> older c p"
      "pi_uid c = pi_uid root" by (rule admission_parent [OF k assms(1) a])
  have "descends S root c" using all pq c assms(2) descends.child [of S root q ps p c] by auto
  then show "\<forall>(k, q) \<in> set (assoc_set (pi_pid c) c known). descends S root q" using all k by (auto simp: set_assoc_set keyed_def)
qed

lemma admission_both: "admission_keeps root ps P \<Longrightarrow> admission_keeps root ps Q \<Longrightarrow> admission_keeps root ps (\<lambda>k. P k \<and> Q k)"
  by (simp add: admission_keeps_def)

lemma admission_if: "(A \<Longrightarrow> admission_keeps root ps P) \<Longrightarrow> admission_keeps root ps (\<lambda>k. A \<longrightarrow> P k)"
  by (simp add: admission_keeps_def)

lemma finite_owned: "finite {p. owned root ps known p}"
  by (rule finite_subset [of _ "set ps"]) (auto elim: owned.cases)

lemma owned_closed:
  assumes "owned root ps known0 p" "distinct (map pi_pid ps)" "keyed known" "\<forall>c \<in> set ps. \<not> admits root (current_of ps) known c"
    and "\<forall>p \<in> set ps. recorded known0 p \<longrightarrow> recorded known p"
  shows "p \<in> set ps \<and> recorded known p"
  using assms(1)
proof induction
  case (born p c)
  then show ?case using assms(4) admits_iff [OF assms(2,3), of root c] by auto
qed (use assms(5) in simp)

text \<open>The error of the limit is exact.\<close>

lemma capture_limit:
  assumes "distinct (map pi_pid ps)" "keyed known" "length known \<le> descendantLimit"
    and stop: "er \<noteq> None \<longrightarrow> er = Some errDescendantTracking \<and> stopped_at_limit root ps known"
    and found: "er = None \<longrightarrow> (\<forall>p. owned root ps kept p \<longrightarrow> recorded known p)"
    and sound: "\<forall>p \<in> set ps. recorded known p \<longrightarrow> owned root ps kept p"
    and keys: "fst ` set kept \<subseteq> fst ` set known" "fst ` set known \<subseteq> fst ` set kept \<union> pi_pid ` {p. owned root ps kept p}"
  shows "er = None \<longleftrightarrow> card (fst ` set kept \<union> pi_pid ` {p. owned root ps kept p}) \<le> descendantLimit"
proof -
  let ?all = "fst ` set kept \<union> pi_pid ` {p. owned root ps kept p}"
  have size: "card (fst ` set known) = length known" using assms(2) by (metis distinct_card keyed_def length_map list.set_map)
  have fin: "finite ?all" using finite_owned by blast
  show ?thesis
  proof (cases er)
    case None
    then have "pi_pid p \<in> fst ` set known" if "owned root ps kept p" for p using found that recorded_key by blast
    then have "card ?all \<le> card (fst ` set known)" using keys(1) by (intro card_mono) auto
    then show ?thesis using None assms(3) size by simp
  next
    case (Some x)
    then obtain c where c: "c \<in> set ps" "admits root (current_of ps) known c" "map_of known (pi_pid c) = None" "descendantLimit \<le> length known"
      using stop by (auto simp: stopped_at_limit_def)
    have "owned root ps kept c" by (rule admitted_owned [OF assms(2,1) c(2,1) sound])
    then have "insert (pi_pid c) (fst ` set known) \<subseteq> ?all" using keys(2) by auto
    then have "card (insert (pi_pid c) (fst ` set known)) \<le> card ?all" by (rule card_mono [OF fin])
    then show ?thesis using Some c(3,4) size map_of_None_iff_keys [of known "pi_pid c"] by simp
  qed
qed

text \<open>The three together, for \<open>capture\<close> as it is called.\<close>

lemma capture_list_rule:
  fixes lookup :: "process_lookup option"
  assumes "distinct (map pi_pid ps)" "tracked_set s"
  defines "kept \<equiv> prune lookup (ds_root s) (current_of ps) (ds_known s)"
  shows "\<exists>s' er. capture_list lookup ps s = Some (s', er) \<and> tracked_set s' \<and> ds_root s' = ds_root s
    \<and> (\<forall>p \<in> set ps. recorded (ds_known s') p \<longrightarrow> owned (ds_root s) ps kept p)
    \<and> (er = None \<longrightarrow> (\<forall>p \<in> set ps. owned (ds_root s) ps kept p \<longrightarrow> recorded (ds_known s') p))
    \<and> (er = None \<longleftrightarrow> card (fst ` set kept \<union> pi_pid ` {p. owned (ds_root s) ps kept p}) \<le> descendantLimit)
    \<and> (ps \<in> S \<and> (\<forall>(k, q) \<in> set (ds_known s). descends S (ds_root s) q) \<longrightarrow> (\<forall>(k, q) \<in> set (ds_known s'). descends S (ds_root s) q))"
proof -
  let ?root = "ds_root s" let ?own = "owned (ds_root s) ps kept"
  let ?line = "\<lambda>known. ps \<in> S \<and> (\<forall>(k, q) \<in> set (ds_known s). descends S ?root q) \<longrightarrow> (\<forall>(k, q) \<in> set known. descends S ?root q)"
  let ?inv = "\<lambda>known. tracked_set (s\<lparr>ds_known := known\<rparr>) \<and> ((\<forall>p \<in> set ps. recorded known p \<longrightarrow> ?own p)
    \<and> (\<forall>p \<in> set ps. recorded kept p \<longrightarrow> recorded known p) \<and> fst ` set kept \<subseteq> fst ` set known
    \<and> fst ` set known \<subseteq> fst ` set kept \<union> pi_pid ` {p. ?own p}) \<and> ?line known"
  have line: "admission_keeps ?root ps ?line"
    by (rule admission_if) (simp add: admission_descends [OF assms(1)])
  have tracked: "tracked_set (s\<lparr>ds_known := kept\<rparr>)" unfolding kept_def by (rule prune_tracked [OF assms(2)])
  then have keyed: "keyed kept" by (simp add: tracked_set_def)
  have "?line kept" using prune_subset unfolding kept_def by blast
  moreover have "\<forall>p \<in> set ps. recorded kept p \<longrightarrow> ?own p" using owned.kept by blast
  ultimately have start: "?inv kept" using tracked by blast
  have keeps: "admission_keeps ?root ps ?inv" by (intro admission_both admission_tracked admission_owned assms(1) line)
  obtain known er where loop: "capture_loop ?root (current_of ps) ps kept = Some (known, er)" "keyed known"
      "er \<noteq> None \<longrightarrow> er = Some errDescendantTracking \<and> stopped_at_limit ?root ps known"
      "er = None \<longrightarrow> (\<forall>c \<in> set ps. \<not> admits ?root (current_of ps) known c)"
    and run: "tracked_set (s\<lparr>ds_known := known\<rparr>)" "?line known" "\<forall>p \<in> set ps. recorded known p \<longrightarrow> ?own p"
      "\<forall>p \<in> set ps. recorded kept p \<longrightarrow> recorded known p" "fst ` set kept \<subseteq> fst ` set known"
      "fst ` set known \<subseteq> fst ` set kept \<union> pi_pid ` {p. ?own p}"
    using capture_loop_rule [OF assms(1) keeps start keyed] by (elim exE conjE) (rule that)
  have found: "?own p \<longrightarrow> p \<in> set ps \<and> recorded known p" if "er = None" for p
    using owned_closed [OF _ assms(1) loop(2) _ run(4)] loop(4) that by blast
  have limit: "er = None \<longleftrightarrow> card (fst ` set kept \<union> pi_pid ` {p. ?own p}) \<le> descendantLimit"
    by (rule capture_limit [OF assms(1) loop(2) _ loop(3) _ run(3,5,6)]) (use run(1) found in \<open>simp_all add: tracked_set_def\<close>)
  have all: "er = None \<longrightarrow> (\<forall>p \<in> set ps. ?own p \<longrightarrow> recorded known p)" using found by simp
  have "capture_list lookup ps s = Some (s\<lparr>ds_known := known\<rparr>, er)" using loop(1) by (simp add: capture_list_def kept_def)
  then show ?thesis
    by (intro exI [of _ "s\<lparr>ds_known := known\<rparr>"] exI [of _ er] conjI limit) (use run(1-3) all in simp_all)
qed

text \<open>
  C38: On a snapshot with one record for a process id, \<open>capture\<close> ends. Without an error exactly the
  processes of the snapshot that belong to the provider are recorded: those it kept and, through
  live parents that are no younger than their children, all their descendants. It fails exactly
  when they are more than 1024 with the ones recorded before, and nothing else is recorded then either.
  The invariant is kept.
\<close>

theorem capture_exact:
  assumes "distinct (map pi_pid ps)" "tracked_set s"
  shows "let kept = prune lookup (ds_root s) (current_of ps) (ds_known s)
    in \<exists>s' er. capture_list lookup ps s = Some (s', er) \<and> tracked_set s' \<and> ds_root s' = ds_root s
      \<and> (\<forall>p \<in> set ps. recorded (ds_known s') p \<longrightarrow> owned (ds_root s) ps kept p)
      \<and> (er = None \<longrightarrow> (\<forall>p \<in> set ps. owned (ds_root s) ps kept p \<longrightarrow> recorded (ds_known s') p))
      \<and> (er = None \<longleftrightarrow> card (fst ` set kept \<union> pi_pid ` {p. owned (ds_root s) ps kept p}) \<le> descendantLimit)"
  using capture_list_rule [OF assms, of lookup] unfolding Let_def by blast

text \<open>
  The root 10 with a child 11 and a grandchild 12; 13 is another tree, 14 is older than its parent,
  and the recorded 15 has been replaced by a process of another tree.
\<close>

definition demo_proc :: "int \<Rightarrow> int \<Rightarrow> int \<Rightarrow> process_identity" where
  "demo_proc pid parent sec = \<lparr>pi_pid = pid, pi_parent = parent, pi_uid = 501, pi_start = (sec, 0), pi_zombie = False\<rparr>"

definition demo_table :: "process_identity list" where
  "demo_table = [demo_proc 12 11 7, demo_proc 14 11 3, demo_proc 15 1 9, demo_proc 13 1 6, demo_proc 11 10 6, demo_proc 10 2 5]"

definition demo_set :: descendant_set where
  "demo_set = \<lparr>ds_root = demo_proc 10 2 5, ds_known = [(10, demo_proc 10 2 5), (15, demo_proc 15 10 6)]\<rparr>"

lemmas demo_proc_defs = demo_table_def demo_set_def demo_proc_def

lemma demo_distinct: "distinct (map pi_pid demo_table)"
  by (simp add: demo_proc_defs)

lemma demo_tracked: "tracked_set demo_set"
  by (simp add: tracked_set_def keyed_def demo_proc_defs descendantLimit_def older_def)

theorem capture_exact_witness:
  "\<exists>s' er. capture_list None demo_table demo_set = Some (s', er) \<and> tracked_set s' \<and> ds_root s' = demo_proc 10 2 5"
  using capture_exact [OF demo_distinct demo_tracked, of None] by (auto simp: Let_def demo_set_def)

text \<open>What the set holds after that snapshot.\<close>

lemma demo_capture:
  "capture_list (Some (\<lambda>_. Inl ESRCH)) demo_table demo_set =
     Some (demo_set\<lparr>ds_known := [(10, demo_proc 10 2 5), (11, demo_proc 11 10 6), (12, demo_proc 12 11 7)]\<rparr>, None)"
proof -
  have first: "capture_pass (demo_proc 10 2 5) (current_of demo_table) demo_table [(10, demo_proc 10 2 5)] False
      = ([(10, demo_proc 10 2 5), (11, demo_proc 11 10 6)], True, None)" by code_simp
  have second: "capture_pass (demo_proc 10 2 5) (current_of demo_table) demo_table [(10, demo_proc 10 2 5), (11, demo_proc 11 10 6)] False
      = ([(10, demo_proc 10 2 5), (11, demo_proc 11 10 6), (12, demo_proc 12 11 7)], True, None)" by code_simp
  have third: "capture_pass (demo_proc 10 2 5) (current_of demo_table) demo_table
        [(10, demo_proc 10 2 5), (11, demo_proc 11 10 6), (12, demo_proc 12 11 7)] False
      = ([(10, demo_proc 10 2 5), (11, demo_proc 11 10 6), (12, demo_proc 12 11 7)], False, None)" by code_simp
  have "capture_loop (demo_proc 10 2 5) (current_of demo_table) demo_table [(10, demo_proc 10 2 5)]
      = Some ([(10, demo_proc 10 2 5), (11, demo_proc 11 10 6), (12, demo_proc 12 11 7)], None)"
    by (subst capture_loop.simps, simp add: first, subst capture_loop.simps, simp add: second, subst capture_loop.simps, simp add: third)
  moreover have "prune (Some (\<lambda>_. Inl ESRCH)) (demo_proc 10 2 5) (current_of demo_table) (ds_known demo_set) = [(10, demo_proc 10 2 5)]"
    by code_simp
  ultimately show ?thesis by (simp add: capture_list_def demo_set_def)
qed

text \<open>
  The loop does rely on one record for a process id: with two, it would take them in turn and not
  come to an end.
\<close>

definition demo_twins :: "process_identity list" where
  "demo_twins = [demo_proc 11 10 6, demo_proc 11 10 7, demo_proc 10 2 5]"

lemma capture_needs_one_record:
  "capture_list None demo_twins \<lparr>ds_root = demo_proc 10 2 5, ds_known = [(10, demo_proc 10 2 5)]\<rparr> = None"
proof -
  let ?loop = "capture_loop (demo_proc 10 2 5) (current_of demo_twins) demo_twins"
  let ?twin = "[(10, demo_proc 10 2 5), (11, demo_proc 11 10 7)]"
  have pass: "capture_pass (demo_proc 10 2 5) (current_of demo_twins) demo_twins [(10, demo_proc 10 2 5)] False = (?twin, True, None)"
    "capture_pass (demo_proc 10 2 5) (current_of demo_twins) demo_twins ?twin False = (?twin, True, None)" by code_simp+
  let ?stuck = "\<lambda>root cur ps known. root = demo_proc 10 2 5 \<and> cur = current_of demo_twins \<and> ps = demo_twins \<and> known = ?twin"
  have "\<not> ?stuck root cur ps known" if "capture_loop root cur ps known = Some r" for root cur ps known r
  proof (rule capture_loop.raw_induct [where P = "\<lambda>root cur ps known r. \<not> ?stuck root cur ps known", OF _ that])
    fix loop root cur ps known r
    assume IH: "\<And>root cur ps known r. loop root cur ps known = Some r \<Longrightarrow> \<not> ?stuck root cur ps known"
      and step: "(case capture_pass root cur ps known False of (known', changed, er) \<Rightarrow>
             if er \<noteq> None \<or> \<not> changed then Some (known', er) else loop root cur ps known') = Some r"
    show "\<not> ?stuck root cur ps known" using IH [of root cur ps known r] step pass(2) by fastforce
  qed
  then have "?loop ?twin = None" by (metis not_None_eq)
  then have "?loop [(10, demo_proc 10 2 5)] = None" by (subst capture_loop.simps) (simp add: pass(1))
  then show ?thesis by (simp add: capture_list_def prune_def)
qed

section \<open>The last clean-up\<close>

lemma justified_append:
  assumes "justified s a" "justified s b"
  shows "justified s (a @ b)"
  unfolding justified_def
proof (intro allI impI)
  fix pre post pid
  assume split: "a @ b = pre @ Signalled pid # post"
  consider us where "a = pre @ us" "us @ b = Signalled pid # post" | us where "pre = a @ us" "b = us @ Signalled pid # post"
    using split by (auto simp: append_eq_append_conv2)
  then show "\<exists>pre' p current. pre = pre' @ [Looked pid (Inr current)] \<and> (pid, p) \<in> set (ds_known s) \<and> pid \<noteq> pi_pid (ds_root s) \<and> confirmed p current"
  proof cases
    case (1 us)
    then show ?thesis
    proof (cases us)
      case Nil
      then show ?thesis using 1 assms(2) unfolding justified_def by (metis append_Nil snoc_eq_iff_butlast)
    next
      case (Cons x xs)
      then show ?thesis using 1 assms(1) unfolding justified_def by auto
    qed
  next
    case (2 us)
    then show ?thesis using assms(2) unfolding justified_def by (metis append_assoc)
  qed
qed

lemma justified_Nil: "justified s []"
  by (simp add: justified_def)

lemma killMatching_justified:
  assumes "killMatching lookup sig p = (r, calls)" "(pi_pid p, p) \<in> set (ds_known s)" "pi_pid p \<noteq> pi_pid (ds_root s)"
  shows "justified s calls \<and> (r = (False, None) \<longleftrightarrow> has_ended p (lookup (pi_pid p)))"
proof -
  have one: "justified s [Looked (pi_pid p) x]" for x
    by (auto simp: justified_def Cons_eq_append_conv)
  have two: "justified s [Looked (pi_pid p) (Inr current), Signalled (pi_pid p)]" if "confirmed p current" for current
    using assms(2,3) that by (auto simp: justified_def Cons_eq_append_conv)
  show ?thesis
    using assms(1) one two
    by (auto simp: killMatching_def has_ended_def confirmed_def Let_def errors_join_def split: sum.splits if_splits option.splits)
qed

text \<open>One round: what it calls is justified, and it is silent only when every process has ended.\<close>

lemma finish_pass_rule:
  assumes "finish_pass lookup sig (ds_root s) kvs live res = (live', res', calls)"
    and "keyed (ds_known s)" "set kvs \<subseteq> set (ds_known s)"
  shows "justified s calls
    \<and> (\<not> live' \<and> res' = None \<longrightarrow> \<not> live \<and> res = None \<and> (\<forall>(k, p) \<in> set kvs. k \<noteq> pi_pid (ds_root s) \<longrightarrow> has_ended p (lookup k)))"
  using assms
proof (induction kvs arbitrary: live res live' res' calls)
  case (Cons kv kvs)
  obtain pid p where kv: "kv = (pid, p)" by (cases kv)
  have p: "pi_pid p = pid" "(pi_pid p, p) \<in> set (ds_known s)" using Cons.prems(2,3) kv keyed_pid by auto
  show ?case
  proof (cases "pid = pi_pid (ds_root s)")
    case True
    then show ?thesis using Cons.IH [of live res live' res' calls] Cons.prems kv by auto
  next
    case False
    obtain active er calls1 where kill: "killMatching lookup sig p = ((active, er), calls1)" by (metis prod.collapse)
    note kj = killMatching_justified [OF kill p(2)]
    define live1 where "live1 = (if er = None then live \<or> active else live)"
    define res1 where "res1 = (if er \<noteq> None \<and> res = None then er else res)"
    obtain live2 res2 calls2 where rest: "finish_pass lookup sig (ds_root s) kvs live1 res1 = (live2, res2, calls2)" by (metis prod_cases3)
    have eqs: "live' = live2" "res' = res2" "calls = calls1 @ calls2"
      using Cons.prems(1) False kv kill rest by (auto simp: live1_def res1_def split: option.splits)
    have IH: "justified s calls2 \<and> (\<not> live2 \<and> res2 = None \<longrightarrow> \<not> live1 \<and> res1 = None
        \<and> (\<forall>(k, p) \<in> set kvs. k \<noteq> pi_pid (ds_root s) \<longrightarrow> has_ended p (lookup k)))"
      using Cons.IH [OF rest Cons.prems(2)] Cons.prems(3) by simp
    have "\<not> live1 \<and> res1 = None \<longrightarrow> \<not> live \<and> res = None \<and> has_ended p (lookup pid)"
      using kj False p(1) by (auto simp: live1_def res1_def split: if_splits)
    then show ?thesis using IH kj False p(1) kv eqs justified_append by (auto simp: kv)
  qed
qed (simp add: justified_Nil)

definition all_ended :: "finish_env \<Rightarrow> descendant_set \<Rightarrow> nat \<Rightarrow> bool" where
  "all_ended e s k \<longleftrightarrow> (\<forall>(pid, p) \<in> set (ds_known s). pid \<noteq> pi_pid (ds_root s) \<longrightarrow> has_ended p (fe_lookup e k pid))"

lemma finish_loop_rule:
  assumes "keyed (ds_known s)" "\<forall>k xs. mset (fe_order e k xs) = mset xs" "fe_now e (Suc n) > deadline" "k \<le> n" "justified s calls"
  shows "\<exists>er calls'. finish_loop e s deadline k res calls = Some (er, calls') \<and> justified s calls' \<and> (er = None \<longrightarrow> (\<exists>j. all_ended e s j))"
  using assms(4,5)
proof (induction "n - k" arbitrary: k res calls rule: less_induct)
  case less
  obtain live res' new where pass: "finish_pass (fe_lookup e k) (fe_signal e k) (ds_root s) (fe_order e k (ds_known s)) False res = (live, res', new)"
    by (metis prod_cases3)
  have same: "set (fe_order e k (ds_known s)) = set (ds_known s)" using assms(2) by (metis set_mset_mset)
  note rule = finish_pass_rule [OF pass assms(1) equalityD1 [OF same], unfolded same]
  have just: "justified s (calls @ new)" using rule justified_append [OF less.prems(2)] by blast
  show ?case
  proof (cases "live \<and> \<not> fe_now e (Suc k) > deadline")
    case True
    then have "finish_loop e s deadline k res calls = finish_loop e s deadline (Suc k) res' (calls @ new)"
      using pass by (subst finish_loop.simps) simp
    moreover have "k < n" using True assms(3) less.prems(1) by (cases "k = n") auto
    ultimately show ?thesis using less.hyps [of "Suc k"] just by simp
  next
    case False
    then have "finish_loop e s deadline k res calls = Some (if live then Some errDescendantCleanup else res', calls @ new)"
      using pass by (subst finish_loop.simps) auto
    then show ?thesis using rule just by (auto simp: all_ended_def)
  qed
qed

lemma finish_rule:
  assumes "keyed (ds_known s)" "\<forall>k xs. mset (fe_order e k xs) = mset xs" "fe_now e (Suc n) > fe_now e 0 + 10 ^ 9"
  shows "\<exists>er calls. finish e s = Some (er, calls) \<and> justified s calls \<and> (er = None \<longrightarrow> (\<exists>k. all_ended e s k))"
  unfolding finish_def by (rule finish_loop_rule [OF assms _ justified_Nil]) simp

text \<open>
  The last clean-up ends once the clock passes its deadline. Whatever happens, every signal
  goes to a recorded process other than the root, and the call just before it was a lookup of that
  very process that found it alive with the recorded start time and user. It reports success only when
  in one round the kernel said of every recorded process that it is gone, a zombie or replaced.
\<close>

theorem finish_confirms:
  assumes "tracked_set s" "\<forall>k xs. mset (fe_order e k xs) = mset xs" "fe_now e (Suc n) > fe_now e 0 + 10 ^ 9"
  shows "\<exists>er calls. finish e s = Some (er, calls) \<and> justified s calls \<and> (er = None \<longrightarrow> (\<exists>k. all_ended e s k))"
  using finish_rule [OF _ assms(2,3)] assms(1) unfolding tracked_set_def by blast

section \<open>A tracked provider\<close>

text \<open>Everything the goroutine keeps, whatever snapshots it gets.\<close>

abbreviation seen :: "track_env \<Rightarrow> nat \<Rightarrow> process_identity list set" where
  "seen e n \<equiv> {ps. \<exists>i<n. track_snapshot e i = Inr ps}"

definition watched :: "track_env \<Rightarrow> nat \<Rightarrow> descendant_set \<Rightarrow> bool" where
  "watched e n s \<longleftrightarrow> tracked_set s \<and> (\<forall>(k, q) \<in> set (ds_known s). descends (seen e n) (ds_root s) q)"

lemma descends_mono: "descends S root q \<Longrightarrow> S \<subseteq> T \<Longrightarrow> descends T root q"
  by (induction rule: descends.induct) (auto intro: descends.intros)

lemma watch_tick_rule:
  assumes "\<forall>i ps. track_snapshot e i = Inr ps \<longrightarrow> distinct (map pi_pid ps)" "watched e n s"
  shows "\<exists>s' res'. watch_tick e n (s, res) = Some (s', res') \<and> watched e (Suc n) s' \<and> ds_root s' = ds_root s
    \<and> (res' = None \<longrightarrow> res = None \<and> (\<exists>ps. track_snapshot e n = Inr ps))"
proof -
  have more: "\<forall>(k, q) \<in> set (ds_known s). descends (seen e (Suc n)) (ds_root s) q"
    using assms(2) descends_mono [of "seen e n" "ds_root s" _ "seen e (Suc n)"] by (fastforce simp: watched_def less_Suc_eq)
  show ?thesis
  proof (cases "track_snapshot e n")
    case (Inl er)
    then show ?thesis using assms(2) more by (simp add: watch_tick_def watched_def)
  next
    case (Inr ps)
    have "ps \<in> seen e (Suc n)" using Inr by blast
    then obtain s' er where "capture_list (Some (track_lookup e n)) ps s = Some (s', er)" "tracked_set s'" "ds_root s' = ds_root s"
        "\<forall>(k, q) \<in> set (ds_known s'). descends (seen e (Suc n)) (ds_root s) q"
      using capture_list_rule [of ps s "Some (track_lookup e n)" "seen e (Suc n)"] assms Inr more unfolding watched_def by blast
    then show ?thesis using Inr by (simp add: watch_tick_def watched_def)
  qed
qed

lemma watch_rule:
  assumes "\<forall>i ps. track_snapshot e i = Inr ps \<longrightarrow> distinct (map pi_pid ps)" "watched e n s"
  shows "\<exists>s' res'. watch e n ticks (s, res) = Some (s', res') \<and> watched e (n + ticks) s' \<and> ds_root s' = ds_root s
    \<and> (res' = None \<longrightarrow> res = None \<and> (\<forall>i. n \<le> i \<and> i < n + ticks \<longrightarrow> (\<exists>ps. track_snapshot e i = Inr ps)))"
  using assms(2)
proof (induction ticks arbitrary: n s res)
  case (Suc ticks)
  obtain s1 res1 where tick: "watch_tick e n (s, res) = Some (s1, res1)" "watched e (Suc n) s1" "ds_root s1 = ds_root s"
      "res1 = None \<longrightarrow> res = None \<and> (\<exists>ps. track_snapshot e n = Inr ps)"
    using watch_tick_rule [OF assms(1) Suc.prems] by blast
  obtain s2 res2 where rest: "watch e (Suc n) ticks (s1, res1) = Some (s2, res2)" "watched e (Suc n + ticks) s2" "ds_root s2 = ds_root s1"
      "res2 = None \<longrightarrow> res1 = None \<and> (\<forall>i. Suc n \<le> i \<and> i < Suc n + ticks \<longrightarrow> (\<exists>ps. track_snapshot e i = Inr ps))"
    using Suc.IH [OF tick(2)] by blast
  have "\<exists>ps. track_snapshot e i = Inr ps" if "res2 = None" "n \<le> i" "i < n + Suc ticks" for i
    using that rest(4) tick(4) by (cases "i = n") auto
  then show ?case using tick rest by simp
qed auto

text \<open>\<open>TrackDescendants\<close> itself always answers; a set it hands out starts with the root it was asked for.\<close>

lemma track_start_rule:
  assumes "\<forall>i ps. track_snapshot e i = Inr ps \<longrightarrow> distinct (map pi_pid ps)"
  shows "\<exists>r. TrackDescendants e process = Some r
    \<and> (\<forall>s. r = Inr s \<longrightarrow> watched e 1 s \<and> process = Some (pi_pid (ds_root s)) \<and> pi_uid (ds_root s) = word_of_int (tr_euid e))"
proof (cases "\<exists>pid root ps. process = Some pid \<and> readProcess (tr_start e) pid = Inr root \<and> track_snapshot e 0 = Inr ps
    \<and> \<not> (pi_pid root \<noteq> pid \<or> pi_pid root \<le> 1 \<or> pi_uid root \<noteq> word_of_int (tr_euid e) \<or> fst (pi_start root) = 0)")
  case True
  then obtain pid root ps where t: "process = Some pid" "readProcess (tr_start e) pid = Inr root" "track_snapshot e 0 = Inr ps"
      "pi_pid root = pid" "1 < pi_pid root" "pi_uid root = word_of_int (tr_euid e)" "fst (pi_start root) \<noteq> 0" by fastforce
  let ?s0 = "\<lparr>ds_root = root, ds_known = [(pi_pid root, root)]\<rparr>"
  have "tracked_set ?s0" using t by (simp add: tracked_set_def keyed_def descendantLimit_def older_def)
  moreover have "ps \<in> seen e 1" using t(3) by auto
  ultimately obtain s' er where "capture_list (Some (track_lookup e 0)) ps ?s0 = Some (s', er)" "tracked_set s'" "ds_root s' = root"
      "\<forall>(k, q) \<in> set (ds_known s'). descends (seen e 1) root q"
    using capture_list_rule [of ps ?s0 "Some (track_lookup e 0)" "seen e 1"] assms t(3) by (auto simp: descends.self)
  then show ?thesis using t by (simp add: TrackDescendants_def watched_def)
next
  case False
  then show ?thesis by (auto simp: TrackDescendants_def split: option.splits sum.splits)
qed

text \<open>
  C39: Tracking a provider and stopping it. Provided the clock moves on, the clean-up ends. It only
  signals processes that descend from the provider, by links each seen in one of the snapshots,
  that run as its user, are no older than it, and were confirmed by the lookup just before. Success is
  reported only when no snapshot failed and every recorded process was found ended in one round.
\<close>

theorem track_kills_descendants:
  assumes "\<forall>i ps. track_snapshot e i = Inr ps \<longrightarrow> distinct (map pi_pid ps)" "TrackDescendants e process = Some (Inr s)"
    and "\<forall>k xs. mset (fe_order (tr_finish e) k xs) = mset xs" "fe_now (tr_finish e) (Suc m) > fe_now (tr_finish e) 0 + 10 ^ 9"
  shows "\<exists>s' er calls. track_stop e ticks s = Some (s', er, calls) \<and> justified s' calls
    \<and> (\<forall>pid. Signalled pid \<in> set calls \<longrightarrow> pid > 1 \<and> process \<noteq> Some pid
         \<and> (\<exists>q. (pid, q) \<in> set (ds_known s') \<and> pi_uid q = word_of_int (tr_euid e) \<and> \<not> older q (ds_root s)
              \<and> descends (seen e (Suc (Suc ticks))) (ds_root s) q))
    \<and> (er = None \<longrightarrow> (\<forall>i \<le> Suc ticks. \<exists>ps. track_snapshot e i = Inr ps) \<and> (\<exists>k. all_ended (tr_finish e) s' k))"
proof -
  have start: "watched e 1 s" "process = Some (pi_pid (ds_root s))" "pi_uid (ds_root s) = word_of_int (tr_euid e)"
    using track_start_rule [OF assms(1), of process] assms(2) by auto
  obtain s' res where w: "watch e 1 (Suc ticks) (s, None) = Some (s', res)" "watched e (1 + Suc ticks) s'" "ds_root s' = ds_root s"
      "res = None \<longrightarrow> (\<forall>i. 1 \<le> i \<and> i < 1 + Suc ticks \<longrightarrow> (\<exists>ps. track_snapshot e i = Inr ps))"
    using watch_rule [OF assms(1) start(1)] by blast
  have "keyed (ds_known s')" using w(2) by (simp add: watched_def tracked_set_def)
  then obtain er calls where f: "finish (tr_finish e) s' = Some (er, calls)" "justified s' calls" "er = None \<longrightarrow> (\<exists>k. all_ended (tr_finish e) s' k)"
    using finish_rule [OF _ assms(3,4)] by blast
  have "\<exists>ps. track_snapshot e 0 = Inr ps"
    using assms(2) by (auto simp: TrackDescendants_def split: option.splits if_splits sum.splits)
  then have snaps: "\<forall>i \<le> Suc ticks. \<exists>ps. track_snapshot e i = Inr ps" if "res = None"
    using w(4) that by (metis One_nat_def Suc_leI le_imp_less_Suc neq0_conv plus_1_eq_Suc)
  have "pid > 1 \<and> process \<noteq> Some pid \<and> (\<exists>q. (pid, q) \<in> set (ds_known s') \<and> pi_uid q = word_of_int (tr_euid e)
      \<and> \<not> older q (ds_root s) \<and> descends (seen e (Suc (Suc ticks))) (ds_root s) q)" if called: "Signalled pid \<in> set calls" for pid
  proof -
    obtain pre post where "calls = pre @ Signalled pid # post" using called by (auto simp: in_set_conv_decomp)
    then obtain q where q: "(pid, q) \<in> set (ds_known s')" "pid \<noteq> pi_pid (ds_root s')" using f(2) unfolding justified_def by blast
    then show ?thesis using w(2,3) start(2,3) by (auto simp: watched_def tracked_set_def)
  qed
  moreover have "track_stop e ticks s = Some (s', errors_join res er, calls)" using w(1) f(1) by (simp add: track_stop_def)
  ultimately show ?thesis using f(2,3) snaps by auto
qed

text \<open>A provider 10 with the child 11, of the user 501; the child is killed in the first round.\<close>

definition demo_kinfo :: "int \<Rightarrow> int \<Rightarrow> int \<Rightarrow> int \<Rightarrow> kinfo_proc" where
  "demo_kinfo pid parent sec stat = \<lparr>P_pid = word_of_int pid, Ppid = word_of_int parent, P_uid = 501, P_starttime = (sec, 0), P_stat = stat\<rparr>"

definition demo_kernel :: kernel where
  "demo_kernel = \<lparr>SysctlKinfoProc = (\<lambda>pid. if pid = 10 then Inr (demo_kinfo 10 2 5 2) else if pid = 11 then Inr (demo_kinfo 11 10 6 2) else Inl EIO),
     SysctlRaw = (\<lambda>_. Inr []), SysctlKinfoProcSlice = (\<lambda>_. Inr [demo_kinfo 11 10 6 2, demo_kinfo 10 2 5 2])\<rparr>"

definition demo_finish :: finish_env where
  "demo_finish = \<lparr>fe_now = (\<lambda>n. int n * 2 * 10 ^ 9), fe_lookup = (\<lambda>k pid. if k = 0 then readProcess demo_kernel pid else Inl ESRCH),
     fe_signal = (\<lambda>_ _. None), fe_order = (\<lambda>_ xs. xs)\<rparr>"

definition demo_track :: track_env where
  "demo_track = \<lparr>tr_euid = 501, tr_start = demo_kernel, tr_kernel = (\<lambda>_. demo_kernel), tr_lookup = (\<lambda>_ _. demo_kernel), tr_finish = demo_finish\<rparr>"

theorem finish_confirms_witness:
  "\<exists>er calls. finish demo_finish demo_set = Some (er, calls) \<and> justified demo_set calls"
  using finish_confirms [OF demo_tracked, of demo_finish 0] by (auto simp: demo_finish_def)

definition demo_family :: "process_identity list" where
  "demo_family = [demo_proc 11 10 6, demo_proc 10 2 5]"

lemma demo_snapshot: "track_snapshot demo_track i = Inr demo_family"
  by (simp add: demo_family_def track_snapshot_def processSnapshot_def demo_track_def demo_kernel_def demo_kinfo_def processRecord_def demo_proc_def)

lemma demo_tracking:
  "TrackDescendants demo_track (Some 10) = Some (Inr \<lparr>ds_root = demo_proc 10 2 5, ds_known = [(10, demo_proc 10 2 5), (11, demo_proc 11 10 6)]\<rparr>)"
proof -
  have read: "readProcess (tr_start demo_track) 10 = Inr (demo_proc 10 2 5)" "tr_euid demo_track = 501"
    by (simp_all add: readProcess_def demo_track_def demo_kernel_def demo_kinfo_def processRecord_def demo_proc_def)
  have first: "capture_pass (demo_proc 10 2 5) (current_of demo_family) demo_family [(10, demo_proc 10 2 5)] False
      = ([(10, demo_proc 10 2 5), (11, demo_proc 11 10 6)], True, None)" by code_simp
  have second: "capture_pass (demo_proc 10 2 5) (current_of demo_family) demo_family [(10, demo_proc 10 2 5), (11, demo_proc 11 10 6)] False
      = ([(10, demo_proc 10 2 5), (11, demo_proc 11 10 6)], False, None)" by code_simp
  have loop: "capture_loop (demo_proc 10 2 5) (current_of demo_family) demo_family [(10, demo_proc 10 2 5)]
      = Some ([(10, demo_proc 10 2 5), (11, demo_proc 11 10 6)], None)"
    by (subst capture_loop.simps, simp add: first, subst capture_loop.simps, simp add: second)
  have "prune (Some f) (demo_proc 10 2 5) (current_of demo_family) [(10, demo_proc 10 2 5)] = [(10, demo_proc 10 2 5)]" for f
    by (simp add: prune_def prune_keeps_def demo_proc_def)
  then have "capture_list (Some f) demo_family \<lparr>ds_root = demo_proc 10 2 5, ds_known = [(10, demo_proc 10 2 5)]\<rparr>
      = Some (\<lparr>ds_root = demo_proc 10 2 5, ds_known = [(10, demo_proc 10 2 5), (11, demo_proc 11 10 6)]\<rparr>, None)" for f
    by (simp add: capture_list_def loop)
  then show ?thesis by (simp add: TrackDescendants_def read demo_snapshot) (simp add: demo_proc_def)
qed

theorem track_kills_descendants_witness:
  "\<exists>s' er calls. track_stop demo_track 2 \<lparr>ds_root = demo_proc 10 2 5, ds_known = [(10, demo_proc 10 2 5), (11, demo_proc 11 10 6)]\<rparr>
     = Some (s', er, calls) \<and> justified s' calls"
proof -
  have "\<forall>i ps. track_snapshot demo_track i = Inr ps \<longrightarrow> distinct (map pi_pid ps)" by (simp add: demo_snapshot demo_family_def demo_proc_def)
  from track_kills_descendants [OF this demo_tracking, of 0 2] show ?thesis by (auto simp: demo_track_def demo_finish_def)
qed

section \<open>Cancelling a command\<close>

text \<open>
  Both configurations make a command the leader of its group, and cancelling it signals that group
  and nothing else; a group that is gone already counts as finished.
\<close>

lemma cancel_kills_group:
  "Configure c = configureRuntimeProcess c"
  "gc_setpgid (Configure c) \<and> gc_cancel (Configure c) kill (Some pid) =
     (case kill (- pid) of None \<Rightarrow> None | Some er \<Rightarrow> Some (if errors_is er ESRCH then ErrProcessDone else er), [Signalled (- pid)])"
  by (auto simp: Configure_def configureRuntimeProcess_def command_Cancel_def fun_eq_iff split: option.split)

end
