(* ===== verification/Delegation_Proxy.thy ===== *)
theory Delegation_Proxy
  imports Go_Path
begin

text \<open>
  The process a client starts as its delegation server, \<open>agentdelegation.Proxy\<close>
  (\<open>pkg/adapters/agentdelegation/proxy.go\<close>): it copies its standard input to the broker's socket and
  the broker's answers to its standard output. The two copying goroutines, the callback of the context
  and the function itself are steps of one relation; a chunk copied is one step. What the input and
  the broker deliver, and how each ends, is fixed at the start; reads and writes may fail at any time.
\<close>

section \<open>States\<close>

text \<open>
  \<open>px_input\<close> and \<open>px_answers\<close> are the chunks still to be read, the ends are \<open>None\<close> for an orderly end
  of file. \<open>px_copying\<close> says that the first goroutine is in its \<open>io.Copy\<close>, \<open>px_half\<close> that the write
  side of the connection is closed, \<open>px_closed\<close> that the connection is; \<open>px_completed\<close> is what
  the second goroutine has sent, \<open>px_done\<close> whether the context is done, \<open>px_return\<close> what was returned.
\<close>

record proxy_state =
  px_input :: "string list"
  px_input_end :: "go_error option"
  px_sent :: string
  px_copying :: bool
  px_half :: bool
  px_closed :: bool
  px_answers :: "string list"
  px_answers_end :: "go_error option"
  px_written :: string
  px_completed :: "go_error option option"
  px_done :: bool
  px_return :: "go_error option option"

text \<open>The checks before the goroutines start: an absolute path and a broker that can be reached.\<close>

definition proxy_start ::
  "string \<Rightarrow> go_error option \<Rightarrow> string list \<Rightarrow> go_error option \<Rightarrow> string list \<Rightarrow> go_error option \<Rightarrow> proxy_state result" where
  "proxy_start socket dial input input_end answers answers_end =
     (if \<not> is_abs socket then Inl (ErrNew ''delegation proxy requires an absolute private socket path'')
      else
        (case dial of
           Some er \<Rightarrow> Inl (ErrNew ''connect to delegation broker'')
         | None \<Rightarrow>
             Inr \<lparr>px_input = input, px_input_end = input_end, px_sent = [], px_copying = True, px_half = False, px_closed = False,
                  px_answers = answers, px_answers_end = answers_end, px_written = [], px_completed = None, px_done = False,
                  px_return = None\<rparr>))"

definition transport_failed :: go_error where
  "transport_failed = ErrNew ''delegation proxy transport failed''"

section \<open>Steps\<close>

text \<open>
  The first goroutine copies until the input ends or a call fails, then closes the write side, and the
  connection as well when something failed. A failing write may have passed on the beginning of its
  chunk. The second goroutine reads answers until the connection gives no more.
\<close>

inductive relay_step :: "proxy_state \<Rightarrow> proxy_state \<Rightarrow> bool" where
  send: "px_copying s \<Longrightarrow> px_input s = c # cs \<Longrightarrow> \<not> px_closed s
    \<Longrightarrow> relay_step s (s\<lparr>px_input := cs, px_sent := px_sent s @ c\<rparr>)"
| send_fails: "px_copying s \<Longrightarrow> px_input s = c # cs \<Longrightarrow> k \<le> (if px_closed s then 0 else length c)
    \<Longrightarrow> relay_step s (s\<lparr>px_input := cs, px_sent := px_sent s @ take k c, px_copying := False, px_half := True, px_closed := True\<rparr>)"
| input_ends: "px_copying s \<Longrightarrow> px_input s = [] \<Longrightarrow> px_input_end s = None
    \<Longrightarrow> relay_step s (s\<lparr>px_copying := False, px_half := True\<rparr>)"
| input_fails: "px_copying s \<Longrightarrow> px_input s = [] \<Longrightarrow> px_input_end s = Some er
    \<Longrightarrow> relay_step s (s\<lparr>px_copying := False, px_half := True, px_closed := True\<rparr>)"
| receive: "px_completed s = None \<Longrightarrow> px_answers s = c # cs \<Longrightarrow> \<not> px_closed s
    \<Longrightarrow> relay_step s (s\<lparr>px_answers := cs, px_written := px_written s @ c\<rparr>)"
| write_fails: "px_completed s = None \<Longrightarrow> px_answers s = c # cs \<Longrightarrow> \<not> px_closed s \<Longrightarrow> k \<le> length c
    \<Longrightarrow> relay_step s (s\<lparr>px_answers := cs, px_written := px_written s @ take k c, px_completed := Some (Some er)\<rparr>)"
| answers_end: "px_completed s = None \<Longrightarrow> px_answers s = [] \<Longrightarrow> px_answers_end s = None \<Longrightarrow> \<not> px_closed s
    \<Longrightarrow> relay_step s (s\<lparr>px_completed := Some None\<rparr>)"
| receive_fails: "px_completed s = None \<Longrightarrow> px_closed s \<or> px_answers s = [] \<and> px_answers_end s \<noteq> None
    \<Longrightarrow> relay_step s (s\<lparr>px_completed := Some (Some er)\<rparr>)"
| cancelled: "relay_step s (s\<lparr>px_done := True\<rparr>)"
| after_func: "px_done s \<Longrightarrow> px_return s = None \<Longrightarrow> relay_step s (s\<lparr>px_closed := True\<rparr>)"
| return_done: "px_done s \<Longrightarrow> px_return s = None \<Longrightarrow> relay_step s (s\<lparr>px_return := Some None, px_closed := True\<rparr>)"
| return_completed: "px_completed s = Some r \<Longrightarrow> px_return s = None
    \<Longrightarrow> relay_step s (s\<lparr>px_return := Some (if r = None then None else Some transport_failed), px_closed := True\<rparr>)"

inductive_cases relay_stepE: "relay_step s s'"

section \<open>Transparency\<close>

text \<open>Nothing is lost, added or reordered on the way to the broker and back.\<close>

definition proxy_ok :: "string \<Rightarrow> string \<Rightarrow> proxy_state \<Rightarrow> bool" where
  "proxy_ok input answers s \<longleftrightarrow>
     (if px_copying s then px_sent s @ concat (px_input s) = input else prefix (px_sent s) input)
     \<and> (case px_completed s of
          None \<Rightarrow> px_written s @ concat (px_answers s) = answers
        | Some None \<Rightarrow> px_written s = answers \<and> px_answers_end s = None
        | Some (Some _) \<Rightarrow> prefix (px_written s) answers)
     \<and> (px_copying s \<or> px_half s)
     \<and> (case px_return s of
          None \<Rightarrow> True
        | Some None \<Rightarrow> px_closed s \<and> (px_done s \<or> px_completed s = Some None)
        | Some (Some er) \<Rightarrow> px_closed s \<and> er = transport_failed \<and> (\<exists>x. px_completed s = Some (Some x)))"

lemma prefix_taken: "a @ c @ b = d \<Longrightarrow> prefix (a @ take k c) d"
  by (metis append_assoc append_take_drop_id prefixI)

lemma relay_step_ok:
  assumes "relay_step s s'" "proxy_ok input answers s"
  shows "proxy_ok input answers s'"
  using assms
proof cases
  case (send_fails c cs k)
  have "prefix (px_sent s @ take k c) input"
    by (rule prefix_taken [of _ _ "concat cs"]) (use assms(2) send_fails in \<open>simp add: proxy_ok_def\<close>)
  then show ?thesis using assms(2) send_fails by (auto simp: proxy_ok_def split: option.splits)
next
  case (write_fails c cs k er)
  have "prefix (px_written s @ take k c) answers"
    by (rule prefix_taken [of _ _ "concat cs"]) (use assms(2) write_fails in \<open>simp add: proxy_ok_def\<close>)
  then show ?thesis using assms(2) write_fails by (auto simp: proxy_ok_def split: option.splits)
qed (auto simp: proxy_ok_def split: option.splits if_splits)

lemma proxy_reaches_ok:
  assumes "relay_step\<^sup>*\<^sup>* s s'" "proxy_ok input answers s"
  shows "proxy_ok input answers s'"
  using assms by (induction rule: rtranclp_induct) (auto intro: relay_step_ok)

text \<open>
  C40: Whatever the order of the goroutines, the broker has received a beginning of the input and the
  client a beginning of the broker's answers. The proxy returns without an error only when its
  context is done or all the broker sent until it closed the connection was written, and every
  other end is the one fixed error; the connection is closed then.
\<close>

theorem proxy_transparent:
  assumes "proxy_start socket dial input input_end answers answers_end = Inr s" "relay_step\<^sup>*\<^sup>* s s'"
  shows "prefix (px_sent s') (concat input) \<and> prefix (px_written s') (concat answers)
    \<and> (px_return s' = Some None \<longrightarrow> px_done s' \<or> px_written s' = concat answers \<and> answers_end = None)
    \<and> (\<forall>er. px_return s' = Some (Some er) \<longrightarrow> er = transport_failed)
    \<and> (px_return s' \<noteq> None \<longrightarrow> px_closed s')"
proof -
  have start: "proxy_ok (concat input) (concat answers) s" "px_answers_end s = answers_end"
    using assms(1) by (auto simp: proxy_start_def proxy_ok_def split: if_splits option.splits)
  have ok: "proxy_ok (concat input) (concat answers) s'" by (rule proxy_reaches_ok [OF assms(2) start(1)])
  have "px_answers_end s' = px_answers_end s" using assms(2)
    by (induction rule: rtranclp_induct) (auto elim!: relay_stepE)
  then show ?thesis using ok start(2) by (auto simp: proxy_ok_def dest: prefixI [OF sym] split: option.splits if_splits)
qed

text \<open>A proxy that can always come to an end: once the context is done, it returns in one step.\<close>

lemma proxy_can_return: "px_done s \<Longrightarrow> px_return s = None \<Longrightarrow> \<exists>s'. relay_step s s' \<and> px_return s' = Some None \<and> px_closed s'"
  using relay_step.return_done by fastforce

definition demo_proxy :: proxy_state where
  "demo_proxy = \<lparr>px_input = [''ask''], px_input_end = None, px_sent = [], px_copying = True, px_half = False, px_closed = False,
     px_answers = [''reply''], px_answers_end = None, px_written = [], px_completed = None, px_done = False, px_return = None\<rparr>"

theorem proxy_transparent_witness:
  "\<exists>s'. relay_step\<^sup>*\<^sup>* demo_proxy s' \<and> px_return s' = Some None \<and> px_sent s' = ''ask'' \<and> px_written s' = ''reply'' \<and> px_closed s'"
proof -
  let ?s1 = "demo_proxy\<lparr>px_input := [], px_sent := ''ask''\<rparr>"
  let ?s2 = "?s1\<lparr>px_answers := [], px_written := ''reply''\<rparr>"
  let ?s3 = "?s2\<lparr>px_completed := Some None\<rparr>"
  let ?s4 = "?s3\<lparr>px_return := Some None, px_closed := True\<rparr>"
  have "relay_step demo_proxy ?s1" using relay_step.send [of demo_proxy "''ask''" "[]"] by (simp add: demo_proxy_def)
  moreover have "relay_step ?s1 ?s2" using relay_step.receive [of ?s1 "''reply''" "[]"] by (simp add: demo_proxy_def)
  moreover have "relay_step ?s2 ?s3" using relay_step.answers_end [of ?s2] by (simp add: demo_proxy_def)
  moreover have "relay_step ?s3 ?s4" using relay_step.return_completed [of ?s3 None] by (simp add: demo_proxy_def)
  ultimately have steps: "relay_step\<^sup>*\<^sup>* demo_proxy ?s4"
    by (meson converse_rtranclp_into_rtranclp rtranclp.rtrancl_refl)
  have "proxy_start ''/run/broker'' None [''ask''] None [''reply''] None = Inr demo_proxy"
    by (simp add: proxy_start_def demo_proxy_def is_abs_def slash_def)
  from proxy_transparent [OF this steps] have "px_closed ?s4" by simp
  then show ?thesis using steps by (intro exI [of _ ?s4]) (simp add: demo_proxy_def)
qed

end
