(* ===== verification/Command_Line.thy ===== *)
theory Command_Line
  imports Node_Config Agent_Host Claude_Run
begin

text \<open>
  The program itself, \<open>cmd/openlinker-agent-node\<close>: the choice of the command (\<open>main.go\<close>), the offline
  preparation of a credential (\<open>credentials.go\<close>) with Go's flag parser, and the commands of the
  agent-host contract (\<open>transport.go\<close>), together with the configuration report as it is printed and
  logged (\<open>configuration_report.go\<close>). What the Node, the SDK and the operating system answer is a record
  of parameters; a command gives its error, or the program its exit status, with what it did in order.
\<close>

section \<open>The configuration report as JSON\<close>

definition native_report_json :: "native_report \<Rightarrow> json" where
  "native_report_json r =
     JObj ([(''provider'', JStr (nr_provider r)), (''web_search'', JBool (nr_web_search r)), (''session_isolation'', JStr (nr_isolation r)),
            (''session_reuse'', JBool (nr_reuse r))]
           @ (if nr_auth r = [] then [] else [(''host_auth_concurrency'', JStr (nr_auth r))]) @ [(''mock'', JBool (nr_mock r))])"

definition report_json :: "report \<Rightarrow> json" where
  "report_json r =
     JObj ([(''version'', JStr (rp_version r)), (''scope'', JStr (rp_scope r)), (''provider_preflight'', JStr (rp_preflight r)),
            (''capacity'', JNum (itoa (rp_capacity r)))]
           @ (case rp_native r of None \<Rightarrow> [] | Some n \<Rightarrow> [(''native'', native_report_json n)])
           @ (if rp_warnings r = [] then [] else [(''warnings'', JArr (map JStr (rp_warnings r)))]))"

text \<open>What \<open>logConfigurationReport\<close> logs, when the Node has a logger.\<close>

definition logConfigurationReport :: "bool \<Rightarrow> string \<Rightarrow> node \<Rightarrow> string list" where
  "logConfigurationReport logger version n =
     (if \<not> logger then []
      else
        (let r = ConfigurationReport version n
         in if rp_native r = None then [] else [''native configuration: '' @ json_marshal (report_json r)]))"

section \<open>The world of the program\<close>

text \<open>The SDK's \<open>RuntimeCredentialPreparation\<close>.\<close>

record preparation =
  pr_data_dir :: string
  pr_node_id :: string
  pr_agent_id :: string
  pr_worker_id :: string
  pr_configured_node :: string
  pr_agent_token :: string

text \<open>
  \<open>cw_first\<close> is what \<open>node.Start\<close> returned when it did so before a signal came, \<open>cw_last\<close> what it
  returned within the time for shutting down; \<open>cw_proxy\<close> is the outcome of \<open>agentdelegation.Proxy\<close>.
\<close>

record program_world =
  cw_sdk :: sdk
  cw_os :: sandbox_os
  cw_wd :: "string option"
  cw_get :: env_lookup
  cw_version :: string
  cw_write :: "go_error option"
  cw_unset :: "string \<Rightarrow> go_error option"
  cw_prepare :: "preparation \<Rightarrow> json result"
  cw_proxy :: "string \<Rightarrow> go_error option"
  cw_first :: "go_error option option"
  cw_stop :: "go_error option"
  cw_last :: "go_error option option"
  cw_expired :: go_error

datatype cli_action =
    Printed string
  | Logged string
  | Unset string
  | ProxyRun string
  | PrepareCredential preparation
  | NodeStarted node
  | NodeStopped

text \<open>\<open>json.NewEncoder(w).Encode(v)\<close>: one write with the text and a newline.\<close>

definition encoded :: "json \<Rightarrow> string" where
  "encoded v = json_marshal v @ [CHR 0x0A]"

section \<open>Preparing a credential\<close>

definition ErrHelp :: go_error where
  "ErrHelp = ErrSentinel ''flag: help requested''"

definition preparation_flags :: "string list" where
  "preparation_flags = [''data-dir'', ''node-id'', ''agent-id'', ''worker-id'']"

definition set_flag :: "string \<Rightarrow> string \<Rightarrow> preparation \<Rightarrow> preparation" where
  "set_flag name v p =
     (if name = ''data-dir'' then p\<lparr>pr_data_dir := v\<rparr>
      else if name = ''node-id'' then p\<lparr>pr_node_id := v\<rparr>
      else if name = ''agent-id'' then p\<lparr>pr_agent_id := v\<rparr>
      else p\<lparr>pr_worker_id := v\<rparr>)"

text \<open>
  \<open>FlagSet.Parse\<close> for string flags: one or two dashes, a value after \<open>=\<close> or in the next argument;
  \<open>--\<close> and the first argument that is no flag end it and leave the positional arguments.
\<close>

fun parse_flags :: "preparation \<Rightarrow> string list \<Rightarrow> (preparation \<times> string list) result" where
  "parse_flags p [] = Inr (p, [])"
| "parse_flags p (s # rest) =
     (if length s < 2 \<or> hd s \<noteq> CHR ''-'' then Inr (p, s # rest)
      else if s = ''--'' then Inr (p, rest)
      else
        (let body = (if s ! 1 = CHR ''-'' then drop 2 s else drop 1 s)
         in if body = [] \<or> hd body = CHR ''-'' \<or> hd body = CHR ''='' then Inl (ErrNew (''bad flag syntax: '' @ s))
            else
              (let name = takeWhile (\<lambda>c. c \<noteq> CHR ''='') body; tail = dropWhile (\<lambda>c. c \<noteq> CHR ''='') body
               in if name \<notin> set preparation_flags
                  then Inl (if name = ''help'' \<or> name = ''h'' then ErrHelp else ErrNew (''flag provided but not defined: -'' @ name))
                  else if tail \<noteq> [] then parse_flags (set_flag name (tl tail) p) rest
                  else
                    (case rest of
                       [] \<Rightarrow> Inl (ErrNew (''flag needs an argument: -'' @ name))
                     | v # rest' \<Rightarrow> parse_flags (set_flag name v p) rest'))))"

definition empty_preparation :: preparation where
  "empty_preparation = \<lparr>pr_data_dir = [], pr_node_id = [], pr_agent_id = [], pr_worker_id = [], pr_configured_node = [], pr_agent_token = []\<rparr>"

definition prepareCredentialCommand :: "program_world \<Rightarrow> string list \<Rightarrow> go_error option \<times> cli_action list" where
  "prepareCredentialCommand w args =
     (if args = [] \<or> hd args \<noteq> ''prepare''
      then (Some (ErrNew ''usage: runtime-credential prepare --data-dir PATH --node-id ID --agent-id ID --worker-id ID''), [])
      else
        (case parse_flags empty_preparation (tl args) of
           Inl er \<Rightarrow> (Some er, [])
         | Inr (p, left) \<Rightarrow>
             if left \<noteq> [] then (Some (ErrNew ''runtime-credential prepare does not accept positional arguments''), [])
             else
               (let options = p\<lparr>pr_configured_node := trim_space (cw_get w ''OPENLINKER_NODE_ID''),
                                pr_agent_token := trim_space (cw_get w ''OPENLINKER_AGENT_TOKEN'')\<rparr>;
                    configured = trim_space (cw_get w ''OPENLINKER_AGENT_ID'')
                in if configured \<noteq> [] \<and> configured \<noteq> pr_agent_id options
                   then (Some (ErrNew ''credential preparation Agent ID differs from installation configuration''), [])
                   else
                     (case cw_prepare w options of
                        Inl er \<Rightarrow> (Some er, [PrepareCredential options])
                      | Inr prepared \<Rightarrow> (cw_write w, [PrepareCredential options, Printed (encoded prepared)])))))"

section \<open>The agent-host commands\<close>

definition provider_credentials :: "string list" where
  "provider_credentials = [''CODEX_API_KEY'', ''CODEX_API_KEY_FILE'', ''ANTHROPIC_API_KEY'', ''ANTHROPIC_API_KEY_FILE'',
     ''OPENLINKER_AGENT_TOKEN'', ''OPENLINKER_USER_TOKEN'']"

text \<open>The loop over the credentials; it stops at the first that cannot be removed.\<close>

fun unset_all :: "program_world \<Rightarrow> string list \<Rightarrow> go_error option \<times> cli_action list" where
  "unset_all w [] = (None, [])"
| "unset_all w (k # ks) =
     (case cw_unset w k of
        Some er \<Rightarrow> (Some (ErrNew ''agent host credential cleanup failed''), [])
      | None \<Rightarrow> (case unset_all w ks of (er, acts) \<Rightarrow> (er, Unset k # acts)))"

definition runTransportCommand :: "program_world \<Rightarrow> string list \<Rightarrow> go_error option \<times> cli_action list" where
  "runTransportCommand w args =
     (if args = [''plugin'', ''capabilities'']
      then (if cw_write w \<noteq> None then Some (ErrNew ''agent host capability output failed'') else None,
            [Printed (encoded (capabilities_json (SupportedCapabilities\<lparr>cap_browser := False\<rparr>)))])
      else if length args = 4 \<and> args ! 0 = ''plugin'' \<and> args ! 1 = ''delegation-proxy'' \<and> args ! 2 = ''--host''
        \<and> (args ! 3 = ''codex'' \<or> args ! 3 = ''claude'')
      then
        (let socket = cw_get w SocketEnvironment
         in case unset_all w provider_credentials of
              (Some er, acts) \<Rightarrow> (Some er, acts)
            | (None, acts) \<Rightarrow> (cw_proxy w socket, acts @ [ProxyRun socket]))
      else (Some (ErrNew (''usage: openlinker-agent-node [--version | --check-config | plugin capabilities | plugin delegation-proxy '' @
              ''--host codex|claude]; configure serving through environment variables'')), []))"

section \<open>The program\<close>

text \<open>\<open>logger.Fatal\<close>: a line in the log and status 1.\<close>

definition fatal :: "cli_action list \<Rightarrow> string \<Rightarrow> nat \<times> cli_action list" where
  "fatal acts msg = (1, acts @ [Logged msg])"

definition unexpected :: "go_error option \<Rightarrow> bool" where
  "unexpected r = (case r of None \<Rightarrow> False | Some er \<Rightarrow> \<not> errors_is er ErrCanceled)"

definition exitOnUnexpectedError :: "cli_action list \<Rightarrow> go_error option \<Rightarrow> nat \<times> cli_action list" where
  "exitOnUnexpectedError acts r =
     (case r of
        Some er \<Rightarrow> if \<not> errors_is er ErrCanceled then fatal acts (''openlinker agent node stopped: '' @ err_text er) else (0, acts)
      | None \<Rightarrow> (0, acts))"

definition waitForStop :: "program_world \<Rightarrow> cli_action list \<Rightarrow> nat \<times> cli_action list" where
  "waitForStop w acts =
     (case cw_last w of
        Some r \<Rightarrow> exitOnUnexpectedError acts r
      | None \<Rightarrow> fatal acts (''openlinker agent node shutdown timed out: '' @ err_text (cw_expired w)))"

definition NewFromEnv :: "program_world \<Rightarrow> node result" where
  "NewFromEnv w = NewFromLookup (cw_sdk w) (cw_os w) (cw_wd w) (cw_get w)"

definition serve_node :: "program_world \<Rightarrow> nat \<times> cli_action list" where
  "serve_node w =
     (case NewFromEnv w of
        Inl er \<Rightarrow> fatal [] (''openlinker agent node config: '' @ err_text er)
      | Inr node \<Rightarrow>
          (case cw_first w of
             Some r \<Rightarrow> exitOnUnexpectedError [NodeStarted node] r
           | None \<Rightarrow>
               (let logged = (case cw_stop w of
                                None \<Rightarrow> []
                              | Some er \<Rightarrow> if \<not> errors_is er ErrCanceled then [Logged (''openlinker agent node shutdown: '' @ err_text er)] else [])
                in waitForStop w ([NodeStarted node, NodeStopped] @ logged))))"

definition of_command :: "go_error option \<times> cli_action list \<Rightarrow> nat \<times> cli_action list" where
  "of_command r = (case fst r of Some er \<Rightarrow> fatal (snd r) (err_text er) | None \<Rightarrow> (0, snd r))"

text \<open>\<open>main\<close> with the arguments after the program's name.\<close>

definition main :: "program_world \<Rightarrow> string list \<Rightarrow> nat \<times> cli_action list" where
  "main w args =
     (if args = [] then serve_node w
      else if hd args = ''runtime-credential'' then of_command (prepareCredentialCommand w (tl args))
      else if args = [''--version'']
      then (if cw_write w \<noteq> None then fatal [Printed (cw_version w @ [CHR 0x0A])] ''openlinker agent node version output failed''
            else (0, [Printed (cw_version w @ [CHR 0x0A])]))
      else if args = [''--check-config'']
      then
        (case NewFromEnv w of
           Inl er \<Rightarrow> fatal [] (''openlinker agent node config: '' @ err_text er)
         | Inr node \<Rightarrow>
             (let shown = [Printed (encoded (report_json (ConfigurationReport (cw_version w) node)))]
              in if cw_write w \<noteq> None then fatal shown ''openlinker agent node configuration output failed'' else (0, shown)))
      else of_command (runTransportCommand w args))"

section \<open>Properties\<close>

text \<open>
  The documented command line gives the SDK exactly the values of its flags, whatever they look
  like, with the Node id and the token of the environment; a configured Agent must be the same.
\<close>

theorem credential_command_exact:
  "prepareCredentialCommand w [''prepare'', ''--data-dir'', d, ''--node-id'', n, ''--agent-id'', a, ''--worker-id'', k] =
     (let p = \<lparr>pr_data_dir = d, pr_node_id = n, pr_agent_id = a, pr_worker_id = k,
               pr_configured_node = trim_space (cw_get w ''OPENLINKER_NODE_ID''), pr_agent_token = trim_space (cw_get w ''OPENLINKER_AGENT_TOKEN'')\<rparr>
      in if trim_space (cw_get w ''OPENLINKER_AGENT_ID'') \<notin> {[], a}
         then (Some (ErrNew ''credential preparation Agent ID differs from installation configuration''), [])
         else (case cw_prepare w p of
                 Inl er \<Rightarrow> (Some er, [PrepareCredential p])
               | Inr v \<Rightarrow> (cw_write w, [PrepareCredential p, Printed (encoded v)])))"
  by (simp add: prepareCredentialCommand_def preparation_flags_def set_flag_def empty_preparation_def Let_def)

lemma set_flag_keeps [simp]:
  "pr_configured_node (set_flag n v p) = pr_configured_node p" "pr_agent_token (set_flag n v p) = pr_agent_token p"
  by (simp_all add: set_flag_def)

lemma unset_all_rule:
  "unset_all w ks = (er, acts) \<Longrightarrow>
     (er = None \<longrightarrow> acts = map Unset ks) \<and> (\<forall>s. ProxyRun s \<notin> set acts) \<and> (er = None \<longleftrightarrow> (\<forall>k \<in> set ks. cw_unset w k = None))"
  by (induction ks arbitrary: er acts) (auto split: option.splits prod.splits)

text \<open>
  The proxy is started for no argument but the one of the contract, and only after every credential
  of the providers and the platform was removed from the environment.
\<close>

theorem proxy_without_credentials:
  assumes "runTransportCommand w args = (er, acts)" "ProxyRun socket \<in> set acts"
  shows "args \<in> {DelegationProxyArguments ''codex'', DelegationProxyArguments ''claude''} \<and> socket = cw_get w SocketEnvironment
    \<and> acts = map Unset provider_credentials @ [ProxyRun socket] \<and> er = cw_proxy w socket"
proof -
  obtain er1 acts1 where unset: "unset_all w provider_credentials = (er1, acts1)" by (metis prod.collapse)
  note rule = unset_all_rule [OF unset]
  have shape: "args = [''plugin'', ''delegation-proxy'', ''--host'', args ! 3]"
    if "length args = 4" "args ! 0 = ''plugin''" "args ! 1 = ''delegation-proxy''" "args ! 2 = ''--host''"
    using that by (auto simp: length_Suc_conv numeral_eq_Suc)
  show ?thesis
    using assms unset rule shape
    by (auto simp: runTransportCommand_def DelegationProxyArguments_def Let_def split: if_splits option.splits)
qed

text \<open>
  The Node passes its own handshake: what it prints for \<open>plugin capabilities\<close> is accepted by \<open>Resolve\<close>
  for delegation, and refused for a browser, which it does not serve.
\<close>

lemma own_capabilities:
  "json_parse (encoded (capabilities_json (SupportedCapabilities\<lparr>cap_browser := False\<rparr>))) =
     Some (capabilities_json (SupportedCapabilities\<lparr>cap_browser := False\<rparr>))"
  "length (encoded (capabilities_json (SupportedCapabilities\<lparr>cap_browser := False\<rparr>))) \<le> probe_limit"
  "decode_struct False capability_fields zero_capabilities (capabilities_json (SupportedCapabilities\<lparr>cap_browser := False\<rparr>))
     = Some (SupportedCapabilities\<lparr>cap_browser := False\<rparr>)"
  by code_simp+

theorem own_handshake:
  assumes "hx_look x (if trim_space configured = [] then bin else trim_space configured) = Inr path" "hx_executable x = Inr bin"
    and "hx_probe x (host_command x path) = ([text_out], None)"
    and "runTransportCommand w [''plugin'', ''capabilities''] = (None, [Printed text_out])"
  shows "Resolve x configured ''delegation_proxy'' = Inr path \<and> (\<exists>er. Resolve x configured ''browser_proxy'' = Inl er)"
proof -
  have out: "text_out = encoded (capabilities_json (SupportedCapabilities\<lparr>cap_browser := False\<rparr>))"
    using assms(4) by (simp add: runTransportCommand_def)
  have "probe_writes [] [text_out] = Some text_out" using own_capabilities(2) out by simp
  then show ?thesis using assms(1-3) own_capabilities(1,3) out
    by (auto simp: Resolve_def Let_def supports_def SupportedCapabilities_def)
qed

lemma fatal_simps [simp]: "fst (fatal acts msg) = 1" "set (snd (fatal acts msg)) = insert (Logged msg) (set acts)"
  by (auto simp: fatal_def)

lemma exit_code: "fst (exitOnUnexpectedError acts r) = (if unexpected r then 1 else 0)"
  "NodeStarted node \<in> set (snd (exitOnUnexpectedError acts r)) \<longleftrightarrow> NodeStarted node \<in> set acts"
  by (auto simp: exitOnUnexpectedError_def unexpected_def split: option.split)

lemma wait_code: "fst (waitForStop w acts) = (case cw_last w of Some r \<Rightarrow> if unexpected r then 1 else 0 | None \<Rightarrow> 1)"
  "NodeStarted node \<in> set (snd (waitForStop w acts)) \<longleftrightarrow> NodeStarted node \<in> set acts"
  by (auto simp: waitForStop_def exit_code split: option.split)

lemma serve_node_code:
  "fst (serve_node w) = (if (\<exists>node. NewFromEnv w = Inr node)
     \<and> (case cw_first w of Some r \<Rightarrow> \<not> unexpected r | None \<Rightarrow> (case cw_last w of Some r \<Rightarrow> \<not> unexpected r | None \<Rightarrow> False)) then 0 else 1)"
  "NodeStarted node \<in> set (snd (serve_node w)) \<longleftrightarrow> NewFromEnv w = Inr node"
  by (auto simp: serve_node_def Let_def exit_code wait_code split: sum.split option.split)

lemma command_code: "fst (of_command r) \<in> {0, 1}"
  "NodeStarted node \<in> set (snd (of_command r)) \<longleftrightarrow> NodeStarted node \<in> set (snd r)"
  by (auto simp: of_command_def split: option.split)

lemma unset_starts_nothing: "NodeStarted node \<notin> set (snd (unset_all w ks))"
  by (induction ks) (auto split: option.splits prod.splits)

lemma transport_starts_nothing: "NodeStarted node \<notin> set (snd (runTransportCommand w args))"
  using unset_starts_nothing [of node w provider_credentials]
  by (auto simp: runTransportCommand_def Let_def split: prod.splits option.splits)

lemma preparation_starts_nothing: "NodeStarted node \<notin> set (snd (prepareCredentialCommand w args))"
  by (simp add: prepareCredentialCommand_def Let_def split: sum.split prod.split)

lemma main_code: "args \<noteq> [] \<Longrightarrow> fst (main w args) \<in> {0, 1}"
  "args \<noteq> [] \<Longrightarrow> NodeStarted node \<notin> set (snd (main w args))"
  using command_code(1)
  by (simp_all add: main_def command_code(2) transport_starts_nothing preparation_starts_nothing Let_def split: sum.split)

text \<open>
  A Node is started only without arguments and with a configuration that was accepted. The status is 0
  exactly when its Start ended without an error, or with the cancellation the signal caused, in time.
\<close>

theorem main_serves:
  "(NodeStarted node \<in> set (snd (main w args)) \<longrightarrow> args = [] \<and> NewFromEnv w = Inr node)
   \<and> (fst (main w []) = 0 \<longleftrightarrow>
        (\<exists>node. NewFromEnv w = Inr node)
        \<and> (case cw_first w of Some r \<Rightarrow> \<not> unexpected r | None \<Rightarrow> (case cw_last w of Some r \<Rightarrow> \<not> unexpected r | None \<Rightarrow> False)))
   \<and> fst (main w args) \<in> {0, 1}"
proof (cases "args = []")
  case True
  then show ?thesis by (simp add: main_def serve_node_code)
next
  case False
  then show ?thesis using main_code [OF False] serve_node_code(1) [of w] by (simp add: main_def)
qed

end
