(* ===== verification/Spec2Isabelle.thy ===== *)
theory Spec2Isabelle
  imports Provider_Output Delegation_Safety Session_Store Session_Lock Codex_Turn Skill_Load Public_A2A Node_Config
    Sandbox_Safety Sandbox_Command Provider_Stream Node_Lifecycle Codex_Adapter Process_Descendants Delegation_Proxy Command_Line
begin

text \<open>
  The OpenLinker Agent Node (Go, module \<open>openlinker-agent-node\<close>) runs an Agent for the OpenLinker
  platform. The SDK's Runtime worker hands it assigned Runs; an adapter turns a Run into a result. The
  native adapters drive an installed Codex or Claude client, isolate its tools, reuse its private
  sessions, give it skill packages and let it delegate to other Agents; the other adapters start a
  command, post to a URL or call an A2A server. Beside that the Node serves a local helper for adapters
  and, optionally, a public A2A endpoint in front of Core. This development models the Node's own logic
  and proves what its components promise. Everything is a definition that evaluates; every claim is a
  theorem with the claim's number in the text before it.

  \<^bold>\<open>Conventions.\<close> A Go string or byte slice is a \<open>string\<close>, an \<open>error\<close> a \<open>go_error\<close> (\<open>Prelude\<close>), a call
  that may fail a value of \<open>go_error + 'a\<close>, a map an association list (ordered as the code ranges over
  it; when Go's order is arbitrary, facts hold for every order), an unsigned counter a \<open>64 word\<close>.
  Stateful code passes its state; concurrent code is a step relation in which a critical section or an
  outside call is one step, and its invariants are proved by rule induction over all interleavings.
  What lies outside the repository (the SDK, the operating system, child processes, HTTP clients, the
  generated protocol schema, how \<open>fmt\<close> prints a float) is an argument, often a record of answers.

  \<^bold>\<open>Shared theories.\<close> \<open>Prelude\<close>: errors, association lists, suffixes. \<open>Go_Strings\<close>, \<open>Go_Json\<close>,
  \<open>Go_Path\<close>, \<open>Go_Url\<close>, \<open>Go_Http\<close>, \<open>Go_Crypto\<close>: the parts of the standard library the code uses
  (UTF-8, \<open>strconv\<close>, \<open>encoding/json\<close> with its decoder rules, \<open>path/filepath\<close>, \<open>net/url\<close>, headers and IP
  addresses, SHA-256 and hex). \<open>Json_Roundtrip\<close>: parsing what was encoded gives the value back.
  \<open>Path_Walk\<close>: walks to the root of a path end. \<open>Root_Fs\<close>: the \<open>os.Root\<close> file operations.
  The JSON parser takes a bound on its nested calls, twice the length of the text plus two, which
  \<open>Json_Roundtrip\<close> shows is enough for every encoded value; the IPv6 parser reads at most eight groups.

  \<^bold>\<open>Delegation\<close> (\<open>pkg/adapters/agentdelegation\<close>): \<open>Delegation_Broker\<close> models the broker's
  operations under its mutex, the MCP methods, the line protocol, start, accept and close;
  \<open>Delegation_Safety\<close> shows in every interleaving that the request table is sound with at most one
  unfinished child, that only allowed Agents are called, that replays are idempotent, that unresolved
  creations block, that a Run ends only with finished children, that waits are bounded, that no text of
  a callback leaks, that failed starts release everything, and what bound tools are accepted.

  \<^bold>\<open>Sessions\<close>: \<open>Session_Store\<close> (\<open>providersession\<close>, \<open>session.go\<close>): the private session map, its atomic
  replacement, history cursors and scopes; \<open>Session_Lock\<close>: the keyed in-process lock.
  \<open>Sandbox_Config\<close>, \<open>Sandbox_Session\<close>, \<open>Sandbox_Safety\<close>, \<open>Sandbox_Command\<close> (\<open>sessionsandbox\<close>): validation,
  private storage with its lock file, where a session may lie, that two open sessions never share
  storage, the git worktree check against its specification, and the policy of sandboxed commands.

  \<^bold>\<open>Providers\<close>: \<open>Codex_Rpc\<close> and \<open>Codex_Turn\<close> (\<open>codexrpc\<close>, \<open>codexturn\<close>): the transport and one turn,
  with foreign events ignored and all resources released. \<open>Provider_Output\<close> (\<open>provideroutput\<close>,
  \<open>adapter_output.go\<close>): bounded output, as interpretations of one byte-sink locale. \<open>Provider_Stream\<close>
  (\<open>providerstream\<close>, \<open>claude_output.go\<close>): readers of event streams, which refine a line-by-line reading
  whatever the chunking (one locale, two interpretations), and a closed vocabulary of progress reports.
  \<open>Skill_Packages\<close>, \<open>Skill_Load\<close> (\<open>skillpackages\<close>): decoding, verified loading, git protection, recovery.
  \<open>Provider_Config\<close>, \<open>Model_Endpoint\<close> (\<open>types.go\<close>, \<open>isolation.go\<close>, \<open>model_endpoint.go\<close>): validation of a
  configuration. \<open>Native_Policy\<close> (\<open>native_tool_policy.go\<close>): what the tools of an isolated client may
  read, write and reach. \<open>Host_Auth\<close> (\<open>host_auth_gate.go\<close>, \<open>host_auth_directory_unix.go\<close>): the serial
  admission, whose wait is a partial function that is shown to end with its context.

  \<^bold>\<open>Runs of a provider\<close>: \<open>Provider_Setup\<close> is the frame both clients share (\<open>isolation.go\<close>,
  \<open>skill_packages.go\<close>, \<open>prompt.go\<close>, \<open>providerprocess/env.go\<close>): it opens the isolated session, loads the
  packages, waits for the permit, runs a client and gives everything up in the order of the deferred
  calls; the locale \<open>native_body\<close> has what it leaves behind for every client that keeps the locks, and
  both clients interpret it. \<open>Session_Use\<close>: the stored session of a run. \<open>Claude_Run\<close> (\<open>claude.go\<close>) and
  \<open>Codex_Run\<close> (\<open>codex.go\<close>, \<open>codex_rpc.go\<close>): the two clients, with at most one retry without a lost
  session. \<open>Codex_Home\<close> (\<open>codexhome\<close>): the private home of a turn. \<open>Codex_Launch\<close> (\<open>codexturn/native.go\<close>,
  \<open>codex_runtime_files.go\<close>): the arguments, and which helper programs the Linux sandbox may read.
  \<open>Provider_Runs\<close>: both runs give up what they took. \<open>Agent_Host\<close> (\<open>agenthost\<close>): the handshake with a proxy
  program. \<open>Delegation_Run\<close> (\<open>delegation.go\<close>, \<open>types.go\<close>): the broker around a run, and that a Run succeeds
  only when the broker agrees. \<open>Provider_Preflight\<close> (\<open>preflight.go\<close>, \<open>providerpreflight\<close>): which installed
  clients are accepted. \<open>Private_Files\<close> (\<open>appfiles\<close>): secrets and private files. \<open>Native_Adapter\<close>
  (\<open>adapter_native.go\<close>, \<open>native_credentials.go\<close>, \<open>handler_compat.go\<close>): the composition of all of these from
  the Node's Run down to the client; \<open>Codex_Adapter\<close> (\<open>adapter_codex.go\<close>) the Codex settings in front of it. A result of \<open>None\<close> is a run that never returns; \<open>native_body\<close> shows
  that the frame returns when the client does and its context ends.

  \<^bold>\<open>The Node\<close> (\<open>internal/agentnode\<close>): \<open>Node_Config\<close> reads the environment; \<open>Node_Adapters\<close> has the
  command, HTTP and A2A adapters and the normalisation of their results; \<open>Node_Handler\<close> the handler
  that contains an adapter's panics and errors and withdraws the helper token; \<open>Node_Lifecycle\<close> the
  interleaving of Start, Stop and the helper's goroutine with a ranking argument that stopping
  completes; \<open>Helper_Server\<close> and \<open>Public_A2A\<close> the two servers, both guarded servers in the sense of a
  locale of \<open>Go_Http\<close>.

  \<^bold>\<open>Processes and the program.\<close> \<open>Process_Descendants\<close> (\<open>providerprocess\<close>) follows the processes a provider
  starts on macOS: the loop over a snapshot is a partial function, shown to end and to compute an
  inductive definition of ownership; the clean-up signals confirmed descendants only and ends at its
  deadline; process groups are there too. \<open>Delegation_Proxy\<close> (\<open>agentdelegation/proxy.go\<close>) is a step relation
  of two copying goroutines with a transparency invariant. \<open>Command_Line\<close> (\<open>cmd\<close>) has the commands with
  Go's flag parser, shows that the Node passes its own handshake of \<open>Agent_Host\<close>, that the proxy runs only
  without credentials, and when the exit status is 0.

  \<^bold>\<open>How the parts interact.\<close> \<open>Node_Config\<close> builds the adapter values \<open>Node_Adapters\<close> and \<open>Native_Adapter\<close>
  run; \<open>Node_Handler\<close> uses the helper's session table; \<open>Host_Auth\<close> and \<open>Native_Policy\<close> use the sessions and
  the lock of \<open>Sandbox_Session\<close> and the client environment of \<open>Provider_Config\<close>; scopes of \<open>Session_Store\<close>
  name the directories of \<open>Sandbox_Session\<close>; \<open>Delegation_Run\<close> puts a broker of \<open>Delegation_Broker\<close> around the
  frame of \<open>Provider_Setup\<close>, which runs the turn of \<open>Codex_Turn\<close> or the stream of \<open>Provider_Stream\<close> with the
  packages of \<open>Skill_Load\<close>, the permit of \<open>Host_Auth\<close> and the session of \<open>Session_Store\<close>.

  \<^bold>\<open>Simplifications.\<close> A JSON number keeps its literal, where Go goes through \<open>float64\<close>. The file system
  answers of one operation are fixed during it. Timeouts and timers appear as nondeterministic or
  indexed answers. Texts of errors of the standard library are not modelled. In a struct whose JSON
  names a field twice in different case the later value replaces the earlier. The events of a client are
  listed before those its turn or its broker emits; their interleaving is not represented. The keyed
  lock of \<open>Session_Lock\<close> is proved on its own and not part of the state of a run.

  \<^bold>\<open>Not modelled.\<close> Generated protocol types (\<open>codexrpc/protocol.gen.go\<close>, whose schema check is a
  parameter of the turn), the Windows variants and the test doubles of \<open>providertest\<close> and \<open>testdata\<close> are
  left out for good. Of the servers, accepting connections and the timeouts of \<open>net/http\<close> are not represented.
\<close>

end
